(* ===== verification/Prelude.thy ===== *)
theory Prelude
  imports Complex_Main "HOL-Library.State_Monad"
begin

text \<open>
  Shared vocabulary of the development: the theorem collections the component proofs draw on,
  the Go string functions the handlers call, and generic facts about lists and options.

  Strings are byte strings (\<open>string\<close>), as Go's are. The upper and lower case functions act on
  ASCII letters, which is what every compared constant of the program consists of.
\<close>

named_theorems handler_defs \<open>definitions of handlers, unfolded to read one branch\<close>
named_theorems stmt_defs \<open>definitions of single SQL statements\<close>
named_theorems keeps_intros \<open>rules that push an invariant through a handler\<close>

subsection \<open>Go strings\<close>

definition is_space :: "char \<Rightarrow> bool" where
  "is_space c \<longleftrightarrow> c \<in> {CHR '' '', CHR 0x09, CHR 0x0A, CHR 0x0B, CHR 0x0C, CHR 0x0D}"

text \<open>\<^verbatim>\<open>strings.TrimSpace\<close>.\<close>

definition TrimSpace :: "string \<Rightarrow> string" where
  "TrimSpace s = rev (dropWhile is_space (rev (dropWhile is_space s)))"

definition ascii_lower :: "char \<Rightarrow> char" where
  "ascii_lower c = (let n = of_char c :: nat in if 65 \<le> n \<and> n \<le> 90 then char_of (n + 32) else c)"

definition ascii_upper :: "char \<Rightarrow> char" where
  "ascii_upper c = (let n = of_char c :: nat in if 97 \<le> n \<and> n \<le> 122 then char_of (n - 32) else c)"

definition ToLower :: "string \<Rightarrow> string" where
  "ToLower s = map ascii_lower s"

definition ToUpper :: "string \<Rightarrow> string" where
  "ToUpper s = map ascii_upper s"

definition EqualFold :: "string \<Rightarrow> string \<Rightarrow> bool" where
  "EqualFold s t \<longleftrightarrow> ToLower s = ToLower t"

fun HasPrefix :: "string \<Rightarrow> string \<Rightarrow> bool" where
  "HasPrefix s [] = True"
| "HasPrefix [] (p # ps) = False"
| "HasPrefix (c # s) (p # ps) = (c = p \<and> HasPrefix s ps)"

definition TrimPrefix :: "string \<Rightarrow> string \<Rightarrow> string" where
  "TrimPrefix s p = (if HasPrefix s p then drop (length p) s else s)"

fun Contains :: "string \<Rightarrow> string \<Rightarrow> bool" where
  "Contains [] p = (p = [])"
| "Contains (c # s) p = (HasPrefix (c # s) p \<or> Contains s p)"

definition is_digit :: "char \<Rightarrow> bool" where
  "is_digit c \<longleftrightarrow> (48::nat) \<le> of_char c \<and> of_char c \<le> (57::nat)"

definition digit_val :: "char \<Rightarrow> nat" where
  "digit_val c = of_char c - 48"

definition digits_val :: "string \<Rightarrow> nat" where
  "digits_val s = foldl (\<lambda>n c. 10 * n + digit_val c) 0 s"

text \<open>\<^verbatim>\<open>%d\<close> and \<^verbatim>\<open>%06d\<close> of a natural number.\<close>

fun show_nat :: "nat \<Rightarrow> string" where
  "show_nat n = (if n < 10 then [char_of (48 + n)] else show_nat (n div 10) @ [char_of (48 + n mod 10)])"

declare show_nat.simps [simp del]

definition show_padded :: "nat \<Rightarrow> nat \<Rightarrow> string" where
  "show_padded k n = (let s = show_nat n in replicate (k - length s) (CHR ''0'') @ s)"

text \<open>\<^verbatim>\<open>%d\<close> of an \<^verbatim>\<open>int64\<close>.\<close>

definition show_int :: "int \<Rightarrow> string" where
  "show_int n = (if n < 0 then CHR ''-'' # show_nat (nat (- n)) else show_nat (nat n))"

lemma digits_val_snoc: "digits_val (s @ [c]) = 10 * digits_val s + digit_val c"
  by (simp add: digits_val_def)

lemma digit_val_char: "d < 10 \<Longrightarrow> digit_val (char_of (48 + d)) = d"
  by (simp add: digit_val_def take_bit_nat_def)

lemma digits_val_show_nat: "digits_val (show_nat n) = n"
proof (induction n rule: show_nat.induct)
  case (1 n)
  show ?case
  proof (cases "n < 10")
    case True
    then show ?thesis
      by (simp add: show_nat.simps [of n] digits_val_def digit_val_char)
  next
    case False
    have "digits_val (show_nat n) = 10 * digits_val (show_nat (n div 10)) + digit_val (char_of (48 + n mod 10))"
      using False by (simp add: show_nat.simps [of n] digits_val_snoc)
    also have "\<dots> = 10 * (n div 10) + n mod 10" using 1 [OF False] by (simp add: digit_val_char)
    finally show ?thesis by simp
  qed
qed

lemma digits_val_zeros: "digits_val (replicate k (CHR ''0'') @ s) = digits_val s"
proof -
  have "foldl (\<lambda>n c. 10 * n + digit_val c) 0 (replicate k (CHR ''0'')) = 0"
    by (induction k) (simp_all add: digit_val_def)
  then show ?thesis by (simp add: digits_val_def)
qed

lemma show_padded_inj: "show_padded k m = show_padded k n \<longleftrightarrow> m = n"
proof
  assume "show_padded k m = show_padded k n"
  then have "digits_val (show_padded k m) = digits_val (show_padded k n)" by simp
  then show "m = n" by (simp add: show_padded_def Let_def digits_val_zeros digits_val_show_nat)
qed simp

lemma HasPrefix_iff: "HasPrefix s p \<longleftrightarrow> (\<exists>t. s = p @ t)"
  by (induction s p rule: HasPrefix.induct) auto

lemma HasPrefix_append [simp]: "HasPrefix (p @ t) p"
  by (auto simp: HasPrefix_iff)

lemma TrimPrefix_append [simp]: "TrimPrefix (p @ t) p = t"
  by (simp add: TrimPrefix_def)

lemma TrimSpace_Nil [simp]: "TrimSpace [] = []"
  by (simp add: TrimSpace_def)

lemma dropWhile_hd: "dropWhile P xs = [] \<or> \<not> P (hd (dropWhile P xs))"
  by (induction xs) auto

lemma TrimSpace_last: "TrimSpace s = [] \<or> \<not> is_space (last (TrimSpace s))"
  using dropWhile_hd [of is_space "rev (dropWhile is_space s)"]
  by (auto simp: TrimSpace_def last_rev)

subsection \<open>Optional values\<close>

text \<open>\<open>derefStr\<close> and \<open>coalesceStr\<close> flatten a nil pointer to the empty string;
  \<open>strPtr\<close> goes back and \<open>NULLIF(s,'')\<close> is the same function in SQL.\<close>

definition derefStr :: "string option \<Rightarrow> string" where
  "derefStr s = (case s of None \<Rightarrow> [] | Some t \<Rightarrow> t)"

definition strPtr :: "string \<Rightarrow> string option" where
  "strPtr s = (if s = [] then None else Some s)"

lemma derefStr_simps [simp]: "derefStr None = []" "derefStr (Some t) = t"
  by (simp_all add: derefStr_def)

lemma derefStr_strPtr [simp]: "derefStr (strPtr s) = s"
  by (simp add: strPtr_def)

subsection \<open>Lists\<close>

lemma filter_map_if:
  "(\<And>x. p (f x) = p x) \<Longrightarrow> filter p (map f xs) = map f (filter p xs)"
  by (induction xs) auto

lemma distinct_map_upd:
  "(\<And>x. key (f x) = key x) \<Longrightarrow> map key (map f xs) = map key xs"
  by simp

lemma find_map_upd:
  assumes "\<And>x. p (f x) = p x"
  shows "find p (map f xs) = map_option f (find p xs)"
  using assms by (induction xs) auto

lemma find_None_conv: "find p xs = None \<longleftrightarrow> (\<forall>x \<in> set xs. \<not> p x)"
  by (induction xs) auto

lemma find_SomeD: "find p xs = Some x \<Longrightarrow> x \<in> set xs \<and> p x"
  by (induction xs) (auto split: if_splits)

end
