(* ===== verification/Float64.thy ===== *)
theory Float64
  imports Prelude "HOL-Library.Log_Nat"
begin

text \<open>
  Money in this program is \<^verbatim>\<open>float64\<close>. A finite binary64 value is the rational number it
  denotes, and every arithmetic operation is the exact operation followed by \<open>fl64\<close>, the
  IEEE~754 rounding to 53 significant bits (ties to even, with the subnormal range). Infinities
  and NaN do not arise: amounts come from JSON numbers and \<^verbatim>\<open>NUMERIC(12,2)\<close> columns, far
  below \<open>2^1024\<close>, and every division of the modelled code has a divisor that is a positive
  constant or guarded by a test.

  The interface \<open>binary64_rounding\<close> lists the only facts about rounding the rest of the
  development uses, and derives from them that \<open>round2\<close> (\<^verbatim>\<open>internal/handler/
  pos_dinein_handler.go\<close>) makes arithmetic exact at the cent: a sum or a difference of amounts
  of whole cents, rounded with \<open>round2\<close>, is the double nearest to the exact amount of cents,
  for amounts up to \<open>10^12\<close> currency units.
\<close>

subsection \<open>Rounding to binary64\<close>

definition ilog2 :: "rat \<Rightarrow> int" where
  "ilog2 x = (case quotient_of x of (n, d) \<Rightarrow>
     let e = bitlen n - bitlen d in if 2 powi e \<le> x then e else e - 1)"

definition round_half_even :: "rat \<Rightarrow> int" where
  "round_half_even x = (let f = \<lfloor>x\<rfloor>; r = x - of_int f in
     if r < 1/2 then f else if 1/2 < r then f + 1 else if even f then f else f + 1)"

definition fl64 :: "rat \<Rightarrow> rat" where
  "fl64 x = (if x = 0 then 0 else
     let u = 2 powi (max (ilog2 \<bar>x\<bar> - 52) (- 1074)) in of_int (round_half_even (x / u)) * u)"

definition fadd :: "rat \<Rightarrow> rat \<Rightarrow> rat" where "fadd a b = fl64 (a + b)"
definition fsub :: "rat \<Rightarrow> rat \<Rightarrow> rat" where "fsub a b = fl64 (a - b)"
definition fmul :: "rat \<Rightarrow> rat \<Rightarrow> rat" where "fmul a b = fl64 (a * b)"
definition fdiv :: "rat \<Rightarrow> rat \<Rightarrow> rat" where "fdiv a b = fl64 (a / b)"

text \<open>\<^verbatim>\<open>math.Round\<close>: to the nearest integer, halves away from zero.\<close>

definition go_round :: "rat \<Rightarrow> int" where
  "go_round x = (if x < 0 then - \<lfloor>- x + 1/2\<rfloor> else \<lfloor>x + 1/2\<rfloor>)"

text \<open>\<^verbatim>\<open>func round2(v float64) float64 { return math.Round(v*100) / 100 }\<close>\<close>

definition round2 :: "rat \<Rightarrow> rat" where
  "round2 v = fdiv (of_int (go_round (fmul v 100))) 100"

text \<open>The double nearest to \<open>k\<close> cents: what a \<^verbatim>\<open>NUMERIC(12,2)\<close> value becomes when
  it is scanned into a \<^verbatim>\<open>float64\<close>.\<close>

definition cents :: "int \<Rightarrow> rat" where
  "cents k = fl64 (of_int k / 100)"

subsection \<open>The exponent\<close>

lemma bitlen_bounds_rat:
  assumes "0 < n"
  shows "2 powi (bitlen n - 1) \<le> (of_int n :: rat)" "(of_int n :: rat) < 2 powi (bitlen n)"
proof -
  have pos: "0 < bitlen n"
    using assms bitlen_nonneg [of n] bitlen_eq_zero_iff [of n] by simp
  have b: "2 ^ nat (bitlen n - 1) \<le> n" "n < 2 ^ nat (bitlen n)"
    using bitlen_bounds [OF assms] by auto
  have "(of_int (2 ^ nat (bitlen n - 1)) :: rat) \<le> of_int n"
    using b(1) by (simp only: of_int_le_iff)
  then show "2 powi (bitlen n - 1) \<le> (of_int n :: rat)"
    using pos by (simp add: power_int_def)
  have "(of_int n :: rat) < of_int (2 ^ nat (bitlen n))"
    using b(2) by (simp only: of_int_less_iff)
  then show "(of_int n :: rat) < 2 powi (bitlen n)"
    using pos by (simp add: power_int_def)
qed

lemma ilog2_bounds:
  assumes "0 < x"
  shows "2 powi (ilog2 x) \<le> x" "x < 2 powi (ilog2 x + 1)"
proof -
  obtain n d where q: "quotient_of x = (n, d)" by (cases "quotient_of x")
  have d: "0 < d" using quotient_of_denom_pos [OF q] .
  have x: "x = of_int n / of_int d" using quotient_of_div [OF q] .
  have n: "0 < n" using assms d x by (simp add: zero_less_divide_iff)
  let ?e = "bitlen n - bitlen d"
  have "x < 2 powi (bitlen n) / 2 powi (bitlen d - 1)"
    unfolding x using bitlen_bounds_rat [OF n] bitlen_bounds_rat [OF d] d n
    by (intro frac_less) auto
  then have up: "x < 2 powi (?e + 1)"
    by (simp add: power_int_diff power_int_add field_simps)
  have "2 powi (bitlen n - 1) / 2 powi (bitlen d) \<le> x"
    unfolding x using bitlen_bounds_rat [OF n] bitlen_bounds_rat [OF d] d n
    by (intro frac_le) auto
  then have low: "2 powi (?e - 1) \<le> x"
    by (simp add: power_int_diff power_int_add field_simps)
  show "2 powi (ilog2 x) \<le> x" "x < 2 powi (ilog2 x + 1)"
    using up low by (auto simp: ilog2_def q Let_def)
qed

lemma powi2_less_iff [simp]: "(2::rat) powi a < 2 powi b \<longleftrightarrow> a < b"
proof
  assume "(2::rat) powi a < 2 powi b"
  then show "a < b"
    using power_int_increasing [of b a "2::rat"] by (simp add: not_le [symmetric]) (meson leD not_le)
next
  assume "a < b"
  then show "(2::rat) powi a < 2 powi b"
    by (rule power_int_strict_increasing) simp
qed

lemma ilog2_mono:
  assumes "0 < x" "x \<le> y"
  shows "ilog2 x \<le> ilog2 y"
proof -
  have "(2::rat) powi (ilog2 x) < 2 powi (ilog2 y + 1)"
    using ilog2_bounds [of x] ilog2_bounds [of y] assms by linarith
  then show ?thesis by simp
qed

subsection \<open>Rounding to an integer\<close>

lemma round_half_even_err: "\<bar>of_int (round_half_even x) - x\<bar> \<le> 1/2"
proof -
  define f where "f = \<lfloor>x\<rfloor>"
  have "of_int f \<le> x" "x < of_int f + 1" unfolding f_def by linarith+
  then show ?thesis by (auto simp: round_half_even_def Let_def abs_if simp flip: f_def)
qed

lemma round_half_even_int [simp]: "round_half_even (of_int n) = n"
  by (simp add: round_half_even_def)

lemma round_half_even_mono:
  assumes "x \<le> y"
  shows "round_half_even x \<le> round_half_even y"
proof (cases "\<lfloor>x\<rfloor> = \<lfloor>y\<rfloor>")
  case True
  with assms show ?thesis by (auto simp: round_half_even_def Let_def)
next
  case False
  then have "\<lfloor>x\<rfloor> + 1 \<le> \<lfloor>y\<rfloor>" using floor_mono [OF assms] by linarith
  moreover have "round_half_even x \<le> \<lfloor>x\<rfloor> + 1" "\<lfloor>y\<rfloor> \<le> round_half_even y"
    by (auto simp: round_half_even_def Let_def)
  ultimately show ?thesis by linarith
qed

lemma round_half_even_neg: "round_half_even (- x) = - round_half_even x"
proof (cases "x = of_int \<lfloor>x\<rfloor>")
  case True
  then have "x \<in> \<int>" by (metis Ints_of_int)
  then obtain n where "x = of_int n" by (auto elim: Ints_cases)
  then show ?thesis by (metis of_int_minus round_half_even_int)
next
  case False
  have "\<lfloor>- x\<rfloor> = - \<lfloor>x\<rfloor> - 1"
  proof -
    define f where "f = \<lfloor>x\<rfloor>"
    have "of_int f \<le> x" "x < of_int f + 1" "x \<noteq> of_int f"
      using False unfolding f_def by linarith+
    then show ?thesis unfolding f_def [symmetric] by (intro floor_unique) auto
  qed
  then show ?thesis by (auto simp: round_half_even_def Let_def)
qed

subsection \<open>Laws of the rounding\<close>

abbreviation ulp_exp :: "rat \<Rightarrow> int" where
  "ulp_exp x \<equiv> max (ilog2 \<bar>x\<bar> - 52) (- 1074)"

lemma fl64_zero [simp]: "fl64 0 = 0"
  by (simp add: fl64_def)

lemma fl64_neg: "fl64 (- x) = - fl64 x"
  by (simp add: fl64_def Let_def round_half_even_neg flip: minus_divide_left)

lemma fl64_exact:
  assumes "x / 2 powi (ulp_exp x) = of_int m"
  shows "fl64 x = x"
proof -
  have "of_int m * 2 powi (ulp_exp x) = x"
    using assms by (simp add: nonzero_divide_eq_eq)
  then show ?thesis unfolding fl64_def Let_def assms by simp
qed

lemma powi2_int: "0 \<le> e \<Longrightarrow> (2::rat) powi e = of_int (2 ^ nat e)"
  by (simp add: power_int_def)

lemma fl64_mono_pos:
  assumes "0 < x" "x \<le> y"
  shows "fl64 x \<le> fl64 y"
proof -
  have lg: "ilog2 x \<le> ilog2 y" using ilog2_mono assms by blast
  let ?ux = "(2::rat) powi (ulp_exp x)" and ?uy = "(2::rat) powi (ulp_exp y)"
  have flx: "fl64 x = of_int (round_half_even (x / ?ux)) * ?ux"
    and fly: "fl64 y = of_int (round_half_even (y / ?uy)) * ?uy"
    using assms by (simp_all add: fl64_def Let_def)
  show ?thesis
  proof (cases "ulp_exp x = ulp_exp y")
    case True
    have "x / ?ux \<le> y / ?ux" using assms by (simp add: divide_right_mono)
    then have "round_half_even (x / ?ux) \<le> round_half_even (y / ?ux)"
      by (rule round_half_even_mono)
    then show ?thesis unfolding flx fly True by (simp add: mult_right_mono)
  next
    case False
    let ?b = "(2::rat) powi (ilog2 y)"
    have e: "ilog2 x < ilog2 y" "ulp_exp y = ilog2 y - 52" "ulp_exp x \<le> ilog2 y"
      using False lg assms by auto
    have "x < 2 powi (ilog2 x + 1)" using ilog2_bounds assms by blast
    also have "\<dots> \<le> ?b" using e by (intro power_int_increasing) auto
    finally have xb: "x \<le> ?b" by simp
    have yb: "?b \<le> y" using ilog2_bounds [of y] assms by simp
    have bx: "?b / ?ux = of_int (2 ^ nat (ilog2 y - ulp_exp x))"
      using e(3) by (simp add: power_int_diff [symmetric] powi2_int)
    have "round_half_even (x / ?ux) \<le> round_half_even (?b / ?ux)"
      using xb by (intro round_half_even_mono divide_right_mono) auto
    then have "of_int (round_half_even (x / ?ux)) \<le> ?b / ?ux"
      unfolding bx round_half_even_int by (simp only: of_int_le_iff)
    then have 1: "fl64 x \<le> ?b" unfolding flx by (simp add: pos_le_divide_eq)
    have byy: "?b / ?uy = of_int (2 ^ 52)"
      unfolding e(2) by (simp add: power_int_diff)
    have "round_half_even (?b / ?uy) \<le> round_half_even (y / ?uy)"
      using yb by (intro round_half_even_mono divide_right_mono) auto
    then have "?b / ?uy \<le> of_int (round_half_even (y / ?uy))"
      unfolding byy round_half_even_int by (simp only: of_int_le_iff)
    then have 2: "?b \<le> fl64 y" unfolding fly by (simp add: pos_divide_le_eq)
    from 1 2 show ?thesis by simp
  qed
qed

lemma fl64_nonneg: "0 \<le> x \<Longrightarrow> 0 \<le> fl64 x"
  using round_half_even_mono [of 0 "x / 2 powi (ulp_exp x)"] round_half_even_int [of 0]
  by (auto simp: fl64_def Let_def)

lemma fl64_mono:
  assumes "x \<le> y"
  shows "fl64 x \<le> fl64 y"
proof (cases "0 < x")
  case True
  with assms show ?thesis by (simp add: fl64_mono_pos)
next
  case x: False
  show ?thesis
  proof (cases "0 \<le> y")
    case True
    have "fl64 x \<le> 0" using fl64_nonneg [of "- x"] x by (simp add: fl64_neg)
    then show ?thesis using fl64_nonneg [OF True] by simp
  next
    case False
    then have "fl64 (- y) \<le> fl64 (- x)" using assms by (intro fl64_mono_pos) auto
    then show ?thesis by (simp add: fl64_neg)
  qed
qed

lemma fl64_err: "\<bar>fl64 x - x\<bar> \<le> \<bar>x\<bar> / 2 ^ 53 + 1 / 2 ^ 100"
proof (cases "x = 0")
  case False
  define P where "P = (2::rat) powi (ilog2 \<bar>x\<bar>)"
  define L where "L = (2::rat) powi (ilog2 \<bar>x\<bar> - 52)"
  define t where "t = (2::rat) powi (- 1074)"
  define U where "U = (2::rat) powi (ulp_exp x)"
  have "t \<le> 2 powi (- 100)" unfolding t_def by (rule power_int_increasing) simp_all
  then have t: "t \<le> 1 / 2 ^ 100" by (simp add: power_int_minus)
  have t0: "0 \<le> t" unfolding t_def by (rule zero_le_power_int) simp
  have L: "L = P / 2 ^ 52" "0 \<le> L" unfolding L_def P_def by (simp_all add: power_int_diff)
  have P: "P \<le> \<bar>x\<bar>" unfolding P_def using ilog2_bounds [of "\<bar>x\<bar>"] False by simp
  have "U = L \<or> U = t" unfolding U_def L_def t_def by (metis max_def)
  then have U: "U \<le> L + t" using t0 L by auto
  have U0: "0 < U" unfolding U_def by (rule zero_less_power_int) simp
  have "fl64 x - x = (of_int (round_half_even (x / U)) - x / U) * U"
  proof -
    have "fl64 x = of_int (round_half_even (x / U)) * U"
      unfolding fl64_def Let_def U_def using False by (simp only: if_False)
    then show ?thesis using U0 by (simp add: left_diff_distrib)
  qed
  then have "\<bar>fl64 x - x\<bar> = \<bar>of_int (round_half_even (x / U)) - x / U\<bar> * U"
    using U0 by (simp add: abs_mult)
  also have "\<dots> \<le> 1/2 * U"
    using U0 by (intro mult_right_mono round_half_even_err) simp
  also have "\<dots> \<le> \<bar>x\<bar> / 2 ^ 53 + 1 / 2 ^ 100"
    using U t t0 P unfolding L(1) by simp
  finally show ?thesis .
qed simp

lemma fl64_int_pos:
  assumes "0 < n" "n \<le> 2 ^ 53"
  shows "fl64 (of_int n) = of_int n"
proof -
  let ?x = "of_int n :: rat"
  have b: "2 powi (ilog2 ?x) \<le> ?x" "?x < 2 powi (ilog2 ?x + 1)"
    using ilog2_bounds assms by auto
  have "?x \<le> of_int (2 ^ 53)" using assms(2) by (simp only: of_int_le_iff)
  then have x: "?x \<le> 2 powi 53" by simp
  have "(2::rat) powi 53 < 2 powi 54" by (simp only: powi2_less_iff)
  with b x have "(2::rat) powi (ilog2 ?x) < 2 powi 54" by linarith
  then have "ilog2 ?x \<le> 53" by (simp only: powi2_less_iff)
  then consider "ilog2 ?x \<le> 52" | "ilog2 ?x = 53" by linarith
  then show ?thesis
  proof cases
    case 1
    then have e: "ulp_exp ?x \<le> 0" using assms by simp
    have "?x / 2 powi (ulp_exp ?x) = ?x * 2 powi (- ulp_exp ?x)"
      by (simp add: power_int_minus divide_inverse)
    also have "\<dots> = of_int (n * 2 ^ nat (- ulp_exp ?x))"
      using e by (subst powi2_int) auto
    finally show ?thesis by (rule fl64_exact)
  next
    case 2
    with b x have "?x = 2 powi 53" by simp
    then have "?x / 2 powi (ulp_exp ?x) = of_int (2 ^ 52)" using 2 assms by simp
    then show ?thesis by (rule fl64_exact)
  qed
qed

lemma fl64_int: "\<bar>n\<bar> \<le> 2 ^ 53 \<Longrightarrow> fl64 (of_int n) = of_int n"
proof (cases n "0 :: int" rule: linorder_cases)
  case less
  assume "\<bar>n\<bar> \<le> 2 ^ 53"
  then have "fl64 (of_int (- n)) = of_int (- n)" using less by (intro fl64_int_pos) auto
  then show ?thesis by (simp add: fl64_neg)
qed (auto intro: fl64_int_pos)

subsection \<open>The interface and what follows from it\<close>

lemma go_round_near: "\<bar>x - of_int k\<bar> < 1/2 \<Longrightarrow> go_round x = k"
proof -
  assume h: "\<bar>x - of_int k\<bar> < 1/2"
  have "\<lfloor>x + 1/2\<rfloor> = k" by (rule floor_unique) (use h in linarith)+
  moreover have "\<lfloor>- x + 1/2\<rfloor> = - k" by (rule floor_unique) (use h in \<open>simp_all, linarith+\<close>)
  ultimately show ?thesis by (simp add: go_round_def)
qed

lemma abs_of_int_le: "\<bar>k\<bar> \<le> n \<Longrightarrow> \<bar>of_int k :: rat\<bar> \<le> of_int n"
  by (metis of_int_abs of_int_le_iff)

lemma go_round_mono: "x \<le> y \<Longrightarrow> go_round x \<le> go_round y"
proof -
  assume xy: "x \<le> y"
  show ?thesis
  proof (cases "x < 0 \<and> 0 \<le> y")
    case True
    then have "go_round x \<le> 0" "0 \<le> go_round y"
      by (simp_all add: go_round_def le_floor_iff)
    then show ?thesis by linarith
  next
    case False
    with xy show ?thesis by (auto simp: go_round_def intro!: floor_mono)
  qed
qed

locale binary64_rounding =
  fixes fl :: "rat \<Rightarrow> rat"
  assumes mono: "x \<le> y \<Longrightarrow> fl x \<le> fl y"
    and neg: "fl (- x) = - fl x"
    and exact_int: "\<bar>n\<bar> \<le> 2 ^ 53 \<Longrightarrow> fl (of_int n) = of_int n"
    and err: "\<bar>fl x - x\<bar> \<le> \<bar>x\<bar> / 2 ^ 53 + 1 / 2 ^ 100"
begin

lemma zero: "fl 0 = 0"
  using exact_int [of 0] by simp

lemma nonneg: "0 \<le> x \<Longrightarrow> 0 \<le> fl x"
  using mono [of 0 x] zero by simp

lemma err_bounded:
  assumes "\<bar>x\<bar> \<le> 4 * 10 ^ 12"
  shows "\<bar>fl x - x\<bar> \<le> 1 / 2000"
  using err [of x] assms by simp

lemma cents_close:
  assumes "\<bar>k\<bar> \<le> 10 ^ 14"
  shows "\<bar>fl (of_int k / 100) - of_int k / 100\<bar> \<le> 1 / 8000"
proof -
  have "\<bar>of_int k / 100 :: rat\<bar> \<le> 10 ^ 12"
    using abs_of_int_le [OF assms] by simp
  then show ?thesis using err [of "of_int k / 100"] by simp
qed

lemma round_near_cents:
  assumes "\<bar>v - of_int k / 100\<bar> \<le> 1 / 250" "\<bar>k\<bar> \<le> 4 * 10 ^ 14"
  shows "go_round (fl (v * 100)) = k"
proof (rule go_round_near)
  have k: "\<bar>of_int k :: rat\<bar> \<le> 400000000000000"
    using abs_of_int_le [OF assms(2)] by simp
  have v: "\<bar>v * 100 - of_int k\<bar> \<le> 2 / 5" using assms(1) by linarith
  with k have "\<bar>v * 100\<bar> \<le> 500000000000000" by linarith
  then have "\<bar>fl (v * 100) - v * 100\<bar> \<le> 1 / 16" using err [of "v * 100"] by simp
  with v show "\<bar>fl (v * 100) - of_int k\<bar> < 1 / 2" by linarith
qed

lemma cents_strict_mono:
  assumes "a < b" "\<bar>a\<bar> \<le> 10 ^ 14" "\<bar>b\<bar> \<le> 10 ^ 14"
  shows "fl (of_int a / 100) < fl (of_int b / 100)"
proof -
  have "of_int a / 100 + 1 / 100 \<le> (of_int b / 100 :: rat)"
  proof -
    have "(of_int (a + 1) :: rat) \<le> of_int b" using assms(1) by (simp only: of_int_le_iff)
    then show ?thesis by simp
  qed
  then show ?thesis
    using cents_close [OF assms(2)] cents_close [OF assms(3)] by linarith
qed

end

interpretation f64: binary64_rounding fl64
  by unfold_locales (use fl64_mono fl64_neg fl64_int fl64_err in auto)

subsection \<open>Amounts of whole cents\<close>

abbreviation cent_range :: "int \<Rightarrow> bool" where
  "cent_range k \<equiv> \<bar>k\<bar> \<le> 10 ^ 14"

text \<open>\<open>near v k e\<close>: the double \<open>v\<close> is within \<open>e\<close> of \<open>k\<close> cents.\<close>

definition near :: "rat \<Rightarrow> int \<Rightarrow> rat \<Rightarrow> bool" where
  "near v k e \<longleftrightarrow> \<bar>v - of_int k / 100\<bar> \<le> e"

lemma near_cents: "cent_range k \<Longrightarrow> near (cents k) k (1 / 8000)"
  unfolding near_def cents_def by (rule f64.cents_close)

lemma near_bound:
  assumes "near v k e" "\<bar>k\<bar> \<le> 3 * 10 ^ 14" "e \<le> 1"
  shows "\<bar>v\<bar> \<le> 3000000000001"
proof -
  have "\<bar>of_int k :: rat\<bar> \<le> 300000000000000"
    using abs_of_int_le [OF assms(2)] by simp
  with assms show ?thesis unfolding near_def by linarith
qed

lemma near_fl64:
  assumes "near x k e" "\<bar>k\<bar> \<le> 3 * 10 ^ 14" "e \<le> 1"
  shows "near (fl64 x) k (e + 1 / 2000)"
proof -
  have "\<bar>fl64 x - x\<bar> \<le> 1 / 2000"
    using near_bound [OF assms] by (intro f64.err_bounded) simp
  with assms(1) show ?thesis unfolding near_def by linarith
qed

lemma near_fadd:
  assumes "near a i e" "near b j e'" "\<bar>i + j\<bar> \<le> 3 * 10 ^ 14" "e + e' \<le> 1"
  shows "near (fadd a b) (i + j) (e + e' + 1 / 2000)"
proof -
  have "near (a + b) (i + j) (e + e')"
    using assms(1,2) unfolding near_def of_int_add add_divide_distrib by linarith
  from near_fl64 [OF this assms(3,4)] show ?thesis by (simp add: fadd_def)
qed

lemma near_fsub:
  assumes "near a i e" "near b j e'" "\<bar>i - j\<bar> \<le> 3 * 10 ^ 14" "e + e' \<le> 1"
  shows "near (fsub a b) (i - j) (e + e' + 1 / 2000)"
proof -
  have "near (a - b) (i - j) (e + e')"
    using assms(1,2) unfolding near_def of_int_diff diff_divide_distrib by linarith
  from near_fl64 [OF this assms(3,4)] show ?thesis by (simp add: fsub_def)
qed

text \<open>The number of cents \<open>round2\<close> rounds a value to.\<close>

definition to_cents :: "rat \<Rightarrow> int" where
  "to_cents v = go_round (fmul v 100)"

lemma round2_eq_cents: "round2 v = cents (to_cents v)"
  by (simp add: round2_def to_cents_def cents_def fdiv_def)

lemma to_cents_near: "near v k (1 / 250) \<Longrightarrow> \<bar>k\<bar> \<le> 4 * 10 ^ 14 \<Longrightarrow> to_cents v = k"
  unfolding near_def to_cents_def fmul_def by (rule f64.round_near_cents)

lemma near_weaken: "near v k e \<Longrightarrow> e \<le> e' \<Longrightarrow> near v k e'"
  by (simp add: near_def)

lemma round2_near:
  assumes "near v k e" "e \<le> 1 / 250" "\<bar>k\<bar> \<le> 4 * 10 ^ 14"
  shows "round2 v = cents k"
  using to_cents_near [OF near_weaken [OF assms(1,2)] assms(3)] by (simp add: round2_eq_cents)

lemma to_cents_cents [simp]: "cent_range k \<Longrightarrow> to_cents (cents k) = k"
  by (rule to_cents_near [OF near_weaken [OF near_cents]]) auto

lemma round2_cents [simp]: "cent_range k \<Longrightarrow> round2 (cents k) = cents k"
  by (simp add: round2_eq_cents)

lemma cents_0 [simp]: "cents 0 = 0"
  by (simp add: cents_def)

lemma cents_mono: "a \<le> b \<Longrightarrow> cents a \<le> cents b"
  unfolding cents_def by (intro f64.mono divide_right_mono) auto

lemma cents_nonneg [simp]: "0 \<le> k \<Longrightarrow> 0 \<le> cents k"
  using cents_mono [of 0 k] by simp

lemma cents_less_iff: "cent_range a \<Longrightarrow> cent_range b \<Longrightarrow> cents a < cents b \<longleftrightarrow> a < b"
  using f64.cents_strict_mono [of a b] cents_mono [of b a]
  by (auto simp: cents_def not_less [symmetric])

lemma cents_le_iff: "cent_range a \<Longrightarrow> cent_range b \<Longrightarrow> cents a \<le> cents b \<longleftrightarrow> a \<le> b"
  using cents_less_iff [of b a] by (simp add: not_less [symmetric])

lemma cents_eq_iff: "cent_range a \<Longrightarrow> cent_range b \<Longrightarrow> cents a = cents b \<longleftrightarrow> a = b"
  using cents_le_iff [of a b] cents_le_iff [of b a] by (simp add: order_eq_iff)

lemma to_cents_mono: "v \<le> w \<Longrightarrow> to_cents v \<le> to_cents w"
  unfolding to_cents_def fmul_def by (intro go_round_mono f64.mono) simp

lemma round2_mono: "v \<le> w \<Longrightarrow> round2 v \<le> round2 w"
  unfolding round2_eq_cents by (intro cents_mono to_cents_mono)

lemma to_cents_0 [simp]: "to_cents 0 = 0"
  unfolding to_cents_def fmul_def by (simp add: go_round_near)

lemma to_cents_nonneg: "0 \<le> v \<Longrightarrow> 0 \<le> to_cents v"
  using to_cents_mono [of 0 v] by simp

lemma round2_0 [simp]: "round2 0 = 0"
  by (simp add: round2_eq_cents)

lemma round2_nonneg: "0 \<le> v \<Longrightarrow> 0 \<le> round2 v"
  using round2_mono [of 0 v] by simp

subsection \<open>Cent-exact arithmetic\<close>

lemma round2_fadd_cents:
  assumes "cent_range a" "cent_range b"
  shows "round2 (fadd (cents a) (cents b)) = cents (a + b)"
  by (rule round2_near [OF near_fadd [OF near_cents near_cents]]) (use assms in auto)

lemma round2_fsub_cents:
  assumes "cent_range a" "cent_range b"
  shows "round2 (fsub (cents a) (cents b)) = cents (a - b)"
  by (rule round2_near [OF near_fsub [OF near_cents near_cents]]) (use assms in auto)

lemmas cents_arith = round2_fadd_cents round2_fsub_cents cents_less_iff cents_le_iff cents_eq_iff

text \<open>A unit price times a whole quantity.\<close>

lemma near_fmul_int:
  assumes "cent_range k" "cent_range (k * n)" "\<bar>n\<bar> \<le> 10 ^ 14"
  shows "near (fmul (cents k) (of_int n)) (k * n) (1 / 1000)"
proof -
  have k: "\<bar>cents k - of_int k / 100\<bar> \<le> \<bar>of_int k / 100\<bar> / 2 ^ 53 + 1 / 2 ^ 100"
    unfolding cents_def by (rule f64.err)
  have kn: "\<bar>of_int k * of_int n :: rat\<bar> \<le> 100000000000000"
    using abs_of_int_le [OF assms(2)] by simp
  have n: "\<bar>of_int n :: rat\<bar> \<le> 100000000000000"
    using abs_of_int_le [OF assms(3)] by simp
  have "\<bar>cents k * of_int n - of_int (k * n) / 100\<bar> = \<bar>cents k - of_int k / 100\<bar> * \<bar>of_int n\<bar>"
    by (simp add: abs_mult [symmetric] algebra_simps)
  also have "\<dots> \<le> (\<bar>of_int k / 100\<bar> / 2 ^ 53 + 1 / 2 ^ 100) * \<bar>of_int n\<bar>"
    by (rule mult_right_mono [OF k]) simp
  also have "\<dots> = \<bar>of_int k * of_int n\<bar> / 100 / 2 ^ 53 + \<bar>of_int n\<bar> / 2 ^ 100"
    by (simp add: abs_mult algebra_simps)
  also have "\<dots> \<le> 1 / 8000"
    using kn n by simp
  finally have "near (cents k * of_int n) (k * n) (1 / 8000)" by (simp add: near_def)
  from near_fl64 [OF this] assms(2) show ?thesis
    unfolding fmul_def by (rule_tac near_weaken) auto
qed

lemma round2_fmul_cents:
  assumes "cent_range k" "cent_range (k * n)" "\<bar>n\<bar> \<le> 10 ^ 14"
  shows "round2 (fmul (cents k) (of_int n)) = cents (k * n)"
  by (rule round2_near [OF near_fmul_int]) (use assms in auto)

end
