(* ===== verification/GoTime.thy ===== *)
theory GoTime
  imports Prelude
begin

text \<open>
  The part of Go's \<^verbatim>\<open>time\<close> package the reservation code uses, and \<open>CalendarNights\<close>
  (\<^verbatim>\<open>internal/domain/stay_dates.go\<close>). A \<^verbatim>\<open>time.Time\<close> is the number of seconds since
  1970-01-01T00:00:00Z; the server runs in UTC and \<^verbatim>\<open>time.Parse\<close> of a layout without a zone
  yields UTC, so a calendar day is 86400 seconds. The layouts are \<^verbatim>\<open>2006-01-02\<close>,
  \<^verbatim>\<open>20060102\<close>, \<^verbatim>\<open>2006-01\<close> and \<^verbatim>\<open>15:04\<close>.
\<close>

type_synonym time = int

abbreviation day_secs :: int where "day_secs \<equiv> 86400"

definition day_of :: "time \<Rightarrow> int" where
  "day_of t = t div day_secs"

subsection \<open>The proleptic Gregorian calendar\<close>

definition is_leap :: "int \<Rightarrow> bool" where
  "is_leap y \<longleftrightarrow> (4 dvd y \<and> \<not> 100 dvd y) \<or> 400 dvd y"

definition month_lengths :: "int \<Rightarrow> int list" where
  "month_lengths y = [31, if is_leap y then 29 else 28, 31, 30, 31, 30, 31, 31, 30, 31, 30, 31]"

text \<open>Days from 0001-01-01 to the first of January of \<open>y\<close>.\<close>

definition days_before_year :: "int \<Rightarrow> int" where
  "days_before_year y = (let a = y - 1 in 365 * a + a div 4 - a div 100 + a div 400)"

text \<open>Days since the epoch; 719162 days lie between 0001-01-01 and 1970-01-01.\<close>

definition days_of_civil :: "int \<Rightarrow> nat \<Rightarrow> int \<Rightarrow> int" where
  "days_of_civil y m d =
     days_before_year y + sum_list (take (m - 1) (month_lengths y)) + (d - 1) - 719162"

fun find_month :: "int list \<Rightarrow> nat \<Rightarrow> int \<Rightarrow> nat \<times> int" where
  "find_month [] m d = (m, d + 1)"
| "find_month (l # ls) m d = (if d < l then (m, d + 1) else find_month ls (Suc m) (d - l))"

definition year_of_days :: "int \<Rightarrow> int" where
  "year_of_days g = (let y = g * 400 div 146097 + 1 in
     if g < days_before_year y then y - 1
     else if days_before_year (y + 1) \<le> g then y + 1 else y)"

definition civil_of_days :: "int \<Rightarrow> int \<times> nat \<times> int" where
  "civil_of_days n = (let g = n + 719162; y = year_of_days g in
     (y, find_month (month_lengths y) 1 (g - days_before_year y)))"

definition valid_civil :: "int \<Rightarrow> nat \<Rightarrow> int \<Rightarrow> bool" where
  "valid_civil y m d \<longleftrightarrow> 1 \<le> m \<and> m \<le> 12 \<and> 1 \<le> d \<and> d \<le> month_lengths y ! (m - 1)"

lemma length_month_lengths [simp]: "length (month_lengths y) = 12"
  by (simp add: month_lengths_def)

lemma div_step:
  fixes k y :: int
  assumes "0 < k"
  shows "y div k = (y - 1) div k + (if k dvd y then 1 else 0)"
proof (cases "k dvd y")
  case True
  then obtain c where c: "y = k * c" by (elim dvdE)
  have "(y - 1) div k = c - 1"
    by (rule int_div_pos_eq [where r = "k - 1"]) (use assms c in \<open>auto simp: algebra_simps\<close>)
  then show ?thesis using assms c by simp
next
  case False
  then have "y mod k \<noteq> 0" by (simp add: dvd_eq_mod_eq_0)
  then have r: "1 \<le> y mod k" "y mod k < k"
    using assms pos_mod_sign [OF assms, of y] pos_mod_bound [OF assms, of y] by linarith+
  have "(y - 1) div k = y div k"
    by (rule int_div_pos_eq [where r = "y mod k - 1"])
      (use r mult_div_mod_eq [of k y] in \<open>simp_all add: mult.commute\<close>)
  then show ?thesis using False by simp
qed

lemma sum_month_lengths: "sum_list (month_lengths y) = days_before_year (y + 1) - days_before_year y"
proof -
  have "sum_list (month_lengths y) = (if is_leap y then 366 else 365)"
    by (simp add: month_lengths_def)
  moreover have "days_before_year (y + 1) - days_before_year y = (if is_leap y then 366 else 365)"
  proof -
    have dvd: "100 dvd y \<Longrightarrow> 4 dvd y" "400 dvd y \<Longrightarrow> 100 dvd y"
      by (auto elim!: dvdE)
    define p q r where "p = (y - 1) div 4" and "q = (y - 1) div 100" and "r = (y - 1) div 400"
    have up: "days_before_year (y + 1) = 365 * y + (p + (if 4 dvd y then 1 else 0))
        - (q + (if 100 dvd y then 1 else 0)) + (r + (if 400 dvd y then 1 else 0))"
      unfolding days_before_year_def Let_def p_def q_def r_def add_diff_cancel_right'
      by (simp only: div_step [of _ y, symmetric] zero_less_numeral)
    have low: "days_before_year y = 365 * (y - 1) + p - q + r"
      unfolding days_before_year_def Let_def p_def q_def r_def ..
    show ?thesis unfolding up low is_leap_def using dvd by auto
  qed
  ultimately show ?thesis by simp
qed

lemma div_bounds: "0 < k \<Longrightarrow> k * (a div k) \<le> a \<and> a < k * (a div k) + k" for a k :: int
  using mult_div_mod_eq [of k a] pos_mod_sign [of k a] pos_mod_bound [of k a] by linarith

lemma year_of_days_bounds:
  "days_before_year (year_of_days g) \<le> g \<and> g < days_before_year (year_of_days g + 1)"
proof -
  define y where "y = g * 400 div 146097 + 1"
  have y: "146097 * (y - 1) \<le> g * 400" "g * 400 < 146097 * y"
    using div_bounds [of 146097 "g * 400"] unfolding y_def by auto
  have db: "146097 * (z - 1) - 800 < 400 * days_before_year z
      \<and> 400 * days_before_year z < 146097 * (z - 1) + 400" for z
  proof -
    define a where "a = z - 1"
    define p q r where "p = a div 4" and "q = a div 100" and "r = a div 400"
    have "4 * p \<le> a \<and> a < 4 * p + 4" "100 * q \<le> a \<and> a < 100 * q + 100"
      "400 * r \<le> a \<and> a < 400 * r + 400"
      unfolding p_def q_def r_def by (simp_all only: div_bounds zero_less_numeral)
    then show ?thesis
      unfolding days_before_year_def Let_def a_def [symmetric] p_def [symmetric] q_def [symmetric]
        r_def [symmetric] by (simp add: algebra_simps)
  qed
  have "days_before_year (y - 1) \<le> g" using db [of "y - 1"] y by simp
  moreover have "g < days_before_year (y + 2)" using db [of "y + 2"] y by simp
  ultimately show ?thesis
    unfolding year_of_days_def Let_def y_def [symmetric] by (auto simp: algebra_simps)
qed

lemma find_month_correct:
  assumes "0 \<le> d" "d < sum_list ls"
  shows "case find_month ls m d of (m', d') \<Rightarrow>
     m \<le> m' \<and> m' < m + length ls \<and> 1 \<le> d' \<and> d' \<le> ls ! (m' - m)
     \<and> sum_list (take (m' - m) ls) + (d' - 1) = d"
  using assms
proof (induction ls arbitrary: m d)
  case (Cons l ls)
  show ?case
  proof (cases "d < l")
    case False
    obtain m' d' where fm: "find_month ls (Suc m) (d - l) = (m', d')" by fastforce
    from Cons.IH [of "d - l" "Suc m"] Cons.prems False fm
    have "Suc m \<le> m' \<and> m' < Suc m + length ls \<and> 1 \<le> d' \<and> d' \<le> ls ! (m' - Suc m)
      \<and> sum_list (take (m' - Suc m) ls) + (d' - 1) = d - l" by simp
    moreover from this have "m' - m = Suc (m' - Suc m)" by arith
    ultimately show ?thesis using False fm by simp
  qed (use Cons.prems in simp)
qed simp

lemma civil_of_days_correct:
  assumes "civil_of_days n = (y, m, d)"
  shows "valid_civil y m d \<and> days_of_civil y m d = n"
proof -
  let ?g = "n + 719162"
  have y: "y = year_of_days ?g" and
    md: "find_month (month_lengths y) 1 (?g - days_before_year y) = (m, d)"
    using assms by (auto simp: civil_of_days_def Let_def)
  have b: "0 \<le> ?g - days_before_year y" "?g - days_before_year y < sum_list (month_lengths y)"
    using year_of_days_bounds [of ?g] unfolding y sum_month_lengths by linarith+
  from find_month_correct [OF b, of 1] md show ?thesis
    by (auto simp: valid_civil_def days_of_civil_def)
qed

subsection \<open>Format and Parse\<close>

text \<open>Decimal digits, zero padded to a width.\<close>

fun pad :: "nat \<Rightarrow> nat \<Rightarrow> string" where
  "pad 0 n = []"
| "pad (Suc k) n = pad k (n div 10) @ [char_of (48 + n mod 10)]"

text \<open>\<^verbatim>\<open>t.Format("2006-01-02")\<close> and \<^verbatim>\<open>t.Format("20060102")\<close>, for years up to 9999.\<close>

definition format_date :: "time \<Rightarrow> string" where
  "format_date t = (case civil_of_days (day_of t) of (y, m, d) \<Rightarrow>
     pad 4 (nat y) @ ''-'' @ pad 2 m @ ''-'' @ pad 2 (nat d))"

definition format_compact :: "time \<Rightarrow> string" where
  "format_compact t = (case civil_of_days (day_of t) of (y, m, d) \<Rightarrow>
     pad 4 (nat y) @ pad 2 m @ pad 2 (nat d))"

text \<open>\<^verbatim>\<open>time.Parse("2006-01-02", s)\<close>: ten characters, digits where the layout has them, a
  month of the year and a day of that month.\<close>

definition parse_date :: "string \<Rightarrow> time option" where
  "parse_date s =
     (if length s = 10 \<and> s ! 4 = CHR ''-'' \<and> s ! 7 = CHR ''-'' \<and>
         list_all is_digit (take 4 s @ take 2 (drop 5 s) @ drop 8 s)
      then (let y = int (digits_val (take 4 s)); m = digits_val (take 2 (drop 5 s));
                d = int (digits_val (drop 8 s))
            in if valid_civil y m d then Some (days_of_civil y m d * day_secs) else None)
      else None)"

text \<open>\<^verbatim>\<open>time.Parse("2006-01", s)\<close>: the first day of a month.\<close>

definition parse_month :: "string \<Rightarrow> (int \<times> nat) option" where
  "parse_month s =
     (if length s = 7 \<and> s ! 4 = CHR ''-'' \<and> list_all is_digit (take 4 s @ drop 5 s)
      then (let y = int (digits_val (take 4 s)); m = digits_val (drop 5 s)
            in if 1 \<le> m \<and> m \<le> 12 then Some (y, m) else None)
      else None)"

text \<open>\<^verbatim>\<open>time.Parse("15:04", s)\<close>: one or two digits of hour below 24, exactly two of minute
  below 60. The result is the number of seconds after midnight.\<close>

definition parse_clock :: "string \<Rightarrow> int option" where
  "parse_clock s =
     (let hs = takeWhile is_digit s; rest = dropWhile is_digit s in
      if (length hs = 1 \<or> length hs = 2) \<and> length rest = 3 \<and> hd rest = CHR '':'' \<and>
         list_all is_digit (tl rest) \<and> digits_val hs < 24 \<and> digits_val (tl rest) < 60
      then Some (int (digits_val hs) * 3600 + int (digits_val (tl rest)) * 60) else None)"

lemma of_char_digit: "n < 10 \<Longrightarrow> of_char (char_of (48 + n) :: char) = 48 + (n :: nat)"
  by (simp add: take_bit_nat_def)

lemma pad_digits: "list_all is_digit (pad k n)"
  by (induction k arbitrary: n) (simp_all add: is_digit_def of_char_digit)

lemma length_pad [simp]: "length (pad k n) = k"
  by (induction k arbitrary: n) auto

lemma digits_val_pad: "n < 10 ^ k \<Longrightarrow> digits_val (pad k n) = n"
proof (induction k arbitrary: n)
  case 0
  then show ?case by (simp add: digits_val_def)
next
  case (Suc k)
  then have "digits_val (pad k (n div 10)) = n div 10" by simp
  then show ?case by (simp add: digits_val_def digit_val_def of_char_digit)
qed

text \<open>Formatting a date and parsing it back gives the midnight of that day.\<close>

lemma parse_format_date:
  assumes "civil_of_days (day_of t) = (y, m, d)" "0 \<le> y" "y \<le> 9999"
  shows "parse_date (format_date t) = Some (day_of t * day_secs)"
proof -
  from civil_of_days_correct [OF assms(1)]
  have v: "valid_civil y m d" and n: "days_of_civil y m d = day_of t" by auto
  have "month_lengths y ! (m - 1) \<le> 31"
  proof -
    have "\<forall>l \<in> set (month_lengths y). l \<le> 31" by (simp add: month_lengths_def)
    then show ?thesis using v nth_mem [of "m - 1" "month_lengths y"] by (auto simp: valid_civil_def)
  qed
  with v have m: "m < 10 ^ 2" and "d \<le> 31" and d0: "0 \<le> d" by (auto simp: valid_civil_def)
  then have d: "nat d < 10 ^ 2" "0 \<le> d" by auto
  have y: "nat y < 10 ^ 4" using assms by simp
  have s: "format_date t = pad 4 (nat y) @ ''-'' @ pad 2 m @ ''-'' @ pad 2 (nat d)"
    by (simp add: format_date_def assms(1))
  show ?thesis
    unfolding parse_date_def s
    by (simp add: nth_append pad_digits digits_val_pad [OF y] digits_val_pad [OF m]
        digits_val_pad [OF d(1)] d(2) assms(2) v n del: pad.simps)
qed

subsection \<open>Durations and nights\<close>

text \<open>\<^verbatim>\<open>a.Sub(b)\<close> in nanoseconds, saturating at the range of \<^verbatim>\<open>int64\<close>.\<close>

definition sub_ns :: "time \<Rightarrow> time \<Rightarrow> int" where
  "sub_ns a b = max (- (2 ^ 63)) (min (2 ^ 63 - 1) ((a - b) * 1000000000))"

text \<open>Go's integer conversion of \<^verbatim>\<open>d.Hours() / 24\<close>: truncation toward zero.\<close>

definition whole_days :: "int \<Rightarrow> int" where
  "whole_days ns = sgn ns * (\<bar>ns\<bar> div (day_secs * 1000000000))"

definition CalendarNights :: "time \<Rightarrow> time \<Rightarrow> int" where
  "CalendarNights checkIn checkOut =
     whole_days (sub_ns (day_of checkOut * day_secs) (day_of checkIn * day_secs))"

lemma CalendarNights_eq:
  assumes "\<bar>day_of checkOut - day_of checkIn\<bar> \<le> 106751"
  shows "CalendarNights checkIn checkOut = day_of checkOut - day_of checkIn"
proof -
  define n where "n = day_of checkOut - day_of checkIn"
  have "(day_of checkOut * day_secs - day_of checkIn * day_secs) * 1000000000
      = n * 86400000000000" by (simp add: n_def algebra_simps)
  then have "sub_ns (day_of checkOut * day_secs) (day_of checkIn * day_secs) = n * 86400000000000"
    using assms unfolding sub_ns_def n_def [symmetric] by (simp add: abs_le_iff)
  then show ?thesis
    unfolding CalendarNights_def whole_days_def n_def [symmetric]
    by (simp add: abs_mult sgn_mult mult_sgn_abs)
qed

lemma day_of_mono: "s \<le> t \<Longrightarrow> day_of s \<le> day_of t"
  by (simp add: day_of_def zdiv_mono1)

lemma CalendarNights_nonneg: "checkIn \<le> checkOut \<Longrightarrow> 0 \<le> CalendarNights checkIn checkOut"
  using day_of_mono [of checkIn checkOut]
  by (simp add: CalendarNights_def whole_days_def sub_ns_def sgn_if)

end
