(* ===== verification/Domain.thy ===== *)
theory Domain
  imports Float64 GoTime
begin

text \<open>
  The rows the modelled handlers read and write: the entities of
  \<^verbatim>\<open>internal/domain/models.go\<close>, the row types of the POS handlers, and the accounting and
  housekeeping tables those handlers insert into. A nullable column is an \<open>option\<close>, a
  \<^verbatim>\<open>uuid.UUID\<close> a natural number with \<open>0\<close> for \<^verbatim>\<open>uuid.Nil\<close>, and a money column the
  double it scans into. The bookkeeping columns \<^verbatim>\<open>created_at\<close> and \<^verbatim>\<open>updated_at\<close>, which no
  modelled decision reads, are left out.
\<close>

type_synonym uuid = nat

abbreviation uuid_Nil :: uuid where "uuid_Nil \<equiv> 0"

text \<open>\<^verbatim>\<open>postgres.DemoHotelID\<close>, the tenant of requests that carry none.\<close>

definition DemoHotelID :: uuid where
  "DemoHotelID = 1"

subsection \<open>Room and reservation status\<close>

text \<open>The column \<^verbatim>\<open>rooms.status\<close> has no check constraint, so it may hold any string.\<close>

datatype RoomStatus =
    RoomStatusAvailable | RoomStatusOccupied | RoomStatusCleaning
  | RoomStatusMaintenance | RoomStatusOutOfOrder | RoomStatusOther string

fun RoomStatus_Valid :: "RoomStatus \<Rightarrow> bool" where
  "RoomStatus_Valid (RoomStatusOther s) = False"
| "RoomStatus_Valid _ = True"

fun Sellable :: "RoomStatus \<Rightarrow> bool" where
  "Sellable s = (s \<noteq> RoomStatusMaintenance \<and> s \<noteq> RoomStatusOutOfOrder)"

text \<open>\<^verbatim>\<open>NonSellableRoomStatusSQL\<close>: the list a query excludes with \<^verbatim>\<open>status NOT IN (...)\<close>.\<close>

definition NonSellableRoomStatusSQL :: "RoomStatus list" where
  "NonSellableRoomStatusSQL = [RoomStatusMaintenance, RoomStatusOutOfOrder]"

datatype ReservationStatus =
    ReservationTentative | ReservationConfirmed | ReservationInHouse
  | ReservationCheckedOut | ReservationCancelled | ReservationNoShow

fun status_string :: "ReservationStatus \<Rightarrow> string" where
  "status_string ReservationTentative = ''tentative''"
| "status_string ReservationConfirmed = ''confirmed''"
| "status_string ReservationInHouse = ''in_house''"
| "status_string ReservationCheckedOut = ''checked_out''"
| "status_string ReservationCancelled = ''cancelled''"
| "status_string ReservationNoShow = ''no_show''"

definition ReservationStatusValues :: "string list" where
  "ReservationStatusValues = [''tentative'', ''confirmed'', ''in_house'', ''checked_out'',
     ''cancelled'', ''no_show'']"

text \<open>\<^verbatim>\<open>func (s ReservationStatus) Valid()\<close> on an arbitrary string.\<close>

definition ReservationStatus_Valid :: "string \<Rightarrow> bool" where
  "ReservationStatus_Valid s \<longleftrightarrow>
     s \<in> {''tentative'', ''confirmed'', ''in_house'', ''checked_out'', ''cancelled'', ''no_show''}"

subsection \<open>Front office\<close>

record Hotel =
  h_id :: uuid
  h_name :: string
  h_gst_rate :: "rat option"

record Room =
  rm_id :: uuid
  rm_hotel :: uuid
  rm_number :: string
  rm_type :: string
  rm_floor :: int
  rm_capacity :: int
  rm_price :: rat
  rm_status :: RoomStatus

record RoomSummary =
  rs_number :: string
  rs_type :: string

record GuestStay =
  gs_id :: uuid
  gs_hotel :: uuid
  gs_guest :: "uuid option"
  gs_room :: uuid
  gs_name :: string
  gs_email :: "string option"
  gs_phone :: "string option"
  gs_in :: time
  gs_out :: time
  gs_actual_in :: "time option"
  gs_actual_out :: "time option"
  gs_total :: "rat option"
  gs_notes :: "string option"
  gs_source :: "string option"
  gs_status :: ReservationStatus
  gs_conf :: "string option"
  gs_cancelled_at :: "time option"
  gs_cancel_reason :: "string option"
  gs_cancel_fee :: rat
  gs_cancelled_by :: "uuid option"
  gs_adults :: int
  gs_children :: int
  gs_approach :: string
  gs_discount :: rat
  gs_tax :: rat
  gs_promo :: "string option"

text \<open>\<^verbatim>\<open>func (g GuestStay) Payable() float64\<close>\<close>

definition Payable :: "GuestStay \<Rightarrow> rat" where
  "Payable g = (let base = (case gs_total g of None \<Rightarrow> 0 | Some t \<Rightarrow> t)
     in fadd (fsub base (gs_discount g)) (gs_tax g))"

record Guest =
  gu_id :: uuid
  gu_hotel :: uuid
  gu_name :: string
  gu_email :: "string option"
  gu_phone :: "string option"
  gu_id_type :: "string option"
  gu_id_number :: "string option"

record Folio =
  fo_id :: uuid
  fo_hotel :: uuid
  fo_booking :: uuid
  fo_guest :: "uuid option"
  fo_status :: string
  fo_currency :: string

record FolioCharge =
  fc_id :: uuid
  fc_folio :: uuid
  fc_hotel :: uuid
  fc_description :: string
  fc_type :: string
  fc_amount :: rat
  fc_tax :: rat
  fc_reference :: "uuid option"
  fc_posted_by :: "uuid option"

record Payment =
  py_id :: uuid
  py_hotel :: uuid
  py_number :: string
  py_stay :: "uuid option"
  py_amount :: rat
  py_method :: string
  py_status :: string
  py_upi :: "string option"
  py_txn :: "string option"
  py_last4 :: "string option"
  py_auth :: "string option"
  py_cash :: rat
  py_change :: rat
  py_notes :: string
  py_category :: string

record Promotion =
  pr_id :: uuid
  pr_hotel :: uuid
  pr_code :: string
  pr_name :: string
  pr_type :: string
  pr_value :: rat
  pr_min_nights :: "int option"
  pr_min_amount :: "rat option"
  pr_max_discount :: "rat option"
  pr_usage_limit :: "int option"
  pr_used :: int
  pr_from :: time
  pr_to :: time
  pr_active :: bool

record HousekeepingTask =
  hk_id :: uuid
  hk_hotel :: uuid
  hk_room :: uuid
  hk_type :: string
  hk_priority :: string
  hk_status :: string
  hk_notes :: string

subsection \<open>Accounting\<close>

record Account =
  ac_id :: uuid
  ac_hotel :: uuid
  ac_code :: string
  ac_name :: string
  ac_type :: string
  ac_sub_type :: string
  ac_order :: int

record JournalEntry =
  je_id :: uuid
  je_hotel :: uuid
  je_description :: string
  je_reference :: string
  je_voucher_no :: "string option"
  je_voucher_type :: string

record JournalRow =
  jl_id :: uuid
  jl_entry :: uuid
  jl_hotel :: uuid
  jl_account :: uuid
  jl_debit :: rat
  jl_credit :: rat
  jl_memo :: string

record VoucherCounter =
  vc_hotel :: uuid
  vc_type :: string
  vc_next :: int

record Customer =
  cu_id :: uuid
  cu_hotel :: uuid
  cu_code :: string
  cu_name :: string
  cu_phone :: "string option"
  cu_email :: "string option"
  cu_gstin :: "string option"

record SalesInvoice =
  in_id :: uuid
  in_hotel :: uuid
  in_customer :: "uuid option"
  in_number :: string
  in_due :: time
  in_reference :: string
  in_subtotal :: rat
  in_discount :: rat
  in_tax :: rat
  in_total :: rat
  in_status :: string

record SalesInvoiceLine =
  il_id :: uuid
  il_invoice :: uuid
  il_hotel :: uuid
  il_quantity :: int
  il_unit_price :: rat
  il_discount :: rat
  il_tax_rate :: rat
  il_tax :: rat
  il_total :: rat

subsection \<open>Restaurant\<close>

record Table =
  tb_id :: uuid
  tb_hotel :: uuid
  tb_outlet :: "uuid option"
  tb_number :: string
  tb_section :: "string option"
  tb_seats :: int
  tb_status :: string
  tb_x :: "int option"
  tb_y :: "int option"
  tb_active :: bool

record Outlet =
  ol_id :: uuid
  ol_tax_rate :: rat
  ol_currency :: string

record DiningSession =
  ds_id :: uuid
  ds_hotel :: uuid
  ds_number :: string
  ds_table :: uuid
  ds_outlet :: "uuid option"
  ds_covers :: int
  ds_guest_name :: "string option"
  ds_customer_type :: string
  ds_stay :: "uuid option"
  ds_customer :: "uuid option"
  ds_opened :: time
  ds_status :: string

record KOT =
  kt_id :: uuid
  kt_hotel :: uuid
  kt_session :: uuid
  kt_number :: string
  kt_round :: int
  kt_status :: string

record KOTItem =
  ki_id :: uuid
  ki_hotel :: uuid
  ki_kot :: uuid
  ki_menu :: "uuid option"
  ki_name :: string
  ki_qty :: int
  ki_unit :: rat
  ki_total :: rat
  ki_status :: string
  ki_void_reason :: "string option"
  ki_voided_by :: "uuid option"

record MenuItem =
  mi_id :: uuid
  mi_cost :: "rat option"

record Bill =
  bl_id :: uuid
  bl_hotel :: uuid
  bl_session :: uuid
  bl_outlet :: "uuid option"
  bl_number :: string
  bl_status :: string
  bl_subtotal :: rat
  bl_disc_type :: "string option"
  bl_disc_value :: rat
  bl_disc_amount :: rat
  bl_tax_rate :: rat
  bl_tax :: rat
  bl_tip_type :: "string option"
  bl_tip_value :: rat
  bl_tip :: rat
  bl_rounding :: rat
  bl_total :: rat
  bl_paid :: rat
  bl_due :: rat
  bl_currency :: string
  bl_customer :: "uuid option"

record BillPayment =
  bp_id :: uuid
  bp_hotel :: uuid
  bp_bill :: uuid
  bp_number :: string
  bp_method :: string
  bp_amount :: rat
  bp_tendered :: "rat option"
  bp_change :: rat
  bp_status :: string
  bp_txn :: "string option"

record BillSplit =
  sp_id :: uuid
  sp_hotel :: uuid
  sp_bill :: uuid
  sp_no :: int
  sp_customer :: string
  sp_share :: rat

subsection \<open>Facts about the enumerations\<close>

lemma Sellable_iff_SQL: "Sellable s \<longleftrightarrow> s \<notin> set NonSellableRoomStatusSQL"
  by (simp add: NonSellableRoomStatusSQL_def)

lemma ReservationStatus_Valid_iff: "ReservationStatus_Valid s \<longleftrightarrow> s \<in> range status_string"
proof -
  have "(UNIV :: ReservationStatus set) = {ReservationTentative, ReservationConfirmed,
      ReservationInHouse, ReservationCheckedOut, ReservationCancelled, ReservationNoShow}"
    using ReservationStatus.exhaust by blast
  then have "range status_string = status_string ` {ReservationTentative, ReservationConfirmed,
      ReservationInHouse, ReservationCheckedOut, ReservationCancelled, ReservationNoShow}"
    by (rule arg_cong)
  then show ?thesis by (simp only: ReservationStatus_Valid_def image_insert image_empty status_string.simps)
qed

lemma status_string_inj: "status_string a = status_string b \<longleftrightarrow> a = b"
  by (cases a; cases b; simp)

end
