(* ===== verification/Store.thy ===== *)
theory Store
  imports Domain
begin

text \<open>
  The database and the effects of a request. A table is the list of its rows in insertion order;
  \<open>db_num\<close> is the value a float has after it was stored in a \<^verbatim>\<open>NUMERIC\<close> column and read
  back, a parameter no operation changes.
  A handler is a computation of the state monad over a \<open>world\<close>: the database, the state of the
  connection's transaction, the request's clock (one reading of it, in whole seconds, with the
  milliseconds beside it), and the parameters for code outside the repository: the identifiers
  \<^verbatim>\<open>uuid.New()\<close> issues and how they print, and the infrastructure faults the statements of the
  request run into.

  \<open>stmt\<close> is one SQL statement: it can fail because of a fault, and inside a transaction a
  failed statement aborts the transaction, so that every later statement and the commit fail as
  PostgreSQL specifies. \<open>with_tx\<close> is \<^verbatim>\<open>WithTenantTx\<close> of
  \<^verbatim>\<open>internal/repository/postgres/db.go\<close> and the \<^verbatim>\<open>Begin\<close>/\<^verbatim>\<open>Rollback\<close>/\<^verbatim>\<open>Commit\<close>
  sequence of the POS handlers.
\<close>

record db =
  hotels :: "Hotel list"
  rooms :: "Room list"
  stays :: "GuestStay list"
  guests :: "Guest list"
  folios :: "Folio list"
  charges :: "FolioCharge list"
  payments :: "Payment list"
  promotions :: "Promotion list"
  tasks :: "HousekeepingTask list"
  accounts :: "Account list"
  entries :: "JournalEntry list"
  jlines :: "JournalRow list"
  counters :: "VoucherCounter list"
  customers :: "Customer list"
  invoices :: "SalesInvoice list"
  invlines :: "SalesInvoiceLine list"
  tables :: "Table list"
  outlets :: "Outlet list"
  sessions :: "DiningSession list"
  kots :: "KOT list"
  kitems :: "KOTItem list"
  menu :: "MenuItem list"
  bills :: "Bill list"
  bpayments :: "BillPayment list"
  splits :: "BillSplit list"
  db_num :: "rat \<Rightarrow> rat"

datatype goerr =
    DbFault | TxAborted | NoRows | ErrNotFound
  | UniqueViolation | CheckViolation | ExclusionViolation | ForeignKeyViolation
  | ErrPromoNotApplicable | ErrNoRoomForCharge | ErrMsg string

datatype txstate = NoTx | TxOpen | TxFailed

record world =
  w_db :: db
  w_tx :: txstate
  w_now :: time
  w_ids :: "nat \<Rightarrow> uuid"
  w_next :: nat
  w_faults :: "bool list"
  w_str :: "uuid \<Rightarrow> string"
  w_ms :: int
  w_jobs :: "(string \<times> string) list"

type_synonym 'a go = "(world, 'a) state"

subsection \<open>Statements\<close>

definition next_fault :: "world \<Rightarrow> bool \<times> world" where
  "next_fault w = (case w_faults w of [] \<Rightarrow> (False, w) | b # bs \<Rightarrow> (b, w\<lparr>w_faults := bs\<rparr>))"

definition fail_tx :: "world \<Rightarrow> world" where
  "fail_tx w = (if w_tx w = TxOpen then w\<lparr>w_tx := TxFailed\<rparr> else w)"

definition stmt :: "(db \<Rightarrow> goerr + 'a \<times> db) \<Rightarrow> (goerr + 'a) go" where
  "stmt f = State (\<lambda>w.
     if w_tx w = TxFailed then (Inl TxAborted, w)
     else case next_fault w of (bad, w') \<Rightarrow>
       if bad then (Inl DbFault, fail_tx w')
       else case f (w_db w') of
           Inl e \<Rightarrow> (Inl e, fail_tx w')
         | Inr (a, d) \<Rightarrow> (Inr a, w'\<lparr>w_db := d\<rparr>))"

text \<open>A statement that only reads.\<close>

definition query :: "(db \<Rightarrow> 'a) \<Rightarrow> (goerr + 'a) go" where
  "query f = stmt (\<lambda>d. Inr (f d, d))"

text \<open>\<^verbatim>\<open>QueryRow(...).Scan(...)\<close>: no row is \<^verbatim>\<open>pgx.ErrNoRows\<close>, which is not an error of the
  statement and does not abort a transaction.\<close>

definition query_row :: "(db \<Rightarrow> 'a option) \<Rightarrow> (goerr + 'a) go" where
  "query_row f = do {
     r \<leftarrow> query f;
     State_Monad.return (case r of Inl e \<Rightarrow> Inl e | Inr None \<Rightarrow> Inl NoRows | Inr (Some a) \<Rightarrow> Inr a)
   }"

definition exec :: "(db \<Rightarrow> db) \<Rightarrow> (goerr + unit) go" where
  "exec f = stmt (\<lambda>d. Inr ((), f d))"

definition uuid_New :: "uuid go" where
  "uuid_New = State (\<lambda>w. (w_ids w (w_next w), w\<lparr>w_next := Suc (w_next w)\<rparr>))"

definition time_Now :: "time go" where
  "time_Now = State (\<lambda>w. (w_now w, w))"

text \<open>\<^verbatim>\<open>uuid.New().String()\<close> and \<^verbatim>\<open>time.Now().UnixMilli()\<close>.\<close>

definition uuid_New_String :: "string go" where
  "uuid_New_String = State (\<lambda>w. (w_str w (w_ids w (w_next w)), w\<lparr>w_next := Suc (w_next w)\<rparr>))"

definition time_UnixMilli :: "int go" where
  "time_UnixMilli = State (\<lambda>w. (w_now w * 1000 + w_ms w, w))"

text \<open>\<^verbatim>\<open>worker.SubmitOrRun\<close>: a background job, by its name and the address it goes to. What
  the job does is outside the database.\<close>

definition SubmitOrRun :: "string \<Rightarrow> string \<Rightarrow> unit go" where
  "SubmitOrRun name address = State (\<lambda>w. ((), w\<lparr>w_jobs := w_jobs w @ [(name, address)]\<rparr>))"

subsection \<open>Transactions\<close>

definition with_tx :: "(goerr \<Rightarrow> 'e) \<Rightarrow> (goerr \<Rightarrow> 'e) \<Rightarrow> ('e + 'a) go \<Rightarrow> ('e + 'a) go" where
  "with_tx begin_err commit_err m = State (\<lambda>w.
     case next_fault w of (bad, w1) \<Rightarrow>
       if bad then (Inl (begin_err DbFault), w1)
       else case run_state m (w1\<lparr>w_tx := TxOpen\<rparr>) of
           (Inl e, w2) \<Rightarrow> (Inl e, w2\<lparr>w_db := w_db w, w_tx := NoTx\<rparr>)
         | (Inr a, w2) \<Rightarrow>
             (case next_fault w2 of (bad', w3) \<Rightarrow>
                if bad' \<or> w_tx w3 = TxFailed
                then (Inl (commit_err (if w_tx w3 = TxFailed then TxAborted else DbFault)),
                      w3\<lparr>w_db := w_db w, w_tx := NoTx\<rparr>)
                else (Inr a, w3\<lparr>w_tx := NoTx\<rparr>)))"

subsection \<open>Rows\<close>

definition upd_where :: "('a \<Rightarrow> bool) \<Rightarrow> ('a \<Rightarrow> 'a) \<Rightarrow> 'a list \<Rightarrow> 'a list" where
  "upd_where p f xs = map (\<lambda>x. if p x then f x else x) xs"

definition affected :: "('a \<Rightarrow> bool) \<Rightarrow> 'a list \<Rightarrow> nat" where
  "affected p xs = length (filter p xs)"

lemma upd_where_none: "\<forall>x \<in> set xs. \<not> p x \<Longrightarrow> upd_where p f xs = xs"
  by (simp add: upd_where_def map_idI)

lemma upd_where_map: "map (\<lambda>x. if p x then f x else x) xs = upd_where p f xs"
  by (simp add: upd_where_def)

lemma affected_0_iff [simp]: "affected p xs = 0 \<longleftrightarrow> (\<forall>x \<in> set xs. \<not> p x)"
  by (simp add: affected_def filter_empty_conv)

lemma set_upd_where: "set (upd_where p f xs) = {if p x then f x else x | x. x \<in> set xs}"
  by (auto simp: upd_where_def)

lemma map_upd_where: "(\<And>x. p x \<Longrightarrow> g (f x) = g x) \<Longrightarrow> map g (upd_where p f xs) = map g xs"
  by (simp add: upd_where_def)

lemma filter_upd_where_other:
  assumes "\<And>x. p x \<Longrightarrow> \<not> q x" "\<And>x. p x \<Longrightarrow> \<not> q (f x)"
  shows "filter q (upd_where p f xs) = filter q xs"
  using assms by (induction xs) (auto simp: upd_where_def)

subsection \<open>Running a computation\<close>

lemma next_fault_db: "next_fault w = (b, w') \<Longrightarrow> w_db w' = w_db w"
  by (auto simp: next_fault_def split: list.splits)

lemma next_fault_none [simp]: "w_faults w = [] \<Longrightarrow> next_fault w = (False, w)"
  by (simp add: next_fault_def)

lemma fail_tx_db [simp]: "w_db (fail_tx w) = w_db w"
  by (simp add: fail_tx_def)

text \<open>A world in which no statement of the request meets an infrastructure fault and no
  transaction is open: the state in which a request starts.\<close>

abbreviation calm :: "world \<Rightarrow> bool" where
  "calm w \<equiv> w_faults w = [] \<and> w_tx w \<noteq> TxFailed"

lemma run_stmt:
  "calm w \<Longrightarrow> run_state (stmt f) w =
     (case f (w_db w) of Inl e \<Rightarrow> (Inl e, fail_tx w) | Inr (a, d) \<Rightarrow> (Inr a, w\<lparr>w_db := d\<rparr>))"
  by (simp add: stmt_def)

lemma run_query [simp]: "calm w \<Longrightarrow> run_state (query f) w = (Inr (f (w_db w)), w)"
  by (simp add: query_def run_stmt)

lemma run_query_row [simp]:
  "calm w \<Longrightarrow> run_state (query_row f) w =
     (case f (w_db w) of None \<Rightarrow> Inl NoRows | Some a \<Rightarrow> Inr a, w)"
  by (simp add: query_row_def split: option.split)

lemma run_exec [simp]: "calm w \<Longrightarrow> run_state (exec f) w = (Inr (), w\<lparr>w_db := f (w_db w)\<rparr>)"
  by (simp add: exec_def run_stmt)

lemma run_uuid_New [simp]:
  "run_state uuid_New w = (w_ids w (w_next w), w\<lparr>w_next := Suc (w_next w)\<rparr>)"
  by (simp add: uuid_New_def)

lemma run_time_Now [simp]: "run_state time_Now w = (w_now w, w)"
  by (simp add: time_Now_def)

lemma run_uuid_New_String [simp]:
  "run_state uuid_New_String w = (w_str w (w_ids w (w_next w)), w\<lparr>w_next := Suc (w_next w)\<rparr>)"
  by (simp add: uuid_New_String_def)

lemma run_SubmitOrRun [simp]:
  "run_state (SubmitOrRun name address) w = ((), w\<lparr>w_jobs := w_jobs w @ [(name, address)]\<rparr>)"
  by (simp add: SubmitOrRun_def)

lemma run_time_UnixMilli [simp]: "run_state time_UnixMilli w = (w_now w * 1000 + w_ms w, w)"
  by (simp add: time_UnixMilli_def)

subsection \<open>Database invariants\<close>

text \<open>\<open>keeps J m\<close>: the computation leaves the database invariant \<open>J\<close> true, whatever faults
  it meets and wherever it returns.\<close>

definition keeps :: "(db \<Rightarrow> bool) \<Rightarrow> 'a go \<Rightarrow> bool" where
  "keeps J m \<longleftrightarrow> (\<forall>w. J (w_db w) \<longrightarrow> J (w_db (snd (run_state m w))))"

definition stmt_keeps :: "(db \<Rightarrow> bool) \<Rightarrow> (db \<Rightarrow> goerr + 'a \<times> db) \<Rightarrow> bool" where
  "stmt_keeps J f \<longleftrightarrow> (\<forall>d a d'. J d \<longrightarrow> f d = Inr (a, d') \<longrightarrow> J d')"

lemma keeps_return [keeps_intros]: "keeps J (State_Monad.return x)"
  by (simp add: keeps_def)

lemma keeps_bind [keeps_intros]:
  "keeps J m \<Longrightarrow> (\<And>x. keeps J (f x)) \<Longrightarrow> keeps J (State_Monad.bind m f)"
  by (auto simp: keeps_def split: prod.split)

lemma keeps_if [keeps_intros]: "(b \<Longrightarrow> keeps J m) \<Longrightarrow> (\<not> b \<Longrightarrow> keeps J n) \<Longrightarrow> keeps J (if b then m else n)"
  by simp

lemma keeps_sum [keeps_intros]:
  "(\<And>e. keeps J (f e)) \<Longrightarrow> (\<And>x. keeps J (g x)) \<Longrightarrow> keeps J (case s of Inl e \<Rightarrow> f e | Inr x \<Rightarrow> g x)"
  by (simp split: sum.split)

lemma keeps_option [keeps_intros]:
  "keeps J m \<Longrightarrow> (\<And>x. s = Some x \<Longrightarrow> keeps J (g x)) \<Longrightarrow> keeps J (case s of None \<Rightarrow> m | Some x \<Rightarrow> g x)"
  by (simp split: option.split)

lemma keeps_prod [keeps_intros]:
  "(\<And>x y. keeps J (g x y)) \<Longrightarrow> keeps J (case s of (x, y) \<Rightarrow> g x y)"
  by (simp split: prod.split)

lemma keeps_let [keeps_intros]: "(\<And>x. x = a \<Longrightarrow> keeps J (g x)) \<Longrightarrow> keeps J (Let a g)"
  by simp

lemma keeps_stmt [keeps_intros]: "stmt_keeps J f \<Longrightarrow> keeps J (stmt f)"
  unfolding keeps_def stmt_def stmt_keeps_def
  by (auto dest: next_fault_db split: prod.split sum.split)

lemma keeps_query [keeps_intros]: "keeps J (query f)"
  unfolding query_def by (rule keeps_stmt) (simp add: stmt_keeps_def)

lemma keeps_query_row [keeps_intros]: "keeps J (query_row f)"
  unfolding query_row_def by (intro keeps_intros)

lemma keeps_exec [keeps_intros]: "(\<And>d. J d \<Longrightarrow> J (f d)) \<Longrightarrow> keeps J (exec f)"
  unfolding exec_def by (rule keeps_stmt) (simp add: stmt_keeps_def)

lemma keeps_uuid_New [keeps_intros]: "keeps J uuid_New"
  and keeps_time_Now [keeps_intros]: "keeps J time_Now"
  and keeps_uuid_New_String [keeps_intros]: "keeps J uuid_New_String"
  and keeps_time_UnixMilli [keeps_intros]: "keeps J time_UnixMilli"
  and keeps_SubmitOrRun [keeps_intros]: "keeps J (SubmitOrRun name address)"
  by (simp_all add: keeps_def)

subsection \<open>Triples\<close>

text \<open>\<open>triple P m Q\<close>: started on a database with \<open>P\<close>, the computation ends with a result and a
  database related by \<open>Q\<close>; \<open>keeps\<close> is the case of an invariant.\<close>

definition triple :: "(db \<Rightarrow> bool) \<Rightarrow> 'a go \<Rightarrow> ('a \<Rightarrow> db \<Rightarrow> bool) \<Rightarrow> bool" where
  "triple P m Q \<longleftrightarrow> (\<forall>w. P (w_db w) \<longrightarrow>
     Q (fst (run_state m w)) (w_db (snd (run_state m w))))"

lemma tripleD: "triple P m Q \<Longrightarrow> P (w_db w) \<Longrightarrow> Q (fst (run_state m w)) (w_db (snd (run_state m w)))"
  by (simp add: triple_def)

lemma keeps_triple: "keeps J m \<longleftrightarrow> triple J m (\<lambda>_. J)"
  by (simp add: keeps_def triple_def)

lemma triple_bind:
  assumes "triple P m R" "\<And>x. triple (R x) (f x) Q"
  shows "triple P (State_Monad.bind m f) Q"
  using assms by (simp add: triple_def split: prod.split) (metis fst_conv snd_conv)

lemma triple_conseq:
  assumes "triple P m Q" "\<And>d. P' d \<Longrightarrow> P d" "\<And>x d. Q x d \<Longrightarrow> Q' x d"
  shows "triple P' m Q'"
  using assms by (simp add: triple_def)

lemma triple_return: "(\<And>d. P d \<Longrightarrow> Q x d) \<Longrightarrow> triple P (State_Monad.return x) Q"
  by (simp add: triple_def)

lemma triple_query_row:
  "triple P (query_row f) (\<lambda>r d. P d \<and> (\<forall>a. r = Inr a \<longrightarrow> f d = Some a) \<and> (r = Inl NoRows \<longrightarrow> f d = None))"
  unfolding triple_def query_row_def query_def stmt_def
  by (auto dest: next_fault_db split: prod.split option.split)

lemma triple_query:
  "triple P (query f) (\<lambda>r d. P d \<and> (\<forall>a. r = Inr a \<longrightarrow> a = f d))"
  unfolding triple_def query_def stmt_def
  by (auto dest: next_fault_db split: prod.split)

lemma triple_stmt:
  assumes "\<And>d a d'. P d \<Longrightarrow> f d = Inr (a, d') \<Longrightarrow> Q (Inr a) d'" "\<And>d e. P d \<Longrightarrow> Q (Inl e) d"
  shows "triple P (stmt f) Q"
  unfolding triple_def stmt_def using assms
  by (auto dest: next_fault_db split: prod.split sum.split)

lemma triple_if: "(b \<Longrightarrow> triple P m Q) \<Longrightarrow> (\<not> b \<Longrightarrow> triple P n Q) \<Longrightarrow> triple P (if b then m else n) Q"
  by simp

lemma triple_uuid_New: "(\<And>d i. P d \<Longrightarrow> Q i d) \<Longrightarrow> triple P uuid_New Q"
  by (simp add: triple_def)

lemma triple_pure: "(A \<Longrightarrow> triple P m Q) \<Longrightarrow> triple (\<lambda>d. P d \<and> A) m Q"
  by (auto simp: triple_def)

lemma triple_keeps: "keeps P m \<Longrightarrow> triple P m (\<lambda>_. P)"
  by (simp add: keeps_triple)

lemma triple_exec:
  assumes "\<And>d. P d \<Longrightarrow> Q (Inr ()) (f d)" "\<And>d e. P d \<Longrightarrow> Q (Inl e) d"
  shows "triple P (exec f) Q"
  unfolding triple_def exec_def stmt_def using assms
  by (auto dest: next_fault_db split: prod.split)

text \<open>A postcondition of successful results.\<close>

definition ok_post :: "('a \<Rightarrow> db \<Rightarrow> bool) \<Rightarrow> 'e + 'a \<Rightarrow> db \<Rightarrow> bool" where
  "ok_post R r d \<longleftrightarrow> (case r of Inl _ \<Rightarrow> True | Inr x \<Rightarrow> R x d)"

lemma ok_post_simps [simp]: "ok_post R (Inl e) = (\<lambda>_. True)" "ok_post R (Inr x) = R x"
  by (simp_all add: ok_post_def fun_eq_iff)

lemma triple_bind_ok:
  assumes "triple P m (ok_post R)" "\<And>x. triple (R x) (f x) (ok_post Q)"
  shows "triple P (State_Monad.bind m (\<lambda>r. case r of Inl e \<Rightarrow> State_Monad.return (Inl (g e)) | Inr x \<Rightarrow> f x)) (ok_post Q)"
proof (rule triple_bind [OF assms(1)])
  fix r
  show "triple (ok_post R r) (case r of Inl e \<Rightarrow> State_Monad.return (Inl (g e)) | Inr x \<Rightarrow> f x) (ok_post Q)"
    using assms(2) by (cases r) (auto intro: triple_return)
qed

lemma triple_map_ok:
  assumes "triple P m (ok_post R)" "\<And>x d. R x d \<Longrightarrow> Q (f x) d"
  shows "triple P (State_Monad.bind m (\<lambda>r. State_Monad.return (case r of Inl e \<Rightarrow> Inl (g e) | Inr x \<Rightarrow> Inr (f x)))) (ok_post Q)"
proof (rule triple_bind [OF assms(1)])
  fix r
  show "triple (ok_post R r) (State_Monad.return (case r of Inl e \<Rightarrow> Inl (g e) | Inr x \<Rightarrow> Inr (f x))) (ok_post Q)"
    using assms(2) by (cases r) (auto intro: triple_return)
qed

lemma triple_stmt_ok:
  assumes "\<And>d a d'. P d \<Longrightarrow> f d = Inr (a, d') \<Longrightarrow> R a d'"
  shows "triple P (stmt f) (ok_post R)"
  using assms by (intro triple_stmt) auto

text \<open>A parameter of the model may be assumed to be exact where PostgreSQL's conversions are: an
  amount of whole cents survives a \<^verbatim>\<open>NUMERIC\<close> column with two decimals.\<close>

definition numeric_exact :: "db \<Rightarrow> bool" where
  "numeric_exact d \<longleftrightarrow> (\<forall>k. cent_range k \<longrightarrow> db_num d (cents k) = cents k)"

subsection \<open>Invariants of successful computations\<close>

text \<open>\<open>keeps_ok J m\<close>: when the computation succeeds, it leaves \<open>J\<close> true. This is what a
  transaction needs of its body, since a failure restores the database it started from.\<close>

definition keeps_ok :: "(db \<Rightarrow> bool) \<Rightarrow> ('e + 'a) go \<Rightarrow> bool" where
  "keeps_ok J m \<longleftrightarrow> triple J m (ok_post (\<lambda>_. J))"

named_theorems ok_intros \<open>rules that push an invariant through a transaction body\<close>

lemma keeps_ok_keeps [ok_intros]: "keeps J m \<Longrightarrow> keeps_ok J m"
  by (simp add: keeps_ok_def triple_def keeps_def ok_post_def split: sum.split)

lemma keeps_ok_bind [ok_intros]:
  assumes "keeps_ok J m" "\<And>x. keeps_ok J (f x)"
  shows "keeps_ok J (State_Monad.bind m (\<lambda>r. case r of Inl e \<Rightarrow> State_Monad.return (Inl (g e)) | Inr x \<Rightarrow> f x))"
  using assms unfolding keeps_ok_def by (rule triple_bind_ok)

lemma keeps_ok_bind_any [ok_intros]:
  assumes "keeps J m" "\<And>x. keeps_ok J (f x)"
  shows "keeps_ok J (State_Monad.bind m f)"
  using assms unfolding keeps_ok_def keeps_triple by (rule triple_bind)

lemma keeps_ok_if [ok_intros]:
  "(b \<Longrightarrow> keeps_ok J m) \<Longrightarrow> (\<not> b \<Longrightarrow> keeps_ok J n) \<Longrightarrow> keeps_ok J (if b then m else n)"
  by simp

lemma keeps_ok_option [ok_intros]:
  "keeps_ok J m \<Longrightarrow> (\<And>x. s = Some x \<Longrightarrow> keeps_ok J (g x)) \<Longrightarrow>
   keeps_ok J (case s of None \<Rightarrow> m | Some x \<Rightarrow> g x)"
  by (simp split: option.split)

lemma keeps_ok_let [ok_intros]: "(\<And>x. x = a \<Longrightarrow> keeps_ok J (g x)) \<Longrightarrow> keeps_ok J (Let a g)"
  by simp

lemma keeps_ok_map [ok_intros]:
  assumes "keeps_ok J m"
  shows "keeps_ok J (State_Monad.bind m (\<lambda>r. State_Monad.return (case r of Inl e \<Rightarrow> Inl (g e) | Inr x \<Rightarrow> Inr (f x))))"
  using assms unfolding keeps_ok_def by (rule triple_map_ok)

text \<open>A transaction keeps an invariant its body keeps: either the body's database is committed,
  or the database is the one the transaction started from.\<close>

lemma with_tx_result:
  obtains (aborted) e w' where "run_state (with_tx b c m) w = (Inl e, w')" "w_db w' = w_db w"
      "w_tx w = NoTx \<Longrightarrow> w_tx w' = NoTx"
  | (committed) a w1 w2 w' where "run_state (with_tx b c m) w = (Inr a, w')"
      "w_db w1 = w_db w" "run_state m w1 = (Inr a, w2)" "w_db w' = w_db w2" "w_tx w' = NoTx"
proof -
  obtain bad w1 where n1: "next_fault w = (bad, w1)" by fastforce
  obtain r w2 where m: "run_state m (w1\<lparr>w_tx := TxOpen\<rparr>) = (r, w2)" by fastforce
  obtain bad' w3 where n3: "next_fault w2 = (bad', w3)" by fastforce
  have db: "w_db w1 = w_db w" "w_db w3 = w_db w2" using n1 n3 next_fault_db by blast+
  have tx: "w_tx w1 = w_tx w" using n1 by (auto simp: next_fault_def split: list.splits)
  show thesis
  proof (cases "bad \<or> isl r \<or> bad' \<or> w_tx w3 = TxFailed")
    case True
    then have "\<exists>e w'. run_state (with_tx b c m) w = (Inl e, w') \<and> w_db w' = w_db w
        \<and> (w_tx w = NoTx \<longrightarrow> w_tx w' = NoTx)"
      using n1 m n3 db tx by (cases r) (auto simp: with_tx_def)
    then show ?thesis using aborted by blast
  next
    case False
    then obtain a where "r = Inr a" by (cases r) auto
    with False n1 m n3 db show ?thesis
      by (intro committed [of a "w3\<lparr>w_tx := NoTx\<rparr>" "w1\<lparr>w_tx := TxOpen\<rparr>" w2]) (auto simp: with_tx_def)
  qed
qed

lemma keeps_with_tx [keeps_intros]: "keeps_ok J m \<Longrightarrow> keeps J (with_tx b c m)"
  unfolding keeps_def
proof (intro allI impI)
  fix w :: world
  assume m: "keeps_ok J m" and J: "J (w_db w)"
  show "J (w_db (snd (run_state (with_tx b c m) w)))"
  proof (cases rule: with_tx_result [of b c m w])
    case (committed a w1 w2 w')
    from m have "ok_post (\<lambda>_. J) (fst (run_state m w1)) (w_db (snd (run_state m w1)))"
      using J committed(2) by (simp add: keeps_ok_def triple_def)
    with committed show ?thesis by simp
  qed (use J in simp)
qed

text \<open>A transaction that ends in an error leaves the database as it was.\<close>

lemma with_tx_rollback:
  assumes "run_state (with_tx b c m) w = (Inl e, w')"
  shows "w_db w' = w_db w"
  using assms by (cases rule: with_tx_result [of b c m w]) auto

lemma with_tx_NoTx: "w_tx w = NoTx \<Longrightarrow> w_tx (snd (run_state (with_tx b c m) w)) = NoTx"
  by (cases rule: with_tx_result [of b c m w]) auto

text \<open>With no fault ahead, a transaction commits what its body did unless the body failed.\<close>

lemma run_with_tx:
  assumes "w_faults w = []" "run_state m (w\<lparr>w_tx := TxOpen\<rparr>) = (r, w2)" "w_faults w2 = []"
  shows "run_state (with_tx b c m) w =
    (case r of
       Inl e \<Rightarrow> (Inl e, w2\<lparr>w_db := w_db w, w_tx := NoTx\<rparr>)
     | Inr a \<Rightarrow> if w_tx w2 = TxFailed then (Inl (c TxAborted), w2\<lparr>w_db := w_db w, w_tx := NoTx\<rparr>)
                else (Inr a, w2\<lparr>w_tx := NoTx\<rparr>))"
  using assms by (simp add: with_tx_def split: sum.split)

subsection \<open>Tenants\<close>

text \<open>The rows of the tenants other than \<open>h\<close>: a request of tenant \<open>h\<close> must leave them alone.\<close>

definition others :: "uuid \<Rightarrow> db \<Rightarrow> db" where
  "others h d = d\<lparr>
     rooms := filter (\<lambda>x. rm_hotel x \<noteq> h) (rooms d), stays := filter (\<lambda>x. gs_hotel x \<noteq> h) (stays d),
     guests := filter (\<lambda>x. gu_hotel x \<noteq> h) (guests d), folios := filter (\<lambda>x. fo_hotel x \<noteq> h) (folios d),
     charges := filter (\<lambda>x. fc_hotel x \<noteq> h) (charges d), payments := filter (\<lambda>x. py_hotel x \<noteq> h) (payments d),
     promotions := filter (\<lambda>x. pr_hotel x \<noteq> h) (promotions d), tasks := filter (\<lambda>x. hk_hotel x \<noteq> h) (tasks d),
     accounts := filter (\<lambda>x. ac_hotel x \<noteq> h) (accounts d), entries := filter (\<lambda>x. je_hotel x \<noteq> h) (entries d),
     jlines := filter (\<lambda>x. jl_hotel x \<noteq> h) (jlines d), counters := filter (\<lambda>x. vc_hotel x \<noteq> h) (counters d),
     customers := filter (\<lambda>x. cu_hotel x \<noteq> h) (customers d), invoices := filter (\<lambda>x. in_hotel x \<noteq> h) (invoices d),
     invlines := filter (\<lambda>x. il_hotel x \<noteq> h) (invlines d), tables := filter (\<lambda>x. tb_hotel x \<noteq> h) (tables d),
     sessions := filter (\<lambda>x. ds_hotel x \<noteq> h) (sessions d), kots := filter (\<lambda>x. kt_hotel x \<noteq> h) (kots d),
     kitems := filter (\<lambda>x. ki_hotel x \<noteq> h) (kitems d), bills := filter (\<lambda>x. bl_hotel x \<noteq> h) (bills d),
     bpayments := filter (\<lambda>x. bp_hotel x \<noteq> h) (bpayments d), splits := filter (\<lambda>x. sp_hotel x \<noteq> h) (splits d)\<rparr>"

lemma filter_upd_where_scoped:
  assumes "\<And>x. p x \<Longrightarrow> key x = h" "\<And>x. key (f x) = key x"
  shows "filter (\<lambda>x. key x \<noteq> h) (upd_where p f xs) = filter (\<lambda>x. key x \<noteq> h) xs"
  using assms by (intro filter_upd_where_other) auto

text \<open>A write to one table that keeps the rows of the others.\<close>

lemma others_upd:
  "filter (\<lambda>x. rm_hotel x \<noteq> h) xs_rooms = filter (\<lambda>x. rm_hotel x \<noteq> h) (rooms d) \<Longrightarrow>
     others h (d\<lparr>rooms := xs_rooms\<rparr>) = others h d"
  "filter (\<lambda>x. gs_hotel x \<noteq> h) xs_stays = filter (\<lambda>x. gs_hotel x \<noteq> h) (stays d) \<Longrightarrow>
     others h (d\<lparr>stays := xs_stays\<rparr>) = others h d"
  "filter (\<lambda>x. gu_hotel x \<noteq> h) xs_guests = filter (\<lambda>x. gu_hotel x \<noteq> h) (guests d) \<Longrightarrow>
     others h (d\<lparr>guests := xs_guests\<rparr>) = others h d"
  "filter (\<lambda>x. fo_hotel x \<noteq> h) xs_folios = filter (\<lambda>x. fo_hotel x \<noteq> h) (folios d) \<Longrightarrow>
     others h (d\<lparr>folios := xs_folios\<rparr>) = others h d"
  "filter (\<lambda>x. fc_hotel x \<noteq> h) xs_charges = filter (\<lambda>x. fc_hotel x \<noteq> h) (charges d) \<Longrightarrow>
     others h (d\<lparr>charges := xs_charges\<rparr>) = others h d"
  "filter (\<lambda>x. py_hotel x \<noteq> h) xs_payments = filter (\<lambda>x. py_hotel x \<noteq> h) (payments d) \<Longrightarrow>
     others h (d\<lparr>payments := xs_payments\<rparr>) = others h d"
  "filter (\<lambda>x. pr_hotel x \<noteq> h) xs_promotions = filter (\<lambda>x. pr_hotel x \<noteq> h) (promotions d) \<Longrightarrow>
     others h (d\<lparr>promotions := xs_promotions\<rparr>) = others h d"
  "filter (\<lambda>x. hk_hotel x \<noteq> h) xs_tasks = filter (\<lambda>x. hk_hotel x \<noteq> h) (tasks d) \<Longrightarrow>
     others h (d\<lparr>tasks := xs_tasks\<rparr>) = others h d"
  "filter (\<lambda>x. ac_hotel x \<noteq> h) xs_accounts = filter (\<lambda>x. ac_hotel x \<noteq> h) (accounts d) \<Longrightarrow>
     others h (d\<lparr>accounts := xs_accounts\<rparr>) = others h d"
  "filter (\<lambda>x. je_hotel x \<noteq> h) xs_entries = filter (\<lambda>x. je_hotel x \<noteq> h) (entries d) \<Longrightarrow>
     others h (d\<lparr>entries := xs_entries\<rparr>) = others h d"
  "filter (\<lambda>x. jl_hotel x \<noteq> h) xs_jlines = filter (\<lambda>x. jl_hotel x \<noteq> h) (jlines d) \<Longrightarrow>
     others h (d\<lparr>jlines := xs_jlines\<rparr>) = others h d"
  "filter (\<lambda>x. vc_hotel x \<noteq> h) xs_counters = filter (\<lambda>x. vc_hotel x \<noteq> h) (counters d) \<Longrightarrow>
     others h (d\<lparr>counters := xs_counters\<rparr>) = others h d"
  "filter (\<lambda>x. cu_hotel x \<noteq> h) xs_customers = filter (\<lambda>x. cu_hotel x \<noteq> h) (customers d) \<Longrightarrow>
     others h (d\<lparr>customers := xs_customers\<rparr>) = others h d"
  "filter (\<lambda>x. in_hotel x \<noteq> h) xs_invoices = filter (\<lambda>x. in_hotel x \<noteq> h) (invoices d) \<Longrightarrow>
     others h (d\<lparr>invoices := xs_invoices\<rparr>) = others h d"
  "filter (\<lambda>x. il_hotel x \<noteq> h) xs_invlines = filter (\<lambda>x. il_hotel x \<noteq> h) (invlines d) \<Longrightarrow>
     others h (d\<lparr>invlines := xs_invlines\<rparr>) = others h d"
  "filter (\<lambda>x. tb_hotel x \<noteq> h) xs_tables = filter (\<lambda>x. tb_hotel x \<noteq> h) (tables d) \<Longrightarrow>
     others h (d\<lparr>tables := xs_tables\<rparr>) = others h d"
  "filter (\<lambda>x. ds_hotel x \<noteq> h) xs_sessions = filter (\<lambda>x. ds_hotel x \<noteq> h) (sessions d) \<Longrightarrow>
     others h (d\<lparr>sessions := xs_sessions\<rparr>) = others h d"
  "filter (\<lambda>x. kt_hotel x \<noteq> h) xs_kots = filter (\<lambda>x. kt_hotel x \<noteq> h) (kots d) \<Longrightarrow>
     others h (d\<lparr>kots := xs_kots\<rparr>) = others h d"
  "filter (\<lambda>x. ki_hotel x \<noteq> h) xs_kitems = filter (\<lambda>x. ki_hotel x \<noteq> h) (kitems d) \<Longrightarrow>
     others h (d\<lparr>kitems := xs_kitems\<rparr>) = others h d"
  "filter (\<lambda>x. bl_hotel x \<noteq> h) xs_bills = filter (\<lambda>x. bl_hotel x \<noteq> h) (bills d) \<Longrightarrow>
     others h (d\<lparr>bills := xs_bills\<rparr>) = others h d"
  "filter (\<lambda>x. bp_hotel x \<noteq> h) xs_bpayments = filter (\<lambda>x. bp_hotel x \<noteq> h) (bpayments d) \<Longrightarrow>
     others h (d\<lparr>bpayments := xs_bpayments\<rparr>) = others h d"
  "filter (\<lambda>x. sp_hotel x \<noteq> h) xs_splits = filter (\<lambda>x. sp_hotel x \<noteq> h) (splits d) \<Longrightarrow>
     others h (d\<lparr>splits := xs_splits\<rparr>) = others h d"
  by (simp_all add: others_def)

text \<open>An update scoped to the tenant that keeps the tenant column.\<close>

lemma others_upd_where:
  "(\<And>x. p_rooms x \<Longrightarrow> rm_hotel x = h) \<Longrightarrow> (\<And>x. rm_hotel (f_rooms x) = rm_hotel x) \<Longrightarrow>
     others h (d\<lparr>rooms := upd_where p_rooms f_rooms (rooms d)\<rparr>) = others h d"
  "(\<And>x. p_stays x \<Longrightarrow> gs_hotel x = h) \<Longrightarrow> (\<And>x. gs_hotel (f_stays x) = gs_hotel x) \<Longrightarrow>
     others h (d\<lparr>stays := upd_where p_stays f_stays (stays d)\<rparr>) = others h d"
  "(\<And>x. p_guests x \<Longrightarrow> gu_hotel x = h) \<Longrightarrow> (\<And>x. gu_hotel (f_guests x) = gu_hotel x) \<Longrightarrow>
     others h (d\<lparr>guests := upd_where p_guests f_guests (guests d)\<rparr>) = others h d"
  "(\<And>x. p_folios x \<Longrightarrow> fo_hotel x = h) \<Longrightarrow> (\<And>x. fo_hotel (f_folios x) = fo_hotel x) \<Longrightarrow>
     others h (d\<lparr>folios := upd_where p_folios f_folios (folios d)\<rparr>) = others h d"
  "(\<And>x. p_charges x \<Longrightarrow> fc_hotel x = h) \<Longrightarrow> (\<And>x. fc_hotel (f_charges x) = fc_hotel x) \<Longrightarrow>
     others h (d\<lparr>charges := upd_where p_charges f_charges (charges d)\<rparr>) = others h d"
  "(\<And>x. p_payments x \<Longrightarrow> py_hotel x = h) \<Longrightarrow> (\<And>x. py_hotel (f_payments x) = py_hotel x) \<Longrightarrow>
     others h (d\<lparr>payments := upd_where p_payments f_payments (payments d)\<rparr>) = others h d"
  "(\<And>x. p_promotions x \<Longrightarrow> pr_hotel x = h) \<Longrightarrow> (\<And>x. pr_hotel (f_promotions x) = pr_hotel x) \<Longrightarrow>
     others h (d\<lparr>promotions := upd_where p_promotions f_promotions (promotions d)\<rparr>) = others h d"
  "(\<And>x. p_tasks x \<Longrightarrow> hk_hotel x = h) \<Longrightarrow> (\<And>x. hk_hotel (f_tasks x) = hk_hotel x) \<Longrightarrow>
     others h (d\<lparr>tasks := upd_where p_tasks f_tasks (tasks d)\<rparr>) = others h d"
  "(\<And>x. p_accounts x \<Longrightarrow> ac_hotel x = h) \<Longrightarrow> (\<And>x. ac_hotel (f_accounts x) = ac_hotel x) \<Longrightarrow>
     others h (d\<lparr>accounts := upd_where p_accounts f_accounts (accounts d)\<rparr>) = others h d"
  "(\<And>x. p_entries x \<Longrightarrow> je_hotel x = h) \<Longrightarrow> (\<And>x. je_hotel (f_entries x) = je_hotel x) \<Longrightarrow>
     others h (d\<lparr>entries := upd_where p_entries f_entries (entries d)\<rparr>) = others h d"
  "(\<And>x. p_jlines x \<Longrightarrow> jl_hotel x = h) \<Longrightarrow> (\<And>x. jl_hotel (f_jlines x) = jl_hotel x) \<Longrightarrow>
     others h (d\<lparr>jlines := upd_where p_jlines f_jlines (jlines d)\<rparr>) = others h d"
  "(\<And>x. p_counters x \<Longrightarrow> vc_hotel x = h) \<Longrightarrow> (\<And>x. vc_hotel (f_counters x) = vc_hotel x) \<Longrightarrow>
     others h (d\<lparr>counters := upd_where p_counters f_counters (counters d)\<rparr>) = others h d"
  "(\<And>x. p_customers x \<Longrightarrow> cu_hotel x = h) \<Longrightarrow> (\<And>x. cu_hotel (f_customers x) = cu_hotel x) \<Longrightarrow>
     others h (d\<lparr>customers := upd_where p_customers f_customers (customers d)\<rparr>) = others h d"
  "(\<And>x. p_invoices x \<Longrightarrow> in_hotel x = h) \<Longrightarrow> (\<And>x. in_hotel (f_invoices x) = in_hotel x) \<Longrightarrow>
     others h (d\<lparr>invoices := upd_where p_invoices f_invoices (invoices d)\<rparr>) = others h d"
  "(\<And>x. p_invlines x \<Longrightarrow> il_hotel x = h) \<Longrightarrow> (\<And>x. il_hotel (f_invlines x) = il_hotel x) \<Longrightarrow>
     others h (d\<lparr>invlines := upd_where p_invlines f_invlines (invlines d)\<rparr>) = others h d"
  "(\<And>x. p_tables x \<Longrightarrow> tb_hotel x = h) \<Longrightarrow> (\<And>x. tb_hotel (f_tables x) = tb_hotel x) \<Longrightarrow>
     others h (d\<lparr>tables := upd_where p_tables f_tables (tables d)\<rparr>) = others h d"
  "(\<And>x. p_sessions x \<Longrightarrow> ds_hotel x = h) \<Longrightarrow> (\<And>x. ds_hotel (f_sessions x) = ds_hotel x) \<Longrightarrow>
     others h (d\<lparr>sessions := upd_where p_sessions f_sessions (sessions d)\<rparr>) = others h d"
  "(\<And>x. p_kots x \<Longrightarrow> kt_hotel x = h) \<Longrightarrow> (\<And>x. kt_hotel (f_kots x) = kt_hotel x) \<Longrightarrow>
     others h (d\<lparr>kots := upd_where p_kots f_kots (kots d)\<rparr>) = others h d"
  "(\<And>x. p_kitems x \<Longrightarrow> ki_hotel x = h) \<Longrightarrow> (\<And>x. ki_hotel (f_kitems x) = ki_hotel x) \<Longrightarrow>
     others h (d\<lparr>kitems := upd_where p_kitems f_kitems (kitems d)\<rparr>) = others h d"
  "(\<And>x. p_bills x \<Longrightarrow> bl_hotel x = h) \<Longrightarrow> (\<And>x. bl_hotel (f_bills x) = bl_hotel x) \<Longrightarrow>
     others h (d\<lparr>bills := upd_where p_bills f_bills (bills d)\<rparr>) = others h d"
  "(\<And>x. p_bpayments x \<Longrightarrow> bp_hotel x = h) \<Longrightarrow> (\<And>x. bp_hotel (f_bpayments x) = bp_hotel x) \<Longrightarrow>
     others h (d\<lparr>bpayments := upd_where p_bpayments f_bpayments (bpayments d)\<rparr>) = others h d"
  "(\<And>x. p_splits x \<Longrightarrow> sp_hotel x = h) \<Longrightarrow> (\<And>x. sp_hotel (f_splits x) = sp_hotel x) \<Longrightarrow>
     others h (d\<lparr>splits := upd_where p_splits f_splits (splits d)\<rparr>) = others h d"
  by (rule others_upd, rule filter_upd_where_scoped, blast, blast)+

subsection \<open>Responses\<close>

text \<open>The answer of a handler: \<^verbatim>\<open>response.OK\<close> or \<^verbatim>\<open>response.Created\<close> with its data, or
  \<^verbatim>\<open>response.Error\<close> with a status and a message.\<close>

datatype 'a response = Resp nat 'a | Fail nat string

definition OK :: "'a \<Rightarrow> 'a response" where "OK a = Resp 200 a"
definition Created :: "'a \<Rightarrow> 'a response" where "Created a = Resp 201 a"

definition fail :: "nat \<Rightarrow> string \<Rightarrow> 'a response go" where
  "fail n msg = State_Monad.return (Fail n msg)"

lemma keeps_fail [keeps_intros]: "keeps J (fail n msg)"
  by (simp add: fail_def keeps_return)

lemma run_fail [simp]: "run_state (fail n msg) w = (Fail n msg, w)"
  by (simp add: fail_def)

fun succeeded :: "'a response \<Rightarrow> bool" where
  "succeeded (Resp _ _) = True"
| "succeeded (Fail _ _) = False"

subsection \<open>Failed requests\<close>

text \<open>\<open>reads m\<close>: the computation does not change the database. \<open>rolls_back m\<close>: it does not when it
  ends in an error. \<open>answers m\<close>: the handler answers with success. \<open>clean m\<close>: when the handler
  answers with a failure, the database is the one the request found.\<close>

definition reads :: "'a go \<Rightarrow> bool" where
  "reads m \<longleftrightarrow> (\<forall>w. w_db (snd (run_state m w)) = w_db w)"

definition rolls_back :: "('e + 'a) go \<Rightarrow> bool" where
  "rolls_back m \<longleftrightarrow> (\<forall>w. isl (fst (run_state m w)) \<longrightarrow> w_db (snd (run_state m w)) = w_db w)"

definition answers :: "'a response go \<Rightarrow> bool" where
  "answers m \<longleftrightarrow> (\<forall>w. succeeded (fst (run_state m w)))"

definition clean :: "'a response go \<Rightarrow> bool" where
  "clean m \<longleftrightarrow> (\<forall>w. \<not> succeeded (fst (run_state m w)) \<longrightarrow> w_db (snd (run_state m w)) = w_db w)"

lemma reads_keeps: "reads m \<longleftrightarrow> (\<forall>d0. keeps (\<lambda>d. d = d0) m)"
  by (auto simp: reads_def keeps_def)

lemma readsI: "(\<And>d0. keeps (\<lambda>d. d = d0) m) \<Longrightarrow> reads m"
  by (simp add: reads_keeps)

named_theorems clean_intros \<open>rules that show that a failed request changes nothing\<close>

lemma clean_reads: "reads m \<Longrightarrow> clean m"
  by (simp add: reads_def clean_def)

lemma clean_return [clean_intros]: "clean (State_Monad.return x)"
  by (simp add: clean_def)

lemma clean_fail [clean_intros]: "clean (fail n msg)"
  by (simp add: clean_def)

lemma clean_bind [clean_intros]:
  "reads m \<Longrightarrow> (\<And>x. clean (f x)) \<Longrightarrow> clean (State_Monad.bind m f)"
  by (simp add: reads_def clean_def split: prod.split) (metis prod.collapse snd_conv)

lemma clean_if [clean_intros]: "(b \<Longrightarrow> clean m) \<Longrightarrow> (\<not> b \<Longrightarrow> clean n) \<Longrightarrow> clean (if b then m else n)"
  by simp

lemma clean_let [clean_intros]: "(\<And>x. x = a \<Longrightarrow> clean (g x)) \<Longrightarrow> clean (Let a g)"
  by simp

lemma clean_sum [clean_intros]:
  "(\<And>e. clean (f e)) \<Longrightarrow> (\<And>x. clean (g x)) \<Longrightarrow> clean (case s of Inl e \<Rightarrow> f e | Inr x \<Rightarrow> g x)"
  by (simp split: sum.split)

lemma clean_option [clean_intros]:
  "clean m \<Longrightarrow> (\<And>x. clean (g x)) \<Longrightarrow> clean (case s of None \<Rightarrow> m | Some x \<Rightarrow> g x)"
  by (simp split: option.split)

lemma clean_prod [clean_intros]: "(\<And>x y. clean (g x y)) \<Longrightarrow> clean (case s of (x, y) \<Rightarrow> g x y)"
  by (simp split: prod.split)

text \<open>The write of a handler: it rolls back on an error, and the handler answers with success after
  it went through.\<close>

lemma clean_write:
  assumes "rolls_back m" "\<And>e. clean (f e)" "\<And>x. answers (g x)"
  shows "clean (State_Monad.bind m (\<lambda>r. case r of Inl e \<Rightarrow> f e | Inr x \<Rightarrow> g x))"
  unfolding clean_def
proof (intro allI impI)
  fix w
  let ?k = "\<lambda>r. case r of Inl e \<Rightarrow> f e | Inr x \<Rightarrow> g x"
  assume bad: "\<not> succeeded (fst (run_state (State_Monad.bind m ?k) w))"
  obtain r w1 where m: "run_state m w = (r, w1)" by fastforce
  show "w_db (snd (run_state (State_Monad.bind m ?k) w)) = w_db w"
  proof (cases r)
    case (Inl e)
    then have "w_db w1 = w_db w" using assms(1) m unfolding rolls_back_def by (metis fst_conv snd_conv isl_def)
    moreover have "w_db (snd (run_state (f e) w1)) = w_db w1"
      using assms(2) [of e] bad m Inl by (simp add: clean_def)
    ultimately show ?thesis using m Inl by simp
  next
    case (Inr x)
    then show ?thesis using assms(3) [of x] bad m by (simp add: answers_def)
  qed
qed

lemma rolls_back_with_tx: "rolls_back (with_tx b c m)"
  unfolding rolls_back_def
  by (metis isl_def prod.collapse with_tx_rollback)

lemma rolls_back_stmt: "rolls_back (stmt f)"
  unfolding rolls_back_def stmt_def
  by (auto dest: next_fault_db split: prod.split sum.split)

lemma answers_return: "succeeded x \<Longrightarrow> answers (State_Monad.return x)"
  by (simp add: answers_def)

lemma answers_prod: "(\<And>x y. answers (g x y)) \<Longrightarrow> answers (case s of (x, y) \<Rightarrow> g x y)"
  by (simp split: prod.split)

lemma answers_bind: "(\<And>x. answers (f x)) \<Longrightarrow> answers (State_Monad.bind m f)"
  by (simp add: answers_def split: prod.split)

subsection \<open>Concrete worlds\<close>

text \<open>An empty database, and the world in which a request starts on a database at a given time,
  with fresh identifiers from 1000 on, no faults, and a \<^verbatim>\<open>NUMERIC\<close> column that returns what
  was stored. The examples run the handlers on them.\<close>

definition empty_db :: db where
  "empty_db = \<lparr>hotels = [], rooms = [], stays = [], guests = [], folios = [], charges = [],
     payments = [], promotions = [], tasks = [], accounts = [], entries = [], jlines = [],
     counters = [], customers = [], invoices = [], invlines = [], tables = [], outlets = [],
     sessions = [], kots = [], kitems = [], menu = [], bills = [], bpayments = [], splits = [], db_num = (\<lambda>x. x)\<rparr>"

definition start :: "db \<Rightarrow> time \<Rightarrow> world" where
  "start d now = \<lparr>w_db = d, w_tx = NoTx, w_now = now, w_ids = (\<lambda>n. n + 1000), w_next = 0,
     w_faults = [], w_str = show_padded 6, w_ms = 0, w_jobs = []\<rparr>"

lemma start_simps [simp]:
  "w_db (start d now) = d" "w_tx (start d now) = NoTx" "w_now (start d now) = now"
  "w_faults (start d now) = []"
  "w_ids (start d now) = (\<lambda>n. n + 1000)" "w_next (start d now) = 0"
  "w_str (start d now) = show_padded 6" "w_ms (start d now) = 0" "w_jobs (start d now) = []"
  by (simp_all add: start_def)

end
