(* ===== verification/Pricing.thy ===== *)
theory Pricing
  imports Store
begin

text \<open>
  Pricing of a stay and validation of what the desk sends: \<open>priceStay\<close>, \<open>resolveStayDates\<close>,
  \<open>applyClockTime\<close> and the payment validation of \<^verbatim>\<open>reservation_handler.go\<close>, and the promo
  codes of \<^verbatim>\<open>promo.go\<close>. A message built with \<^verbatim>\<open>fmt.Sprintf\<close> is represented by its format
  string.
\<close>

subsection \<open>Requests\<close>

record reservationPaymentRequest =
  p_method :: string
  p_amount :: rat
  p_upi :: string
  p_txn :: string
  p_last4 :: string
  p_auth :: string
  p_cash :: rat

record createReservationRequest =
  r_guest_name :: string
  r_guest_email :: string
  r_guest_phone :: string
  r_room_id :: string
  r_check_in :: string
  r_check_out :: string
  r_source :: string
  r_notes :: string
  r_adults :: int
  r_children :: int
  r_approach :: string
  r_nights :: int
  r_promo :: string
  r_in_time :: string
  r_out_time :: string
  r_id_type :: string
  r_id_number :: string
  r_payment :: "reservationPaymentRequest option"

subsection \<open>Stay dates\<close>

definition applyClockTime :: "time \<Rightarrow> string \<Rightarrow> string + time" where
  "applyClockTime day clock =
     (let clock = TrimSpace clock in
      if clock = [] then Inr day
      else case parse_clock clock of
          None \<Rightarrow> Inl ''use HH:MM, got %q''
        | Some s \<Rightarrow> Inr (day_of day * day_secs + s))"

definition resolveStayDates :: "createReservationRequest \<Rightarrow> string + time \<times> time" where
  "resolveStayDates req =
     (case parse_date (r_check_in req) of
        None \<Rightarrow> Inl ''invalid check_in_date (use YYYY-MM-DD)''
      | Some checkIn \<Rightarrow>
          (let hasOut = r_check_out req \<noteq> []; parsed = parse_date (r_check_out req) in
           if hasOut \<and> parsed = None then Inl ''invalid check_out_date (use YYYY-MM-DD)''
           else
             let derived = checkIn + r_nights req * day_secs in
             if 0 < r_nights req \<and> hasOut \<and> parsed \<noteq> Some derived
             then Inl ''check_out_date %s does not match duration_nights %d (expected %s)''
             else if \<not> 0 < r_nights req \<and> \<not> hasOut
             then Inl ''check_out_date or duration_nights is required''
             else
               let checkOut = (if 0 < r_nights req then derived else the parsed) in
               case applyClockTime checkIn (r_in_time req) of
                 Inl e \<Rightarrow> Inl (''invalid check_in_time: '' @ e)
               | Inr ci \<Rightarrow>
                   (case applyClockTime checkOut (r_out_time req) of
                      Inl e \<Rightarrow> Inl (''invalid check_out_time: '' @ e)
                    | Inr co \<Rightarrow>
                        if \<not> ci < co then Inl ''check_out must be after check_in''
                        else Inr (ci, co))))"

subsection \<open>The quote\<close>

record stayQuote =
  q_nights :: int
  q_rate :: rat
  q_base :: rat
  q_discount :: rat
  q_tax_rate :: rat
  q_tax :: rat
  q_payable :: rat

definition priceStay :: "rat \<Rightarrow> time \<Rightarrow> time \<Rightarrow> rat \<Rightarrow> rat \<Rightarrow> stayQuote" where
  "priceStay roomRate checkIn checkOut taxRate discount =
     (let n = CalendarNights checkIn checkOut;
          nights = (if n < 1 then 1 else n);
          base = round2 (fmul roomRate (of_int nights));
          discount = (if base < discount then base else discount);
          taxable = fsub base discount;
          tax = round2 (fdiv (fmul taxable taxRate) 100)
      in \<lparr>q_nights = nights, q_rate = roomRate, q_base = base, q_discount = round2 discount,
          q_tax_rate = taxRate, q_tax = tax, q_payable = round2 (fadd taxable tax)\<rparr>)"

subsection \<open>Payment validation\<close>

text \<open>\<^verbatim>\<open>func (p *reservationPaymentRequest) validate\<close>: the error, if any.\<close>

definition validate :: "reservationPaymentRequest \<Rightarrow> rat \<Rightarrow> string option" where
  "validate p payable =
     (let method = ToLower (TrimSpace (p_method p)) in
      if method = [] then Some ''payment.method is required''
      else if method = ''upi'' then
        (if TrimSpace (p_upi p) = [] \<or> TrimSpace (p_txn p) = []
         then Some ''upi payments require upi_id and transaction_ref'' else None)
      else if method = ''card'' then
        (if TrimSpace (p_auth p) = [] then Some ''card payments require auth_code''
         else let last4 = TrimSpace (p_last4 p) in
           if last4 = [] then None
           else if length last4 \<noteq> 4
           then Some ''card_last4 must be exactly 4 digits - never send a full card number''
           else if \<not> list_all is_digit last4 then Some ''card_last4 must be 4 digits'' else None)
      else if method = ''cash'' then
        (if round2 (p_cash p) < round2 payable
         then Some ''cash_received %.2f is less than the payable %.2f'' else None)
      else if method \<in> {''credit'', ''room'', ''bill_to_room'', ''account''} then None
      else Some ''unsupported payment method %q'')"

subsection \<open>Promo codes\<close>

record promoResult =
  o_id :: uuid
  o_valid :: bool
  o_code :: string
  o_name :: string
  o_discount :: rat
  o_message :: string

definition find_promo :: "uuid \<Rightarrow> string \<Rightarrow> db \<Rightarrow> Promotion option" where
  "find_promo h code d =
     find (\<lambda>p. pr_hotel p = h \<and> ToUpper (pr_code p) = ToUpper code) (promotions d)"

text \<open>The \<^verbatim>\<open>switch\<close> of \<open>resolvePromo\<close>: why a code is refused, if it is.\<close>

definition promo_refusal :: "Promotion \<Rightarrow> time \<Rightarrow> rat \<Rightarrow> int \<Rightarrow> string option" where
  "promo_refusal p now base nights =
     (let usageLimit = (case pr_usage_limit p of None \<Rightarrow> 0 | Some l \<Rightarrow> l);
          minNights = (case pr_min_nights p of None \<Rightarrow> 0 | Some n \<Rightarrow> n);
          minAmount = (case pr_min_amount p of None \<Rightarrow> 0 | Some a \<Rightarrow> a) in
      if \<not> pr_active p then Some ''promo code is inactive''
      else if now < pr_from p then Some ''promo code is not yet valid''
      else if pr_to p < now then Some ''promo code has expired''
      else if 0 < usageLimit \<and> usageLimit \<le> pr_used p then Some ''promo code usage limit reached''
      else if 0 < minNights \<and> 0 \<le> nights \<and> nights < minNights
      then Some ''promo code requires a longer stay''
      else if 0 < minAmount \<and> base < minAmount
      then Some ''booking total is below the promo code minimum''
      else None)"

definition promo_discount :: "Promotion \<Rightarrow> rat \<Rightarrow> rat" where
  "promo_discount p base =
     (let d = (if EqualFold (pr_type p) ''percentage'' then fdiv (fmul base (pr_value p)) 100
               else pr_value p);
          d = (case pr_max_discount p of None \<Rightarrow> d
               | Some m \<Rightarrow> if 0 < m \<and> m < d then m else d)
      in round2 (if base < d then base else d))"

definition resolvePromo :: "uuid \<Rightarrow> string \<Rightarrow> rat \<Rightarrow> int \<Rightarrow> (goerr + promoResult) go" where
  "resolvePromo h code0 base nights =
     (let code = TrimSpace code0;
          res = \<lparr>o_id = uuid_Nil, o_valid = False, o_code = code, o_name = [],
                 o_discount = 0, o_message = []\<rparr> in
      if code = [] then State_Monad.return (Inr (res\<lparr>o_message := ''no promo code supplied''\<rparr>))
      else do {
        r \<leftarrow> query_row (find_promo h code);
        now \<leftarrow> time_Now;
        State_Monad.return (case r of
          Inl NoRows \<Rightarrow> Inr (res\<lparr>o_message := ''promo code not found''\<rparr>)
        | Inl e \<Rightarrow> Inl e
        | Inr p \<Rightarrow>
            (let res = res\<lparr>o_id := pr_id p, o_name := pr_name p\<rparr> in
             case promo_refusal p now base nights of
               Some msg \<Rightarrow> Inr (res\<lparr>o_message := msg\<rparr>)
             | None \<Rightarrow> Inr (res\<lparr>o_valid := True, o_discount := promo_discount p base,
                               o_message := ''promo code applied successfully''\<rparr>)))
      })"

text \<open>The guard of the redeeming \<^verbatim>\<open>UPDATE\<close>. A comparison with a \<^verbatim>\<open>NULL\<close> limit is not true,
  so a row without a limit is not matched.\<close>

definition redeemable :: "uuid \<Rightarrow> uuid \<Rightarrow> Promotion \<Rightarrow> bool" where
  "redeemable h pid p \<longleftrightarrow> pr_id p = pid \<and> pr_hotel p = h \<and> pr_active p \<and>
     (case pr_usage_limit p of None \<Rightarrow> False | Some l \<Rightarrow> l = 0 \<or> pr_used p < l)"

definition sql_redeem :: "uuid \<Rightarrow> uuid \<Rightarrow> db \<Rightarrow> goerr + nat \<times> db" where
  "sql_redeem h pid d = Inr (affected (redeemable h pid) (promotions d),
     d\<lparr>promotions := upd_where (redeemable h pid) (\<lambda>p. p\<lparr>pr_used := pr_used p + 1\<rparr>) (promotions d)\<rparr>)"

definition redeemPromo :: "uuid \<Rightarrow> uuid \<Rightarrow> (goerr + unit) go" where
  "redeemPromo h pid =
     (if pid = uuid_Nil then State_Monad.return (Inr ())
      else do {
        r \<leftarrow> stmt (sql_redeem h pid);
        State_Monad.return (case r of Inl e \<Rightarrow> Inl e
          | Inr n \<Rightarrow> if n = 0 then Inl ErrPromoNotApplicable else Inr ())
      })"

subsection \<open>Facts about the quote\<close>

lemma go_round_err: "\<bar>of_int (go_round x) - x\<bar> \<le> 1 / 2"
proof (cases "x < 0")
  case True
  then have "go_round x = - \<lfloor>- x + 1 / 2\<rfloor>" by (simp add: go_round_def)
  then show ?thesis using floor_correct [of "- x + 1 / 2"] by (simp only: of_int_minus) linarith
next
  case False
  then have "go_round x = \<lfloor>x + 1 / 2\<rfloor>" by (simp add: go_round_def)
  then show ?thesis using floor_correct [of "x + 1 / 2"] by (simp only:) linarith
qed

lemma to_cents_err:
  assumes "\<bar>x\<bar> \<le> 2000000000000"
  shows "\<bar>of_int (to_cents x) - x * 100\<bar> \<le> 9 / 16"
proof -
  have "\<bar>x * 100\<bar> \<le> 200000000000000" using assms by linarith
  then have "\<bar>fl64 (x * 100) - x * 100\<bar> \<le> 1 / 16" using f64.err [of "x * 100"] by simp
  then show ?thesis using go_round_err [of "fl64 (x * 100)"] unfolding to_cents_def fmul_def by linarith
qed

text \<open>The tax on an amount near \<open>m\<close> cents is within a cent of the exact tax.\<close>

lemma tax_close:
  assumes T: "near T m (1 / 1000)" and m: "0 \<le> m" "m \<le> 10 ^ 14" and rate: "0 \<le> r" "r \<le> 100"
  shows "\<bar>of_int (to_cents (fdiv (fmul T r) 100)) - of_int m * r / 100\<bar> < 1"
proof -
  define M :: rat where "M = of_int m / 100"
  have M: "0 \<le> M" "M \<le> 1000000000000"
    using m abs_of_int_le [of m "10 ^ 14"] by (simp_all add: M_def)
  have TM: "\<bar>T - M\<bar> \<le> 1 / 1000" using T by (simp add: near_def M_def)
  have "\<bar>T * r - M * r\<bar> \<le> 1 / 1000 * 100"
    unfolding left_diff_distrib [symmetric] abs_mult
    by (rule mult_mono) (use TM rate in auto)
  moreover have "0 \<le> M * r" using M rate by simp
  moreover have "M * r \<le> 1000000000000 * 100" by (rule mult_mono) (use M rate in auto)
  ultimately have Tr: "\<bar>T * r - M * r\<bar> \<le> 1 / 10" "\<bar>T * r\<bar> \<le> 100000000000001" "\<bar>M * r\<bar> \<le> 100000000000000"
    by linarith+
  then have "\<bar>fmul T r - T * r\<bar> \<le> 1 / 40"
    unfolding fmul_def using f64.err [of "T * r"] by simp
  with Tr have P: "\<bar>fmul T r / 100 - M * r / 100\<bar> \<le> 1 / 800" "\<bar>fmul T r / 100\<bar> \<le> 1000000000001"
    by linarith+
  then have "\<bar>fdiv (fmul T r) 100 - fmul T r / 100\<bar> \<le> 1 / 4000"
    unfolding fdiv_def using f64.err [of "fmul T r / 100"] by simp
  with P have Q: "\<bar>fdiv (fmul T r) 100 - M * r / 100\<bar> \<le> 1 / 600" "\<bar>fdiv (fmul T r) 100\<bar> \<le> 2000000000000"
    by linarith+
  have "of_int m * r / 100 = M * r" by (simp add: M_def)
  moreover have "\<bar>fdiv (fmul T r) 100 * 100 - M * r\<bar> \<le> 1 / 6" using Q(1) by linarith
  ultimately show ?thesis using to_cents_err [OF Q(2)] by linarith
qed

definition stay_nights :: "time \<Rightarrow> time \<Rightarrow> int" where
  "stay_nights checkIn checkOut = max 1 (CalendarNights checkIn checkOut)"

lemma priceStay_cents:
  fixes r d :: int and rate :: rat
  assumes r: "0 \<le> r" "cent_range r" "cent_range (r * stay_nights ci co)" "stay_nights ci co \<le> 10 ^ 14"
    and d: "0 \<le> d" "cent_range d" and rate: "0 \<le> rate" "rate \<le> 100"
  defines "q \<equiv> priceStay (cents r) ci co rate (cents d)"
  shows "\<exists>b D t. b = r * stay_nights ci co \<and> D = min d b \<and> 0 \<le> t \<and> t \<le> b - D + 1 \<and>
      \<bar>of_int t - of_int (b - D) * rate / 100\<bar> < 1 \<and>
      q_nights q = stay_nights ci co \<and> q_base q = cents b \<and> q_discount q = cents D \<and>
      q_tax q = cents t \<and> q_payable q = cents (b - D + t) \<and>
      round2 (fadd (fsub (q_base q) (q_discount q)) (q_tax q)) = q_payable q"
proof -
  define n where "n = stay_nights ci co"
  define b where "b = r * n"
  define D where "D = min d b"
  define T where "T = fsub (cents b) (cents D)"
  define t where "t = to_cents (fdiv (fmul T rate) 100)"
  have n: "1 \<le> n" by (simp add: n_def stay_nights_def)
  have nn: "(if CalendarNights ci co < 1 then 1 else CalendarNights ci co) = n"
    by (simp add: n_def stay_nights_def)
  have bR: "cent_range b" "0 \<le> b" using r n by (auto simp: b_def n_def)
  have DR: "cent_range D" "0 \<le> D" "D \<le> b" using d bR by (auto simp: D_def min_def)
  have base: "round2 (fmul (cents r) (of_int n)) = cents b"
    unfolding b_def by (rule round2_fmul_cents) (use r n in \<open>auto simp: n_def\<close>)
  have disc: "(if cents b < cents d then cents b else cents d) = cents D"
    using d bR by (auto simp: D_def min_def cents_less_iff)
  have "near T (b - D) (1/8000 + 1/8000 + 1/2000)"
    unfolding T_def by (rule near_fsub [OF near_cents near_cents]) (use bR DR in auto)
  then have nT: "near T (b - D) (1 / 1000)" by (rule near_weaken) simp
  have tax: "\<bar>of_int t - of_int (b - D) * rate / 100\<bar> < 1"
    unfolding t_def by (rule tax_close [OF nT]) (use bR DR rate in auto)
  have "0 \<le> T" unfolding T_def fsub_def by (rule f64.nonneg) (use DR cents_mono in auto)
  then have t0: "0 \<le> t" using rate unfolding t_def fdiv_def fmul_def
    by (intro to_cents_nonneg f64.nonneg divide_nonneg_pos mult_nonneg_nonneg) auto
  have "of_int (b - D) * rate / 100 \<le> (of_int (b - D) :: rat)"
    using mult_left_mono [OF rate(2), of "of_int (b - D)"] DR by simp
  with tax have "(of_int t :: rat) < of_int (b - D + 1)" by simp
  then have t1: "t \<le> b - D + 1" by (simp only: of_int_less_iff)
  have tR: "\<bar>t\<bar> \<le> 2 * 10 ^ 14" using t0 t1 bR DR by simp
  have ct: "near (cents t) t (1 / 2000)"
    unfolding near_def cents_def
    by (rule f64.err_bounded) (use abs_of_int_le [OF tR] in simp)
  have pay: "round2 (fadd T (cents t)) = cents (b - D + t)"
    by (rule round2_near [OF near_fadd [OF nT ct]]) (use t0 t1 bR DR in auto)
  have "q = \<lparr>q_nights = n, q_rate = cents r, q_base = cents b, q_discount = cents D,
      q_tax_rate = rate, q_tax = cents t, q_payable = cents (b - D + t)\<rparr>"
    unfolding q_def priceStay_def Let_def nn base disc T_def [symmetric]
    using DR by (simp add: pay [unfolded t_def] t_def round2_eq_cents [of "fdiv x y" for x y])
  with tax t0 t1 pay show ?thesis
    by (intro exI [of _ b] exI [of _ D] exI [of _ t]) (simp add: b_def D_def n_def T_def)
qed

subsection \<open>Facts about the dates\<close>

lemma parse_clock_range: "parse_clock s = Some c \<Longrightarrow> 0 \<le> c \<and> c < day_secs"
proof -
  assume "parse_clock s = Some c"
  then obtain h m :: nat where "h < 24" "m < 60" "c = int h * 3600 + int m * 60"
    unfolding parse_clock_def Let_def by (auto split: if_splits)
  then show ?thesis by auto
qed

lemma day_of_midnight: "0 \<le> s \<Longrightarrow> s < day_secs \<Longrightarrow> day_of (n * day_secs + s) = n"
  by (simp add: day_of_def)

lemma applyClockTime_day: "applyClockTime day clock = Inr t \<Longrightarrow> day_of t = day_of day"
  by (auto simp: applyClockTime_def Let_def day_of_midnight dest!: parse_clock_range
      split: if_splits option.splits)

lemma parse_date_midnight: "parse_date s = Some t \<Longrightarrow> t = day_of t * day_secs"
  by (auto simp: parse_date_def Let_def day_of_def split: if_splits)

lemma resolveStayDates_sound:
  assumes "resolveStayDates req = Inr (ci, co)"
  shows "ci < co \<and> parse_date (r_check_in req) = Some (day_of ci * day_secs) \<and>
    (r_check_out req \<noteq> [] \<longrightarrow> parse_date (r_check_out req) = Some (day_of co * day_secs)) \<and>
    (0 < r_nights req \<longrightarrow> day_of co = day_of ci + r_nights req) \<and>
    (r_check_out req = [] \<longrightarrow> 0 < r_nights req)"
proof -
  obtain i where i: "parse_date (r_check_in req) = Some i"
    using assms by (cases "parse_date (r_check_in req)") (auto simp: resolveStayDates_def)
  obtain o' where o: "(if 0 < r_nights req then Some (i + r_nights req * day_secs)
        else parse_date (r_check_out req)) = Some o'"
    and dates: "applyClockTime i (r_in_time req) = Inr ci" "applyClockTime o' (r_out_time req) = Inr co"
    and lt: "ci < co" and out: "r_check_out req \<noteq> [] \<longrightarrow> parse_date (r_check_out req) = Some o'"
    and given: "r_check_out req = [] \<longrightarrow> 0 < r_nights req"
    using assms i
    by (auto simp: resolveStayDates_def Let_def split: if_splits sum.splits option.splits)
  have day: "day_of ci = day_of i" "day_of co = day_of o'"
    using dates by (simp_all add: applyClockTime_day)
  have im: "i = day_of i * day_secs" by (rule parse_date_midnight [OF i])
  have om: "r_check_out req \<noteq> [] \<longrightarrow> o' = day_of o' * day_secs"
    using out parse_date_midnight by blast
  have "0 < r_nights req \<longrightarrow> day_of o' = day_of i + r_nights req"
  proof
    assume "0 < r_nights req"
    then have "o' = (day_of i + r_nights req) * day_secs"
      using o im by (simp add: algebra_simps)
    then show "day_of o' = day_of i + r_nights req" by (simp add: day_of_def)
  qed
  with i im om out lt given day show ?thesis by auto
qed

subsection \<open>Facts about promo codes\<close>

lemma promo_discount_le_base:
  assumes "cent_range b"
  shows "promo_discount p (cents b) \<le> cents b"
  unfolding promo_discount_def Let_def
  using round2_mono [of _ "cents b"] round2_cents [OF assms] by (auto simp: not_less)

lemma promo_discount_nonneg:
  assumes "0 \<le> b" "0 \<le> pr_value p"
  shows "0 \<le> promo_discount p b"
proof -
  have "0 \<le> fdiv (fmul b (pr_value p)) 100"
    unfolding fdiv_def fmul_def
    by (intro f64.nonneg divide_nonneg_pos mult_nonneg_nonneg) (use assms in auto)
  with assms show ?thesis
    unfolding promo_discount_def Let_def by (intro round2_nonneg) (auto split: option.split)
qed

lemma promo_discount_le_max:
  assumes "pr_max_discount p = Some (cents m)" "0 < m" "cent_range m"
  shows "promo_discount p b \<le> cents m"
proof -
  have "0 < cents m" using cents_less_iff [of 0 m] assms by simp
  then have "promo_discount p b \<le> round2 (cents m)"
    unfolding promo_discount_def Let_def assms(1) by (intro round2_mono) auto
  with assms show ?thesis by simp
qed

text \<open>No code is redeemed beyond its limit.\<close>

definition promos_within_limit :: "db \<Rightarrow> bool" where
  "promos_within_limit d \<longleftrightarrow> (\<forall>p \<in> set (promotions d).
     case pr_usage_limit p of Some l \<Rightarrow> 0 < l \<longrightarrow> pr_used p \<le> l | None \<Rightarrow> True)"

lemma sql_redeem_within_limit: "stmt_keeps promos_within_limit (sql_redeem h pid)"
  unfolding stmt_keeps_def sql_redeem_def promos_within_limit_def
  by (auto simp: set_upd_where redeemable_def split: option.splits if_splits)

lemma keeps_redeemPromo: "stmt_keeps J (sql_redeem h pid) \<Longrightarrow> keeps J (redeemPromo h pid)"
  unfolding redeemPromo_def by (intro keeps_intros)

lemma affected_pos: "affected p xs \<noteq> 0 \<longleftrightarrow> (\<exists>x \<in> set xs. p x)"
  by (simp add: affected_def filter_empty_conv)

subsection \<open>Properties\<close>

text \<open>C17: the quote is exact to the cent. With a nightly rate and a discount of whole cents and a
  tax rate between 0 and 100 percent, the base is the rate times the nights, the discount is
  capped at the base, the tax is within a cent of the exact tax on what is left, and the payable
  is base minus discount plus tax as an amount of cents; a reservation stored with these three
  figures has that payable after rounding, so what the guest was quoted is what is later
  collected.\<close>

theorem priceStay_exact:
  fixes r d :: int
  assumes "0 \<le> r" "cent_range (r * stay_nights ci co)" "stay_nights ci co \<le> 10 ^ 14"
    and "0 \<le> d" "cent_range d" "0 \<le> rate" "rate \<le> 100"
    and "q = priceStay (cents r) ci co rate (cents d)"
    and "gs_total g = Some (q_base q)" "gs_discount g = q_discount q" "gs_tax g = q_tax q"
  shows "\<exists>b D t. b = r * stay_nights ci co \<and> D = min d b \<and> 0 \<le> t \<and>
      \<bar>of_int t - of_int (b - D) * rate / 100\<bar> < 1 \<and>
      q_base q = cents b \<and> q_discount q = cents D \<and> q_tax q = cents t \<and>
      q_payable q = cents (b - D + t) \<and> round2 (Payable g) = q_payable q"
proof -
  have "r * 1 \<le> r * stay_nights ci co"
    using assms(1) by (intro mult_left_mono) (auto simp: stay_nights_def)
  then have "cent_range r" using assms(1,2) by auto
  from priceStay_cents [OF assms(1) this assms(2-7), folded assms(8)] assms(9-11)
  show ?thesis unfolding Payable_def by auto
qed

definition stay_sample :: GuestStay where
  "stay_sample = \<lparr>gs_id = 5, gs_hotel = 7, gs_guest = None, gs_room = 2, gs_name = ''A'',
     gs_email = None, gs_phone = None, gs_in = 0, gs_out = 259200, gs_actual_in = None,
     gs_actual_out = None, gs_total = Some (cents 749997), gs_notes = None, gs_source = None,
     gs_status = ReservationConfirmed, gs_conf = None, gs_cancelled_at = None,
     gs_cancel_reason = None, gs_cancel_fee = 0, gs_cancelled_by = None, gs_adults = 1,
     gs_children = 0, gs_approach = ''manual'', gs_discount = cents 50000, gs_tax = cents 125999,
     gs_promo = None\<rparr>"

theorem priceStay_exact_witness:
  "let q = priceStay (cents 249999) 0 259200 18 (cents 50000);
       g = stay_sample\<lparr>gs_total := Some (q_base q), gs_discount := q_discount q, gs_tax := q_tax q\<rparr>
   in q_base q = cents 749997 \<and> q_discount q = cents 50000 \<and> round2 (Payable g) = q_payable q"
proof -
  let ?q = "priceStay (cents 249999) 0 259200 18 (cents 50000)"
  let ?g = "stay_sample\<lparr>gs_total := Some (q_base ?q), gs_discount := q_discount ?q, gs_tax := q_tax ?q\<rparr>"
  have n: "stay_nights 0 259200 = 3" by code_simp
  have "\<exists>b D t. b = 249999 * stay_nights 0 259200 \<and> D = min 50000 b \<and> 0 \<le> t \<and>
      \<bar>of_int t - of_int (b - D) * 18 / 100\<bar> < (1::rat) \<and>
      q_base ?q = cents b \<and> q_discount ?q = cents D \<and> q_tax ?q = cents t \<and>
      q_payable ?q = cents (b - D + t) \<and> round2 (Payable ?g) = q_payable ?q"
    by (rule priceStay_exact) (simp_all add: n)
  then show ?thesis by (auto simp: n Let_def)
qed

text \<open>C21: when \<open>resolveStayDates\<close> accepts a request, the stay ends after it starts, it starts on
  the requested day and ends on the requested day, a requested duration is the number of nights
  that will be priced (up to the 292 years a Go duration can hold), and one of checkout date and
  duration was given. It accepts every request with two valid dates in order and no times.\<close>

theorem resolveStayDates_consistent:
  "(\<forall>ci co. resolveStayDates req = Inr (ci, co) \<longrightarrow>
      ci < co \<and> parse_date (r_check_in req) = Some (day_of ci * day_secs) \<and>
      (r_check_out req \<noteq> [] \<longrightarrow> parse_date (r_check_out req) = Some (day_of co * day_secs)) \<and>
      (0 < r_nights req \<and> r_nights req \<le> 106751 \<longrightarrow> stay_nights ci co = r_nights req) \<and>
      (r_check_out req \<noteq> [] \<or> 0 < r_nights req)) \<and>
   (\<forall>i j. parse_date (r_check_in req) = Some i \<and> parse_date (r_check_out req) = Some j \<and> i < j \<and>
      r_check_out req \<noteq> [] \<and> r_nights req = 0 \<and> r_in_time req = [] \<and> r_out_time req = [] \<longrightarrow>
      resolveStayDates req = Inr (i, j))"
proof (intro conjI allI impI)
  fix ci co
  assume "resolveStayDates req = Inr (ci, co)"
  note s = resolveStayDates_sound [OF this]
  show "ci < co" "parse_date (r_check_in req) = Some (day_of ci * day_secs)"
    "r_check_out req \<noteq> [] \<or> 0 < r_nights req" using s by auto
  show "parse_date (r_check_out req) = Some (day_of co * day_secs)" if "r_check_out req \<noteq> []"
    using s that by blast
  show "stay_nights ci co = r_nights req" if "0 < r_nights req \<and> r_nights req \<le> 106751"
    using s that by (simp add: stay_nights_def CalendarNights_eq)
qed (simp add: resolveStayDates_def applyClockTime_def Let_def)

theorem resolveStayDates_consistent_witness:
  "let req = \<lparr>r_guest_name = ''A'', r_guest_email = [], r_guest_phone = [], r_room_id = ''r'',
     r_check_in = ''2024-02-28'', r_check_out = ''2024-03-01'', r_source = [], r_notes = [],
     r_adults = 1, r_children = 0, r_approach = [], r_nights = 2, r_promo = [],
     r_in_time = ''14:00'', r_out_time = ''11:30'', r_id_type = [], r_id_number = [],
     r_payment = None\<rparr>
   in resolveStayDates req = Inr (1709128800, 1709292600) \<and> stay_nights 1709128800 1709292600 = 2"
proof -
  let ?req = "\<lparr>r_guest_name = ''A'', r_guest_email = [], r_guest_phone = [], r_room_id = ''r'',
     r_check_in = ''2024-02-28'', r_check_out = ''2024-03-01'', r_source = [], r_notes = [],
     r_adults = 1, r_children = 0, r_approach = [], r_nights = 2, r_promo = [],
     r_in_time = ''14:00'', r_out_time = ''11:30'', r_id_type = [], r_id_number = [],
     r_payment = None\<rparr> :: createReservationRequest"
  have "resolveStayDates ?req = Inr (1709128800, 1709292600)" by code_simp
  with resolveStayDates_consistent [of ?req] show ?thesis by simp
qed

text \<open>C22: the discount of a valid code lies between zero and the base it is applied to, and never
  exceeds the code's own maximum; so a quote made with it has a nonnegative taxable amount.\<close>

theorem promo_discount_bounded:
  fixes b :: int
  assumes "0 \<le> b" "cent_range b" "0 \<le> pr_value p"
  shows "0 \<le> promo_discount p (cents b) \<and> promo_discount p (cents b) \<le> cents b \<and>
    (\<forall>m. pr_max_discount p = Some (cents m) \<and> 0 < m \<and> cent_range m \<longrightarrow>
       promo_discount p (cents b) \<le> cents m)"
  using assms by (auto intro: promo_discount_nonneg promo_discount_le_base promo_discount_le_max)

definition promo_sample :: Promotion where
  "promo_sample = \<lparr>pr_id = 9, pr_hotel = 7, pr_code = ''WELCOME'', pr_name = ''Welcome'',
     pr_type = ''percentage'', pr_value = 20, pr_min_nights = None, pr_min_amount = None,
     pr_max_discount = Some (cents 50000), pr_usage_limit = None, pr_used = 0,
     pr_from = 0, pr_to = 2000000000, pr_active = True\<rparr>"

theorem promo_discount_bounded_witness:
  "promo_discount promo_sample (cents 749997) = cents 50000 \<and> cents 50000 \<le> cents 749997 \<and>
   promo_discount promo_sample (cents 749997) \<le> cents 50000"
proof -
  have "promo_discount promo_sample (cents 749997) = cents 50000" by code_simp
  with promo_discount_bounded [of 749997 promo_sample] show ?thesis
    by (simp add: promo_sample_def)
qed

text \<open>C24: redeeming never takes a code beyond its usage limit, whatever faults the statement
  meets; a redemption that reports success incremented the use count of the code's row, and one
  that reports an error changed nothing.\<close>

theorem redeemPromo_limit:
  "keeps promos_within_limit (redeemPromo h pid) \<and>
   (\<forall>w r w'. run_state (redeemPromo h pid) w = (r, w') \<longrightarrow>
      (case r of
         Inl _ \<Rightarrow> promotions (w_db w') = promotions (w_db w)
       | Inr _ \<Rightarrow> pid = uuid_Nil \<or>
           (\<exists>p \<in> set (promotions (w_db w)). redeemable h pid p) \<and>
           promotions (w_db w') = map (\<lambda>p. if redeemable h pid p then p\<lparr>pr_used := pr_used p + 1\<rparr> else p)
             (promotions (w_db w))))"
proof (intro conjI allI impI)
  show "keeps promos_within_limit (redeemPromo h pid)"
    by (rule keeps_redeemPromo [OF sql_redeem_within_limit])
  fix w w' :: world and r
  assume run: "run_state (redeemPromo h pid) w = (r, w')"
  show "case r of
         Inl _ \<Rightarrow> promotions (w_db w') = promotions (w_db w)
       | Inr _ \<Rightarrow> pid = uuid_Nil \<or>
           (\<exists>p \<in> set (promotions (w_db w)). redeemable h pid p) \<and>
           promotions (w_db w') = map (\<lambda>p. if redeemable h pid p then p\<lparr>pr_used := pr_used p + 1\<rparr> else p)
             (promotions (w_db w))"
  proof (cases "pid = uuid_Nil")
    case False
    then show ?thesis
      using run next_fault_db [of w] unfolding redeemPromo_def stmt_def sql_redeem_def
      by (auto simp: upd_where_none upd_where_map split: prod.splits if_splits sum.splits)
  qed (use run in \<open>auto simp: redeemPromo_def\<close>)
qed

theorem redeemPromo_limit_witness:
  "promotions (w_db (snd (run_state (redeemPromo 7 9)
     (start (empty_db\<lparr>promotions := [promo_sample\<lparr>pr_usage_limit := Some 3, pr_used := 2\<rparr>]\<rparr>) 100))))
   = [promo_sample\<lparr>pr_usage_limit := Some 3, pr_used := 3\<rparr>]"
proof -
  let ?p = "promo_sample\<lparr>pr_usage_limit := Some 3, pr_used := 2\<rparr>"
  let ?w = "start (empty_db\<lparr>promotions := [?p]\<rparr>) 100"
  have red: "redeemable 7 9 ?p" and ok: "fst (run_state (redeemPromo 7 9) ?w) = Inr ()" by code_simp+
  obtain w' where run: "run_state (redeemPromo 7 9) ?w = (Inr (), w')" using ok by (metis prod.collapse)
  have "promotions (w_db w') = map (\<lambda>p. if redeemable 7 9 p then p\<lparr>pr_used := pr_used p + 1\<rparr> else p) [?p]"
    using redeemPromo_limit [of 7 9] run by fastforce
  with run red show ?thesis by simp
qed

end
