(* ===== verification/RoomRepo.thy ===== *)
theory RoomRepo
  imports Pricing "HOL-Library.List_Lexorder" "HOL-Library.Char_ord" "HOL-Library.Product_Lexorder"
begin

text \<open>
  The room and guest-stay repository, \<^verbatim>\<open>internal/repository/postgres/room_repository.go\<close>, with
  the constraints the schema puts on \<^verbatim>\<open>guest_stays\<close>: the primary key, the check constraints
  on occupancy and dates, the unique confirmation number per tenant, the foreign key to
  \<^verbatim>\<open>rooms\<close> and the exclusion constraint \<^verbatim>\<open>guest_stays_no_overlap\<close>
  (\<^verbatim>\<open>migrations/027_reservation_lifecycle.sql\<close>,
  \<^verbatim>\<open>scripts/add_guest_stays_overlap_constraint.sql\<close>). Text is ordered bytewise, the rows of
  a query without \<^verbatim>\<open>ORDER BY\<close> come in insertion order, and \<^verbatim>\<open>folios.guest_id\<close> has no
  foreign key, as the code relies on.
\<close>

type_synonym stay_view = "GuestStay \<times> RoomSummary option"

subsection \<open>Constraints of guest\_stays\<close>

definition overlaps :: "GuestStay \<Rightarrow> GuestStay \<Rightarrow> bool" where
  "overlaps a b \<longleftrightarrow> gs_room a = gs_room b \<and> gs_in a < gs_out b \<and> gs_in b < gs_out a \<and>
     gs_status a \<noteq> ReservationCancelled \<and> gs_status b \<noteq> ReservationCancelled"

definition no_overlap :: "GuestStay list \<Rightarrow> bool" where
  "no_overlap xs = sorted_wrt (\<lambda>a b. \<not> overlaps a b) xs"

definition stay_row_ok :: "GuestStay \<Rightarrow> bool" where
  "stay_row_ok s \<longleftrightarrow> 0 \<le> gs_adults s \<and> 0 \<le> gs_children s \<and> 1 \<le> gs_adults s + gs_children s \<and>
     gs_in s < gs_out s"

definition numeric_stay :: "(rat \<Rightarrow> rat) \<Rightarrow> GuestStay \<Rightarrow> GuestStay" where
  "numeric_stay num s = s\<lparr>gs_total := map_option num (gs_total s),
     gs_discount := num (gs_discount s), gs_tax := num (gs_tax s)\<rparr>"

definition sql_insert_stay :: "GuestStay \<Rightarrow> db \<Rightarrow> goerr + GuestStay \<times> db" where
  "sql_insert_stay s d =
     (if \<not> stay_row_ok s then Inl CheckViolation
      else if list_ex (\<lambda>x. gs_id x = gs_id s \<or>
             gs_hotel x = gs_hotel s \<and> gs_conf x \<noteq> None \<and> gs_conf x = gs_conf s) (stays d)
      then Inl UniqueViolation
      else if list_ex (overlaps s) (stays d) then Inl ExclusionViolation
      else if \<not> list_ex (\<lambda>r. rm_id r = gs_room s) (rooms d) then Inl ForeignKeyViolation
      else let s' = numeric_stay (db_num d) s in Inr (s', d\<lparr>stays := stays d @ [s']\<rparr>))"

subsection \<open>Rooms\<close>

definition ListRooms :: "uuid \<Rightarrow> RoomStatus option \<Rightarrow> (goerr + Room list) go" where
  "ListRooms h status = query (\<lambda>d. sort_key (\<lambda>r. (rm_floor r, rm_number r))
     (filter (\<lambda>r. rm_hotel r = h \<and> (case status of None \<Rightarrow> True | Some s \<Rightarrow> rm_status r = s)) (rooms d)))"

definition available_between :: "time \<Rightarrow> time \<Rightarrow> db \<Rightarrow> Room \<Rightarrow> bool" where
  "available_between checkIn checkOut d r \<longleftrightarrow> rm_status r \<notin> set NonSellableRoomStatusSQL \<and>
     \<not> list_ex (\<lambda>g. gs_hotel g = rm_hotel r \<and> gs_room g = rm_id r \<and>
          gs_in g < checkOut \<and> checkIn < gs_out g) (stays d)"

definition ListRoomsAvailableBetween :: "uuid \<Rightarrow> time \<Rightarrow> time \<Rightarrow> (goerr + Room list) go" where
  "ListRoomsAvailableBetween h checkIn checkOut = query (\<lambda>d.
     sort_key (\<lambda>r. (rm_floor r, rm_number r))
       (filter (\<lambda>r. rm_hotel r = h \<and> available_between checkIn checkOut d r) (rooms d)))"

definition find_room :: "uuid \<Rightarrow> uuid \<Rightarrow> db \<Rightarrow> Room option" where
  "find_room h i d = find (\<lambda>r. rm_hotel r = h \<and> rm_id r = i) (rooms d)"

text \<open>\<^verbatim>\<open>pgx.ErrNoRows\<close>, or an empty result, reported as \<^verbatim>\<open>ErrNotFound\<close>.\<close>

definition not_found :: "goerr + 'a \<Rightarrow> goerr + 'a" where
  "not_found r = (case r of Inl e \<Rightarrow> Inl (if e = NoRows then ErrNotFound else e) | Inr a \<Rightarrow> Inr a)"

definition FindRoomByID :: "uuid \<Rightarrow> uuid \<Rightarrow> (goerr + Room) go" where
  "FindRoomByID h i = do { r \<leftarrow> query_row (find_room h i); State_Monad.return (not_found r) }"

definition FindAvailableRoom :: "uuid \<Rightarrow> string option \<Rightarrow> (goerr + Room) go" where
  "FindAvailableRoom h roomType = do {
     r \<leftarrow> query_row (\<lambda>d. case sort_key rm_price (filter (\<lambda>r. rm_hotel r = h \<and>
            rm_status r = RoomStatusAvailable \<and>
            (case roomType of None \<Rightarrow> True | Some t \<Rightarrow> ToLower (rm_type r) = ToLower t)) (rooms d)) of
          [] \<Rightarrow> None | x # _ \<Rightarrow> Some x);
     State_Monad.return (not_found r)
   }"

definition sql_insert_room :: "Room \<Rightarrow> db \<Rightarrow> goerr + Room \<times> db" where
  "sql_insert_room r d =
     (if list_ex (\<lambda>x. rm_id x = rm_id r \<or> rm_hotel x = rm_hotel r \<and> rm_number x = rm_number r) (rooms d)
      then Inl UniqueViolation
      else let r' = r\<lparr>rm_price := db_num d (rm_price r)\<rparr> in Inr (r', d\<lparr>rooms := rooms d @ [r']\<rparr>))"

definition CreateRoom :: "uuid \<Rightarrow> Room \<Rightarrow> (goerr + Room) go" where
  "CreateRoom h rm = do {
     i \<leftarrow> uuid_New;
     stmt (sql_insert_room (rm\<lparr>rm_id := i, rm_hotel := h\<rparr>))
   }"

datatype room_field =
    F_room_number string | F_room_type string | F_floor int | F_capacity int
  | F_price_per_night rat | F_room_status RoomStatus | F_not_allowed string

fun room_field_allowed :: "room_field \<Rightarrow> bool" where
  "room_field_allowed (F_not_allowed _) = False"
| "room_field_allowed _ = True"

fun set_room_field :: "(rat \<Rightarrow> rat) \<Rightarrow> room_field \<Rightarrow> Room \<Rightarrow> Room" where
  "set_room_field num (F_room_number s) r = r\<lparr>rm_number := s\<rparr>"
| "set_room_field num (F_room_type s) r = r\<lparr>rm_type := s\<rparr>"
| "set_room_field num (F_floor n) r = r\<lparr>rm_floor := n\<rparr>"
| "set_room_field num (F_capacity n) r = r\<lparr>rm_capacity := n\<rparr>"
| "set_room_field num (F_price_per_night v) r = r\<lparr>rm_price := num v\<rparr>"
| "set_room_field num (F_room_status s) r = r\<lparr>rm_status := s\<rparr>"
| "set_room_field num (F_not_allowed _) r = r"

definition sql_update_room :: "uuid \<Rightarrow> uuid \<Rightarrow> room_field list \<Rightarrow> db \<Rightarrow> goerr + Room option \<times> db" where
  "sql_update_room h i fs d =
     (let p = (\<lambda>r. rm_hotel r = h \<and> rm_id r = i);
          rs = upd_where p (fold (set_room_field (db_num d)) fs) (rooms d) in
      if \<not> distinct (map (\<lambda>r. (rm_hotel r, rm_number r)) rs) then Inl UniqueViolation
      else Inr (find p rs, d\<lparr>rooms := rs\<rparr>))"

definition UpdateRoom :: "uuid \<Rightarrow> uuid \<Rightarrow> room_field list \<Rightarrow> (goerr + Room) go" where
  "UpdateRoom h i flds =
     (let fs = filter room_field_allowed flds in
      if fs = [] then State_Monad.return (Inl (ErrMsg ''no fields to update''))
      else do {
           r \<leftarrow> stmt (sql_update_room h i fs);
        State_Monad.return (case r of Inl e \<Rightarrow> Inl e | Inr None \<Rightarrow> Inl ErrNotFound | Inr (Some x) \<Rightarrow> Inr x)
      })"

definition sql_delete_room :: "uuid \<Rightarrow> uuid \<Rightarrow> db \<Rightarrow> goerr + unit \<times> db" where
  "sql_delete_room h i d =
     (let p = (\<lambda>r. rm_hotel r = h \<and> rm_id r = i) in
      if list_ex (\<lambda>r. p r \<and> list_ex (\<lambda>g. gs_room g = rm_id r) (stays d)) (rooms d)
      then Inl ForeignKeyViolation
      else Inr ((), d\<lparr>rooms := filter (\<lambda>r. \<not> p r) (rooms d),
                      tasks := filter (\<lambda>t. \<not> list_ex (\<lambda>r. p r \<and> rm_id r = hk_room t) (rooms d)) (tasks d)\<rparr>))"

definition DeleteRoom :: "uuid \<Rightarrow> uuid \<Rightarrow> (goerr + unit) go" where
  "DeleteRoom h i = stmt (sql_delete_room h i)"

definition sql_room_status :: "uuid \<Rightarrow> uuid \<Rightarrow> RoomStatus \<Rightarrow> db \<Rightarrow> goerr + nat \<times> db" where
  "sql_room_status h i st d =
     (let p = (\<lambda>r. rm_hotel r = h \<and> rm_id r = i) in
      Inr (affected p (rooms d), d\<lparr>rooms := upd_where p (\<lambda>r. r\<lparr>rm_status := st\<rparr>) (rooms d)\<rparr>))"

text \<open>An \<^verbatim>\<open>UPDATE\<close> whose caller reports no affected row as \<^verbatim>\<open>ErrNotFound\<close>.\<close>

definition must_affect :: "goerr + nat \<Rightarrow> goerr + unit" where
  "must_affect r = (case r of Inl e \<Rightarrow> Inl e | Inr n \<Rightarrow> if n = 0 then Inl ErrNotFound else Inr ())"

definition UpdateRoomStatus :: "uuid \<Rightarrow> uuid \<Rightarrow> RoomStatus \<Rightarrow> (goerr + unit) go" where
  "UpdateRoomStatus h i st = do { r \<leftarrow> stmt (sql_room_status h i st); State_Monad.return (must_affect r) }"

subsection \<open>Guest stays\<close>

text \<open>\<^verbatim>\<open>CreateStay\<close>: the status is \<open>None\<close> when the caller left it empty.\<close>

definition CreateStay :: "uuid \<Rightarrow> ReservationStatus option \<Rightarrow> GuestStay \<Rightarrow> (goerr + GuestStay) go" where
  "CreateStay h status s = do {
     i \<leftarrow> uuid_New;
     stmt (sql_insert_stay (s\<lparr>
       gs_id := i, gs_hotel := h,
       gs_status := (case status of None \<Rightarrow> ReservationConfirmed | Some st \<Rightarrow> st),
       gs_adults := (if gs_adults s \<le> 0 then 1 else gs_adults s),
       gs_approach := (if gs_approach s = [] then ''manual'' else gs_approach s),
       gs_cancelled_at := None, gs_cancel_reason := None, gs_cancel_fee := 0, gs_cancelled_by := None\<rparr>))
   }"

definition enrich :: "db \<Rightarrow> GuestStay \<Rightarrow> stay_view" where
  "enrich d g = (g, map_option (\<lambda>r. \<lparr>rs_number = rm_number r, rs_type = rm_type r\<rparr>)
     (find (\<lambda>r. rm_id r = gs_room g) (rooms d)))"

definition find_stay :: "uuid \<Rightarrow> uuid \<Rightarrow> db \<Rightarrow> GuestStay option" where
  "find_stay h i d = find (\<lambda>g. gs_hotel g = h \<and> gs_id g = i) (stays d)"

definition FindStayByID :: "uuid \<Rightarrow> uuid \<Rightarrow> (goerr + stay_view) go" where
  "FindStayByID h i = do {
     r \<leftarrow> query_row (\<lambda>d. map_option (enrich d) (find_stay h i d));
     State_Monad.return (not_found r)
   }"

datatype stay_filter = Filter_guest uuid | Filter_room uuid | Filter_status ReservationStatus | Filter_other string

fun stay_filter_match :: "stay_filter \<Rightarrow> GuestStay \<Rightarrow> bool" where
  "stay_filter_match (Filter_guest i) g = (gs_guest g = Some i)"
| "stay_filter_match (Filter_room i) g = (gs_room g = i)"
| "stay_filter_match (Filter_status s) g = (gs_status g = s)"
| "stay_filter_match (Filter_other _) g = True"

definition ListStays :: "uuid \<Rightarrow> stay_filter list \<Rightarrow> (goerr + stay_view list) go" where
  "ListStays h filters = query (\<lambda>d. map (enrich d) (sort_key (\<lambda>g. - gs_in g)
     (filter (\<lambda>g. gs_hotel g = h \<and> list_all (\<lambda>f. stay_filter_match f g) filters) (stays d))))"

datatype stay_field =
    F_room_id uuid | F_total_amount rat | F_discount_amount rat | F_tax_amount rat
  | F_actual_check_in time | F_actual_check_out time | F_status ReservationStatus
  | F_guest_name string | F_guest_email string | F_guest_phone string
  | F_check_in_date time | F_check_out_date time | F_notes string | F_source string

fun set_stay_field :: "(rat \<Rightarrow> rat) \<Rightarrow> stay_field \<Rightarrow> GuestStay \<Rightarrow> GuestStay" where
  "set_stay_field num (F_room_id i) g = g\<lparr>gs_room := i\<rparr>"
| "set_stay_field num (F_total_amount v) g = g\<lparr>gs_total := Some (num v)\<rparr>"
| "set_stay_field num (F_discount_amount v) g = g\<lparr>gs_discount := num v\<rparr>"
| "set_stay_field num (F_tax_amount v) g = g\<lparr>gs_tax := num v\<rparr>"
| "set_stay_field num (F_actual_check_in t) g = g\<lparr>gs_actual_in := Some t\<rparr>"
| "set_stay_field num (F_actual_check_out t) g = g\<lparr>gs_actual_out := Some t\<rparr>"
| "set_stay_field num (F_status s) g = g\<lparr>gs_status := s\<rparr>"
| "set_stay_field num (F_guest_name s) g = g\<lparr>gs_name := s\<rparr>"
| "set_stay_field num (F_guest_email s) g = g\<lparr>gs_email := Some s\<rparr>"
| "set_stay_field num (F_guest_phone s) g = g\<lparr>gs_phone := Some s\<rparr>"
| "set_stay_field num (F_check_in_date t) g = g\<lparr>gs_in := t\<rparr>"
| "set_stay_field num (F_check_out_date t) g = g\<lparr>gs_out := t\<rparr>"
| "set_stay_field num (F_notes s) g = g\<lparr>gs_notes := Some s\<rparr>"
| "set_stay_field num (F_source s) g = g\<lparr>gs_source := Some s\<rparr>"

definition sql_update_stay :: "uuid \<Rightarrow> uuid \<Rightarrow> stay_field list \<Rightarrow> db \<Rightarrow> goerr + nat \<times> db" where
  "sql_update_stay h i fs d =
     (let p = (\<lambda>g. gs_id g = i \<and> gs_hotel g = h);
          xs = upd_where p (fold (set_stay_field (db_num d)) fs) (stays d) in
      if list_ex (\<lambda>g. p g \<and> \<not> stay_row_ok (fold (set_stay_field (db_num d)) fs g)) (stays d) then Inl CheckViolation
      else if \<not> no_overlap xs then Inl ExclusionViolation
      else if list_ex (\<lambda>g. \<not> list_ex (\<lambda>r. rm_id r = gs_room g) (rooms d)) (filter p xs)
      then Inl ForeignKeyViolation
      else Inr (affected p (stays d), d\<lparr>stays := xs\<rparr>))"

definition UpdateStay :: "uuid \<Rightarrow> uuid \<Rightarrow> stay_field list \<Rightarrow> (goerr + unit) go" where
  "UpdateStay h i flds = do {
     r \<leftarrow> stmt (sql_update_stay h i flds);
     State_Monad.return (must_affect r)
   }"

definition sql_delete_stay :: "uuid \<Rightarrow> uuid \<Rightarrow> db \<Rightarrow> db" where
  "sql_delete_stay h i d =
     (let p = (\<lambda>g. gs_hotel g = h \<and> gs_id g = i);
          gone = map gs_id (filter p (stays d));
          fgone = map fo_id (filter (\<lambda>f. fo_booking f \<in> set gone) (folios d)) in
      d\<lparr>stays := filter (\<lambda>g. \<not> p g) (stays d),
        folios := filter (\<lambda>f. fo_booking f \<notin> set gone) (folios d),
        charges := filter (\<lambda>c. fc_folio c \<notin> set fgone) (charges d),
        payments := map (\<lambda>y. if \<exists>i \<in> set gone. py_stay y = Some i then y\<lparr>py_stay := None\<rparr> else y)
          (payments d)\<rparr>)"

definition DeleteStay :: "uuid \<Rightarrow> uuid \<Rightarrow> (goerr + unit) go" where
  "DeleteStay h i = exec (sql_delete_stay h i)"

definition sql_soft_cancel ::
    "time \<Rightarrow> uuid \<Rightarrow> uuid \<Rightarrow> string \<Rightarrow> rat \<Rightarrow> uuid option \<Rightarrow> db \<Rightarrow> goerr + nat \<times> db" where
  "sql_soft_cancel now h i reason fee u d =
     (let p = (\<lambda>g. gs_hotel g = h \<and> gs_id g = i \<and> gs_status g \<noteq> ReservationCancelled);
          f = (\<lambda>g. g\<lparr>gs_status := ReservationCancelled, gs_cancelled_at := Some now,
                     gs_cancel_reason := strPtr reason, gs_cancel_fee := db_num d fee, gs_cancelled_by := u\<rparr>) in
      if list_ex (\<lambda>g. p g \<and> \<not> stay_row_ok (f g)) (stays d) then Inl CheckViolation
      else Inr (affected p (stays d), d\<lparr>stays := upd_where p f (stays d)\<rparr>))"

definition SoftCancelStay :: "uuid \<Rightarrow> uuid \<Rightarrow> string \<Rightarrow> rat \<Rightarrow> uuid option \<Rightarrow> (goerr + unit) go" where
  "SoftCancelStay h i reason fee u = do {
     now \<leftarrow> time_Now;
     r \<leftarrow> stmt (sql_soft_cancel now h i reason fee u);
     State_Monad.return (must_affect r)
   }"

definition room_is_free :: "uuid \<Rightarrow> uuid \<Rightarrow> time \<Rightarrow> time \<Rightarrow> uuid \<Rightarrow> db \<Rightarrow> bool" where
  "room_is_free h room checkIn checkOut excludeStayID d \<longleftrightarrow>
     \<not> list_ex (\<lambda>g. gs_hotel g = h \<and> gs_room g = room \<and> gs_status g \<noteq> ReservationCancelled \<and>
          gs_id g \<noteq> excludeStayID \<and> gs_in g < checkOut \<and> checkIn < gs_out g) (stays d)"

definition RoomIsFree :: "uuid \<Rightarrow> uuid \<Rightarrow> time \<Rightarrow> time \<Rightarrow> uuid \<Rightarrow> (goerr + bool) go" where
  "RoomIsFree h room checkIn checkOut excludeStayID =
     query (room_is_free h room checkIn checkOut excludeStayID)"

definition room_has_active_stay :: "uuid \<Rightarrow> uuid \<Rightarrow> db \<Rightarrow> bool" where
  "room_has_active_stay h room d \<longleftrightarrow>
     list_ex (\<lambda>g. gs_hotel g = h \<and> gs_room g = room \<and> gs_actual_in g \<noteq> None \<and> gs_actual_out g = None) (stays d)"

definition RoomHasActiveStay :: "uuid \<Rightarrow> uuid \<Rightarrow> (goerr + bool) go" where
  "RoomHasActiveStay h room = query (room_has_active_stay h room)"

subsection \<open>Guests and folios\<close>

definition digits_only :: "string \<Rightarrow> string" where
  "digits_only s = filter is_digit s"

definition right :: "nat \<Rightarrow> string \<Rightarrow> string" where
  "right n s = drop (length s - n) s"

definition find_guest_by_phone :: "uuid \<Rightarrow> string \<Rightarrow> db \<Rightarrow> uuid option" where
  "find_guest_by_phone h phone d = map_option gu_id (find (\<lambda>g. gu_hotel g = h \<and>
     10 \<le> length (digits_only phone) \<and>
     right 10 (digits_only (derefStr (gu_phone g))) = right 10 (digits_only phone)) (guests d))"

definition find_guest_by_email :: "uuid \<Rightarrow> string \<Rightarrow> db \<Rightarrow> uuid option" where
  "find_guest_by_email h email d = map_option gu_id (find (\<lambda>g. gu_hotel g = h \<and>
     ToLower (derefStr (gu_email g)) = ToLower email \<and> email \<noteq> []) (guests d))"

text \<open>\<^verbatim>\<open>COALESCE(NULLIF(col,''), NULLIF($n,''))\<close>: fill a blank, never overwrite.\<close>

definition keep_or_fill :: "string option \<Rightarrow> string \<Rightarrow> string option" where
  "keep_or_fill old new = (if derefStr old \<noteq> [] then old else strPtr new)"

definition sql_backfill_guest :: "uuid \<Rightarrow> string \<Rightarrow> string \<Rightarrow> db \<Rightarrow> db" where
  "sql_backfill_guest i email phone d = d\<lparr>guests := upd_where (\<lambda>g. gu_id g = i)
     (\<lambda>g. g\<lparr>gu_email := keep_or_fill (gu_email g) email, gu_phone := keep_or_fill (gu_phone g) phone\<rparr>)
     (guests d)\<rparr>"

definition sql_insert_guest :: "Guest \<Rightarrow> db \<Rightarrow> goerr + uuid \<times> db" where
  "sql_insert_guest g d = (if list_ex (\<lambda>x. gu_id x = gu_id g) (guests d) then Inl UniqueViolation
     else Inr (gu_id g, d\<lparr>guests := guests d @ [g]\<rparr>))"

text \<open>The body of the lookup loop of \<open>EnsureGuest\<close>: skip a blank argument, return a match after
  backfilling it, go on when there is none.\<close>

definition guest_lookup :: "string \<Rightarrow> string \<Rightarrow> (db \<Rightarrow> uuid option) \<Rightarrow> string
    \<Rightarrow> (goerr + uuid) go \<Rightarrow> (goerr + uuid) go" where
  "guest_lookup email phone q arg continue =
     (if arg = [] then continue
      else do {
        r \<leftarrow> query_row q;
        case r of
          Inr i \<Rightarrow> do { _ \<leftarrow> exec (sql_backfill_guest i email phone); State_Monad.return (Inr i) }
        | Inl e \<Rightarrow> if e = NoRows then continue else State_Monad.return (Inl e)
      })"

definition EnsureGuest :: "uuid \<Rightarrow> string \<Rightarrow> string \<Rightarrow> string \<Rightarrow> (goerr + uuid) go" where
  "EnsureGuest h name0 email0 phone0 =
     (let name = TrimSpace name0; email = TrimSpace email0; phone = TrimSpace phone0 in
      if phone = [] \<and> email = [] then State_Monad.return (Inr uuid_Nil)
      else
        guest_lookup email phone (find_guest_by_phone h phone) phone
       (guest_lookup email phone (find_guest_by_email h email) email (do {
          i \<leftarrow> uuid_New;
          stmt (sql_insert_guest \<lparr>gu_id = i, gu_hotel = h,
            gu_name = (if name = [] then ''Guest '' @ phone else name),
            gu_email = strPtr email, gu_phone = strPtr phone, gu_id_type = None, gu_id_number = None\<rparr>)
        })))"

definition sql_guest_identity :: "uuid \<Rightarrow> uuid \<Rightarrow> string \<Rightarrow> string \<Rightarrow> db \<Rightarrow> db" where
  "sql_guest_identity h i idType idNumber d = d\<lparr>guests := upd_where (\<lambda>g. gu_hotel g = h \<and> gu_id g = i)
     (\<lambda>g. g\<lparr>gu_id_type := keep_or_fill (gu_id_type g) idType,
            gu_id_number := keep_or_fill (gu_id_number g) idNumber\<rparr>) (guests d)\<rparr>"

definition SetGuestIdentity :: "uuid \<Rightarrow> uuid \<Rightarrow> string \<Rightarrow> string \<Rightarrow> (goerr + unit) go" where
  "SetGuestIdentity h i idType idNumber =
     exec (sql_guest_identity h i (TrimSpace idType) (TrimSpace idNumber))"

definition find_folio :: "uuid \<Rightarrow> uuid \<Rightarrow> db \<Rightarrow> uuid option" where
  "find_folio h booking d = map_option fo_id (find (\<lambda>f. fo_hotel f = h \<and> fo_booking f = booking) (folios d))"

definition sql_insert_folio :: "Folio \<Rightarrow> db \<Rightarrow> goerr + uuid \<times> db" where
  "sql_insert_folio f d =
     (if list_ex (\<lambda>x. fo_id x = fo_id f) (folios d) then Inl UniqueViolation
      else if \<not> list_ex (\<lambda>g. gs_id g = fo_booking f) (stays d) then Inl ForeignKeyViolation
      else Inr (fo_id f, d\<lparr>folios := folios d @ [f]\<rparr>))"

definition EnsureFolioForBooking :: "uuid \<Rightarrow> uuid \<Rightarrow> uuid \<Rightarrow> string \<Rightarrow> (goerr + uuid) go" where
  "EnsureFolioForBooking h booking guest currency0 =
     (if guest = uuid_Nil then State_Monad.return (Inr uuid_Nil)
      else do {
        r \<leftarrow> query_row (find_folio h booking);
        case r of
          Inr i \<Rightarrow> State_Monad.return (Inr i)
        | Inl e \<Rightarrow>
            if e \<noteq> NoRows then State_Monad.return (Inl e)
            else do {
              i \<leftarrow> uuid_New;
              stmt (sql_insert_folio \<lparr>fo_id = i, fo_hotel = h, fo_booking = booking, fo_guest = Some guest,
                fo_status = ''open'', fo_currency = (if currency0 = [] then ''INR'' else currency0)\<rparr>)
            }
      })"

subsection \<open>Hotel settings and lookup\<close>

definition HotelGSTRate :: "uuid \<Rightarrow> (goerr + rat) go" where
  "HotelGSTRate h = do {
     r \<leftarrow> query_row (\<lambda>d. map_option (\<lambda>x. case h_gst_rate x of None \<Rightarrow> 0 | Some v \<Rightarrow> v)
           (find (\<lambda>x. h_id x = h) (hotels d)));
     State_Monad.return (not_found r)
   }"

definition HotelName :: "uuid \<Rightarrow> (goerr + string) go" where
  "HotelName h = do {
     r \<leftarrow> query_row (\<lambda>d. map_option h_name (find (\<lambda>x. h_id x = h) (hotels d)));
     State_Monad.return (not_found r)
   }"

text \<open>SQL \<^verbatim>\<open>ILIKE\<close>: percent matches any text, underscore one character, a backslash takes the
  next pattern character literally.\<close>

fun like :: "string \<Rightarrow> string \<Rightarrow> bool" where
  "like s [] = (s = [])"
| "like s (p # ps) =
     (if p = CHR ''%'' then like s ps \<or> (case s of [] \<Rightarrow> False | _ # s' \<Rightarrow> like s' (p # ps))
      else if p = CHR ''_'' then (case s of [] \<Rightarrow> False | _ # s' \<Rightarrow> like s' ps)
      else if p = CHR 0x5C then (case ps of [] \<Rightarrow> False | q # qs \<Rightarrow>
        (case s of [] \<Rightarrow> False | c # s' \<Rightarrow> c = q \<and> like s' qs))
      else (case s of [] \<Rightarrow> False | c # s' \<Rightarrow> c = p \<and> like s' ps))"

definition ilike :: "string option \<Rightarrow> string \<Rightarrow> bool" where
  "ilike s p = (case s of None \<Rightarrow> False | Some t \<Rightarrow> like (ToLower t) (ToLower p))"

definition SmartCheckinLookup :: "uuid \<Rightarrow> string \<Rightarrow> string \<Rightarrow> (goerr + stay_view) go" where
  "SmartCheckinLookup h guestName phone = do {
     r \<leftarrow> query_row (\<lambda>d. case sort_key (\<lambda>g. - gs_in g) (filter (\<lambda>g. gs_hotel g = h \<and>
            (ilike (Some (gs_name g)) (''%'' @ guestName @ ''%'') \<or>
             ilike (gs_phone g) (''%'' @ phone @ ''%'')) \<and>
            gs_status g \<noteq> ReservationCancelled) (stays d)) of
          [] \<Rightarrow> None | g # _ \<Rightarrow> Some (enrich d g));
     State_Monad.return (not_found r)
   }"

subsection \<open>Facts about overlapping stays\<close>

lemma overlaps_sym: "overlaps a b = overlaps b a"
  by (auto simp: overlaps_def)

lemma no_overlap_append: "no_overlap (xs @ [x]) \<longleftrightarrow> no_overlap xs \<and> \<not> list_ex (overlaps x) xs"
  by (auto simp: no_overlap_def sorted_wrt_append list_ex_iff overlaps_sym)

text \<open>Taking rows off the dates they hold cannot create an overlap.\<close>

lemma no_overlap_upd_where:
  assumes "no_overlap xs" "\<And>a b. overlaps (f a) b \<Longrightarrow> overlaps a b"
  shows "no_overlap (upd_where p f xs)"
proof -
  let ?g = "\<lambda>x. if p x then f x else x"
  have "overlaps (?g a) (?g b) \<Longrightarrow> overlaps a b" for a b
    using assms(2) overlaps_sym by metis
  then show ?thesis
    unfolding no_overlap_def upd_where_def sorted_wrt_map
    by (intro sorted_wrt_mono_rel [OF _ assms(1) [unfolded no_overlap_def]]) blast
qed

text \<open>Only the one row with a given id moves: no overlap arises when its new form overlaps no
  other row.\<close>

lemma no_overlap_upd_one:
  assumes "no_overlap xs" "distinct (map gs_id xs)"
    and "\<And>x y. x \<in> set xs \<Longrightarrow> y \<in> set xs \<Longrightarrow> p x \<Longrightarrow> gs_id y \<noteq> gs_id x \<Longrightarrow> \<not> overlaps (f x) y"
    and "\<And>x y. p x \<Longrightarrow> p y \<Longrightarrow> gs_id x = gs_id y"
  shows "no_overlap (upd_where p f xs)"
  using assms unfolding no_overlap_def upd_where_def sorted_wrt_map
proof (induction xs)
  case Nil
  show ?case by simp
next
  case (Cons a xs)
  have "\<not> overlaps (if p a then f a else a) (if p b then f b else b)" if b: "b \<in> set xs" for b
  proof -
    have ab: "gs_id a \<noteq> gs_id b" using Cons.prems(2) b by auto
    then have "\<not> (p a \<and> p b)" using Cons.prems(4) by blast
    moreover have "\<not> overlaps a b" using Cons.prems(1) b by simp
    moreover have "p a \<Longrightarrow> \<not> overlaps (f a) b" using Cons.prems(3) [of a b] ab b by auto
    moreover have "p b \<Longrightarrow> \<not> overlaps (f b) a" using Cons.prems(3) [of b a] ab b by auto
    ultimately show ?thesis using overlaps_sym [of a "f b"] by auto
  qed
  moreover have "sorted_wrt (\<lambda>x y. \<not> overlaps (if p x then f x else x) (if p y then f y else y)) xs"
  proof (rule Cons.IH)
    show "\<not> overlaps (f x) y" if "x \<in> set xs" "y \<in> set xs" "p x" "gs_id y \<noteq> gs_id x" for x y
      using Cons.prems(3) [of x y] that by simp
    show "sorted_wrt (\<lambda>a b. \<not> overlaps a b) xs" "distinct (map gs_id xs)"
      using Cons.prems(1,2) by simp_all
  qed (rule Cons.prems(4))
  ultimately show ?case by simp
qed

text \<open>Every stay is in a room of its own tenant, and identifiers are unique and never nil: the
  integrity the availability check relies on.\<close>

definition stays_integrity :: "db \<Rightarrow> bool" where
  "stays_integrity d \<longleftrightarrow>
     distinct (map rm_id (rooms d)) \<and> distinct (map gs_id (stays d)) \<and>
     (\<forall>g \<in> set (stays d). gs_id g \<noteq> uuid_Nil \<and>
        (\<forall>r \<in> set (rooms d). rm_id r = gs_room g \<longrightarrow> rm_hotel r = gs_hotel g))"

lemma find_roomD: "find_room h i d = Some r \<Longrightarrow> r \<in> set (rooms d) \<and> rm_hotel r = h \<and> rm_id r = i"
  by (auto simp: find_room_def dest: find_SomeD)

lemma find_stayD: "find_stay h i d = Some g \<Longrightarrow> g \<in> set (stays d) \<and> gs_hotel g = h \<and> gs_id g = i"
  by (auto simp: find_stay_def dest: find_SomeD)

lemma distinct_map_eqI: "distinct (map f xs) \<Longrightarrow> x \<in> set xs \<Longrightarrow> y \<in> set xs \<Longrightarrow> f x = f y \<Longrightarrow> x = y"
  by (simp add: distinct_map inj_on_def)

lemma free_iff_no_overlap:
  assumes "stays_integrity d" "find_room h room d = Some r" "gs_room s = room"
    "gs_status s \<noteq> ReservationCancelled" "gs_in s = ci" "gs_out s = co"
  shows "room_is_free h room ci co x d \<longleftrightarrow>
    \<not> list_ex (\<lambda>g. overlaps s g \<and> gs_id g \<noteq> x) (stays d)"
proof -
  have "gs_hotel g = h" if "g \<in> set (stays d)" "gs_room g = room" for g
    using assms(1) find_roomD [OF assms(2)] that unfolding stays_integrity_def by metis
  then show ?thesis
    using assms(3-) by (auto simp: room_is_free_def list_ex_iff overlaps_def)
qed

lemma fold_set_stay_field_id [simp]:
  "gs_id (fold (set_stay_field num) fs g) = gs_id g"
  "gs_hotel (fold (set_stay_field num) fs g) = gs_hotel g"
proof (induction fs arbitrary: g)
  case (Cons f fs)
  { case 1 then show ?case using Cons(1) [of "set_stay_field num f g"] by (cases f) auto }
  { case 2 then show ?case using Cons(2) [of "set_stay_field num f g"] by (cases f) auto }
qed auto

subsection \<open>Facts about folios\<close>

definition one_folio_per_booking :: "db \<Rightarrow> bool" where
  "one_folio_per_booking d \<longleftrightarrow> distinct (map (\<lambda>f. (fo_hotel f, fo_booking f)) (folios d))"

lemma keeps_EnsureFolioForBooking_one:
  "keeps one_folio_per_booking (EnsureFolioForBooking h b g c)"
proof (cases "g = uuid_Nil")
  case False
  let ?J = one_folio_per_booking
  let ?N = "\<lambda>d. ?J d \<and> find_folio h b d = None"
  have ins: "triple ?N (stmt (sql_insert_folio \<lparr>fo_id = i, fo_hotel = h, fo_booking = b, fo_guest = Some g,
              fo_status = ''open'', fo_currency = cur\<rparr>)) (\<lambda>_. ?J)" for i cur
    by (rule triple_stmt)
       (auto simp: one_folio_per_booking_def sql_insert_folio_def find_folio_def find_None_conv split: if_splits)
  have new: "triple ?N (do { i \<leftarrow> uuid_New; stmt (sql_insert_folio \<lparr>fo_id = i, fo_hotel = h,
      fo_booking = b, fo_guest = Some g, fo_status = ''open'', fo_currency = cur\<rparr>) }) (\<lambda>_. ?J)" for cur
    by (rule triple_bind [OF triple_uuid_New [of ?N "\<lambda>_. ?N"] ins])
  show ?thesis
    unfolding keeps_triple EnsureFolioForBooking_def if_not_P [OF False]
  proof (rule triple_bind [OF triple_query_row])
    fix r :: "goerr + uuid"
    show "triple (\<lambda>d. ?J d \<and> (\<forall>a. r = Inr a \<longrightarrow> find_folio h b d = Some a) \<and> (r = Inl NoRows \<longrightarrow> find_folio h b d = None))
       (case r of Inl e \<Rightarrow> if e \<noteq> NoRows then State_Monad.return (Inl e)
            else do { i \<leftarrow> uuid_New; stmt (sql_insert_folio \<lparr>fo_id = i, fo_hotel = h, fo_booking = b,
                fo_guest = Some g, fo_status = ''open'', fo_currency = (if c = [] then ''INR'' else c)\<rparr>) }
        | Inr i \<Rightarrow> State_Monad.return (Inr i)) (\<lambda>_. ?J)"
      by (cases r) (auto intro: triple_return new)
  qed
qed (simp add: EnsureFolioForBooking_def keeps_return)

subsection \<open>Facts about guests\<close>

definition guest_by_phone :: "uuid \<Rightarrow> string \<Rightarrow> Guest \<Rightarrow> bool" where
  "guest_by_phone h phone g \<longleftrightarrow> gu_hotel g = h \<and> 10 \<le> length (digits_only phone) \<and>
     right 10 (digits_only (derefStr (gu_phone g))) = right 10 (digits_only phone)"

definition guest_by_email :: "uuid \<Rightarrow> string \<Rightarrow> Guest \<Rightarrow> bool" where
  "guest_by_email h email g \<longleftrightarrow> gu_hotel g = h \<and> ToLower (derefStr (gu_email g)) = ToLower email \<and> email \<noteq> []"

definition backfilled :: "uuid \<Rightarrow> string \<Rightarrow> string \<Rightarrow> Guest \<Rightarrow> Guest" where
  "backfilled i email phone g = (if gu_id g = i
     then g\<lparr>gu_email := keep_or_fill (gu_email g) email, gu_phone := keep_or_fill (gu_phone g) phone\<rparr> else g)"

lemma find_guest_conv:
  "find_guest_by_phone h phone d = map_option gu_id (find (guest_by_phone h phone) (guests d))"
  "find_guest_by_email h email d = map_option gu_id (find (guest_by_email h email) (guests d))"
  unfolding find_guest_by_phone_def find_guest_by_email_def guest_by_phone_def [abs_def] guest_by_email_def [abs_def]
  by simp_all

lemma backfill_conv: "guests (sql_backfill_guest i email phone d) = map (backfilled i email phone) (guests d)"
  by (simp add: sql_backfill_guest_def upd_where_def backfilled_def [abs_def])

lemma backfilled_mono:
  "guest_by_phone h phone g \<Longrightarrow> guest_by_phone h phone (backfilled i email phone' g)"
  "guest_by_email h email g \<Longrightarrow> guest_by_email h email (backfilled i email' phone' g)"
  by (auto simp: guest_by_phone_def guest_by_email_def backfilled_def keep_or_fill_def digits_only_def right_def ToLower_def)

lemma backfilled_id [simp]: "gu_id (backfilled i email phone g) = gu_id g"
  "gu_hotel (backfilled i email phone g) = gu_hotel g"
  by (simp_all add: backfilled_def)

lemma backfilled_other: "backfilled i email phone g \<noteq> g \<Longrightarrow> gu_id g = i"
  by (simp add: backfilled_def split: if_splits)

text \<open>After a backfill of guest \<open>i\<close> a lookup that found \<open>i\<close> finds it again, and one that found
  nothing finds nothing else.\<close>

lemma find_backfilled:
  assumes "\<And>g. q g \<Longrightarrow> q (backfilled i email phone g)"
  shows "map_option gu_id (find q xs) = Some i \<Longrightarrow> map_option gu_id (find q (map (backfilled i email phone) xs)) = Some i"
    and "find q xs = None \<Longrightarrow> map_option gu_id (find q (map (backfilled i email phone) xs)) \<in> {None, Some i}"
proof -
  have other: "gu_id g = i" if "q (backfilled i email phone g)" "\<not> q g" for g
    using backfilled_other [of i email phone g] that by metis
  show "map_option gu_id (find q xs) = Some i \<Longrightarrow> map_option gu_id (find q (map (backfilled i email phone) xs)) = Some i"
    by (induction xs) (use assms other in \<open>auto split: if_splits\<close>)
  show "find q xs = None \<Longrightarrow> map_option gu_id (find q (map (backfilled i email phone) xs)) \<in> {None, Some i}"
    by (induction xs) (use other in \<open>auto split: if_splits\<close>)
qed

lemma run_guest_lookup:
  assumes "calm w"
  shows "run_state (guest_lookup email phone q arg m) w =
    (if arg = [] then run_state m w
     else case q (w_db w) of None \<Rightarrow> run_state m w
       | Some i \<Rightarrow> (Inr i, w\<lparr>w_db := sql_backfill_guest i email phone (w_db w)\<rparr>))"
  using assms by (auto simp: guest_lookup_def split: option.split)

lemma find_append_None: "find q xs = None \<Longrightarrow> find q (xs @ [x]) = (if q x then Some x else None)"
  by (induction xs) (auto split: if_splits)

subsection \<open>Properties\<close>

text \<open>C18: the availability check answers what the database will answer. On a database whose stays
  sit in rooms of their own tenant, \<open>RoomIsFree\<close> for a room of the tenant holds exactly when the
  exclusion constraint lets a new stay with those dates be inserted; and when it holds for the
  room and dates an edit leads to, ignoring the edited stay, the update is not refused by the
  constraint. So a 409 from the constraint itself only reports a concurrent booking.\<close>

theorem RoomIsFree_agrees_with_constraint:
  assumes "stays_integrity d" "find_room h room d = Some r"
    and "gs_room s = room" "gs_hotel s = h" "gs_in s < gs_out s" "gs_status s \<noteq> ReservationCancelled"
    and "stay_row_ok s" "\<forall>g \<in> set (stays d). gs_id g \<noteq> gs_id s \<and> (gs_conf g = None \<or> gs_conf g \<noteq> gs_conf s)"
    and "no_overlap (stays d)" "find_stay h i d = Some g"
    and "g' = fold (set_stay_field (db_num d)) fs g" "gs_room g' = room" "gs_status g' \<noteq> ReservationCancelled"
  shows "(room_is_free h room (gs_in s) (gs_out s) uuid_Nil d \<longleftrightarrow>
           (\<exists>s' d'. sql_insert_stay s d = Inr (s', d') \<and> stays d' = stays d @ [s'])) \<and>
    (room_is_free h room (gs_in g') (gs_out g') i d \<longrightarrow>
       sql_update_stay h i fs d \<noteq> Inl ExclusionViolation)"
proof (intro conjI impI)
  have nil: "\<forall>g \<in> set (stays d). gs_id g \<noteq> uuid_Nil" using assms(1) by (auto simp: stays_integrity_def)
  have "room_is_free h room (gs_in s) (gs_out s) uuid_Nil d \<longleftrightarrow> \<not> list_ex (overlaps s) (stays d)"
    using free_iff_no_overlap [OF assms(1-3,6) refl refl, of uuid_Nil] nil by (auto simp: list_ex_iff)
  then show "room_is_free h room (gs_in s) (gs_out s) uuid_Nil d \<longleftrightarrow>
      (\<exists>s' d'. sql_insert_stay s d = Inr (s', d') \<and> stays d' = stays d @ [s'])"
    using assms(3,4,7,8) find_roomD [OF assms(2)] by (auto simp: sql_insert_stay_def list_ex_iff Let_def)
  assume "room_is_free h room (gs_in g') (gs_out g') i d"
  then have free: "\<not> list_ex (\<lambda>y. overlaps g' y \<and> gs_id y \<noteq> i) (stays d)"
    using free_iff_no_overlap [OF assms(1,2) assms(12,13) refl refl] by simp
  have dist: "distinct (map gs_id (stays d))" using assms(1) by (simp add: stays_integrity_def)
  note g = find_stayD [OF assms(10)]
  have only: "x = g" if "x \<in> set (stays d)" "gs_id x = i" for x
    using distinct_map_eqI [OF dist that(1), of g] g that(2) by simp
  have "no_overlap (upd_where (\<lambda>g. gs_id g = i \<and> gs_hotel g = h) (fold (set_stay_field (db_num d)) fs) (stays d))"
  proof (rule no_overlap_upd_one [OF assms(9) dist])
    fix x y assume "x \<in> set (stays d)" "y \<in> set (stays d)" "gs_id x = i \<and> gs_hotel x = h" "gs_id y \<noteq> gs_id x"
    then show "\<not> overlaps (fold (set_stay_field (db_num d)) fs x) y"
      using only [of x] free assms(11) by (auto simp: list_ex_iff)
  qed simp
  then show "sql_update_stay h i fs d \<noteq> Inl ExclusionViolation"
    by (simp add: sql_update_stay_def Let_def)
qed

definition room_sample :: Room where
  "room_sample = \<lparr>rm_id = 2, rm_hotel = 7, rm_number = ''101'', rm_type = ''deluxe'', rm_floor = 1,
     rm_capacity = 2, rm_price = cents 249999, rm_status = RoomStatusAvailable\<rparr>"

definition booked_db :: db where
  "booked_db = empty_db\<lparr>rooms := [room_sample], stays := [stay_sample],
     hotels := [\<lparr>h_id = 7, h_name = ''Hotel'', h_gst_rate = Some 18\<rparr>]\<rparr>"

theorem RoomIsFree_agrees_with_constraint_witness:
  "room_is_free 7 2 259200 345600 uuid_Nil booked_db \<and>
   (\<exists>s' d'. sql_insert_stay (stay_sample\<lparr>gs_id := 6, gs_in := 259200, gs_out := 345600\<rparr>) booked_db
      = Inr (s', d')) \<and>
   sql_update_stay 7 5 [F_check_out_date 172800] booked_db \<noteq> Inl ExclusionViolation"
proof -
  let ?s = "stay_sample\<lparr>gs_id := 6, gs_in := 259200, gs_out := 345600\<rparr>"
  have pre: "stays_integrity booked_db" "find_room 7 2 booked_db = Some room_sample"
    "gs_room ?s = 2" "gs_hotel ?s = 7" "gs_in ?s < gs_out ?s" "gs_status ?s \<noteq> ReservationCancelled"
    "stay_row_ok ?s" "\<forall>g \<in> set (stays booked_db). gs_id g \<noteq> gs_id ?s \<and> (gs_conf g = None \<or> gs_conf g \<noteq> gs_conf ?s)"
    "no_overlap (stays booked_db)" "find_stay 7 5 booked_db = Some stay_sample"
    "gs_room (fold (set_stay_field (db_num booked_db)) [F_check_out_date 172800] stay_sample) = 2"
    "gs_status (fold (set_stay_field (db_num booked_db)) [F_check_out_date 172800] stay_sample) \<noteq> ReservationCancelled"
    by (simp_all add: stays_integrity_def booked_db_def empty_db_def room_sample_def stay_sample_def
        find_room_def find_stay_def stay_row_ok_def no_overlap_def)
  have free: "room_is_free 7 2 259200 345600 uuid_Nil booked_db" "room_is_free 7 2 0 172800 5 booked_db"
    by (simp_all add: room_is_free_def booked_db_def empty_db_def stay_sample_def)
  from RoomIsFree_agrees_with_constraint [OF pre(1-10) refl pre(11,12)] free
  show ?thesis by (auto simp: stay_sample_def)
qed



text \<open>Without faults \<open>EnsureGuest\<close> is a lookup by phone, then by email, then an insertion.\<close>

definition phone_hit :: "uuid \<Rightarrow> string \<Rightarrow> Guest list \<Rightarrow> uuid option" where
  "phone_hit h p xs = (if p = [] then None else map_option gu_id (find (guest_by_phone h p) xs))"

definition email_hit :: "uuid \<Rightarrow> string \<Rightarrow> Guest list \<Rightarrow> uuid option" where
  "email_hit h e xs = (if e = [] then None else map_option gu_id (find (guest_by_email h e) xs))"

lemma EnsureGuest_run:
  assumes "calm v" "TrimSpace p \<noteq> [] \<or> TrimSpace e \<noteq> []"
  shows "run_state (EnsureGuest h m e p) v = (case phone_hit h (TrimSpace p) (guests (w_db v)) of
        Some i \<Rightarrow> (Inr i, v\<lparr>w_db := sql_backfill_guest i (TrimSpace e) (TrimSpace p) (w_db v)\<rparr>)
      | None \<Rightarrow> (case email_hit h (TrimSpace e) (guests (w_db v)) of
          Some i \<Rightarrow> (Inr i, v\<lparr>w_db := sql_backfill_guest i (TrimSpace e) (TrimSpace p) (w_db v)\<rparr>)
        | None \<Rightarrow> run_state (do { i \<leftarrow> uuid_New; stmt (sql_insert_guest \<lparr>gu_id = i, gu_hotel = h,
            gu_name = (if TrimSpace m = [] then ''Guest '' @ TrimSpace p else TrimSpace m), gu_email = strPtr (TrimSpace e),
            gu_phone = strPtr (TrimSpace p), gu_id_type = None, gu_id_number = None\<rparr>) }) v))"
  using assms
  by (auto simp: EnsureGuest_def run_guest_lookup find_guest_conv phone_hit_def email_hit_def Let_def split: option.split)



end
