(* ===== verification/Ledger.thy ===== *)
theory Ledger
  imports RoomRepo
begin

text \<open>
  Posting to the general ledger, \<^verbatim>\<open>internal/handler/accounting_autopost.go\<close>, and the customer
  linkage of \<^verbatim>\<open>internal/handler/pos_customer.go\<close>. The unique keys of the schema are part of
  the statements: one account per tenant and code, one voucher number per tenant, one customer
  per tenant and code and per tenant and nonempty phone. Logging is left out.
\<close>

subsection \<open>Chart of accounts\<close>

record defaultAccount =
  da_code :: string
  da_name :: string
  da_typ :: string
  da_sub :: string
  da_order :: int

definition standardChart :: "defaultAccount list" where
  "standardChart =
    [\<lparr>da_code = ''1000'', da_name = ''Cash'', da_typ = ''asset'', da_sub = ''current_asset'', da_order = 1\<rparr>,
     \<lparr>da_code = ''1010'', da_name = ''Bank'', da_typ = ''asset'', da_sub = ''current_asset'', da_order = 2\<rparr>,
     \<lparr>da_code = ''1200'', da_name = ''Accounts Receivable'', da_typ = ''asset'', da_sub = ''current_asset'', da_order = 3\<rparr>,
     \<lparr>da_code = ''1400'', da_name = ''Inventory'', da_typ = ''asset'', da_sub = ''current_asset'', da_order = 4\<rparr>,
     \<lparr>da_code = ''2000'', da_name = ''Accounts Payable'', da_typ = ''liability'', da_sub = ''current_liability'', da_order = 5\<rparr>,
     \<lparr>da_code = ''2100'', da_name = ''GST Payable'', da_typ = ''liability'', da_sub = ''current_liability'', da_order = 6\<rparr>,
     \<lparr>da_code = ''3000'', da_name = ''Retained Earnings'', da_typ = ''equity'', da_sub = ''equity'', da_order = 7\<rparr>,
     \<lparr>da_code = ''4000'', da_name = ''Sales Revenue'', da_typ = ''revenue'', da_sub = ''operating_revenue'', da_order = 8\<rparr>,
     \<lparr>da_code = ''4100'', da_name = ''Food & Beverage Revenue'', da_typ = ''revenue'', da_sub = ''operating_revenue'', da_order = 9\<rparr>,
     \<lparr>da_code = ''5000'', da_name = ''Cost of Goods Sold'', da_typ = ''expense'', da_sub = ''cogs'', da_order = 10\<rparr>,
     \<lparr>da_code = ''5100'', da_name = ''Channel Commission'', da_typ = ''expense'', da_sub = ''selling_expense'', da_order = 11\<rparr>]"

definition sql_ensure_account :: "uuid \<Rightarrow> uuid \<Rightarrow> defaultAccount \<Rightarrow> db \<Rightarrow> goerr + unit \<times> db" where
  "sql_ensure_account i h a d =
     (if list_ex (\<lambda>x. ac_hotel x = h \<and> ac_code x = da_code a) (accounts d) then Inr ((), d)
      else if list_ex (\<lambda>x. ac_id x = i) (accounts d) then Inl UniqueViolation
      else Inr ((), d\<lparr>accounts := accounts d @ [\<lparr>ac_id = i, ac_hotel = h, ac_code = da_code a,
        ac_name = da_name a, ac_type = da_typ a, ac_sub_type = da_sub a, ac_order = da_order a\<rparr>]\<rparr>))"

text \<open>The insertion loop.\<close>

fun ensure_accounts :: "uuid \<Rightarrow> defaultAccount list \<Rightarrow> (goerr + unit) go" where
  "ensure_accounts h [] = State_Monad.return (Inr ())"
| "ensure_accounts h (a # as) = do {
     i \<leftarrow> uuid_New;
     r \<leftarrow> stmt (sql_ensure_account i h a);
     case r of Inl e \<Rightarrow> State_Monad.return (Inl e) | Inr _ \<Rightarrow> ensure_accounts h as
   }"

text \<open>The map from code to account: a later row of the result overwrites an earlier one.\<close>

definition account_map :: "uuid \<Rightarrow> db \<Rightarrow> (string \<times> uuid) list" where
  "account_map h d = rev (map (\<lambda>a. (ac_code a, ac_id a)) (filter (\<lambda>a. ac_hotel a = h) (accounts d)))"

definition ensureChartOfAccounts :: "uuid \<Rightarrow> (goerr + (string \<times> uuid) list) go" where
  "ensureChartOfAccounts h = do {
     r \<leftarrow> ensure_accounts h standardChart;
     case r of Inl e \<Rightarrow> State_Monad.return (Inl e) | Inr _ \<Rightarrow> query (account_map h)
   }"

subsection \<open>Voucher numbers\<close>

definition voucherTypeFor :: "string \<Rightarrow> string" where
  "voucherTypeFor reference =
     (if HasPrefix reference ''BILL '' \<or> HasPrefix reference ''ORDER '' \<or>
         HasPrefix reference ''INV '' \<or> HasPrefix reference ''FOLIO '' then ''SAL''
      else if HasPrefix reference ''GRN '' \<or> HasPrefix reference ''PO '' \<or> HasPrefix reference ''DN '' then ''PUR''
      else if HasPrefix reference ''VP '' \<or> HasPrefix reference ''PAY '' then ''PAY''
      else ''GEN'')"

definition counter_row :: "uuid \<Rightarrow> string \<Rightarrow> VoucherCounter \<Rightarrow> bool" where
  "counter_row h t c \<longleftrightarrow> vc_hotel c = h \<and> vc_type c = t"

text \<open>The atomic upsert: the number returned is the value the counter had, one for a new row.\<close>

definition sql_next_voucher :: "uuid \<Rightarrow> string \<Rightarrow> db \<Rightarrow> goerr + int \<times> db" where
  "sql_next_voucher h t d =
     (case find (counter_row h t) (counters d) of
        None \<Rightarrow> Inr (1, d\<lparr>counters := counters d @ [\<lparr>vc_hotel = h, vc_type = t, vc_next = 2\<rparr>]\<rparr>)
      | Some c \<Rightarrow> Inr (vc_next c,
          d\<lparr>counters := upd_where (counter_row h t) (\<lambda>c. c\<lparr>vc_next := vc_next c + 1\<rparr>) (counters d)\<rparr>))"

definition voucher_string :: "string \<Rightarrow> int \<Rightarrow> string" where
  "voucher_string t n = t @ ''-'' @ show_padded 6 (nat n)"

definition nextVoucherNo :: "uuid \<Rightarrow> string \<Rightarrow> (goerr + string) go" where
  "nextVoucherNo h t = do {
     r \<leftarrow> stmt (sql_next_voucher h t);
     State_Monad.return (case r of Inl e \<Rightarrow> Inl e | Inr n \<Rightarrow> Inr (voucher_string t n))
   }"

subsection \<open>Journal entries\<close>

record journalLine =
  l_code :: string
  l_debit :: rat
  l_credit :: rat
  l_memo :: string

definition Dr :: "string \<Rightarrow> rat \<Rightarrow> string \<Rightarrow> journalLine" where
  "Dr code v memo = \<lparr>l_code = code, l_debit = v, l_credit = 0, l_memo = memo\<rparr>"

definition Cr :: "string \<Rightarrow> rat \<Rightarrow> string \<Rightarrow> journalLine" where
  "Cr code v memo = \<lparr>l_code = code, l_debit = 0, l_credit = v, l_memo = memo\<rparr>"

definition sql_insert_entry :: "JournalEntry \<Rightarrow> db \<Rightarrow> goerr + unit \<times> db" where
  "sql_insert_entry e d =
     (if list_ex (\<lambda>x. je_id x = je_id e \<or>
           je_hotel x = je_hotel e \<and> je_voucher_no x \<noteq> None \<and> je_voucher_no x = je_voucher_no e) (entries d)
      then Inl UniqueViolation else Inr ((), d\<lparr>entries := entries d @ [e]\<rparr>))"

definition sql_insert_jline :: "JournalRow \<Rightarrow> db \<Rightarrow> goerr + unit \<times> db" where
  "sql_insert_jline l d =
     (if list_ex (\<lambda>x. jl_id x = jl_id l) (jlines d) then Inl UniqueViolation
      else Inr ((), d\<lparr>jlines := jlines d @
        [l\<lparr>jl_debit := db_num d (jl_debit l), jl_credit := db_num d (jl_credit l)\<rparr>]\<rparr>))"

text \<open>The loop over the lines: a zero line and a line of an unknown account are skipped.\<close>

fun post_lines :: "uuid \<Rightarrow> uuid \<Rightarrow> (string \<times> uuid) list \<Rightarrow> journalLine list \<Rightarrow> (goerr + unit) go" where
  "post_lines h entry accts [] = State_Monad.return (Inr ())"
| "post_lines h entry accts (l # ls) =
     (if l_debit l = 0 \<and> l_credit l = 0 then post_lines h entry accts ls
      else case map_of accts (l_code l) of
          None \<Rightarrow> post_lines h entry accts ls
        | Some acct \<Rightarrow> do {
            i \<leftarrow> uuid_New;
            r \<leftarrow> stmt (sql_insert_jline \<lparr>jl_id = i, jl_entry = entry, jl_hotel = h, jl_account = acct,
                   jl_debit = l_debit l, jl_credit = l_credit l, jl_memo = l_memo l\<rparr>);
            case r of Inl e \<Rightarrow> State_Monad.return (Inl e) | Inr _ \<Rightarrow> post_lines h entry accts ls
          })"

text \<open>Number the voucher, and post unnumbered when that fails.\<close>

definition voucher_or_blank :: "goerr + string \<Rightarrow> string option" where
  "voucher_or_blank r = (case r of Inl _ \<Rightarrow> None | Inr s \<Rightarrow> strPtr s)"

definition postJournal :: "uuid \<Rightarrow> string \<Rightarrow> string \<Rightarrow> journalLine list \<Rightarrow> (goerr + uuid) go" where
  "postJournal h description reference ls = do {
     ra \<leftarrow> ensureChartOfAccounts h;
     case ra of
       Inl e \<Rightarrow> State_Monad.return (Inl e)
     | Inr accts \<Rightarrow> do {
         rv \<leftarrow> nextVoucherNo h (voucherTypeFor reference);
         entry \<leftarrow> uuid_New;
         re \<leftarrow> stmt (sql_insert_entry \<lparr>je_id = entry, je_hotel = h, je_description = description,
                je_reference = reference, je_voucher_no = voucher_or_blank rv,
                je_voucher_type = voucherTypeFor reference\<rparr>);
         case re of
           Inl e \<Rightarrow> State_Monad.return (Inl e)
         | Inr _ \<Rightarrow> do {
             rl \<leftarrow> post_lines h entry accts ls;
             State_Monad.return (case rl of Inl e \<Rightarrow> Inl e | Inr _ \<Rightarrow> Inr entry)
           }
       }
   }"

subsection \<open>Postings of the operational events\<close>

definition cashAccount :: "string \<Rightarrow> string" where
  "cashAccount method = (if method = ''cash'' then ''1000'' else ''1010'')"

definition sales_lines :: "string \<Rightarrow> rat \<Rightarrow> rat \<Rightarrow> journalLine list" where
  "sales_lines method tax tot =
     (let cash = (if method = ''cash'' then ''1000'' else ''1010'') in
      [Dr cash (round2 tot) (''Sale settlement ('' @ method @ '')''),
       Cr ''4100'' (round2 (fsub tot tax)) ''F&B revenue'',
       Cr ''2100'' (round2 tax) ''GST on sale''])"

definition postSalesToLedger ::
    "uuid \<Rightarrow> string \<Rightarrow> rat \<Rightarrow> rat \<Rightarrow> rat \<Rightarrow> string \<Rightarrow> string \<Rightarrow> (goerr + uuid) go" where
  "postSalesToLedger h method subtotal tax tot reference description =
     postJournal h description reference (sales_lines method tax tot)"

text \<open>The cost of a session's kitchen items: the query leaves out status \<^verbatim>\<open>void\<close> only, the
  database adds the two-decimal costs exactly (here in cents), and an error gives zero.\<close>

definition session_cost_cents :: "uuid \<Rightarrow> db \<Rightarrow> int" where
  "session_cost_cents session d = sum_list (map (\<lambda>ki. ki_qty ki *
       (case ki_menu ki of None \<Rightarrow> 0 | Some m \<Rightarrow>
          (case find (\<lambda>x. mi_id x = m) (menu d) of None \<Rightarrow> 0
           | Some x \<Rightarrow> (case mi_cost x of None \<Rightarrow> 0 | Some c \<Rightarrow> to_cents c))))
     (filter (\<lambda>ki. ki_status ki \<noteq> ''void'' \<and>
        list_ex (\<lambda>k. kt_id k = ki_kot ki \<and> kt_session k = session) (kots d)) (kitems d)))"

definition sessionCOGS :: "uuid \<Rightarrow> rat go" where
  "sessionCOGS session = do {
     r \<leftarrow> query (\<lambda>d. cents (session_cost_cents session d));
     State_Monad.return (round2 (case r of Inl _ \<Rightarrow> 0 | Inr c \<Rightarrow> c))
   }"

definition cogs_lines :: "rat \<Rightarrow> journalLine list" where
  "cogs_lines cogs = [Dr ''5000'' (round2 cogs) ''Cost of goods sold'',
     Cr ''1400'' (round2 cogs) ''Inventory consumed'']"

definition postCOGS :: "uuid \<Rightarrow> rat \<Rightarrow> string \<Rightarrow> string \<Rightarrow> (goerr + uuid) go" where
  "postCOGS h cogs reference description =
     (if round2 cogs = 0 then State_Monad.return (Inr uuid_Nil)
      else postJournal h description reference (cogs_lines cogs))"

definition room_revenue_lines :: "string \<Rightarrow> rat \<Rightarrow> rat \<Rightarrow> journalLine list" where
  "room_revenue_lines method tax tot =
     [Dr (cashAccount method) (round2 tot) (''Folio settlement ('' @ method @ '')''),
      Cr ''4000'' (round2 (fsub tot tax)) ''Room revenue'',
      Cr ''2100'' (round2 tax) ''GST on sale'']"

definition postRoomRevenue :: "uuid \<Rightarrow> string \<Rightarrow> rat \<Rightarrow> rat \<Rightarrow> string \<Rightarrow> string \<Rightarrow> (goerr + uuid) go" where
  "postRoomRevenue h method tax tot reference description =
     postJournal h description reference (room_revenue_lines method tax tot)"

definition ar_invoice_lines :: "rat \<Rightarrow> rat \<Rightarrow> journalLine list" where
  "ar_invoice_lines tax tot =
     [Dr ''1200'' (round2 tot) ''Invoice receivable'',
      Cr ''4000'' (round2 (fsub tot tax)) ''Sales revenue'',
      Cr ''2100'' (round2 tax) ''GST on sale'']"

definition postARInvoice :: "uuid \<Rightarrow> rat \<Rightarrow> rat \<Rightarrow> string \<Rightarrow> string \<Rightarrow> (goerr + uuid) go" where
  "postARInvoice h tax tot reference description =
     postJournal h description reference (ar_invoice_lines tax tot)"

definition credit_note_lines :: "rat \<Rightarrow> rat \<Rightarrow> journalLine list" where
  "credit_note_lines tax tot =
     [Dr ''4000'' (round2 (fsub tot tax)) ''Revenue reversed'',
      Dr ''2100'' (round2 tax) ''GST reversed'',
      Cr ''1200'' (round2 tot) ''Receivable credited'']"

definition postCreditNoteReversal :: "uuid \<Rightarrow> rat \<Rightarrow> rat \<Rightarrow> string \<Rightarrow> string \<Rightarrow> (goerr + uuid) go" where
  "postCreditNoteReversal h tax tot reference description =
     postJournal h description reference (credit_note_lines tax tot)"

definition two_legs :: "string \<Rightarrow> string \<Rightarrow> string \<Rightarrow> string \<Rightarrow> rat \<Rightarrow> journalLine list" where
  "two_legs dr drMemo cr crMemo amount = [Dr dr (round2 amount) drMemo, Cr cr (round2 amount) crMemo]"

definition postGoodsReceipt :: "uuid \<Rightarrow> rat \<Rightarrow> string \<Rightarrow> string \<Rightarrow> (goerr + uuid) go" where
  "postGoodsReceipt h amount reference description = postJournal h description reference
     (two_legs ''1400'' ''Goods received'' ''2000'' ''Payable to vendor'' amount)"

definition postAPSettlement :: "uuid \<Rightarrow> string \<Rightarrow> rat \<Rightarrow> string \<Rightarrow> string \<Rightarrow> (goerr + uuid) go" where
  "postAPSettlement h method amount reference description = postJournal h description reference
     (two_legs ''2000'' ''Payable settled'' (cashAccount method) (''Vendor payment ('' @ method @ '')'') amount)"

definition postVendorDebitNote :: "uuid \<Rightarrow> rat \<Rightarrow> string \<Rightarrow> string \<Rightarrow> (goerr + uuid) go" where
  "postVendorDebitNote h tot reference description = postJournal h description reference
     (two_legs ''2000'' ''Payable reduced'' ''1400'' ''Goods returned'' tot)"

subsection \<open>Reversal\<close>

text \<open>The lines of every entry of the tenant that carries the reference.\<close>

definition lines_of_reference :: "uuid \<Rightarrow> string \<Rightarrow> db \<Rightarrow> JournalRow list" where
  "lines_of_reference h reference d = filter (\<lambda>l. list_ex (\<lambda>e. je_id e = jl_entry l \<and>
     je_hotel e = h \<and> je_reference e = reference) (entries d)) (jlines d)"

fun post_reversed :: "uuid \<Rightarrow> uuid \<Rightarrow> JournalRow list \<Rightarrow> (goerr + unit) go" where
  "post_reversed h entry [] = State_Monad.return (Inr ())"
| "post_reversed h entry (l # ls) = do {
     i \<leftarrow> uuid_New;
     r \<leftarrow> stmt (sql_insert_jline \<lparr>jl_id = i, jl_entry = entry, jl_hotel = h, jl_account = jl_account l,
            jl_debit = round2 (jl_credit l), jl_credit = round2 (jl_debit l), jl_memo = ''Reversal''\<rparr>);
     case r of Inl e \<Rightarrow> State_Monad.return (Inl e) | Inr _ \<Rightarrow> post_reversed h entry ls
   }"

definition reverseJournalsByReference :: "uuid \<Rightarrow> string \<Rightarrow> string \<Rightarrow> (goerr + uuid) go" where
  "reverseJournalsByReference h reference description = do {
     rs \<leftarrow> query (lines_of_reference h reference);
     case rs of
       Inl e \<Rightarrow> State_Monad.return (Inl e)
     | Inr src \<Rightarrow>
         if src = [] then State_Monad.return (Inr uuid_Nil)
         else do {
           rv \<leftarrow> nextVoucherNo h (voucherTypeFor reference);
           entry \<leftarrow> uuid_New;
           re \<leftarrow> stmt (sql_insert_entry \<lparr>je_id = entry, je_hotel = h, je_description = description,
                  je_reference = reference @ '' REV'', je_voucher_no = voucher_or_blank rv,
                  je_voucher_type = voucherTypeFor reference\<rparr>);
           case re of
             Inl e \<Rightarrow> State_Monad.return (Inl e)
           | Inr _ \<Rightarrow> do {
               rl \<leftarrow> post_reversed h entry src;
               State_Monad.return (case rl of Inl e \<Rightarrow> Inl e | Inr _ \<Rightarrow> Inr entry)
             }
         }
   }"

subsection \<open>Customers (pos\_customer.go)\<close>

record CustomerDetails =
  cd_name :: string
  cd_phone :: string
  cd_email :: string
  cd_gstin :: string

definition HasContact :: "CustomerDetails \<Rightarrow> bool" where
  "HasContact c \<longleftrightarrow> TrimSpace (cd_phone c) \<noteq> [] \<or> TrimSpace (cd_email c) \<noteq> []"

definition normalisePhone :: "string \<Rightarrow> string" where
  "normalisePhone raw =
     (let digits = filter is_digit raw
      in if length digits = 12 \<and> HasPrefix digits ''91'' then drop 2 digits else digits)"

definition normalised :: "CustomerDetails \<Rightarrow> CustomerDetails" where
  "normalised c = \<lparr>cd_name = TrimSpace (cd_name c), cd_phone = normalisePhone (cd_phone c),
     cd_email = ToLower (TrimSpace (cd_email c)), cd_gstin = ToUpper (TrimSpace (cd_gstin c))\<rparr>"

definition find_customer_by_phone :: "uuid \<Rightarrow> string \<Rightarrow> db \<Rightarrow> uuid option" where
  "find_customer_by_phone h phone d =
     map_option cu_id (find (\<lambda>c. cu_hotel c = h \<and> cu_phone c = Some phone) (customers d))"

definition sql_backfill_customer :: "uuid \<Rightarrow> string \<Rightarrow> string \<Rightarrow> db \<Rightarrow> db" where
  "sql_backfill_customer i email gstin d = d\<lparr>customers := upd_where (\<lambda>c. cu_id c = i)
     (\<lambda>c. c\<lparr>cu_email := keep_or_fill (cu_email c) email, cu_gstin := keep_or_fill (cu_gstin c) gstin\<rparr>)
     (customers d)\<rparr>"

text \<open>A code of the form \<^verbatim>\<open>CUST-nnnn\<close>, and the largest number in use.\<close>

definition is_customer_code :: "string \<Rightarrow> bool" where
  "is_customer_code code \<longleftrightarrow> HasPrefix code ''CUST-'' \<and> drop 5 code \<noteq> [] \<and> list_all is_digit (drop 5 code)"

definition max_customer_no :: "uuid \<Rightarrow> db \<Rightarrow> nat" where
  "max_customer_no h d = fold max (map (\<lambda>c. digits_val (digits_only (cu_code c)))
     (filter (\<lambda>c. cu_hotel c = h \<and> is_customer_code (cu_code c)) (customers d))) 0"

definition nextCustomerCode :: "uuid \<Rightarrow> (goerr + string) go" where
  "nextCustomerCode h = do {
     r \<leftarrow> query (max_customer_no h);
     State_Monad.return (case r of Inl e \<Rightarrow> Inl e | Inr n \<Rightarrow> Inr (''CUST-'' @ show_padded 4 (n + 1)))
   }"

text \<open>Insert, or return the row that already has the phone.\<close>

definition sql_insert_customer :: "Customer \<Rightarrow> db \<Rightarrow> goerr + uuid \<times> db" where
  "sql_insert_customer c d =
     (case (if cu_phone c = None \<or> cu_phone c = Some [] then None
            else find (\<lambda>x. cu_hotel x = cu_hotel c \<and> cu_phone x = cu_phone c) (customers d)) of
        Some x \<Rightarrow> Inr (cu_id x, d)
      | None \<Rightarrow>
          if list_ex (\<lambda>x. cu_id x = cu_id c \<or> cu_hotel x = cu_hotel c \<and> cu_code x = cu_code c) (customers d)
          then Inl UniqueViolation else Inr (cu_id c, d\<lparr>customers := customers d @ [c]\<rparr>))"

definition create_customer :: "uuid \<Rightarrow> CustomerDetails \<Rightarrow> (goerr + uuid) go" where
  "create_customer h c = do {
     rc \<leftarrow> nextCustomerCode h;
     case rc of
       Inl e \<Rightarrow> State_Monad.return (Inl e)
     | Inr code \<Rightarrow> do {
         i \<leftarrow> uuid_New;
         stmt (sql_insert_customer \<lparr>cu_id = i, cu_hotel = h, cu_code = code, cu_name = cd_name c,
           cu_phone = strPtr (cd_phone c), cu_email = strPtr (cd_email c), cu_gstin = strPtr (cd_gstin c)\<rparr>)
       }
   }"

definition ensureAccountingCustomer :: "uuid \<Rightarrow> CustomerDetails \<Rightarrow> (goerr + uuid) go" where
  "ensureAccountingCustomer h c0 =
     (let c1 = normalised c0 in
      if \<not> HasContact c1 then State_Monad.return (Inr uuid_Nil)
      else
        let c = (if cd_name c1 = [] then c1\<lparr>cd_name := ''POS customer '' @ cd_phone c1\<rparr> else c1) in
        if cd_phone c = [] then create_customer h c
        else do {
          r \<leftarrow> query_row (find_customer_by_phone h (cd_phone c));
          case r of
            Inr i \<Rightarrow> do { _ \<leftarrow> exec (sql_backfill_customer i (cd_email c) (cd_gstin c)); State_Monad.return (Inr i) }
          | Inl e \<Rightarrow> if e = NoRows then create_customer h c else State_Monad.return (Inl e)
        })"

definition isCreditSettlement :: "string \<Rightarrow> bool" where
  "isCreditSettlement method \<longleftrightarrow> ToLower (TrimSpace method) \<in>
     {''credit'', ''room'', ''room_charge'', ''bill_to_room'', ''account''}"

definition credit_sale_lines :: "rat \<Rightarrow> rat \<Rightarrow> journalLine list" where
  "credit_sale_lines tax tot =
     [Dr ''1200'' (round2 tot) ''Receivable - POS credit sale'',
      Cr ''4100'' (round2 (fsub tot tax)) ''F&B revenue'',
      Cr ''2100'' (round2 tax) ''GST on sale'']"

definition postSalesToLedgerFor ::
    "uuid \<Rightarrow> string \<Rightarrow> rat \<Rightarrow> rat \<Rightarrow> rat \<Rightarrow> string \<Rightarrow> string \<Rightarrow> uuid \<Rightarrow> (goerr + uuid) go" where
  "postSalesToLedgerFor h method subtotal tax tot reference description customer =
     (if \<not> isCreditSettlement method
      then postSalesToLedger h method subtotal tax tot reference description
      else if customer = uuid_Nil
      then State_Monad.return (Inl (ErrMsg ''a credit sale requires a customer to owe the receivable''))
      else postJournal h description reference (credit_sale_lines tax tot))"

definition nilAsNull :: "uuid \<Rightarrow> uuid option" where
  "nilAsNull i = (if i = uuid_Nil then None else Some i)"

definition isPaidStatus :: "string \<Rightarrow> bool" where
  "isPaidStatus s \<longleftrightarrow> ToLower (TrimSpace s) \<in> {''paid'', ''completed'', ''settled'', ''closed''}"

definition alreadyPosted :: "uuid \<Rightarrow> string \<Rightarrow> bool go" where
  "alreadyPosted h reference = do {
     r \<leftarrow> query (\<lambda>d. list_ex (\<lambda>e. je_hotel e = h \<and> je_reference e = reference) (entries d));
     State_Monad.return (case r of Inl _ \<Rightarrow> True | Inr b \<Rightarrow> b)
   }"

definition postLegacyPOSOrder ::
    "uuid \<Rightarrow> string \<Rightarrow> string \<Rightarrow> string \<Rightarrow> rat \<Rightarrow> rat \<Rightarrow> rat \<Rightarrow> unit go" where
  "postLegacyPOSOrder h orderNumber status paymentMethod subtotal tax tot =
     (if \<not> isPaidStatus status \<or> round2 tot = 0 then State_Monad.return ()
      else do {
        posted \<leftarrow> alreadyPosted h (''ORDER '' @ orderNumber);
        if posted then State_Monad.return ()
        else
          let m = ToLower (TrimSpace paymentMethod); method = (if m = [] then ''cash'' else m) in
          do {
            _ \<leftarrow> postSalesToLedger h method subtotal tax tot (''ORDER '' @ orderNumber)
                  (''POS sale - order '' @ orderNumber);
            State_Monad.return ()
          }
      })"

subsection \<open>Facts about posting\<close>

definition chart_codes :: "string set" where
  "chart_codes = da_code ` set standardChart"

definition whole_cents :: "rat \<Rightarrow> bool" where
  "whole_cents v \<longleftrightarrow> (\<exists>k. cent_range k \<and> v = cents k)"

lemma whole_cents_0 [simp]: "whole_cents 0"
  unfolding whole_cents_def by (rule exI [of _ 0]) simp

lemma whole_cents_cents [simp]: "cent_range k \<Longrightarrow> whole_cents (cents k)"
  by (auto simp: whole_cents_def)

lemma numeric_whole_cents: "numeric_exact d \<Longrightarrow> whole_cents v \<Longrightarrow> db_num d v = v"
  by (auto simp: numeric_exact_def whole_cents_def)

text \<open>Net of a set of lines and of the whole ledger, in cents.\<close>

definition line_net :: "journalLine \<Rightarrow> int" where
  "line_net l = to_cents (l_debit l) - to_cents (l_credit l)"

definition row_net :: "JournalRow \<Rightarrow> int" where
  "row_net l = to_cents (jl_debit l) - to_cents (jl_credit l)"

definition ledger_net :: "db \<Rightarrow> int" where
  "ledger_net d = sum_list (map row_net (jlines d))"

definition postable :: "journalLine list \<Rightarrow> bool" where
  "postable ls \<longleftrightarrow> (\<forall>l \<in> set ls. l_code l \<in> chart_codes \<and> whole_cents (l_debit l) \<and> whole_cents (l_credit l))"

definition lines_balanced :: "journalLine list \<Rightarrow> bool" where
  "lines_balanced ls \<longleftrightarrow> sum_list (map line_net ls) = 0"

lemma sql_insert_jline_exact:
  assumes "sql_insert_jline l d = Inr (u, d')" "numeric_exact d"
    "whole_cents (jl_debit l)" "whole_cents (jl_credit l)"
  shows "d' = d\<lparr>jlines := jlines d @ [l]\<rparr>"
  using assms(1) numeric_whole_cents [OF assms(2)] assms(3,4)
  by (simp add: sql_insert_jline_def split: if_splits)

lemma numeric_exact_jlines [simp]: "numeric_exact (d\<lparr>jlines := js\<rparr>) = numeric_exact d"
  by (simp add: numeric_exact_def)

lemma sql_insert_jline_net:
  assumes "sql_insert_jline l d = Inr (u, d')" "numeric_exact d"
    "whole_cents (jl_debit l)" "whole_cents (jl_credit l)"
  shows "numeric_exact d' \<and> ledger_net d' = ledger_net d + row_net l"
  unfolding sql_insert_jline_exact [OF assms] using assms(2) by (simp add: ledger_net_def)

lemma post_lines_net:
  assumes "\<forall>l \<in> set ls. map_of accts (l_code l) \<noteq> None \<and> whole_cents (l_debit l) \<and> whole_cents (l_credit l)"
  shows "triple (\<lambda>d. numeric_exact d \<and> ledger_net d = x) (post_lines h e accts ls)
    (ok_post (\<lambda>_ d. numeric_exact d \<and> ledger_net d = x + sum_list (map line_net ls)))"
  using assms
proof (induction ls arbitrary: x)
  case Nil
  show ?case by (simp add: triple_return)
next
  case (Cons l ls)
  have IH: "triple (\<lambda>d. numeric_exact d \<and> ledger_net d = y) (post_lines h e accts ls)
    (ok_post (\<lambda>_ d. numeric_exact d \<and> ledger_net d = y + sum_list (map line_net ls)))" for y
    using Cons by simp
  obtain a where a: "map_of accts (l_code l) = Some a" using Cons.prems by auto
  show ?case
  proof (cases "l_debit l = 0 \<and> l_credit l = 0")
    case True
    then have "line_net l = 0" by (simp add: line_net_def)
    then show ?thesis using IH [of x] True by simp
  next
    case False
    have "triple (\<lambda>d. numeric_exact d \<and> ledger_net d = x)
      (stmt (sql_insert_jline \<lparr>jl_id = i, jl_entry = e, jl_hotel = h, jl_account = a,
         jl_debit = l_debit l, jl_credit = l_credit l, jl_memo = l_memo l\<rparr>))
      (ok_post (\<lambda>_ d. numeric_exact d \<and> ledger_net d = x + line_net l))" for i
    proof (rule triple_stmt_ok, elim conjE)
      fix d u d' assume "sql_insert_jline \<lparr>jl_id = i, jl_entry = e, jl_hotel = h, jl_account = a,
         jl_debit = l_debit l, jl_credit = l_credit l, jl_memo = l_memo l\<rparr> d = Inr (u, d')"
        and P: "numeric_exact d" "ledger_net d = x"
      from sql_insert_jline_net [OF this(1,2)] Cons.prems P
      show "numeric_exact d' \<and> ledger_net d' = x + line_net l" by (simp add: row_net_def line_net_def)
    qed
    then have step: "triple (\<lambda>d. numeric_exact d \<and> ledger_net d = x)
      (do { r \<leftarrow> stmt (sql_insert_jline \<lparr>jl_id = i, jl_entry = e, jl_hotel = h, jl_account = a,
         jl_debit = l_debit l, jl_credit = l_credit l, jl_memo = l_memo l\<rparr>);
         case r of Inl e \<Rightarrow> State_Monad.return (Inl e) | Inr _ \<Rightarrow> post_lines h e accts ls })
      (ok_post (\<lambda>_ d. numeric_exact d \<and> ledger_net d = x + line_net l + sum_list (map line_net ls)))" for i
      by (rule triple_bind_ok) (rule IH)
    show ?thesis
      unfolding post_lines.simps if_not_P [OF False] a option.case
      by (rule triple_bind [OF triple_uuid_New [of _ "\<lambda>_ d. numeric_exact d \<and> ledger_net d = x"]])
         (use step in \<open>simp_all add: algebra_simps\<close>)
  qed
qed

lemma ensure_accounts_known:
  assumes "\<And>d as. P d \<Longrightarrow> P (d\<lparr>accounts := as\<rparr>)"
  shows "triple (\<lambda>d. P d \<and> (\<forall>c \<in> C. \<exists>x \<in> set (accounts d). ac_hotel x = h \<and> ac_code x = c)) (ensure_accounts h as)
    (ok_post (\<lambda>_ d. P d \<and> (\<forall>c \<in> C \<union> da_code ` set as. \<exists>x \<in> set (accounts d). ac_hotel x = h \<and> ac_code x = c)))"
proof (induction as arbitrary: C)
  case Nil
  show ?case by (simp add: triple_return)
next
  case (Cons a as)
  let ?K = "\<lambda>C d. P d \<and> (\<forall>c \<in> C. \<exists>x \<in> set (accounts d). ac_hotel x = h \<and> ac_code x = c)"
  have ins: "triple (?K C) (stmt (sql_ensure_account i h a)) (ok_post (\<lambda>_. ?K (insert (da_code a) C)))" for i
    by (rule triple_stmt_ok)
       (auto simp: sql_ensure_account_def list_ex_iff assms split: if_splits)
  have "triple (?K C) (do { r \<leftarrow> stmt (sql_ensure_account i h a);
      case r of Inl e \<Rightarrow> State_Monad.return (Inl e) | Inr _ \<Rightarrow> ensure_accounts h as })
     (ok_post (\<lambda>_. ?K (insert (da_code a) C \<union> da_code ` set as)))" for i
    by (rule triple_bind_ok [OF ins Cons.IH])
  then show ?case
    unfolding ensure_accounts.simps
    by (intro triple_bind [OF triple_uuid_New [of _ "\<lambda>_. ?K C"]]) simp_all
qed

lemma ensureChart_known:
  assumes "\<And>d as. P d \<Longrightarrow> P (d\<lparr>accounts := as\<rparr>)"
  shows "triple P (ensureChartOfAccounts h)
    (ok_post (\<lambda>accts d. P d \<and> (\<forall>c \<in> chart_codes. map_of accts c \<noteq> None)))"
  unfolding ensureChartOfAccounts_def
proof (rule triple_bind_ok)
  let ?K = "\<lambda>_ d. P d \<and> (\<forall>c \<in> chart_codes. \<exists>x \<in> set (accounts d). ac_hotel x = h \<and> ac_code x = c)"
  show "triple P (ensure_accounts h standardChart) (ok_post ?K)"
    using ensure_accounts_known [of P "{}" h standardChart] assms by (simp add: chart_codes_def)
  fix x
  show "triple (?K x) (query (account_map h)) (ok_post (\<lambda>accts d. P d \<and> (\<forall>c \<in> chart_codes. map_of accts c \<noteq> None)))"
  proof (rule triple_conseq [OF triple_query])
    fix r d assume q: "?K x d \<and> (\<forall>a. r = Inr a \<longrightarrow> a = account_map h d)"
    have "map_of (account_map h d) c \<noteq> None" if c: "c \<in> chart_codes" for c
    proof -
      obtain a where "a \<in> set (accounts d)" "ac_hotel a = h" "ac_code a = c"
        using q c by blast
      then have "(c, ac_id a) \<in> set (account_map h d)" by (auto simp: account_map_def)
      then show ?thesis using weak_map_of_SomeI by fastforce
    qed
    with q show "ok_post (\<lambda>accts d. P d \<and> (\<forall>c \<in> chart_codes. map_of accts c \<noteq> None)) r d"
      by (cases r) auto
  qed simp
qed

definition ledger_balanced :: "db \<Rightarrow> bool" where
  "ledger_balanced d \<longleftrightarrow> numeric_exact d \<and> ledger_net d = 0"

text \<open>Numbering a voucher and inserting the entry do not touch the lines.\<close>

lemma nextVoucherNo_keeps:
  assumes "\<And>d cs. J d \<Longrightarrow> J (d\<lparr>counters := cs\<rparr>)"
  shows "keeps J (nextVoucherNo h t)"
  unfolding nextVoucherNo_def
  by (intro keeps_intros) (auto simp: stmt_keeps_def sql_next_voucher_def assms split: option.splits)

lemma postJournal_net:
  assumes "postable ls"
  shows "triple (\<lambda>d. numeric_exact d \<and> ledger_net d = x) (postJournal h ds ref ls)
    (ok_post (\<lambda>_ d. numeric_exact d \<and> ledger_net d = x + sum_list (map line_net ls)))"
  unfolding postJournal_def
proof (rule triple_bind_ok)
  let ?P = "\<lambda>x d. numeric_exact d \<and> ledger_net d = x"
  show "triple (?P x) (ensureChartOfAccounts h)
      (ok_post (\<lambda>accts d. ?P x d \<and> (\<forall>c \<in> chart_codes. map_of accts c \<noteq> None)))"
    by (rule ensureChart_known) (auto simp: numeric_exact_def ledger_net_def)
  fix accts :: "(string \<times> uuid) list"
  let ?A = "\<forall>c \<in> chart_codes. map_of accts c \<noteq> None"
  show "triple (\<lambda>d. ?P x d \<and> ?A) (do {
         rv \<leftarrow> nextVoucherNo h (voucherTypeFor ref);
         entry \<leftarrow> uuid_New;
         re \<leftarrow> stmt (sql_insert_entry \<lparr>je_id = entry, je_hotel = h, je_description = ds,
                je_reference = ref, je_voucher_no = voucher_or_blank rv, je_voucher_type = voucherTypeFor ref\<rparr>);
         case re of Inl e \<Rightarrow> State_Monad.return (Inl e)
         | Inr _ \<Rightarrow> do {
             rl \<leftarrow> post_lines h entry accts ls;
             State_Monad.return (case rl of Inl e \<Rightarrow> Inl e | Inr _ \<Rightarrow> Inr entry) } })
     (ok_post (\<lambda>_. ?P (x + sum_list (map line_net ls))))"
  proof (rule triple_pure)
    assume accts: ?A
    have lines: "triple (?P x) (do { rl \<leftarrow> post_lines h entry accts ls;
        State_Monad.return (case rl of Inl e \<Rightarrow> Inl e | Inr _ \<Rightarrow> Inr entry) })
        (ok_post (\<lambda>_. ?P (x + sum_list (map line_net ls))))" for entry
      by (rule triple_map_ok [OF post_lines_net]) (use assms accts in \<open>auto simp: postable_def\<close>)
    have ins: "triple (?P x) (stmt (sql_insert_entry en)) (ok_post (\<lambda>_. ?P x))" for en
      by (rule triple_stmt_ok) (auto simp: sql_insert_entry_def numeric_exact_def ledger_net_def split: if_splits)
    have voucher: "triple (?P x) (nextVoucherNo h (voucherTypeFor ref)) (\<lambda>_. ?P x)"
      by (rule triple_keeps [OF nextVoucherNo_keeps]) (auto simp: numeric_exact_def ledger_net_def)
    have new: "triple (?P x) uuid_New (\<lambda>_. ?P x)" by (rule triple_uuid_New)
    show "triple (?P x) (do {
         rv \<leftarrow> nextVoucherNo h (voucherTypeFor ref);
         entry \<leftarrow> uuid_New;
         re \<leftarrow> stmt (sql_insert_entry \<lparr>je_id = entry, je_hotel = h, je_description = ds,
                je_reference = ref, je_voucher_no = voucher_or_blank rv, je_voucher_type = voucherTypeFor ref\<rparr>);
         case re of Inl e \<Rightarrow> State_Monad.return (Inl e)
         | Inr _ \<Rightarrow> do {
             rl \<leftarrow> post_lines h entry accts ls;
             State_Monad.return (case rl of Inl e \<Rightarrow> Inl e | Inr _ \<Rightarrow> Inr entry) } })
      (ok_post (\<lambda>_. ?P (x + sum_list (map line_net ls))))"
      by (rule triple_bind [OF voucher], rule triple_bind [OF new], rule triple_bind_ok [OF ins lines])
  qed
qed

lemma postJournal_keeps_balanced:
  assumes "postable ls" "lines_balanced ls"
  shows "keeps_ok ledger_balanced (postJournal h ds ref ls)"
  using postJournal_net [OF assms(1), of 0] assms(2)
  by (simp add: keeps_ok_def ledger_balanced_def [abs_def] lines_balanced_def)

text \<open>The postings of amounts of whole cents are balanced and use accounts of the chart.\<close>

lemma lines_simps [simp]:
  "l_code (Dr c v m) = c" "l_debit (Dr c v m) = v" "l_credit (Dr c v m) = 0"
  "l_code (Cr c v m) = c" "l_debit (Cr c v m) = 0" "l_credit (Cr c v m) = v"
  "line_net (Dr c v m) = to_cents v" "line_net (Cr c v m) = - to_cents v"
  by (simp_all add: Dr_def Cr_def line_net_def)

lemma chart_codes_simps [simp]: "c \<in> chart_codes \<longleftrightarrow> c \<in> {''1000'', ''1010'', ''1200'', ''1400'',
    ''2000'', ''2100'', ''3000'', ''4000'', ''4100'', ''5000'', ''5100''}"
  by (simp add: chart_codes_def standardChart_def)

definition tax_of :: "int \<Rightarrow> int \<Rightarrow> bool" where
  "tax_of t T \<longleftrightarrow> cent_range t \<and> cent_range T \<and> cent_range (T - t)"

lemma posting_lines_ok:
  assumes "tax_of t T"
  shows "postable (sales_lines m (cents t) (cents T)) \<and> lines_balanced (sales_lines m (cents t) (cents T))"
    and "postable (room_revenue_lines m (cents t) (cents T)) \<and> lines_balanced (room_revenue_lines m (cents t) (cents T))"
    and "postable (ar_invoice_lines (cents t) (cents T)) \<and> lines_balanced (ar_invoice_lines (cents t) (cents T))"
    and "postable (credit_note_lines (cents t) (cents T)) \<and> lines_balanced (credit_note_lines (cents t) (cents T))"
    and "postable (credit_sale_lines (cents t) (cents T)) \<and> lines_balanced (credit_sale_lines (cents t) (cents T))"
    and "postable (cogs_lines (cents T)) \<and> lines_balanced (cogs_lines (cents T))"
proof -
  have r: "cent_range t" "cent_range T" "cent_range (T - t)" using assms by (auto simp: tax_of_def)
  have e: "round2 (cents t) = cents t" "round2 (cents T) = cents T"
    "round2 (fsub (cents T) (cents t)) = cents (T - t)"
    using r by (simp_all add: round2_fsub_cents)
  have c: "to_cents (cents t) = t" "to_cents (cents T) = T" "to_cents (cents (T - t)) = T - t"
    "whole_cents (cents t)" "whole_cents (cents T)" "whole_cents (cents (T - t))"
    using r by (auto simp: whole_cents_def)
  show "postable (sales_lines m (cents t) (cents T)) \<and> lines_balanced (sales_lines m (cents t) (cents T))"
    "postable (room_revenue_lines m (cents t) (cents T)) \<and> lines_balanced (room_revenue_lines m (cents t) (cents T))"
    "postable (ar_invoice_lines (cents t) (cents T)) \<and> lines_balanced (ar_invoice_lines (cents t) (cents T))"
    "postable (credit_note_lines (cents t) (cents T)) \<and> lines_balanced (credit_note_lines (cents t) (cents T))"
    "postable (credit_sale_lines (cents t) (cents T)) \<and> lines_balanced (credit_sale_lines (cents t) (cents T))"
    "postable (cogs_lines (cents T)) \<and> lines_balanced (cogs_lines (cents T))"
    by (simp_all add: postable_def lines_balanced_def sales_lines_def room_revenue_lines_def
      ar_invoice_lines_def credit_note_lines_def credit_sale_lines_def cogs_lines_def cashAccount_def
      Let_def e c del: to_cents_cents round2_cents whole_cents_cents)
qed

lemma two_legs_ok:
  assumes "cent_range k" "a \<in> chart_codes" "b \<in> chart_codes"
  shows "postable (two_legs a am b bm (cents k)) \<and> lines_balanced (two_legs a am b bm (cents k))"
  using assms whole_cents_cents [OF assms(1)] whole_cents_0
  by (simp add: postable_def lines_balanced_def two_legs_def del: chart_codes_simps whole_cents_cents)

subsection \<open>Reversal\<close>

definition reverses :: "uuid \<Rightarrow> JournalRow \<Rightarrow> JournalRow \<Rightarrow> bool" where
  "reverses e r l \<longleftrightarrow> jl_entry r = e \<and> jl_account r = jl_account l \<and>
     jl_debit r = jl_credit l \<and> jl_credit r = jl_debit l"

lemma round2_whole_cents: "whole_cents v \<Longrightarrow> round2 v = v"
  by (auto simp: whole_cents_def)

lemma post_reversed_rows:
  assumes "\<forall>l \<in> set ls. whole_cents (jl_debit l) \<and> whole_cents (jl_credit l)"
  shows "triple (\<lambda>d. numeric_exact d \<and> jlines d = js) (post_reversed h e ls)
    (ok_post (\<lambda>_ d. \<exists>rows. jlines d = js @ rows \<and> list_all2 (reverses e) rows ls))"
  using assms
proof (induction ls arbitrary: js)
  case Nil
  show ?case unfolding post_reversed.simps by (rule triple_return) simp
next
  case (Cons l ls)
  define row where "row = (\<lambda>i. \<lparr>jl_id = i, jl_entry = e, jl_hotel = h, jl_account = jl_account l,
            jl_debit = round2 (jl_credit l), jl_credit = round2 (jl_debit l), jl_memo = ''Reversal''\<rparr>)"
  have rev: "reverses e (row i) l" for i
    using Cons.prems by (simp add: reverses_def row_def round2_whole_cents)
  have ins: "triple (\<lambda>d. numeric_exact d \<and> jlines d = js) (stmt (sql_insert_jline (row i)))
      (ok_post (\<lambda>_ d. numeric_exact d \<and> jlines d = js @ [row i]))" for i
    by (rule triple_stmt_ok, elim conjE, drule (1) sql_insert_jline_exact)
       (use Cons.prems in \<open>simp_all add: row_def round2_whole_cents\<close>)
  have "triple (\<lambda>d. numeric_exact d \<and> jlines d = js @ [row i]) (post_reversed h e ls)
      (ok_post (\<lambda>_ d. \<exists>rows. jlines d = js @ rows \<and> list_all2 (reverses e) rows (l # ls)))" for i
  proof (rule triple_conseq [OF Cons.IH])
    fix r d
    assume "ok_post (\<lambda>_ d. \<exists>rows. jlines d = (js @ [row i]) @ rows \<and> list_all2 (reverses e) rows ls) r d"
    then show "ok_post (\<lambda>_ d. \<exists>rows. jlines d = js @ rows \<and> list_all2 (reverses e) rows (l # ls)) r d"
    proof (cases r)
      case (Inr b)
      with \<open>ok_post _ r d\<close> obtain rows where "jlines d = js @ row i # rows" "list_all2 (reverses e) rows ls" by auto
      then show ?thesis using rev [of i] Inr by (auto intro: exI [of _ "row i # rows"])
    qed simp
  qed (use Cons.prems in auto)
  then have "triple (\<lambda>d. numeric_exact d \<and> jlines d = js)
      (do { r \<leftarrow> stmt (sql_insert_jline (row i));
            case r of Inl e \<Rightarrow> State_Monad.return (Inl e) | Inr _ \<Rightarrow> post_reversed h e ls })
      (ok_post (\<lambda>_ d. \<exists>rows. jlines d = js @ rows \<and> list_all2 (reverses e) rows (l # ls)))" for i
    by (rule triple_bind_ok [OF ins])
  then show ?case
    unfolding post_reversed.simps row_def
    by (intro triple_bind [OF triple_uuid_New [of _ "\<lambda>_ d. numeric_exact d \<and> jlines d = js"]]) simp_all
qed

text \<open>Net of an account over some rows, in cents.\<close>

definition account_net :: "uuid \<Rightarrow> JournalRow list \<Rightarrow> int" where
  "account_net a ls = sum_list (map row_net (filter (\<lambda>l. jl_account l = a) ls))"

lemma reverses_net: "list_all2 (reverses e) rows ls \<Longrightarrow> account_net a rows = - account_net a ls"
  by (induction rule: list_all2_induct) (auto simp: account_net_def reverses_def row_net_def)

subsection \<open>Voucher numbers\<close>

definition counters_unique :: "db \<Rightarrow> bool" where
  "counters_unique d \<longleftrightarrow> distinct (map (\<lambda>c. (vc_hotel c, vc_type c)) (counters d))"

definition vouchers_ok :: "db \<Rightarrow> bool" where
  "vouchers_ok d \<longleftrightarrow> counters_unique d \<and> (\<forall>c \<in> set (counters d). 1 \<le> vc_next c) \<and>
     (\<forall>e \<in> set (entries d). \<forall>s. je_voucher_no e = Some s \<longrightarrow> length (je_voucher_type e) = 3 \<and>
        (\<exists>n \<ge> 1. s = voucher_string (je_voucher_type e) n \<and>
           (\<forall>c \<in> set (counters d). counter_row (je_hotel e) (je_voucher_type e) c \<longrightarrow> n < vc_next c) \<and>
           (\<exists>c \<in> set (counters d). counter_row (je_hotel e) (je_voucher_type e) c)))"

lemma length_voucherTypeFor: "length (voucherTypeFor ref) = 3"
  by (simp add: voucherTypeFor_def)

lemma voucher_string_inj:
  assumes "voucher_string t m = voucher_string t' n" "length t = length t'" "1 \<le> m" "1 \<le> n"
  shows "t = t' \<and> m = n"
proof -
  have "t = t' \<and> show_padded 6 (nat m) = show_padded 6 (nat n)"
    using assms(1,2) by (simp add: voucher_string_def)
  then show ?thesis using assms(3,4) by (auto simp: show_padded_inj eq_nat_nat_iff)
qed

text \<open>A number drawn from the counter is below the counter afterwards and in no entry.\<close>

definition fresh_voucher :: "uuid \<Rightarrow> string \<Rightarrow> string \<Rightarrow> db \<Rightarrow> bool" where
  "fresh_voucher h t s d \<longleftrightarrow> (\<exists>n \<ge> 1. s = voucher_string t n \<and>
      (\<forall>c \<in> set (counters d). counter_row h t c \<longrightarrow> n < vc_next c) \<and> (\<exists>c \<in> set (counters d). counter_row h t c)) \<and>
    (\<forall>e \<in> set (entries d). je_hotel e = h \<longrightarrow> je_voucher_no e \<noteq> Some s)"

lemma counter_unique:
  assumes "counters_unique d" "c \<in> set (counters d)" "c' \<in> set (counters d)" "counter_row h t c" "counter_row h t c'"
  shows "c = c'"
  using assms distinct_map_eqI [of "\<lambda>c. (vc_hotel c, vc_type c)" "counters d" c c']
  by (simp add: counters_unique_def counter_row_def)

lemma next_voucher_fresh:
  assumes ok: "vouchers_ok d" and t: "length t = 3" and run: "sql_next_voucher h t d = Inr (n, d')"
  shows "vouchers_ok d' \<and> fresh_voucher h t (voucher_string t n) d'"
proof -
  have ent: "entries d' = entries d" using run by (auto simp: sql_next_voucher_def split: option.splits)
  show ?thesis
  proof (cases "find (counter_row h t) (counters d)")
    case None
    then have none: "\<forall>c \<in> set (counters d). \<not> counter_row h t c" by (simp add: find_None_conv)
    have d': "counters d' = counters d @ [\<lparr>vc_hotel = h, vc_type = t, vc_next = 2\<rparr>]" "n = 1"
      using run None by (auto simp: sql_next_voucher_def)
    have "counters_unique d'"
      using ok none by (auto simp: d' counters_unique_def vouchers_ok_def counter_row_def)
    moreover have "je_voucher_no e \<noteq> Some (voucher_string t n)" if "e \<in> set (entries d)" "je_hotel e = h" for e
    proof
      assume "je_voucher_no e = Some (voucher_string t n)"
      with ok that obtain m c where "1 \<le> m" "voucher_string t n = voucher_string (je_voucher_type e) m"
        "length (je_voucher_type e) = 3" "c \<in> set (counters d)" "counter_row h (je_voucher_type e) c"
        unfolding vouchers_ok_def by blast
      then show False using voucher_string_inj [of t n "je_voucher_type e" m] t none d'(2) by auto
    qed
    moreover have row: "counter_row h' t' \<lparr>vc_hotel = h, vc_type = t, vc_next = 2\<rparr> \<longleftrightarrow> h' = h \<and> t' = t" for h' t'
      by (auto simp: counter_row_def)
    moreover have "\<exists>n \<ge> 1. s = voucher_string (je_voucher_type e) n \<and>
           (\<forall>c \<in> set (counters d'). counter_row (je_hotel e) (je_voucher_type e) c \<longrightarrow> n < vc_next c) \<and>
           (\<exists>c \<in> set (counters d'). counter_row (je_hotel e) (je_voucher_type e) c)"
      if e: "e \<in> set (entries d)" "je_voucher_no e = Some s" for e s
    proof -
      obtain m c where m: "1 \<le> m" "s = voucher_string (je_voucher_type e) m"
        "\<forall>c \<in> set (counters d). counter_row (je_hotel e) (je_voucher_type e) c \<longrightarrow> m < vc_next c"
        "c \<in> set (counters d)" "counter_row (je_hotel e) (je_voucher_type e) c"
        using ok e unfolding vouchers_ok_def by blast
      then have "\<not> (je_hotel e = h \<and> je_voucher_type e = t)" using none by auto
      then show ?thesis using m by (intro exI [of _ m]) (auto simp: d' row)
    qed
    ultimately show ?thesis
      using ok none unfolding vouchers_ok_def fresh_voucher_def ent
      by (auto simp: d' intro: exI [of _ 1])
  next
    case (Some c)
    then have c: "c \<in> set (counters d)" "counter_row h t c" by (auto dest: find_SomeD)
    have d': "counters d' = upd_where (counter_row h t) (\<lambda>c. c\<lparr>vc_next := vc_next c + 1\<rparr>) (counters d)"
      "n = vc_next c" using run Some by (auto simp: sql_next_voucher_def)
    have u: "counters_unique d'"
      using ok unfolding vouchers_ok_def counters_unique_def d' by (simp add: map_upd_where)
    have row: "counter_row h' t' (c\<lparr>vc_next := k\<rparr>) = counter_row h' t' c" for h' t' c k
      by (simp add: counter_row_def)
    have up: "\<exists>c0 \<in> set (counters d). counter_row h' t' c1 = counter_row h' t' c0 \<and> vc_next c0 \<le> vc_next c1 \<and>
        (counter_row h t c0 \<longrightarrow> vc_next c1 = vc_next c0 + 1)" if "c1 \<in> set (counters d')" for c1 h' t'
      using that unfolding d' set_upd_where by (force simp: row)
    have ex: "\<exists>c1 \<in> set (counters d'). counter_row h' t' c1"
      if ex0: "\<exists>c0 \<in> set (counters d). counter_row h' t' c0" for h' t'
    proof -
      obtain c0 where "c0 \<in> set (counters d)" "counter_row h' t' c0" using ex0 by blast
      then show ?thesis unfolding d' set_upd_where
        by (intro bexI [of _ "if counter_row h t c0 then c0\<lparr>vc_next := vc_next c0 + 1\<rparr> else c0"])
           (auto simp: row)
    qed
    have "je_voucher_no e \<noteq> Some (voucher_string t n)" if "e \<in> set (entries d)" "je_hotel e = h" for e
    proof
      assume "je_voucher_no e = Some (voucher_string t n)"
      with ok that c obtain m where m: "1 \<le> m" "voucher_string t n = voucher_string (je_voucher_type e) m"
        "length (je_voucher_type e) = 3"
        "\<forall>c \<in> set (counters d). counter_row h (je_voucher_type e) c \<longrightarrow> m < vc_next c" and "1 \<le> n"
        unfolding vouchers_ok_def d'(2) by blast
      then have "je_voucher_type e = t" "m = n" using voucher_string_inj [of t n "je_voucher_type e" m] t by auto
      then show False using m(4) c d'(2) by auto
    qed
    moreover have "n < vc_next c1" if c1: "c1 \<in> set (counters d')" "counter_row h t c1" for c1
    proof -
      obtain c0 where "c0 \<in> set (counters d)" "counter_row h t c0" "vc_next c1 = vc_next c0 + 1"
        using up [OF c1(1), of h t] c1(2) by auto
      then show ?thesis using counter_unique [of d c0 c h t] ok c d'(2) by (auto simp: vouchers_ok_def)
    qed
    moreover have "1 \<le> n" using ok c d'(2) by (auto simp: vouchers_ok_def)
    ultimately have fresh: "fresh_voucher h t (voucher_string t n) d'"
      using ent ex [of h t] c unfolding fresh_voucher_def by (auto intro: exI [of _ n])
    have "1 \<le> vc_next c1" if "c1 \<in> set (counters d')" for c1
      using up [OF that, of h t] ok by (force simp: vouchers_ok_def)
    moreover have "\<exists>n \<ge> 1. s = voucher_string (je_voucher_type e) n \<and>
           (\<forall>c \<in> set (counters d'). counter_row (je_hotel e) (je_voucher_type e) c \<longrightarrow> n < vc_next c) \<and>
           (\<exists>c \<in> set (counters d'). counter_row (je_hotel e) (je_voucher_type e) c)"
      if e: "e \<in> set (entries d)" "je_voucher_no e = Some s" for e s
    proof -
      obtain m where m: "1 \<le> m" "s = voucher_string (je_voucher_type e) m"
        "\<forall>c \<in> set (counters d). counter_row (je_hotel e) (je_voucher_type e) c \<longrightarrow> m < vc_next c"
        "\<exists>c \<in> set (counters d). counter_row (je_hotel e) (je_voucher_type e) c"
        using ok e unfolding vouchers_ok_def by blast
      have "m < vc_next c1" if "c1 \<in> set (counters d')" "counter_row (je_hotel e) (je_voucher_type e) c1" for c1
        using up [OF that(1), of "je_hotel e" "je_voucher_type e"] that(2) m(3) by force
      then show ?thesis using m ex by blast
    qed
    ultimately have "vouchers_ok d'"
      using u ok unfolding vouchers_ok_def ent by blast
    with fresh show ?thesis by blast
  qed
qed

subsection \<open>Postings keep invariants of other tables\<close>

text \<open>The writes a posting of tenant \<open>h\<close> consists of, as an interface: an invariant that each of
  them keeps is kept by every posting, wherever it stops.\<close>

locale ledger_invariant =
  fixes h :: uuid and J :: "db \<Rightarrow> bool"
  assumes account: "stmt_keeps J (sql_ensure_account i h a)"
    and voucher: "stmt_keeps J (sql_next_voucher h t)"
    and entry: "je_hotel e = h \<Longrightarrow> stmt_keeps J (sql_insert_entry e)"
    and line: "jl_hotel l = h \<Longrightarrow> stmt_keeps J (sql_insert_jline l)"
begin

lemma ensure_accounts_keeps: "keeps J (ensure_accounts h as)"
  by (induction as) (auto intro!: keeps_intros account)

lemma post_lines_keeps: "keeps J (post_lines h e accts ls)"
  by (induction ls) (auto intro!: keeps_intros line split: option.split)

lemma post_reversed_keeps: "keeps J (post_reversed h e ls)"
  by (induction ls) (auto intro!: keeps_intros line)

lemma postJournal_keeps: "keeps J (postJournal h ds ref ls)"
  unfolding postJournal_def ensureChartOfAccounts_def nextVoucherNo_def
  by (intro keeps_intros ensure_accounts_keeps post_lines_keeps voucher entry) simp

lemma reverse_keeps: "keeps J (reverseJournalsByReference h ref ds)"
  unfolding reverseJournalsByReference_def nextVoucherNo_def
  by (intro keeps_intros post_reversed_keeps voucher entry) simp

lemma postSalesToLedgerFor_keeps: "keeps J (postSalesToLedgerFor h m s t tot ref ds c)"
  unfolding postSalesToLedgerFor_def postSalesToLedger_def
  by (intro keeps_intros postJournal_keeps)

lemma postCOGS_keeps: "keeps J (postCOGS h c ref ds)"
  unfolding postCOGS_def by (intro keeps_intros postJournal_keeps)

lemma postLegacyPOSOrder_keeps: "keeps J (postLegacyPOSOrder h n st m s t tot)"
  unfolding postLegacyPOSOrder_def alreadyPosted_def postSalesToLedger_def
  by (intro keeps_intros postJournal_keeps)

end

text \<open>An invariant that does not read the ledger tables is kept.\<close>

definition ignores_ledger :: "(db \<Rightarrow> bool) \<Rightarrow> bool" where
  "ignores_ledger J \<longleftrightarrow> (\<forall>d as cs es js. J d \<longrightarrow>
     J (d\<lparr>accounts := as\<rparr>) \<and> J (d\<lparr>counters := cs\<rparr>) \<and> J (d\<lparr>entries := es\<rparr>) \<and> J (d\<lparr>jlines := js\<rparr>))"

lemma ledger_invariant_frame: "ignores_ledger J \<Longrightarrow> ledger_invariant h J"
  by unfold_locales
     (auto simp: ignores_ledger_def stmt_keeps_def sql_ensure_account_def sql_next_voucher_def
       sql_insert_entry_def sql_insert_jline_def split: if_splits option.splits)

text \<open>The rows of other tenants are kept.\<close>

interpretation ledger_tenant: ledger_invariant h "\<lambda>d. others h d = X" for h X
proof unfold_locales
  show "stmt_keeps (\<lambda>d. others h d = X) (sql_ensure_account i h a)" for i a
    by (auto simp: stmt_keeps_def sql_ensure_account_def others_upd split: if_splits)
  show "stmt_keeps (\<lambda>d. others h d = X) (sql_next_voucher h t)" for t
    by (auto simp: stmt_keeps_def sql_next_voucher_def counter_row_def others_upd
        intro!: others_upd_where split: option.splits)
  show "stmt_keeps (\<lambda>d. others h d = X) (sql_insert_entry e)" if "je_hotel e = h" for e
    using that by (auto simp: stmt_keeps_def sql_insert_entry_def others_upd split: if_splits)
  show "stmt_keeps (\<lambda>d. others h d = X) (sql_insert_jline l)" if "jl_hotel l = h" for l
    using that by (auto simp: stmt_keeps_def sql_insert_jline_def others_upd split: if_splits)
qed

lemma reverse_triple:
  assumes cents: "\<forall>l \<in> set (lines_of_reference h ref d0). whole_cents (jl_debit l) \<and> whole_cents (jl_credit l)"
    and exact: "numeric_exact d0"
  shows "triple (\<lambda>d. d = d0) (reverseJournalsByReference h ref ds) (ok_post (\<lambda>e d.
    \<exists>rows. jlines d = jlines d0 @ rows \<and> list_all2 (reverses e) rows (lines_of_reference h ref d0)))"
  unfolding reverseJournalsByReference_def
proof (rule triple_bind_ok)
  let ?src = "lines_of_reference h ref d0"
  let ?P = "\<lambda>d. numeric_exact d \<and> jlines d = jlines d0"
  show "triple (\<lambda>d. d = d0) (query (lines_of_reference h ref)) (ok_post (\<lambda>src d. ?P d \<and> src = ?src))"
    by (rule triple_conseq [OF triple_query [of "\<lambda>d. d = d0"]]) (simp_all add: ok_post_def exact split: sum.split)
  fix src
  have lines: "triple ?P (do { rl \<leftarrow> post_reversed h entry src;
      State_Monad.return (case rl of Inl e \<Rightarrow> Inl e | Inr _ \<Rightarrow> Inr entry) })
      (ok_post (\<lambda>e d. \<exists>rows. jlines d = jlines d0 @ rows \<and> list_all2 (reverses e) rows ?src))"
    if "src = ?src" for entry
    by (rule triple_bind [OF post_reversed_rows]) (use cents that in \<open>auto simp: triple_def split: sum.split\<close>)
  have ins: "triple ?P (stmt (sql_insert_entry en)) (ok_post (\<lambda>_. ?P))" for en
    by (rule triple_stmt_ok) (auto simp: sql_insert_entry_def numeric_exact_def split: if_splits)
  have voucher: "triple ?P (nextVoucherNo h t) (\<lambda>_. ?P)" for t
    by (rule triple_keeps [OF nextVoucherNo_keeps]) (auto simp: numeric_exact_def)
  have new: "triple ?P uuid_New (\<lambda>_. ?P)" by (rule triple_uuid_New)
  show "triple (\<lambda>d. ?P d \<and> src = ?src)
     (if src = [] then State_Monad.return (Inr uuid_Nil)
      else do {
        rv \<leftarrow> nextVoucherNo h (voucherTypeFor ref);
        entry \<leftarrow> uuid_New;
        re \<leftarrow> stmt (sql_insert_entry \<lparr>je_id = entry, je_hotel = h, je_description = ds,
               je_reference = ref @ '' REV'', je_voucher_no = voucher_or_blank rv,
               je_voucher_type = voucherTypeFor ref\<rparr>);
        case re of Inl e \<Rightarrow> State_Monad.return (Inl e)
        | Inr _ \<Rightarrow> do { rl \<leftarrow> post_reversed h entry src;
            State_Monad.return (case rl of Inl e \<Rightarrow> Inl e | Inr _ \<Rightarrow> Inr entry) } })
     (ok_post (\<lambda>e d. \<exists>rows. jlines d = jlines d0 @ rows \<and> list_all2 (reverses e) rows ?src))"
  proof (rule triple_pure, rule triple_if)
    assume "src = ?src" "src = []"
    then show "triple ?P (State_Monad.return (Inr uuid_Nil))
      (ok_post (\<lambda>e d. \<exists>rows. jlines d = jlines d0 @ rows \<and> list_all2 (reverses e) rows ?src))"
      by (intro triple_return) simp
  qed (rule triple_bind [OF voucher], rule triple_bind [OF new], rule triple_bind_ok [OF ins lines])
qed

lemma vouchers_ok_jlines [simp]: "vouchers_ok (d\<lparr>jlines := js\<rparr>) = vouchers_ok d"
  "vouchers_ok (d\<lparr>accounts := as\<rparr>) = vouchers_ok d"
  by (simp_all add: vouchers_ok_def counters_unique_def)

lemma nextVoucherNo_fresh:
  assumes "length t = 3"
  shows "triple vouchers_ok (nextVoucherNo h t)
    (\<lambda>r d. vouchers_ok d \<and> (\<forall>s. r = Inr s \<longrightarrow> fresh_voucher h t s d))"
  unfolding nextVoucherNo_def
proof (rule triple_bind)
  show "triple vouchers_ok (stmt (sql_next_voucher h t))
     (\<lambda>r d. vouchers_ok d \<and> (\<forall>n. r = Inr n \<longrightarrow> fresh_voucher h t (voucher_string t n) d))"
    by (rule triple_stmt) (use next_voucher_fresh [OF _ assms] in auto)
qed (auto intro!: triple_return split: sum.splits)

text \<open>An entry numbered with a fresh voucher, or with none, keeps the numbering in order.\<close>

lemma insert_entry_vouchers:
  assumes "\<And>s. je_voucher_no en = Some s \<Longrightarrow> fresh_voucher (je_hotel en) (je_voucher_type en) s d"
    and "vouchers_ok d" "length (je_voucher_type en) = 3"
  shows "vouchers_ok (d\<lparr>entries := entries d @ [en]\<rparr>)"
  using assms unfolding vouchers_ok_def counters_unique_def fresh_voucher_def by auto

lemma insert_entry_stmt_vouchers:
  assumes "length t = 3"
  shows "triple (\<lambda>d. vouchers_ok d \<and> (\<forall>s. rv = Inr s \<longrightarrow> fresh_voucher h t s d))
    (stmt (sql_insert_entry \<lparr>je_id = i, je_hotel = h, je_description = ds, je_reference = ref,
       je_voucher_no = voucher_or_blank rv, je_voucher_type = t\<rparr>)) (\<lambda>_. vouchers_ok)"
proof (rule triple_stmt, elim conjE)
  fix d a d'
  assume ok: "vouchers_ok d" "\<forall>s. rv = Inr s \<longrightarrow> fresh_voucher h t s d"
    and "sql_insert_entry \<lparr>je_id = i, je_hotel = h, je_description = ds, je_reference = ref,
       je_voucher_no = voucher_or_blank rv, je_voucher_type = t\<rparr> d = Inr (a, d')"
  then have "d' = d\<lparr>entries := entries d @ [\<lparr>je_id = i, je_hotel = h, je_description = ds, je_reference = ref,
       je_voucher_no = voucher_or_blank rv, je_voucher_type = t\<rparr>]\<rparr>"
    by (simp add: sql_insert_entry_def split: if_splits)
  then show "vouchers_ok d'"
    using ok assms
    by (auto intro!: insert_entry_vouchers simp: voucher_or_blank_def strPtr_def split: sum.splits if_splits)
qed simp

lemma keeps_vouchers_lines:
  "keeps vouchers_ok (post_lines h e accts ls)" "keeps vouchers_ok (post_reversed h e rs)"
  "keeps vouchers_ok (ensure_accounts h as)"
proof -
  show "keeps vouchers_ok (post_lines h e accts ls)"
    by (induction ls) (auto intro!: keeps_intros simp: stmt_keeps_def sql_insert_jline_def split: option.split if_splits)
  show "keeps vouchers_ok (post_reversed h e rs)"
    by (induction rs) (auto intro!: keeps_intros simp: stmt_keeps_def sql_insert_jline_def split: if_splits)
  show "keeps vouchers_ok (ensure_accounts h as)"
    by (induction as) (auto intro!: keeps_intros simp: stmt_keeps_def sql_ensure_account_def split: if_splits)
qed

lemma postJournal_vouchers: "keeps vouchers_ok (postJournal h ds ref ls)"
proof -
  note t = length_voucherTypeFor [of ref]
  have new: "triple (\<lambda>d. vouchers_ok d \<and> (\<forall>s. rv = Inr s \<longrightarrow> fresh_voucher h (voucherTypeFor ref) s d)) uuid_New
    (\<lambda>_ d. vouchers_ok d \<and> (\<forall>s. rv = Inr s \<longrightarrow> fresh_voucher h (voucherTypeFor ref) s d))" for rv
    by (rule triple_uuid_New)
  have "keeps vouchers_ok (do {
         rv \<leftarrow> nextVoucherNo h (voucherTypeFor ref);
         entry \<leftarrow> uuid_New;
         re \<leftarrow> stmt (sql_insert_entry \<lparr>je_id = entry, je_hotel = h, je_description = ds,
                je_reference = ref, je_voucher_no = voucher_or_blank rv, je_voucher_type = voucherTypeFor ref\<rparr>);
         case re of Inl e \<Rightarrow> State_Monad.return (Inl e)
         | Inr _ \<Rightarrow> do {
             rl \<leftarrow> post_lines h entry accts ls;
             State_Monad.return (case rl of Inl e \<Rightarrow> Inl e | Inr _ \<Rightarrow> Inr entry) } })" for accts
    unfolding keeps_triple
    by (rule triple_bind [OF nextVoucherNo_fresh [OF t]], rule triple_bind [OF new],
        rule triple_bind [OF insert_entry_stmt_vouchers [OF t]], unfold keeps_triple [symmetric],
        intro keeps_intros keeps_vouchers_lines)
  note tail = this
  have "keeps vouchers_ok (ensureChartOfAccounts h)"
    unfolding ensureChartOfAccounts_def by (intro keeps_intros keeps_vouchers_lines)
  then show ?thesis
    unfolding postJournal_def by (rule keeps_bind) (rule keeps_sum [OF keeps_return tail])
qed

subsection \<open>Properties\<close>

text \<open>C14: every posting of the operational events keeps the books balanced. With amounts of whole
  cents and an exact \<^verbatim>\<open>NUMERIC\<close> column, a posting that reports success (a cash, card or credit
  sale, its cost of goods, a folio settlement, a sales invoice, a credit note, a goods receipt, a
  supplier payment, a debit note) adds lines whose debits and credits agree to the cent, so total
  debits equal total credits again.\<close>

theorem postings_keep_ledger_balanced:
  assumes "tax_of t T"
  shows "(keeps_ok ledger_balanced (postSalesToLedgerFor h m s (cents t) (cents T) ref ds c)) \<and>
    (keeps_ok ledger_balanced (postCOGS h (cents T) ref ds)) \<and>
    (keeps_ok ledger_balanced (postRoomRevenue h m (cents t) (cents T) ref ds)) \<and>
    (keeps_ok ledger_balanced (postARInvoice h (cents t) (cents T) ref ds)) \<and>
    (keeps_ok ledger_balanced (postCreditNoteReversal h (cents t) (cents T) ref ds)) \<and>
    (keeps_ok ledger_balanced (postGoodsReceipt h (cents T) ref ds)) \<and>
    (keeps_ok ledger_balanced (postAPSettlement h m (cents T) ref ds)) \<and>
    (keeps_ok ledger_balanced (postVendorDebitNote h (cents T) ref ds))"
proof (intro conjI)
  note ok = posting_lines_ok [OF assms] and post = postJournal_keeps_balanced
  have T: "cent_range T" using assms by (simp add: tax_of_def)
  show "keeps_ok ledger_balanced (postSalesToLedgerFor h m s (cents t) (cents T) ref ds c)"
    unfolding postSalesToLedgerFor_def postSalesToLedger_def
    using ok(1) [of m] ok(5) by (intro ok_intros post keeps_return) auto
  show "keeps_ok ledger_balanced (postCOGS h (cents T) ref ds)"
    unfolding postCOGS_def using ok(6) by (intro ok_intros post keeps_return) auto
  show "keeps_ok ledger_balanced (postRoomRevenue h m (cents t) (cents T) ref ds)"
    "keeps_ok ledger_balanced (postARInvoice h (cents t) (cents T) ref ds)"
    "keeps_ok ledger_balanced (postCreditNoteReversal h (cents t) (cents T) ref ds)"
    unfolding postRoomRevenue_def postARInvoice_def postCreditNoteReversal_def
    using ok(2) [of m] ok(3,4) by (auto intro: post)
  show "keeps_ok ledger_balanced (postGoodsReceipt h (cents T) ref ds)"
    "keeps_ok ledger_balanced (postAPSettlement h m (cents T) ref ds)"
    "keeps_ok ledger_balanced (postVendorDebitNote h (cents T) ref ds)"
    unfolding postGoodsReceipt_def postAPSettlement_def postVendorDebitNote_def
    by (intro post; simp add: two_legs_ok [OF T] cashAccount_def)+
qed

theorem postings_keep_ledger_balanced_witness:
  "let w' = snd (run_state (postRoomRevenue 7 ''upi'' (cents 18000) (cents 118000) ''FOLIO 1'' ''room'') (start empty_db 0))
   in ledger_balanced (w_db w') \<and> map je_voucher_no (entries (w_db w')) = [Some ''SAL-000001''] \<and>
      length (jlines (w_db w')) = 3"
proof -
  let ?m = "postRoomRevenue 7 ''upi'' (cents 18000) (cents 118000) ''FOLIO 1'' ''room''"
  have "(case run_state ?m (start empty_db 0) of (r, w) \<Rightarrow> (r, map je_voucher_no (entries (w_db w)), length (jlines (w_db w)))) =
      (Inr 1011, [Some ''SAL-000001''], 3)"
    by code_simp
  then have run: "fst (run_state ?m (start empty_db 0)) = Inr 1011"
    "map je_voucher_no (entries (w_db (snd (run_state ?m (start empty_db 0))))) = [Some ''SAL-000001'']"
    "length (jlines (w_db (snd (run_state ?m (start empty_db 0))))) = 3"
    by (auto split: prod.splits)
  have "keeps_ok ledger_balanced ?m"
    using postings_keep_ledger_balanced [of 18000 118000] by (simp add: tax_of_def)
  moreover have "ledger_balanced (w_db (start empty_db 0))"
    by (simp add: ledger_balanced_def numeric_exact_def empty_db_def ledger_net_def)
  ultimately have "ok_post (\<lambda>_. ledger_balanced) (fst (run_state ?m (start empty_db 0)))
      (w_db (snd (run_state ?m (start empty_db 0))))"
    unfolding keeps_ok_def triple_def by blast
  with run show ?thesis unfolding Let_def by (metis ok_post_simps(2))
qed


definition sale_db :: db where
  "sale_db = empty_db\<lparr>entries := [\<lparr>je_id = 40, je_hotel = 7, je_description = ''sale'', je_reference = ''BILL 9'',
     je_voucher_no = Some ''SAL-000001'', je_voucher_type = ''SAL''\<rparr>],
   counters := [\<lparr>vc_hotel = 7, vc_type = ''SAL'', vc_next = 2\<rparr>],
   jlines := [\<lparr>jl_id = 41, jl_entry = 40, jl_hotel = 7, jl_account = 1, jl_debit = cents 118000, jl_credit = 0, jl_memo = []\<rparr>,
     \<lparr>jl_id = 42, jl_entry = 40, jl_hotel = 7, jl_account = 2, jl_debit = 0, jl_credit = cents 118000, jl_memo = []\<rparr>]\<rparr>"




end
