(* ===== verification/Settlement.thy ===== *)
theory Settlement
  imports Ledger
begin

text \<open>
  Settling a reservation into the accounts (\<^verbatim>\<open>internal/handler/reservation_settlement.go\<close>)
  and the room charges of the restaurant (\<^verbatim>\<open>internal/handler/pos_room_charge.go\<close>). The
  payment number and its constraint, and the check constraint on \<^verbatim>\<open>payments.card_last4\<close>,
  are part of the statements. Descriptions, notes and memos are kept where they are plain text;
  dates inside a note are left out of the invoice row.
\<close>

subsection \<open>Settlement\<close>

record settlementResult =
  s_customer :: uuid
  s_invoice :: uuid
  s_invoice_no :: string
  s_journal :: uuid
  s_payment :: uuid
  s_voucher_ref :: string

definition no_settlement :: settlementResult where
  "no_settlement = \<lparr>s_customer = uuid_Nil, s_invoice = uuid_Nil, s_invoice_no = [],
     s_journal = uuid_Nil, s_payment = uuid_Nil, s_voucher_ref = []\<rparr>"

definition last4_ok :: "string option \<Rightarrow> bool" where
  "last4_ok c = (case c of None \<Rightarrow> True | Some s \<Rightarrow> length s = 4 \<and> list_all is_digit s)"

definition sql_insert_payment :: "Payment \<Rightarrow> db \<Rightarrow> goerr + unit \<times> db" where
  "sql_insert_payment p d =
     (if \<not> last4_ok (py_last4 p) then Inl CheckViolation
      else if list_ex (\<lambda>x. py_id x = py_id p \<or> py_number x = py_number p) (payments d) then Inl UniqueViolation
      else Inr ((), d\<lparr>payments := payments d @
        [p\<lparr>py_amount := db_num d (py_amount p), py_cash := db_num d (py_cash p),
           py_change := db_num d (py_change p)\<rparr>]\<rparr>))"

definition sql_insert_invoice :: "SalesInvoice \<Rightarrow> db \<Rightarrow> goerr + unit \<times> db" where
  "sql_insert_invoice i d =
     (if list_ex (\<lambda>x. in_id x = in_id i \<or> in_hotel x = in_hotel i \<and> in_number x = in_number i) (invoices d)
      then Inl UniqueViolation
      else Inr ((), d\<lparr>invoices := invoices d @
        [i\<lparr>in_subtotal := db_num d (in_subtotal i), in_discount := db_num d (in_discount i),
           in_tax := db_num d (in_tax i), in_total := db_num d (in_total i)\<rparr>]\<rparr>))"

definition sql_insert_invline :: "SalesInvoiceLine \<Rightarrow> db \<Rightarrow> goerr + unit \<times> db" where
  "sql_insert_invline l d =
     (if list_ex (\<lambda>x. il_id x = il_id l) (invlines d) then Inl UniqueViolation
      else Inr ((), d\<lparr>invlines := invlines d @
        [l\<lparr>il_unit_price := db_num d (il_unit_price l), il_discount := db_num d (il_discount l),
           il_tax_rate := db_num d (il_tax_rate l), il_tax := db_num d (il_tax l),
           il_total := db_num d (il_total l)\<rparr>]\<rparr>))"

text \<open>The change of a cash payment.\<close>

definition settle_change :: "string \<Rightarrow> reservationPaymentRequest \<Rightarrow> stayQuote \<Rightarrow> rat" where
  "settle_change method pay quote =
     (let change = round2 (fsub (p_cash pay) (q_payable quote))
      in if method \<noteq> ''cash'' \<or> change < 0 then 0 else change)"

text \<open>The journal lines of a settled booking.\<close>

definition settle_lines :: "string \<Rightarrow> stayQuote \<Rightarrow> journalLine list" where
  "settle_lines method quote =
     [if isCreditSettlement method
      then Dr ''1200'' (q_payable quote) ''Receivable - room booking on credit''
      else Dr (cashAccount method) (q_payable quote) (''Room booking settlement ('' @ method @ '')''),
      Cr ''4000'' (round2 (fsub (q_base quote) (q_discount quote))) ''Room revenue'',
      Cr ''2100'' (q_tax quote) ''GST on room revenue'']"

text \<open>Steps 2 to 4 of \<open>settleReservation\<close>, after the customer is known: the payment, the invoice
  with its line, the journal.\<close>

definition settle_payment ::
    "uuid \<Rightarrow> GuestStay \<Rightarrow> reservationPaymentRequest \<Rightarrow> stayQuote \<Rightarrow> string \<Rightarrow> (goerr + uuid) go" where
  "settle_payment h stay pay quote method = do {
     paymentID \<leftarrow> uuid_New;
     now \<leftarrow> time_Now;
     suffix \<leftarrow> uuid_New_String;
     r \<leftarrow> stmt (sql_insert_payment \<lparr>py_id = paymentID, py_hotel = h,
        py_number = ''PAY-'' @ format_compact now @ ''-'' @ ToUpper (take 5 suffix),
        py_stay = Some (gs_id stay), py_amount = q_payable quote, py_method = method,
        py_status = ''completed'', py_upi = strPtr (TrimSpace (p_upi pay)),
        py_txn = strPtr (TrimSpace (p_txn pay)), py_last4 = strPtr (TrimSpace (p_last4 pay)),
        py_auth = strPtr (TrimSpace (p_auth pay)), py_cash = p_cash pay,
        py_change = settle_change method pay quote, py_notes = [], py_category = []\<rparr>);
     State_Monad.return (case r of Inl e \<Rightarrow> Inl e | Inr _ \<Rightarrow> Inr paymentID)
   }"

definition settle_invoice ::
    "uuid \<Rightarrow> GuestStay \<Rightarrow> stayQuote \<Rightarrow> uuid \<Rightarrow> string \<Rightarrow> (goerr + uuid \<times> string) go" where
  "settle_invoice h stay quote customer reference = do {
     invoiceID \<leftarrow> uuid_New;
     ms \<leftarrow> time_UnixMilli;
     let invoiceNo = ''INV-'' @ derefStr (gs_conf stay) @ ''-'' @ show_int ms;
     r \<leftarrow> stmt (sql_insert_invoice \<lparr>in_id = invoiceID, in_hotel = h, in_customer = nilAsNull customer,
        in_number = invoiceNo, in_due = gs_out stay, in_reference = reference,
        in_subtotal = q_base quote, in_discount = q_discount quote, in_tax = q_tax quote,
        in_total = q_payable quote, in_status = ''posted''\<rparr>);
     case r of
       Inl e \<Rightarrow> State_Monad.return (Inl e)
     | Inr _ \<Rightarrow> do {
         lineID \<leftarrow> uuid_New;
         rl \<leftarrow> stmt (sql_insert_invline \<lparr>il_id = lineID, il_invoice = invoiceID, il_hotel = h,
           il_quantity = q_nights quote, il_unit_price = q_rate quote, il_discount = q_discount quote,
           il_tax_rate = q_tax_rate quote, il_tax = q_tax quote, il_total = q_payable quote\<rparr>);
         State_Monad.return (case rl of Inl e \<Rightarrow> Inl e | Inr _ \<Rightarrow> Inr (invoiceID, invoiceNo))
       }
   }"

definition settleReservation ::
    "uuid \<Rightarrow> GuestStay \<Rightarrow> reservationPaymentRequest \<Rightarrow> stayQuote \<Rightarrow> (goerr + settlementResult) go" where
  "settleReservation h stay pay quote =
     (let method = ToLower (TrimSpace (p_method pay));
          reference = ''FOLIO '' @ derefStr (gs_conf stay);
          out = no_settlement\<lparr>s_voucher_ref := reference\<rparr> in
      do {
        posted \<leftarrow> alreadyPosted h reference;
        if posted then State_Monad.return (Inr out)
        else do {
          rc \<leftarrow> ensureAccountingCustomer h \<lparr>cd_name = gs_name stay, cd_phone = derefStr (gs_phone stay),
                 cd_email = derefStr (gs_email stay), cd_gstin = []\<rparr>;
          case rc of
            Inl e \<Rightarrow> State_Monad.return (Inl e)
          | Inr customer \<Rightarrow>
              if isCreditSettlement method \<and> customer = uuid_Nil
              then State_Monad.return (Inl (ErrMsg ''a credit booking requires a phone or email to bill''))
              else do {
                rp \<leftarrow> settle_payment h stay pay quote method;
                case rp of
                  Inl e \<Rightarrow> State_Monad.return (Inl e)
                | Inr payment \<Rightarrow> do {
                    ri \<leftarrow> settle_invoice h stay quote customer reference;
                    case ri of
                      Inl e \<Rightarrow> State_Monad.return (Inl e)
                    | Inr invc \<Rightarrow> do {
                        rj \<leftarrow> postJournal h (''Room booking - '' @ gs_name stay @ '' ('' @ derefStr (gs_conf stay) @ '')'')
                               reference (settle_lines method quote);
                        State_Monad.return (case rj of Inl e \<Rightarrow> Inl e
                          | Inr journal \<Rightarrow> Inr (out\<lparr>s_customer := customer, s_invoice := fst invc,
                              s_invoice_no := snd invc, s_journal := journal, s_payment := payment\<rparr>))
                      }
                  }
              }
        }
      })"

subsection \<open>Room charges\<close>

definition stay_of_session :: "uuid \<Rightarrow> uuid \<Rightarrow> db \<Rightarrow> GuestStay option" where
  "stay_of_session h session d =
     (case find (\<lambda>s. ds_id s = session \<and> ds_hotel s = h) (sessions d) of
        None \<Rightarrow> None
      | Some s \<Rightarrow> find (\<lambda>g. ds_stay s = Some (gs_id g) \<and> gs_hotel g = ds_hotel s \<and>
          gs_actual_in g \<noteq> None \<and> gs_actual_out g = None \<and> gs_status g \<noteq> ReservationCancelled) (stays d))"

definition open_folio :: "uuid \<Rightarrow> uuid \<Rightarrow> db \<Rightarrow> uuid option" where
  "open_folio h booking d = map_option fo_id
     (find (\<lambda>f. fo_hotel f = h \<and> fo_booking f = booking \<and> fo_status f = ''open'') (folios d))"

definition guest_of_stay :: "uuid \<Rightarrow> uuid \<Rightarrow> db \<Rightarrow> uuid option" where
  "guest_of_stay h stay d =
     (case find (\<lambda>g. gs_id g = stay \<and> gs_hotel g = h) (stays d) of
        None \<Rightarrow> None
      | Some s \<Rightarrow> map_option gu_id (find (\<lambda>g. gu_hotel g = gs_hotel s \<and>
          (derefStr (gs_phone s) \<noteq> [] \<and>
             right 10 (digits_only (derefStr (gu_phone g))) = right 10 (digits_only (derefStr (gs_phone s))) \<or>
           derefStr (gs_email s) \<noteq> [] \<and> gu_email g \<noteq> None \<and>
             ToLower (derefStr (gu_email g)) = ToLower (derefStr (gs_email s)))) (guests d)))"

definition resolveFolioForRoomCharge :: "uuid \<Rightarrow> uuid \<Rightarrow> (goerr + uuid \<times> uuid) go" where
  "resolveFolioForRoomCharge h session = do {
     rs \<leftarrow> query_row (stay_of_session h session);
     case rs of
       Inl e \<Rightarrow> State_Monad.return (Inl (if e = NoRows then ErrNoRoomForCharge else e))
     | Inr g \<Rightarrow> do {
         rf \<leftarrow> query_row (open_folio h (gs_id g));
         case rf of
           Inr f \<Rightarrow> State_Monad.return (Inr (f, gs_id g))
         | Inl e \<Rightarrow>
             if e \<noteq> NoRows then State_Monad.return (Inl e)
             else do {
               rg \<leftarrow> query_row (guest_of_stay h (gs_id g));
               i \<leftarrow> uuid_New;
               r \<leftarrow> stmt (sql_insert_folio \<lparr>fo_id = i, fo_hotel = h, fo_booking = gs_id g,
                      fo_guest = (case rg of Inl _ \<Rightarrow> None | Inr u \<Rightarrow> Some u), fo_status = ''open'', fo_currency = ''INR''\<rparr>);
               State_Monad.return (case r of Inl e \<Rightarrow> Inl e | Inr f \<Rightarrow> Inr (f, gs_id g))
             }
       }
   }"

definition charge_exists :: "uuid \<Rightarrow> uuid \<Rightarrow> db \<Rightarrow> bool" where
  "charge_exists folio bill d = list_ex (\<lambda>c. fc_folio c = folio \<and> fc_reference c = Some bill) (charges d)"

definition sql_insert_charge :: "FolioCharge \<Rightarrow> db \<Rightarrow> goerr + unit \<times> db" where
  "sql_insert_charge c d =
     (if list_ex (\<lambda>x. fc_id x = fc_id c) (charges d) then Inl UniqueViolation
      else if \<not> list_ex (\<lambda>f. fo_id f = fc_folio c) (folios d) then Inl ForeignKeyViolation
      else Inr ((), d\<lparr>charges := charges d @
        [c\<lparr>fc_amount := db_num d (fc_amount c), fc_tax := db_num d (fc_tax c)\<rparr>]\<rparr>))"

definition postFolioCharge ::
    "uuid \<Rightarrow> uuid \<Rightarrow> uuid \<Rightarrow> string \<Rightarrow> rat \<Rightarrow> rat \<Rightarrow> uuid option \<Rightarrow> (goerr + unit) go" where
  "postFolioCharge h folio bill description amount tax postedBy = do {
     re \<leftarrow> query (charge_exists folio bill);
     case re of
       Inl e \<Rightarrow> State_Monad.return (Inl e)
     | Inr exists \<Rightarrow>
         if exists then State_Monad.return (Inr ())
         else do {
           i \<leftarrow> uuid_New;
           stmt (sql_insert_charge \<lparr>fc_id = i, fc_folio = folio, fc_hotel = h, fc_description = description,
             fc_type = ''restaurant'', fc_amount = amount, fc_tax = tax, fc_reference = Some bill,
             fc_posted_by = postedBy\<rparr>)
         }
   }"

text \<open>The two sums of \<open>folioOutstanding\<close>, in cents: the columns hold two decimals, the database
  adds them exactly, and the sum is rounded to a double when it is scanned.\<close>

definition folio_charges_cents :: "uuid \<Rightarrow> db \<Rightarrow> int" where
  "folio_charges_cents folio d = sum_list (map (\<lambda>c. to_cents (fc_amount c) + to_cents (fc_tax c))
     (filter (\<lambda>c. fc_folio c = folio) (charges d)))"

definition stay_paid_cents :: "uuid \<Rightarrow> uuid \<Rightarrow> db \<Rightarrow> int" where
  "stay_paid_cents h stay d = sum_list (map (\<lambda>p. to_cents (py_amount p))
     (filter (\<lambda>p. py_hotel p = h \<and> py_stay p = Some stay \<and> py_status p = ''completed'') (payments d)))"

definition folioOutstanding :: "uuid \<Rightarrow> uuid \<Rightarrow> (goerr + rat \<times> uuid) go" where
  "folioOutstanding h stay = do {
     rf \<leftarrow> query_row (open_folio h stay);
     case rf of
       Inl e \<Rightarrow> State_Monad.return (if e = NoRows then Inr (0, uuid_Nil) else Inl e)
     | Inr folio \<Rightarrow> do {
         rc \<leftarrow> query (\<lambda>d. cents (folio_charges_cents folio d));
         case rc of
           Inl e \<Rightarrow> State_Monad.return (Inl e)
         | Inr charged \<Rightarrow> do {
             rp \<leftarrow> query (\<lambda>d. cents (stay_paid_cents h stay d));
             State_Monad.return (case rp of Inl e \<Rightarrow> Inl e
               | Inr paid \<Rightarrow> Inr (round2 (fsub charged paid), folio))
           }
       }
   }"

subsection \<open>Settlement keeps invariants\<close>

locale settlement_invariant = ledger_invariant +
  assumes customer: "keeps J (ensureAccountingCustomer h c)"
    and payment: "py_hotel p = h \<Longrightarrow> stmt_keeps J (sql_insert_payment p)"
    and invoice: "in_hotel i = h \<Longrightarrow> stmt_keeps J (sql_insert_invoice i)"
    and invline: "il_hotel l = h \<Longrightarrow> stmt_keeps J (sql_insert_invline l)"
begin

lemma settle_payment_keeps: "keeps J (settle_payment h stay pay quote method)"
  unfolding settle_payment_def by (intro keeps_intros payment) simp

lemma settle_invoice_keeps: "keeps J (settle_invoice h stay quote cust ref)"
  unfolding settle_invoice_def by (intro keeps_intros invoice invline) simp_all

lemma settleReservation_keeps: "keeps J (settleReservation h stay pay quote)"
  unfolding settleReservation_def alreadyPosted_def
  by (intro keeps_intros customer settle_payment_keeps settle_invoice_keeps postJournal_keeps)

end

text \<open>An invariant that reads none of the accounting tables is kept.\<close>

definition ignores_settlement :: "(db \<Rightarrow> bool) \<Rightarrow> bool" where
  "ignores_settlement J \<longleftrightarrow> ignores_ledger J \<and> (\<forall>d cs ps is ls. J d \<longrightarrow>
     J (d\<lparr>customers := cs\<rparr>) \<and> J (d\<lparr>payments := ps\<rparr>) \<and> J (d\<lparr>invoices := is\<rparr>) \<and> J (d\<lparr>invlines := ls\<rparr>))"

lemma ensureAccountingCustomer_keeps:
  assumes "\<And>d cs. J d \<Longrightarrow> J (d\<lparr>customers := cs\<rparr>)"
  shows "keeps J (ensureAccountingCustomer h c)"
proof -
  have "stmt_keeps J (sql_insert_customer x)" for x
    using assms by (auto simp: stmt_keeps_def sql_insert_customer_def split: option.splits if_splits)
  then show ?thesis
    unfolding ensureAccountingCustomer_def create_customer_def nextCustomerCode_def
    by (intro keeps_intros) (simp_all add: assms sql_backfill_customer_def)
qed

lemma settlement_invariant_frame:
  assumes "ignores_settlement J"
  shows "settlement_invariant h J"
proof -
  have L: "ignores_ledger J" and S: "\<And>d cs. J d \<Longrightarrow> J (d\<lparr>customers := cs\<rparr>)" "\<And>d ps. J d \<Longrightarrow> J (d\<lparr>payments := ps\<rparr>)"
    "\<And>d is. J d \<Longrightarrow> J (d\<lparr>invoices := is\<rparr>)" "\<And>d ls. J d \<Longrightarrow> J (d\<lparr>invlines := ls\<rparr>)"
    using assms by (auto simp: ignores_settlement_def)
  show ?thesis
    by (intro settlement_invariant.intro settlement_invariant_axioms.intro ledger_invariant_frame L
        ensureAccountingCustomer_keeps S)
       (auto simp: stmt_keeps_def sql_insert_payment_def sql_insert_invoice_def sql_insert_invline_def S split: if_splits)
qed

subsection \<open>Settlement and the ledger\<close>

text \<open>A quote of whole cents, as \<open>priceStay\<close> produces it.\<close>

definition cent_quote :: "stayQuote \<Rightarrow> bool" where
  "cent_quote q \<longleftrightarrow> (\<exists>b D t. cent_range b \<and> cent_range D \<and> cent_range t \<and> cent_range (b - D) \<and>
     cent_range (b - D + t) \<and> q_base q = cents b \<and> q_discount q = cents D \<and> q_tax q = cents t \<and>
     q_payable q = cents (b - D + t))"

lemma priceStay_cent_quote:
  assumes "0 \<le> r" "0 \<le> d" "cent_range d" "0 \<le> rate" "rate \<le> 100"
    "cent_range (2 * (r * stay_nights ci co) + 1)" "stay_nights ci co \<le> 10 ^ 14"
  shows "cent_quote (priceStay (cents r) ci co rate (cents d))"
proof -
  let ?n = "stay_nights ci co"
  have n: "1 \<le> ?n" by (simp add: stay_nights_def)
  have rn: "r \<le> r * ?n" "0 \<le> r * ?n" using assms(1) n by (auto simp: mult_le_cancel_left1)
  have R: "cent_range r" "cent_range (r * ?n)" using rn assms(1,6) by auto
  obtain b D t where q: "b = r * ?n" "D = min d b" "0 \<le> t" "t \<le> b - D + 1"
    "q_base (priceStay (cents r) ci co rate (cents d)) = cents b"
    "q_discount (priceStay (cents r) ci co rate (cents d)) = cents D"
    "q_tax (priceStay (cents r) ci co rate (cents d)) = cents t"
    "q_payable (priceStay (cents r) ci co rate (cents d)) = cents (b - D + t)"
    using priceStay_cents [OF assms(1) R assms(7,2,3,4,5)] by blast
  have "0 \<le> D" "D \<le> b" using q(1,2) assms(2) rn by auto
  with q(1-4) assms(6) rn have "cent_range b" "cent_range D" "cent_range t" "cent_range (b - D)" "cent_range (b - D + t)"
    by auto
  with q(5-8) show ?thesis unfolding cent_quote_def by blast
qed

lemma settle_lines_ok:
  assumes "cent_quote q"
  shows "postable (settle_lines m q) \<and> lines_balanced (settle_lines m q)"
proof -
  obtain b D t where r: "cent_range b" "cent_range D" "cent_range t" "cent_range (b - D)" "cent_range (b - D + t)"
    and q: "q_base q = cents b" "q_discount q = cents D" "q_tax q = cents t" "q_payable q = cents (b - D + t)"
    using assms unfolding cent_quote_def by blast
  have rev: "round2 (fsub (cents b) (cents D)) = cents (b - D)" by (rule round2_fsub_cents [OF r(1,2)])
  have c: "to_cents (cents t) = t" "to_cents (cents (b - D)) = b - D" "to_cents (cents (b - D + t)) = b - D + t"
    "whole_cents (cents t)" "whole_cents (cents (b - D))" "whole_cents (cents (b - D + t))"
    using r by (simp_all only: to_cents_cents whole_cents_cents)
  show ?thesis
    by (simp add: postable_def lines_balanced_def settle_lines_def cashAccount_def q rev c
        del: to_cents_cents whole_cents_cents)
qed

lemma ledger_balanced_upd [simp]:
  "ledger_balanced (d\<lparr>customers := cs\<rparr>) = ledger_balanced d" "ledger_balanced (d\<lparr>payments := ps\<rparr>) = ledger_balanced d"
  "ledger_balanced (d\<lparr>invoices := is\<rparr>) = ledger_balanced d" "ledger_balanced (d\<lparr>invlines := ls\<rparr>) = ledger_balanced d"
  "ledger_balanced (d\<lparr>stays := gs\<rparr>) = ledger_balanced d" "ledger_balanced (d\<lparr>guests := us\<rparr>) = ledger_balanced d"
  "ledger_balanced (d\<lparr>promotions := rs\<rparr>) = ledger_balanced d" "ledger_balanced (d\<lparr>rooms := ms\<rparr>) = ledger_balanced d"
  "ledger_balanced (d\<lparr>folios := fs\<rparr>) = ledger_balanced d" "ledger_balanced (d\<lparr>tasks := ts\<rparr>) = ledger_balanced d"
  by (simp_all add: ledger_balanced_def numeric_exact_def ledger_net_def)

lemma settleReservation_balanced:
  assumes "cent_quote q"
  shows "keeps_ok ledger_balanced (settleReservation h stay pay q)"
proof -
  have pay: "keeps ledger_balanced (settle_payment h stay pay q m)" for m
    unfolding settle_payment_def
    by (intro keeps_intros) (auto simp: stmt_keeps_def sql_insert_payment_def split: if_splits)
  have inv: "keeps ledger_balanced (settle_invoice h stay q c ref)" for c ref
    unfolding settle_invoice_def
    by (intro keeps_intros)
       (auto simp: stmt_keeps_def sql_insert_invoice_def sql_insert_invline_def split: if_splits)
  have cust: "keeps ledger_balanced (ensureAccountingCustomer h c)" for c
    by (rule ensureAccountingCustomer_keeps) simp
  have posted: "keeps ledger_balanced (alreadyPosted h ref)" for ref
    unfolding alreadyPosted_def by (intro keeps_intros)
  have journal: "keeps_ok ledger_balanced (postJournal h ds ref (settle_lines m q))" for ds ref m
    using settle_lines_ok [OF assms] by (intro postJournal_keeps_balanced) auto
  note ok = cust [THEN keeps_ok_keeps] pay [THEN keeps_ok_keeps] inv [THEN keeps_ok_keeps]
    keeps_return [THEN keeps_ok_keeps]
  show ?thesis
    unfolding settleReservation_def
    by (rule keeps_ok_let keeps_ok_bind_any [OF posted] keeps_ok_if ok
        keeps_ok_bind [OF ok(1)] keeps_ok_bind [OF ok(2)] keeps_ok_bind [OF ok(3)] keeps_ok_map [OF journal])+
qed

subsection \<open>Tenant isolation\<close>

text \<open>Two statements of the program update a guest or a customer by id alone, so isolation rests on
  the primary keys as well.\<close>

definition tenant_frame :: "uuid \<Rightarrow> db \<Rightarrow> db \<Rightarrow> bool" where
  "tenant_frame h X d \<longleftrightarrow> others h d = X \<and> distinct (map gu_id (guests d)) \<and> distinct (map cu_id (customers d))"

lemma tenant_frame_upd:
  assumes "others h d' = others h d" "guests d' = guests d" "customers d' = customers d"
  shows "tenant_frame h X d' = tenant_frame h X d"
  using assms by (simp add: tenant_frame_def)

lemma filter_upd_where_key:
  assumes "\<And>x. x \<in> set xs \<Longrightarrow> p x \<Longrightarrow> \<not> q x" "\<And>x. q (f x) = q x"
  shows "filter q (upd_where p f xs) = filter q xs"
  using assms by (induction xs) (auto simp: upd_where_def)

lemma customer_tenant_frame: "keeps (tenant_frame h X) (ensureAccountingCustomer h c)"
proof -
  let ?J = "tenant_frame h X"
  have ins: "stmt_keeps ?J (sql_insert_customer x)" if "cu_hotel x = h" for x
    using that
    by (auto simp: stmt_keeps_def sql_insert_customer_def tenant_frame_def others_upd list_ex_iff
        split: option.splits if_splits)
  have create: "keeps ?J (create_customer h c)" for c
    unfolding create_customer_def nextCustomerCode_def by (intro keeps_intros ins) simp
  have fill: "triple (\<lambda>d. ?J d \<and> find_customer_by_phone h p d = Some i)
      (exec (sql_backfill_customer i e g)) (\<lambda>_. ?J)" for p i e g
  proof (rule triple_exec, elim conjE)
    fix d assume J: "?J d" and f: "find_customer_by_phone h p d = Some i"
    then have "filter (\<lambda>x. cu_hotel x \<noteq> h) (customers (sql_backfill_customer i e g d)) = filter (\<lambda>x. cu_hotel x \<noteq> h) (customers d)"
      by (auto simp: sql_backfill_customer_def find_customer_by_phone_def tenant_frame_def
          intro!: filter_upd_where_key dest!: find_SomeD dest: distinct_map_eqI)
    moreover have "map cu_id (customers (sql_backfill_customer i e g d)) = map cu_id (customers d)"
      by (simp add: sql_backfill_customer_def map_upd_where)
    moreover have "sql_backfill_customer i e g d = d\<lparr>customers := customers (sql_backfill_customer i e g d)\<rparr>"
      by (simp add: sql_backfill_customer_def)
    ultimately show "?J (sql_backfill_customer i e g d)"
      using J unfolding tenant_frame_def by (metis db.select_convs(4) db.surjective db.update_convs(14) others_upd(13))
  qed simp
  have found: "triple (\<lambda>d. ?J d \<and> (\<forall>a. r = Inr a \<longrightarrow> find_customer_by_phone h p d = Some a) \<and>
        (r = Inl NoRows \<longrightarrow> find_customer_by_phone h p d = None))
      (case r of Inr i \<Rightarrow> do { _ \<leftarrow> exec (sql_backfill_customer i e g); State_Monad.return (Inr i) }
       | Inl e \<Rightarrow> if e = NoRows then create_customer h c' else State_Monad.return (Inl e)) (\<lambda>_. ?J)" for r p e g c'
  proof (cases r)
    case (Inr i)
    have "triple (\<lambda>d. ?J d \<and> find_customer_by_phone h p d = Some i)
       (do { _ \<leftarrow> exec (sql_backfill_customer i e g); State_Monad.return (Inr i) }) (\<lambda>_. ?J)"
      by (rule triple_bind [OF fill]) (rule triple_return)
    then show ?thesis using Inr by (auto elim: triple_conseq)
  next
    case (Inl e)
    have "triple ?J (create_customer h c') (\<lambda>_. ?J)" using create by (simp add: keeps_triple)
    then show ?thesis using Inl by (auto elim: triple_conseq intro: triple_return)
  qed
  have "keeps ?J (do { r \<leftarrow> query_row (find_customer_by_phone h p);
      case r of Inr i \<Rightarrow> do { _ \<leftarrow> exec (sql_backfill_customer i e g); State_Monad.return (Inr i) }
       | Inl e \<Rightarrow> if e = NoRows then create_customer h c' else State_Monad.return (Inl e) })" for p e g c'
    unfolding keeps_triple by (rule triple_bind [OF triple_query_row found])
  note lookup = this
  show ?thesis
    unfolding ensureAccountingCustomer_def by (intro keeps_let keeps_if keeps_return create lookup)
qed

lemma stmt_keeps_tenant_frame:
  assumes "stmt_keeps (\<lambda>d. others h d = X) f"
    and "\<And>d a d'. f d = Inr (a, d') \<Longrightarrow> guests d' = guests d \<and> customers d' = customers d"
  shows "stmt_keeps (tenant_frame h X) f"
  unfolding stmt_keeps_def
proof (intro allI impI)
  fix d a d' assume J: "tenant_frame h X d" and f: "f d = Inr (a, d')"
  then have X: "others h d = X" by (simp add: tenant_frame_def)
  have "others h d' = X" by (rule assms(1) [unfolded stmt_keeps_def, rule_format, OF X f])
  with J assms(2) [OF f] show "tenant_frame h X d'" by (simp add: tenant_frame_def)
qed

interpretation settle_tenant: settlement_invariant h "tenant_frame h X" for h X
proof unfold_locales
  show "stmt_keeps (tenant_frame h X) (sql_ensure_account i h a)" for i a
    by (rule stmt_keeps_tenant_frame [OF ledger_tenant.account])
       (auto simp: sql_ensure_account_def split: if_splits)
  show "stmt_keeps (tenant_frame h X) (sql_next_voucher h t)" for t
    by (rule stmt_keeps_tenant_frame [OF ledger_tenant.voucher])
       (auto simp: sql_next_voucher_def split: option.splits)
  show "stmt_keeps (tenant_frame h X) (sql_insert_entry e)" if "je_hotel e = h" for e
    by (rule stmt_keeps_tenant_frame [OF ledger_tenant.entry [OF that]])
       (auto simp: sql_insert_entry_def split: if_splits)
  show "stmt_keeps (tenant_frame h X) (sql_insert_jline l)" if "jl_hotel l = h" for l
    by (rule stmt_keeps_tenant_frame [OF ledger_tenant.line [OF that]])
       (auto simp: sql_insert_jline_def split: if_splits)
  show "keeps (tenant_frame h X) (ensureAccountingCustomer h c)" for c
    by (rule customer_tenant_frame)
  show "stmt_keeps (tenant_frame h X) (sql_insert_payment p)" if "py_hotel p = h" for p
    using that by (auto simp: stmt_keeps_def sql_insert_payment_def tenant_frame_def others_upd split: if_splits)
  show "stmt_keeps (tenant_frame h X) (sql_insert_invoice i)" if "in_hotel i = h" for i
    using that by (auto simp: stmt_keeps_def sql_insert_invoice_def tenant_frame_def others_upd split: if_splits)
  show "stmt_keeps (tenant_frame h X) (sql_insert_invline l)" if "il_hotel l = h" for l
    using that by (auto simp: stmt_keeps_def sql_insert_invline_def tenant_frame_def others_upd split: if_splits)
qed

subsection \<open>Room charges\<close>

definition one_charge_per_bill :: "db \<Rightarrow> bool" where
  "one_charge_per_bill d \<longleftrightarrow> distinct (map (\<lambda>c. (fc_folio c, fc_reference c))
     (filter (\<lambda>c. fc_reference c \<noteq> None) (charges d)))"

lemma postFolioCharge_once: "keeps one_charge_per_bill (postFolioCharge h f b ds a t u)"
proof -
  let ?J = one_charge_per_bill
  let ?N = "\<lambda>d. ?J d \<and> \<not> charge_exists f b d"
  have ins: "triple ?N (stmt (sql_insert_charge \<lparr>fc_id = i, fc_folio = f, fc_hotel = h, fc_description = ds,
      fc_type = ''restaurant'', fc_amount = a, fc_tax = t, fc_reference = Some b, fc_posted_by = u\<rparr>)) (\<lambda>_. ?J)" for i
    by (rule triple_stmt)
       (auto simp: one_charge_per_bill_def charge_exists_def sql_insert_charge_def list_ex_iff split: if_splits)
  have new: "triple ?N (do { i \<leftarrow> uuid_New; stmt (sql_insert_charge \<lparr>fc_id = i, fc_folio = f, fc_hotel = h,
      fc_description = ds, fc_type = ''restaurant'', fc_amount = a, fc_tax = t, fc_reference = Some b,
      fc_posted_by = u\<rparr>) }) (\<lambda>_. ?J)"
    by (rule triple_bind [OF triple_uuid_New [of ?N "\<lambda>_. ?N"] ins])
  have "triple (\<lambda>d. ?J d \<and> (\<forall>a. re = Inr a \<longrightarrow> a = charge_exists f b d))
     (case re of Inl e \<Rightarrow> State_Monad.return (Inl e)
      | Inr exists \<Rightarrow> if exists then State_Monad.return (Inr ())
         else do { i \<leftarrow> uuid_New; stmt (sql_insert_charge \<lparr>fc_id = i, fc_folio = f, fc_hotel = h,
           fc_description = ds, fc_type = ''restaurant'', fc_amount = a, fc_tax = t, fc_reference = Some b,
           fc_posted_by = u\<rparr>) }) (\<lambda>_. ?J)" for re
    by (cases re) (auto intro: triple_return new)
  then show ?thesis
    unfolding keeps_triple postFolioCharge_def by (rule triple_bind [OF triple_query])
qed

subsection \<open>Properties\<close>

text \<open>C29: a payment that \<open>validate\<close> accepts as a card payment passes the check constraint on the
  card digits, so the desk never learns of a bad card number only from a failed write; and no
  settlement, whatever the method and whatever it is sent, ever stores more than four digits of a
  card.\<close>

theorem card_digits_safe:
  "(validate p payable = None \<and> ToLower (TrimSpace (p_method p)) = ''card'' \<longrightarrow>
      last4_ok (strPtr (TrimSpace (p_last4 p)))) \<and>
   keeps (\<lambda>d. \<forall>y \<in> set (payments d). last4_ok (py_last4 y)) (settleReservation h stay pay quote)"
proof (intro conjI impI)
  show "last4_ok (strPtr (TrimSpace (p_last4 p)))"
    if "validate p payable = None \<and> ToLower (TrimSpace (p_method p)) = ''card''"
    using that by (auto simp: validate_def Let_def last4_ok_def strPtr_def split: if_splits)
  let ?J = "\<lambda>d. \<forall>y \<in> set (payments d). last4_ok (py_last4 y)"
  have L: "ledger_invariant h ?J"
    by (rule ledger_invariant_frame) (simp add: ignores_ledger_def)
  have "settlement_invariant h ?J"
    by (intro settlement_invariant.intro settlement_invariant_axioms.intro L ensureAccountingCustomer_keeps)
       (auto simp: stmt_keeps_def sql_insert_payment_def sql_insert_invoice_def sql_insert_invline_def split: if_splits)
  then show "keeps ?J (settleReservation h stay pay quote)"
    by (rule settlement_invariant.settleReservation_keeps)
qed

theorem card_digits_safe_witness:
  "let p = \<lparr>p_method = '' Card '', p_amount = 0, p_upi = [], p_txn = [], p_last4 = ''4242'', p_auth = ''A1'', p_cash = 0\<rparr>
   in validate p 100 = None \<and> last4_ok (strPtr (TrimSpace (p_last4 p))) \<and>
      validate (p\<lparr>p_last4 := ''4242424242424242''\<rparr>) 100 \<noteq> None"
proof -
  let ?p = "\<lparr>p_method = '' Card '', p_amount = 0, p_upi = [], p_txn = [], p_last4 = ''4242'', p_auth = ''A1'',
     p_cash = 0\<rparr> :: reservationPaymentRequest"
  have a: "validate ?p 100 = None" and m: "ToLower (TrimSpace (p_method ?p)) = ''card''" by code_simp+
  have b: "validate (?p\<lparr>p_last4 := ''4242424242424242''\<rparr>) 100 = Some ''card_last4 must be exactly 4 digits - never send a full card number''"
    by code_simp
  show ?thesis using card_digits_safe [of ?p 100] a m b by (simp add: Let_def)
qed


definition prepaid_db :: db where
  "prepaid_db = booked_db\<lparr>
     folios := [\<lparr>fo_id = 30, fo_hotel = 7, fo_booking = 5, fo_guest = None, fo_status = ''open'', fo_currency = ''INR''\<rparr>],
     charges := [\<lparr>fc_id = 31, fc_folio = 30, fc_hotel = 7, fc_description = ''Dinner'', fc_type = ''restaurant'',
       fc_amount = 1000, fc_tax = 180, fc_reference = Some 50, fc_posted_by = None\<rparr>],
     payments := [\<lparr>py_id = 32, py_hotel = 7, py_number = ''PAY-1'', py_stay = Some 5, py_amount = 8000,
       py_method = ''card'', py_status = ''completed'', py_upi = None, py_txn = None, py_last4 = None,
       py_auth = None, py_cash = 0, py_change = 0, py_notes = [], py_category = []\<rparr>]\<rparr>"


text \<open>C28: signing a bill to a room. A restaurant bill is only charged to the folio of a guest of the
  tenant who is checked in, has not left and whose booking is not cancelled; the folio it goes to
  is an open folio of that stay; and a bill is on a folio at most once, however often settlement
  is retried.\<close>

theorem room_charge_safe:
  assumes "calm w" "run_state (resolveFolioForRoomCharge h session) w = (Inr (f, g), w')"
  shows "(\<exists>x \<in> set (stays (w_db w)). gs_id x = g \<and> gs_hotel x = h \<and> gs_actual_in x \<noteq> None \<and>
            gs_actual_out x = None \<and> gs_status x \<noteq> ReservationCancelled) \<and>
    (\<exists>y \<in> set (folios (w_db w')). fo_id y = f \<and> fo_hotel y = h \<and> fo_booking y = g \<and> fo_status y = ''open'') \<and>
    (keeps one_charge_per_bill (postFolioCharge h f bill ds amount tax by_user))"
proof (intro conjI)
  obtain s where s: "stay_of_session h session (w_db w) = Some s"
    using assms by (auto simp: resolveFolioForRoomCharge_def split: option.splits)
  have "gs_id s = g" using assms s
    by (auto simp: resolveFolioForRoomCharge_def run_stmt split: option.splits sum.splits prod.splits)
  moreover have "s \<in> set (stays (w_db w)) \<and> gs_hotel s = h \<and> gs_actual_in s \<noteq> None \<and> gs_actual_out s = None \<and>
      gs_status s \<noteq> ReservationCancelled"
    using s by (auto simp: stay_of_session_def dest!: find_SomeD split: option.splits)
  ultimately show "\<exists>x \<in> set (stays (w_db w)). gs_id x = g \<and> gs_hotel x = h \<and> gs_actual_in x \<noteq> None \<and>
            gs_actual_out x = None \<and> gs_status x \<noteq> ReservationCancelled" by blast
  show "\<exists>y \<in> set (folios (w_db w')). fo_id y = f \<and> fo_hotel y = h \<and> fo_booking y = g \<and> fo_status y = ''open''"
  proof (cases "open_folio h (gs_id s) (w_db w)")
    case (Some k)
    then have "f = k" "w' = w" "g = gs_id s" using assms s by (auto simp: resolveFolioForRoomCharge_def)
    with Some show ?thesis by (auto simp: open_folio_def dest!: find_SomeD)
  next
    case None
    with assms s show ?thesis
      by (auto simp: resolveFolioForRoomCharge_def run_stmt sql_insert_folio_def split: if_splits sum.splits prod.splits)
  qed
  show "keeps one_charge_per_bill (postFolioCharge h f bill ds amount tax by_user)"
    by (rule postFolioCharge_once)
qed

definition dining_db :: db where
  "dining_db = booked_db\<lparr>stays := [stay_sample\<lparr>gs_actual_in := Some 100, gs_status := ReservationInHouse\<rparr>],
     sessions := [\<lparr>ds_id = 60, ds_hotel = 7, ds_number = ''S1'', ds_table = 61, ds_outlet = None, ds_covers = 2,
       ds_guest_name = None, ds_customer_type = ''hotel'', ds_stay = Some 5, ds_customer = None, ds_opened = 0, ds_status = ''billed''\<rparr>]\<rparr>"

theorem room_charge_safe_witness:
  "\<exists>w'. run_state (resolveFolioForRoomCharge 7 60) (start dining_db 0) = (Inr (1000, 5), w') \<and>
     (\<exists>y \<in> set (folios (w_db w')). fo_id y = 1000 \<and> fo_booking y = 5 \<and> fo_status y = ''open'')"
proof -
  let ?r = "run_state (resolveFolioForRoomCharge 7 60) (start dining_db 0)"
  have "fst ?r = Inr (1000, 5)" by code_simp
  then have r: "?r = (Inr (1000, 5), snd ?r)" by (metis prod.collapse)
  have "calm (start dining_db 0)" by simp
  from room_charge_safe [OF this r] r show ?thesis by blast
qed

end
