(* ===== verification/Auth.thy ===== *)
theory Auth
  imports Domain
begin

text \<open>
  Authentication, tenant and branch resolution: \<^verbatim>\<open>internal/handler/authz.go\<close> and
  \<^verbatim>\<open>internal/handler/authctx.go\<close>. The two functions of third-party packages these files call,
  \<^verbatim>\<open>jwt.Parse\<close> (with the HMAC key function) and \<^verbatim>\<open>uuid.Parse\<close>, are the fields of a
  parameter \<open>lib\<close>: a token is its claims when the signature, the signing method and the
  expiry are accepted, and nothing otherwise.
\<close>

datatype json = JNull | JBool bool | JNum rat | JStr string | JArr "json list" | JObj "(string \<times> json) list"

type_synonym claims = "(string \<times> json) list"

record lib =
  lib_jwt :: "string \<Rightarrow> string \<Rightarrow> claims option"
  lib_uuid :: "string \<Rightarrow> uuid option"

text \<open>What the functions below read of a \<^verbatim>\<open>*fiber.Ctx\<close>.\<close>

record ctx =
  c_authorization :: string
  c_cookie :: string
  c_branch_header :: string
  c_path :: string
  c_locals :: "(string \<times> string) list"

text \<open>The outcome of a guard: let the request through, or answer with a status and a message.\<close>

datatype guard = Pass | Refuse nat string

subsection \<open>authz.go\<close>

definition authTokenFromRequest :: "ctx \<Rightarrow> string" where
  "authTokenFromRequest c =
     (let h = c_authorization c; t = TrimSpace (TrimPrefix h ''Bearer '')
      in if t \<noteq> [] \<and> t \<noteq> h then t else TrimSpace (c_cookie c))"

definition jwtClaimsFromRequest :: "lib \<Rightarrow> string \<Rightarrow> ctx \<Rightarrow> claims option" where
  "jwtClaimsFromRequest L secret c =
     (let t = authTokenFromRequest c
      in if t = [] \<or> secret = [] then None else lib_jwt L secret t)"

definition requireAuthenticatedRequest :: "lib \<Rightarrow> string \<Rightarrow> ctx \<Rightarrow> guard" where
  "requireAuthenticatedRequest L secret c =
     (case jwtClaimsFromRequest L secret c of
        None \<Rightarrow> Refuse 401 ''authentication is required'' | Some _ \<Rightarrow> Pass)"

text \<open>The type assertion \<^verbatim>\<open>v, _ := x.(string)\<close>: the zero value when it fails.\<close>

definition as_string :: "json option \<Rightarrow> string" where
  "as_string j = (case j of Some (JStr s) \<Rightarrow> s | _ \<Rightarrow> [])"

definition as_bool :: "json option \<Rightarrow> bool" where
  "as_bool j = (case j of Some (JBool b) \<Rightarrow> b | _ \<Rightarrow> False)"

definition raw_roles :: "claims \<Rightarrow> json list option" where
  "raw_roles cl = (case map_of cl ''roles'' of Some (JArr rs) \<Rightarrow> Some rs | _ \<Rightarrow> None)"

definition requireAnyRoleFromToken :: "lib \<Rightarrow> string \<Rightarrow> ctx \<Rightarrow> string list \<Rightarrow> guard" where
  "requireAnyRoleFromToken L secret c allowed =
     (case jwtClaimsFromRequest L secret c of
        None \<Rightarrow> Refuse 401 ''authentication is required''
      | Some cl \<Rightarrow>
          (case raw_roles cl of
             None \<Rightarrow> Refuse 403 ''required role is missing''
           | Some rs \<Rightarrow>
               if list_ex (\<lambda>r. as_string (Some r) \<in> set allowed) rs then Pass
               else Refuse 403 ''access denied''))"

subsection \<open>authctx.go\<close>

definition requireRoles :: "lib \<Rightarrow> string \<Rightarrow> ctx \<Rightarrow> string list \<Rightarrow> guard" where
  "requireRoles L secret c allowed = requireAnyRoleFromToken L secret c allowed"

text \<open>\<^verbatim>\<open>func (b baseHandler) hotelID\<close>: from the token itself.\<close>

definition hotelID :: "lib \<Rightarrow> string \<Rightarrow> ctx \<Rightarrow> uuid" where
  "hotelID L secret c =
     (case jwtClaimsFromRequest L secret c of
        None \<Rightarrow> DemoHotelID
      | Some cl \<Rightarrow>
          (let raw = TrimSpace (as_string (map_of cl ''hotel_id''))
           in if raw = [] then DemoHotelID
              else case lib_uuid L raw of None \<Rightarrow> DemoHotelID | Some u \<Rightarrow> u))"

text \<open>\<^verbatim>\<open>tenantHotelID\<close>: from the locals \<^verbatim>\<open>authGate\<close> stored.\<close>

definition tenantHotelID :: "lib \<Rightarrow> ctx \<Rightarrow> uuid" where
  "tenantHotelID L c =
     (case map_of (c_locals c) ''hotel_id'' of
        None \<Rightarrow> DemoHotelID
      | Some raw \<Rightarrow>
          if TrimSpace raw = [] then DemoHotelID
          else case lib_uuid L (TrimSpace raw) of None \<Rightarrow> DemoHotelID | Some u \<Rightarrow> u)"

definition branchID :: "lib \<Rightarrow> ctx \<Rightarrow> uuid option" where
  "branchID L c =
     (let h = TrimSpace (c_branch_header c);
          raw = (if h \<noteq> [] then h else
                   case map_of (c_locals c) ''branch_id'' of None \<Rightarrow> [] | Some v \<Rightarrow> TrimSpace v)
      in if raw = [] then None else lib_uuid L raw)"

definition userID :: "lib \<Rightarrow> string \<Rightarrow> ctx \<Rightarrow> uuid option" where
  "userID L secret c =
     (case jwtClaimsFromRequest L secret c of
        None \<Rightarrow> None
      | Some cl \<Rightarrow>
          (let raw = TrimSpace (as_string (map_of cl ''sub''))
           in if raw = [] then None else lib_uuid L raw))"

definition isPlatformAdmin :: "lib \<Rightarrow> string \<Rightarrow> ctx \<Rightarrow> bool" where
  "isPlatformAdmin L secret c =
     (case jwtClaimsFromRequest L secret c of
        None \<Rightarrow> False
      | Some cl \<Rightarrow> as_bool (map_of cl ''platform_admin'') \<or>
          (case raw_roles cl of None \<Rightarrow> False | Some rs \<Rightarrow>
             list_ex (\<lambda>r. as_string (Some r) = ''platform_admin'' \<or>
                          as_string (Some r) = ''super_admin'') rs))"

text \<open>\<^verbatim>\<open>actorUserID\<close> of \<^verbatim>\<open>reservation_handler.go\<close>, from the locals.\<close>

definition actorUserID :: "lib \<Rightarrow> ctx \<Rightarrow> uuid option" where
  "actorUserID L c =
     (case map_of (c_locals c) ''user_id'' of
        None \<Rightarrow> None
      | Some raw \<Rightarrow> if TrimSpace raw = [] then None else lib_uuid L (TrimSpace raw))"

definition set_local :: "string \<Rightarrow> string \<Rightarrow> ctx \<Rightarrow> ctx" where
  "set_local k v c = (if TrimSpace v = [] then c else c\<lparr>c_locals := (k, v) # c_locals c\<rparr>)"

text \<open>\<^verbatim>\<open>authGate\<close>: refuse, or go on with the claims stored in the locals.\<close>

definition authGate :: "lib \<Rightarrow> string \<Rightarrow> ctx \<Rightarrow> guard + ctx" where
  "authGate L secret c =
     (case jwtClaimsFromRequest L secret c of
        None \<Rightarrow> Inl (Refuse 401 ''authentication is required'')
      | Some cl \<Rightarrow> Inr
          (set_local ''branch_id'' (as_string (map_of cl ''branch_id''))
          (set_local ''hotel_id'' (as_string (map_of cl ''hotel_id''))
          (set_local ''user_id'' (as_string (map_of cl ''sub'')) c))))"

definition roleGate :: "lib \<Rightarrow> string \<Rightarrow> string list \<Rightarrow> ctx \<Rightarrow> guard + ctx" where
  "roleGate L secret allowed c =
     (case requireAnyRoleFromToken L secret c allowed of Pass \<Rightarrow> Inr c | g \<Rightarrow> Inl g)"

subsection \<open>Roles of the front desk (reservation\_handler.go)\<close>

definition frontDeskRoles :: "string list" where
  "frontDeskRoles = [''platform_admin'', ''super_admin'', ''admin'', ''hotel_admin'',
     ''property_manager'', ''receptionist'']"

definition frontDeskManagerRoles :: "string list" where
  "frontDeskManagerRoles = [''platform_admin'', ''super_admin'', ''admin'', ''hotel_admin'',
     ''property_manager'']"

subsection \<open>Facts\<close>

lemma map_of_set_local:
  "map_of (c_locals (set_local k v c)) k' =
     (if k = k' \<and> TrimSpace v \<noteq> [] then Some v else map_of (c_locals c) k')"
  by (simp add: set_local_def)

lemma jwtClaims_set_local [simp]:
  "jwtClaimsFromRequest L secret (set_local k v c) = jwtClaimsFromRequest L secret c"
  by (simp add: jwtClaimsFromRequest_def authTokenFromRequest_def set_local_def Let_def)

lemma requireAnyRole_mono:
  assumes "requireAnyRoleFromToken L secret c roles = Pass" "set roles \<subseteq> set roles'"
  shows "requireAnyRoleFromToken L secret c roles' = Pass"
  using assms by (auto simp: requireAnyRoleFromToken_def list_ex_iff split: option.splits if_splits)

lemma requireAnyRole_Pass_iff:
  "requireAnyRoleFromToken L secret c allowed = Pass \<longleftrightarrow>
     (\<exists>cl rs r. jwtClaimsFromRequest L secret c = Some cl \<and> raw_roles cl = Some rs \<and>
        r \<in> set rs \<and> as_string (Some r) \<in> set allowed)"
  by (auto simp: requireAnyRoleFromToken_def list_ex_iff split: option.split)

text \<open>C30: a request that \<open>authGate\<close> lets through carries a token the JWT library accepts under
  the server's secret, and from then on every handler works for the same tenant: the one
  \<open>tenantHotelID\<close> reads from the locals is the one \<open>hotelID\<close> reads from the token. A request
  refused by the gate is answered 401.\<close>

theorem authGate_one_tenant:
  assumes "c_locals c = []"
  shows "case authGate L secret c of
      Inl g \<Rightarrow> g = Refuse 401 ''authentication is required'' \<and> jwtClaimsFromRequest L secret c = None
    | Inr c' \<Rightarrow> (\<exists>cl. lib_jwt L secret (authTokenFromRequest c) = Some cl) \<and> secret \<noteq> [] \<and>
        tenantHotelID L c' = hotelID L secret c \<and> hotelID L secret c' = hotelID L secret c \<and>
        actorUserID L c' = userID L secret c"
proof (cases "jwtClaimsFromRequest L secret c")
  case None
  then show ?thesis by (simp add: authGate_def)
next
  case (Some cl)
  then have "lib_jwt L secret (authTokenFromRequest c) = Some cl" "secret \<noteq> []"
    by (auto simp: jwtClaimsFromRequest_def Let_def split: if_splits)
  with Some assms show ?thesis
    by (auto simp: authGate_def tenantHotelID_def hotelID_def actorUserID_def userID_def
        map_of_set_local Let_def)
qed

theorem authGate_one_tenant_witness:
  "let L = \<lparr>lib_jwt = \<lambda>s t. if t = ''tok'' then Some [(''hotel_id'', JStr '' 7 '')] else None,
            lib_uuid = \<lambda>s. if s = ''7'' then Some 7 else None\<rparr>;
       c = \<lparr>c_authorization = ''Bearer tok'', c_cookie = [], c_branch_header = [],
            c_path = ''/api/rooms'', c_locals = []\<rparr>
   in c_locals c = [] \<and> isl (authGate L ''k'' c) = False \<and> hotelID L ''k'' c = 7
      \<and> tenantHotelID L (projr (authGate L ''k'' c)) = 7"
proof -
  let ?L = "\<lparr>lib_jwt = \<lambda>s t. if t = ''tok'' then Some [(''hotel_id'', JStr '' 7 '')] else None,
            lib_uuid = \<lambda>s. if s = ''7'' then Some 7 else None\<rparr> :: lib"
  let ?c = "\<lparr>c_authorization = ''Bearer tok'', c_cookie = [], c_branch_header = [],
            c_path = ''/api/rooms'', c_locals = []\<rparr> :: ctx"
  have g: "isl (authGate ?L ''k'' ?c) = False" and h: "hotelID ?L ''k'' ?c = 7" by code_simp+
  show ?thesis
    using authGate_one_tenant [of ?c ?L "''k''"] g h
    by (cases "authGate ?L ''k'' ?c") (auto simp: Let_def)
qed

end
