(* ===== verification/Reservations.thy ===== *)
theory Reservations
  imports Settlement Auth
begin

text \<open>
  The reservation handlers of \<^verbatim>\<open>internal/handler/reservation_handler.go\<close>: list, calendar,
  quote, read, create, edit, cancel, check in, check out and move. A handler is a computation that
  answers with a \<open>response\<close>; a message built with \<^verbatim>\<open>fmt.Sprintf\<close> is represented by its format
  string, a dash in a message by a hyphen. The database handle is present (the code also
  tolerates a handler without one). A body that does not parse is \<open>None\<close>.
\<close>

record ReservationHandler =
  rh_lib :: lib
  rh_secret :: string
  rh_email :: bool
  rh_sms :: bool

text \<open>A handler behind a role check: the check answers by itself when it refuses.\<close>

definition guarded :: "guard \<Rightarrow> 'a response go \<Rightarrow> 'a response go" where
  "guarded g m = (case g of Pass \<Rightarrow> m | Refuse n msg \<Rightarrow> fail n msg)"

definition requireFrontDesk :: "ReservationHandler \<Rightarrow> ctx \<Rightarrow> guard" where
  "requireFrontDesk H c = requireAnyRoleFromToken (rh_lib H) (rh_secret H) c frontDeskRoles"

definition requireFrontDeskManager :: "ReservationHandler \<Rightarrow> ctx \<Rightarrow> guard" where
  "requireFrontDeskManager H c = requireAnyRoleFromToken (rh_lib H) (rh_secret H) c frontDeskManagerRoles"

definition inTx :: "(goerr + 'a) go \<Rightarrow> (goerr + 'a) go" where
  "inTx m = with_tx (\<lambda>e. e) (\<lambda>e. e) m"

text \<open>\<^verbatim>\<open>uuid.Parse(c.Params("id"))\<close>, the first step of the handlers of one reservation.\<close>

definition with_id :: "ReservationHandler \<Rightarrow> string \<Rightarrow> (uuid \<Rightarrow> 'a response go) \<Rightarrow> 'a response go" where
  "with_id H raw k = (case lib_uuid (rh_lib H) raw of None \<Rightarrow> fail 400 ''invalid id'' | Some i \<Rightarrow> k i)"

definition with_body :: "'b option \<Rightarrow> ('b \<Rightarrow> 'a response go) \<Rightarrow> 'a response go" where
  "with_body body k = (case body of None \<Rightarrow> fail 400 ''invalid request body'' | Some req \<Rightarrow> k req)"

definition with_stay :: "uuid \<Rightarrow> uuid \<Rightarrow> (stay_view \<Rightarrow> 'a response go) \<Rightarrow> 'a response go" where
  "with_stay h i k = do {
     r \<leftarrow> FindStayByID h i;
     case r of Inl _ \<Rightarrow> fail 404 ''reservation not found'' | Inr s \<Rightarrow> k s
   }"

definition hasCompletedPayment :: "uuid \<Rightarrow> uuid \<Rightarrow> (goerr + bool) go" where
  "hasCompletedPayment h stay = query (\<lambda>d. list_ex (\<lambda>p. py_hotel p = h \<and> py_stay p = Some stay \<and>
     py_status p = ''completed'') (payments d))"

text \<open>The departure task for housekeeping, raised unless one is open for the room.\<close>

definition sql_checkout_task :: "uuid \<Rightarrow> uuid \<Rightarrow> uuid \<Rightarrow> string \<Rightarrow> db \<Rightarrow> db" where
  "sql_checkout_task i h room note d =
     (if list_ex (\<lambda>t. hk_hotel t = h \<and> hk_room t = room \<and> hk_type t = ''checkout_clean'' \<and>
           (hk_status t = ''pending'' \<or> hk_status t = ''in_progress'')) (tasks d) then d
      else d\<lparr>tasks := tasks d @ [\<lparr>hk_id = i, hk_hotel = h, hk_room = room, hk_type = ''checkout_clean'',
        hk_priority = ''normal'', hk_status = ''pending'', hk_notes = note\<rparr>]\<rparr>)"

definition raise_checkout_task :: "uuid \<Rightarrow> uuid \<Rightarrow> string \<Rightarrow> (goerr + unit) go" where
  "raise_checkout_task h room note = do { i \<leftarrow> uuid_New; exec (sql_checkout_task i h room note) }"

text \<open>The tax rate, zero when it cannot be read.\<close>

definition gst_or_zero :: "uuid \<Rightarrow> rat go" where
  "gst_or_zero h = do { r \<leftarrow> HotelGSTRate h; State_Monad.return (case r of Inl _ \<Rightarrow> 0 | Inr t \<Rightarrow> t) }"

subsection \<open>Moving a stay\<close>

record moveRoomRequest =
  mr_room :: string
  mr_reason :: string

record moveRoomResult =
  mv_room :: uuid
  mv_number :: string
  mv_repriced :: bool
  mv_reason :: string
  mv_stay :: "stay_view option"

definition move_fields :: "bool \<Rightarrow> rat \<Rightarrow> Room \<Rightarrow> GuestStay \<Rightarrow> stay_field list" where
  "move_fields paid taxRate newRoom stay =
     F_room_id (rm_id newRoom) #
     (if paid then []
      else let quote = priceStay (rm_price newRoom) (gs_in stay) (gs_out stay) taxRate (gs_discount stay)
        in [F_total_amount (q_base quote), F_tax_amount (q_tax quote)])"

definition move_tx :: "uuid \<Rightarrow> uuid \<Rightarrow> stay_field list \<Rightarrow> bool \<Rightarrow> uuid \<Rightarrow> uuid \<Rightarrow> string \<Rightarrow> (goerr + unit) go" where
  "move_tx h i flds inHouse newRoom oldRoom guest = do {
     ru \<leftarrow> UpdateStay h i flds;
     case ru of
       Inl e \<Rightarrow> State_Monad.return (Inl e)
     | Inr _ \<Rightarrow>
         if \<not> inHouse then State_Monad.return (Inr ())
         else do {
           rr \<leftarrow> UpdateRoomStatus h newRoom RoomStatusOccupied;
           case rr of
             Inl e \<Rightarrow> State_Monad.return (Inl e)
           | Inr _ \<Rightarrow> do {
               rt \<leftarrow> raise_checkout_task h oldRoom (''Room move - '' @ guest);
               case rt of
                 Inl e \<Rightarrow> State_Monad.return (Inl e)
               | Inr _ \<Rightarrow> UpdateRoomStatus h oldRoom RoomStatusCleaning
             }
         }
   }"

definition move_error :: "goerr \<Rightarrow> 'a response go" where
  "move_error e =
     (if e = ExclusionViolation then fail 409 ''room %s was taken for those dates while the move was being made''
      else if e = ErrNotFound then fail 404 ''reservation not found''
      else fail 500 ''room move failed'')"

definition MoveRoom :: "ReservationHandler \<Rightarrow> ctx \<Rightarrow> string \<Rightarrow> moveRoomRequest option \<Rightarrow> moveRoomResult response go" where
  "MoveRoom H c idp body = guarded (requireFrontDesk H c) (with_id H idp (\<lambda>i. with_body body (\<lambda>req.
     case lib_uuid (rh_lib H) (TrimSpace (mr_room req)) of
       None \<Rightarrow> fail 400 ''room_id is required''
     | Some newRoomID \<Rightarrow>
         let h = tenantHotelID (rh_lib H) c in
         with_stay h i (\<lambda>sv. let stay = fst sv in
           if gs_status stay = ReservationCancelled then fail 409 ''cannot move a cancelled reservation''
           else if gs_actual_out stay \<noteq> None then fail 409 ''the stay has already ended''
           else if gs_room stay = newRoomID then fail 400 ''the reservation is already in that room''
           else do {
             rr \<leftarrow> FindRoomByID h newRoomID;
             case rr of
               Inl _ \<Rightarrow> fail 404 ''room not found''
             | Inr newRoom \<Rightarrow>
                 if \<not> Sellable (rm_status newRoom) then fail 409 ''room %s is %s and cannot take a guest''
                 else if 0 < rm_capacity newRoom \<and> rm_capacity newRoom < gs_adults stay + gs_children stay
                 then fail 400 ''room %s sleeps %d; this booking is for %d guests''
                 else do {
                   rf \<leftarrow> RoomIsFree h newRoomID (gs_in stay) (gs_out stay) i;
                   case rf of
                     Inl _ \<Rightarrow> fail 500 ''failed to check room availability''
                   | Inr free \<Rightarrow>
                       if \<not> free then fail 409 ''room %s is not free for %s to %s''
                       else do {
                         rp \<leftarrow> hasCompletedPayment h i;
                         case rp of
                           Inl _ \<Rightarrow> fail 500 ''failed to verify reservation settlement''
                         | Inr paid \<Rightarrow> do {
                             taxRate \<leftarrow> (if paid then State_Monad.return 0 else gst_or_zero h);
                             rt \<leftarrow> inTx (move_tx h i (move_fields paid taxRate newRoom stay)
                                   (gs_actual_in stay \<noteq> None) newRoomID (gs_room stay) (gs_name stay));
                             case rt of
                               Inl e \<Rightarrow> move_error e
                             | Inr _ \<Rightarrow> do {
                                 moved \<leftarrow> FindStayByID h i;
                                 State_Monad.return (OK \<lparr>mv_room = newRoomID, mv_number = rm_number newRoom,
                                   mv_repriced = \<not> paid, mv_reason = TrimSpace (mr_reason req),
                                   mv_stay = (case moved of Inl _ \<Rightarrow> None | Inr s \<Rightarrow> Some s)\<rparr>)
                               }
                           }
                       }
                 }
           }))))"

subsection \<open>Reading\<close>

definition deriveReservationStatus :: "time \<Rightarrow> GuestStay \<Rightarrow> string" where
  "deriveReservationStatus now s =
     (if gs_status s \<in> {ReservationCancelled, ReservationNoShow, ReservationCheckedOut, ReservationInHouse}
      then status_string (gs_status s)
      else if gs_actual_out s \<noteq> None then status_string ReservationCheckedOut
      else if gs_actual_in s \<noteq> None then status_string ReservationInHouse
      else if gs_in s \<le> now then ''pending_checkin''
      else ''upcoming'')"

record listQuery =
  lq_status :: string
  lq_search :: string
  lq_from :: string
  lq_to :: string
  lq_include_cancelled :: string

record reservationRow =
  rr_stay :: GuestStay
  rr_number :: string
  rr_type :: string
  rr_payable :: rat
  rr_nights :: int
  rr_status :: string

definition list_keeps :: "listQuery \<Rightarrow> time \<Rightarrow> GuestStay \<Rightarrow> bool" where
  "list_keeps q now s \<longleftrightarrow>
     \<not> (gs_status s = ReservationCancelled \<and> \<not> EqualFold (lq_include_cancelled q) ''true'' \<and>
        \<not> EqualFold (lq_status q) ''cancelled'') \<and>
     \<not> (lq_status q \<noteq> [] \<and> \<not> EqualFold (deriveReservationStatus now s) (lq_status q)) \<and>
     \<not> (lq_search q \<noteq> [] \<and> \<not> Contains (ToLower (gs_name s)) (ToLower (lq_search q)) \<and>
        \<not> Contains (ToLower (derefStr (gs_email s))) (ToLower (lq_search q))) \<and>
     \<not> (lq_from q \<noteq> [] \<and> (case parse_date (lq_from q) of None \<Rightarrow> False | Some fd \<Rightarrow> gs_in s < fd)) \<and>
     \<not> (lq_to q \<noteq> [] \<and> (case parse_date (lq_to q) of None \<Rightarrow> False | Some td \<Rightarrow> td < gs_in s))"

definition list_row :: "time \<Rightarrow> stay_view \<Rightarrow> reservationRow" where
  "list_row now sv = \<lparr>rr_stay = fst sv,
     rr_number = (case snd sv of None \<Rightarrow> [] | Some r \<Rightarrow> rs_number r),
     rr_type = (case snd sv of None \<Rightarrow> [] | Some r \<Rightarrow> rs_type r),
     rr_payable = Payable (fst sv), rr_nights = CalendarNights (gs_in (fst sv)) (gs_out (fst sv)),
     rr_status = deriveReservationStatus now (fst sv)\<rparr>"

definition List_reservations :: "ReservationHandler \<Rightarrow> ctx \<Rightarrow> listQuery \<Rightarrow> reservationRow list response go" where
  "List_reservations H c q = guarded (requireFrontDesk H c) (do {
     r \<leftarrow> ListStays (tenantHotelID (rh_lib H) c) [];
     now \<leftarrow> time_Now;
     case r of
       Inl _ \<Rightarrow> fail 500 ''failed to list reservations''
     | Inr svs \<Rightarrow> State_Monad.return (OK (map (list_row now) (filter (\<lambda>sv. list_keeps q now (fst sv)) svs)))
   })"

definition Get :: "ReservationHandler \<Rightarrow> ctx \<Rightarrow> string \<Rightarrow> stay_view response go" where
  "Get H c idp = guarded (requireFrontDesk H c) (with_id H idp (\<lambda>i.
     with_stay (tenantHotelID (rh_lib H) c) i (\<lambda>sv. State_Monad.return (OK sv))))"

definition Quote :: "ReservationHandler \<Rightarrow> ctx \<Rightarrow> createReservationRequest option \<Rightarrow> stayQuote response go" where
  "Quote H c body = guarded (requireFrontDesk H c) (with_body body (\<lambda>req.
     case resolveStayDates req of
       Inl e \<Rightarrow> fail 400 e
     | Inr (checkIn, checkOut) \<Rightarrow>
         (case lib_uuid (rh_lib H) (r_room_id req) of
            None \<Rightarrow> fail 400 ''invalid room_id''
          | Some roomID \<Rightarrow>
              let h = tenantHotelID (rh_lib H) c in
              do {
                rr \<leftarrow> FindRoomByID h roomID;
                case rr of
                  Inl _ \<Rightarrow> fail 404 ''room not found''
                | Inr room \<Rightarrow> do {
                    taxRate \<leftarrow> gst_or_zero h;
                    State_Monad.return (OK (priceStay (rm_price room) checkIn checkOut taxRate 0))
                  }
              })))"

text \<open>The calendar of a month: per day the stays that start, that end and that are in house,
  compared as date strings.\<close>

record dayInfo =
  di_date :: string
  di_ins :: int
  di_outs :: int
  di_occupied :: int

definition day_info :: "GuestStay list \<Rightarrow> time \<Rightarrow> dayInfo" where
  "day_info xs t =
     (let ds = format_date t;
          sd = (\<lambda>s. format_date (gs_in s)); ed = (\<lambda>s. format_date (gs_out s)) in
      \<lparr>di_date = ds,
       di_ins = int (length (filter (\<lambda>s. sd s = ds) xs)),
       di_outs = int (length (filter (\<lambda>s. ed s = ds) xs)),
       di_occupied = int (length (filter (\<lambda>s. sd s \<le> ds \<and> ds < ed s) xs))\<rparr>)"

definition month_days :: "int \<Rightarrow> nat \<Rightarrow> time list" where
  "month_days y m =
     (let first = days_of_civil y m 1; n = month_lengths y ! (m - 1)
      in map (\<lambda>k. (first + int k) * day_secs) [0..<nat n])"

definition Calendar :: "ReservationHandler \<Rightarrow> ctx \<Rightarrow> string \<Rightarrow> dayInfo list response go" where
  "Calendar H c month0 = guarded (requireFrontDesk H c) (do {
     now \<leftarrow> time_Now;
     let month = (if month0 = [] then take 7 (format_date now) else month0);
     case parse_month month of
       None \<Rightarrow> fail 400 ''invalid month (use YYYY-MM)''
     | Some (y, m) \<Rightarrow> do {
         r \<leftarrow> ListStays (tenantHotelID (rh_lib H) c) [];
         case r of
           Inl _ \<Rightarrow> fail 500 ''failed to load''
         | Inr svs \<Rightarrow> State_Monad.return (OK (map (day_info (map fst svs)) (month_days y m)))
       }
   })"

subsection \<open>Notifications\<close>

definition hotelDisplayName :: "uuid \<Rightarrow> string go" where
  "hotelDisplayName h = do {
     r \<leftarrow> HotelName h;
     State_Monad.return (case r of Inl _ \<Rightarrow> ''our hotel''
       | Inr name \<Rightarrow> if TrimSpace name \<noteq> [] then name else ''our hotel'')
   }"

definition submit_if :: "bool \<Rightarrow> string \<Rightarrow> string option \<Rightarrow> unit go" where
  "submit_if enabled name address =
     (case address of None \<Rightarrow> State_Monad.return ()
      | Some a \<Rightarrow> if enabled then SubmitOrRun name a else State_Monad.return ())"

definition notifyStay :: "ReservationHandler \<Rightarrow> uuid \<Rightarrow> GuestStay \<Rightarrow> string \<Rightarrow> unit go" where
  "notifyStay H h stay kind = do {
     _ \<leftarrow> hotelDisplayName h;
     _ \<leftarrow> submit_if (rh_email H) (''email.'' @ kind) (gs_email stay);
     submit_if (rh_sms H) (''sms.'' @ kind) (gs_phone stay)
   }"

definition notifyBookingConfirmed :: "ReservationHandler \<Rightarrow> uuid \<Rightarrow> GuestStay \<Rightarrow> unit go" where
  "notifyBookingConfirmed H h stay = notifyStay H h stay ''booking_confirmation''"

definition notifyCheckedIn :: "ReservationHandler \<Rightarrow> uuid \<Rightarrow> GuestStay \<Rightarrow> unit go" where
  "notifyCheckedIn H h stay = notifyStay H h stay ''checkin_welcome''"

subsection \<open>Creating\<close>

definition newConfirmationNo :: "time \<Rightarrow> string go" where
  "newConfirmationNo checkIn = do {
     s \<leftarrow> uuid_New_String;
     State_Monad.return (''RES-'' @ format_compact checkIn @ ''-'' @ ToUpper (take 6 s))
   }"

record createReservationResponse =
  cr_stay :: GuestStay
  cr_room :: RoomSummary
  cr_quote :: stayQuote
  cr_settlement :: "settlementResult option"
  cr_promo :: "promoResult option"

definition no_promo :: promoResult where
  "no_promo = \<lparr>o_id = uuid_Nil, o_valid = False, o_code = [], o_name = [], o_discount = 0, o_message = []\<rparr>"

definition new_stay :: "createReservationRequest \<Rightarrow> uuid \<Rightarrow> uuid \<Rightarrow> time \<Rightarrow> time \<Rightarrow> stayQuote \<Rightarrow> string \<Rightarrow> GuestStay" where
  "new_stay req i room checkIn checkOut quote conf =
     \<lparr>gs_id = i, gs_hotel = uuid_Nil, gs_guest = None, gs_room = room, gs_name = r_guest_name req,
      gs_email = strPtr (r_guest_email req), gs_phone = strPtr (r_guest_phone req),
      gs_in = checkIn, gs_out = checkOut, gs_actual_in = None, gs_actual_out = None,
      gs_total = Some (q_base quote), gs_notes = strPtr (r_notes req),
      gs_source = Some (if TrimSpace (r_source req) = [] then ''Direct'' else TrimSpace (r_source req)),
      gs_status = ReservationConfirmed, gs_conf = Some conf, gs_cancelled_at = None,
      gs_cancel_reason = None, gs_cancel_fee = 0, gs_cancelled_by = None,
      gs_adults = (if r_adults req \<le> 0 then 1 else r_adults req), gs_children = r_children req,
      gs_approach = (if TrimSpace (r_approach req) = [] then ''manual'' else TrimSpace (r_approach req)),
      gs_discount = q_discount quote, gs_tax = q_tax quote, gs_promo = strPtr (TrimSpace (r_promo req))\<rparr>"

text \<open>The transaction of \<open>Create\<close>: the guest with the identity document, the stay, the promo code
  and the settlement.\<close>

definition create_tx ::
    "uuid \<Rightarrow> createReservationRequest \<Rightarrow> GuestStay \<Rightarrow> promoResult \<Rightarrow> stayQuote
     \<Rightarrow> (goerr + GuestStay \<times> settlementResult) go" where
  "create_tx h req stay promo quote = do {
     rg \<leftarrow> EnsureGuest h (r_guest_name req) (r_guest_email req) (r_guest_phone req);
     case rg of
       Inl e \<Rightarrow> State_Monad.return (Inl e)
     | Inr guestID \<Rightarrow> do {
         ri \<leftarrow> (if guestID \<noteq> uuid_Nil \<and> (r_id_type req \<noteq> [] \<or> r_id_number req \<noteq> [])
               then SetGuestIdentity h guestID (r_id_type req) (r_id_number req)
               else State_Monad.return (Inr ()));
         case ri of
           Inl e \<Rightarrow> State_Monad.return (Inl e)
         | Inr _ \<Rightarrow> do {
             rc \<leftarrow> CreateStay h (Some ReservationConfirmed) stay;
             case rc of
               Inl e \<Rightarrow> State_Monad.return (Inl e)
             | Inr created \<Rightarrow> do {
                 rp \<leftarrow> (if o_id promo \<noteq> uuid_Nil then redeemPromo h (o_id promo)
                       else State_Monad.return (Inr ()));
                 case rp of
                   Inl e \<Rightarrow> State_Monad.return (Inl e)
                 | Inr _ \<Rightarrow>
                     (case r_payment req of
                        None \<Rightarrow> State_Monad.return (Inr (created, no_settlement))
                      | Some pay \<Rightarrow> do {
                          rs \<leftarrow> settleReservation h created pay quote;
                          State_Monad.return (case rs of Inl e \<Rightarrow> Inl e | Inr s \<Rightarrow> Inr (created, s))
                        })
               }
           }
       }
   }"

definition create_error :: "goerr \<Rightarrow> 'a response go" where
  "create_error e =
     (if e = ErrPromoNotApplicable then fail 409 ''promo code was just fully redeemed''
      else if e = ExclusionViolation then fail 409 ''room %s was just booked for those dates''
      else fail 500 ''failed to create: %v'')"

text \<open>The part of \<open>Create\<close> after the price is known.\<close>

definition create_write ::
    "ReservationHandler \<Rightarrow> uuid \<Rightarrow> createReservationRequest \<Rightarrow> Room \<Rightarrow> time \<Rightarrow> time \<Rightarrow> promoResult \<Rightarrow> rat
     \<Rightarrow> createReservationResponse response go" where
  "create_write H h req room checkIn checkOut promo taxRate =
     (let quote = priceStay (rm_price room) checkIn checkOut taxRate (o_discount promo) in
      case (case r_payment req of None \<Rightarrow> None | Some pay \<Rightarrow> validate pay (q_payable quote)) of
        Some e \<Rightarrow> fail 400 e
      | None \<Rightarrow> do {
          conf \<leftarrow> newConfirmationNo checkIn;
          i \<leftarrow> uuid_New;
          r \<leftarrow> inTx (create_tx h req (new_stay req i (rm_id room) checkIn checkOut quote conf) promo quote);
          case r of
            Inl e \<Rightarrow> create_error e
          | Inr (created, settlement) \<Rightarrow> do {
              _ \<leftarrow> notifyBookingConfirmed H h created;
              State_Monad.return (Created \<lparr>cr_stay = created,
                cr_room = \<lparr>rs_number = rm_number room, rs_type = rm_type room\<rparr>, cr_quote = quote,
                cr_settlement = (if r_payment req = None then None else Some settlement),
                cr_promo = (if o_valid promo then Some promo else None)\<rparr>)
            }
        })"

definition Create :: "ReservationHandler \<Rightarrow> ctx \<Rightarrow> createReservationRequest option \<Rightarrow> createReservationResponse response go" where
  "Create H c body = guarded (requireFrontDesk H c) (with_body body (\<lambda>req.
     if r_guest_name req = [] then fail 400 ''guest_name is required''
     else if TrimSpace (r_guest_phone req) = [] \<and> TrimSpace (r_guest_email req) = []
     then fail 400 ''guest_phone or guest_email is required''
     else case resolveStayDates req of
       Inl e \<Rightarrow> fail 400 e
     | Inr (checkIn, checkOut) \<Rightarrow>
         (case (if r_room_id req = [] then Some uuid_Nil else lib_uuid (rh_lib H) (r_room_id req)) of
            None \<Rightarrow> fail 400 ''invalid room_id''
          | Some roomID \<Rightarrow>
              if roomID = uuid_Nil then fail 400 ''room_id is required''
              else let h = tenantHotelID (rh_lib H) c in do {
                rr \<leftarrow> FindRoomByID h roomID;
                case rr of
                  Inl _ \<Rightarrow> fail 400 ''room not found''
                | Inr room \<Rightarrow>
                    let adults = (if r_adults req \<le> 0 then 1 else r_adults req) in
                    if 0 < rm_capacity room \<and> rm_capacity room < adults + r_children req
                    then fail 400 ''room %s sleeps %d; %d guests requested''
                    else do {
                      rf \<leftarrow> RoomIsFree h roomID checkIn checkOut uuid_Nil;
                      case rf of
                        Inl _ \<Rightarrow> fail 500 ''failed to check room availability''
                      | Inr free \<Rightarrow>
                          if \<not> free then fail 409 ''room %s is already booked between %s and %s''
                          else do {
                            taxRate \<leftarrow> gst_or_zero h;
                            if TrimSpace (r_promo req) = []
                            then create_write H h req room checkIn checkOut no_promo taxRate
                            else do {
                              rp \<leftarrow> resolvePromo h (r_promo req)
                                    (q_base (priceStay (rm_price room) checkIn checkOut taxRate 0))
                                    (CalendarNights checkIn checkOut);
                              case rp of
                                Inl _ \<Rightarrow> fail 500 ''failed to validate promo code''
                              | Inr promo \<Rightarrow>
                                  if \<not> o_valid promo then fail 400 (o_message promo)
                                  else create_write H h req room checkIn checkOut promo taxRate
                            }
                          }
                    }
              })))"

subsection \<open>Editing\<close>

text \<open>The dates an edit leads to, or why it is refused.\<close>

definition update_dates :: "createReservationRequest \<Rightarrow> GuestStay \<Rightarrow> string + time \<times> time" where
  "update_dates req cur =
     (case (if r_check_in req = [] then Some (gs_in cur) else parse_date (r_check_in req)) of
        None \<Rightarrow> Inl ''invalid check_in_date (use YYYY-MM-DD)''
      | Some ci \<Rightarrow>
          (case (if r_check_out req = [] then Some (gs_out cur) else parse_date (r_check_out req)) of
             None \<Rightarrow> Inl ''invalid check_out_date (use YYYY-MM-DD)''
           | Some co \<Rightarrow> if \<not> ci < co then Inl ''check_out must be after check_in'' else Inr (ci, co)))"

definition update_fields :: "createReservationRequest \<Rightarrow> stay_field list" where
  "update_fields req =
     (if r_guest_name req \<noteq> [] then [F_guest_name (r_guest_name req)] else []) @
     (if r_guest_email req \<noteq> [] then [F_guest_email (r_guest_email req)] else []) @
     (if r_guest_phone req \<noteq> [] then [F_guest_phone (r_guest_phone req)] else []) @
     (case (if r_check_in req = [] then None else parse_date (r_check_in req)) of
        None \<Rightarrow> [] | Some t \<Rightarrow> [F_check_in_date t]) @
     (case (if r_check_out req = [] then None else parse_date (r_check_out req)) of
        None \<Rightarrow> [] | Some t \<Rightarrow> [F_check_out_date t]) @
     (if r_notes req \<noteq> [] then [F_notes (r_notes req)] else []) @
     (if r_source req \<noteq> [] then [F_source (r_source req)] else [])"

definition update_write :: "uuid \<Rightarrow> uuid \<Rightarrow> stay_field list \<Rightarrow> stay_view option response go" where
  "update_write h i flds =
     (if flds = [] then fail 400 ''no fields to update''
      else do {
        r \<leftarrow> UpdateStay h i flds;
        case r of
          Inl e \<Rightarrow> if e = ErrNotFound then fail 404 ''reservation not found'' else fail 500 ''update failed''
        | Inr _ \<Rightarrow> do {
            s \<leftarrow> FindStayByID h i;
            State_Monad.return (OK (case s of Inl _ \<Rightarrow> None | Inr sv \<Rightarrow> Some sv))
          }
      })"

definition reprice_fields :: "uuid \<Rightarrow> GuestStay \<Rightarrow> time \<Rightarrow> time \<Rightarrow> stay_field list go" where
  "reprice_fields h cur ci co = do {
     rr \<leftarrow> FindRoomByID h (gs_room cur);
     case rr of
       Inl _ \<Rightarrow> State_Monad.return []
     | Inr room \<Rightarrow> do {
         taxRate \<leftarrow> gst_or_zero h;
         let quote = priceStay (rm_price room) ci co taxRate (gs_discount cur);
         State_Monad.return [F_total_amount (q_base quote), F_discount_amount (q_discount quote),
           F_tax_amount (q_tax quote)]
       }
   }"

definition Update :: "ReservationHandler \<Rightarrow> ctx \<Rightarrow> string \<Rightarrow> createReservationRequest option \<Rightarrow> stay_view option response go" where
  "Update H c idp body = guarded (requireFrontDesk H c) (with_id H idp (\<lambda>i. with_body body (\<lambda>req.
     let h = tenantHotelID (rh_lib H) c in
     with_stay h i (\<lambda>sv. let cur = fst sv in
       if gs_status cur = ReservationCancelled then fail 409 ''cannot edit a cancelled reservation''
       else if r_check_in req = [] \<and> r_check_out req = [] then update_write h i (update_fields req)
       else do {
         rp \<leftarrow> hasCompletedPayment h i;
         case rp of
           Inl _ \<Rightarrow> fail 500 ''failed to verify reservation settlement''
         | Inr paid \<Rightarrow>
             if paid then fail 409 ''cannot change stay dates after payment; issue an adjustment instead''
             else case update_dates req cur of
               Inl e \<Rightarrow> fail 400 e
             | Inr (ci, co) \<Rightarrow> do {
                 rf \<leftarrow> RoomIsFree h (gs_room cur) ci co i;
                 case rf of
                   Inl _ \<Rightarrow> fail 500 ''failed to check room availability''
                 | Inr free \<Rightarrow>
                     if \<not> free then fail 409 ''the room is already booked between %s and %s''
                     else do {
                       price \<leftarrow> reprice_fields h cur ci co;
                       update_write h i (price @ update_fields req)
                     }
               }
       }))))"

subsection \<open>Cancelling, arrival and departure\<close>

record cancelReservationRequest =
  cq_reason :: string
  cq_fee :: rat

text \<open>\<open>Cancel\<close>: a body that does not parse leaves the request zero.\<close>

definition Cancel :: "ReservationHandler \<Rightarrow> ctx \<Rightarrow> string \<Rightarrow> cancelReservationRequest option \<Rightarrow> rat response go" where
  "Cancel H c idp body = guarded (requireFrontDeskManager H c) (with_id H idp (\<lambda>i.
     let h = tenantHotelID (rh_lib H) c in
     with_stay h i (\<lambda>sv. let stay = fst sv in
       if gs_actual_in stay \<noteq> None then fail 400 ''cannot cancel checked-in reservation''
       else if gs_status stay = ReservationCancelled then fail 409 ''reservation is already cancelled''
       else do {
         rp \<leftarrow> hasCompletedPayment h i;
         case rp of
           Inl _ \<Rightarrow> fail 500 ''failed to verify reservation settlement''
         | Inr paid \<Rightarrow>
             if paid then fail 409 ''cannot cancel a paid reservation; issue a refund or credit note first''
             else
               let req = (case body of None \<Rightarrow> \<lparr>cq_reason = [], cq_fee = 0\<rparr> | Some q \<Rightarrow> q) in do {
                 rc \<leftarrow> SoftCancelStay h i (TrimSpace (cq_reason req)) (cq_fee req) (actorUserID (rh_lib H) c);
                 case rc of
                   Inl e \<Rightarrow> if e = ErrNotFound then fail 404 ''reservation not found'' else fail 500 ''cancel failed''
                 | Inr _ \<Rightarrow> do {
                     ra \<leftarrow> RoomHasActiveStay h (gs_room stay);
                     _ \<leftarrow> (case ra of
                            Inl _ \<Rightarrow> State_Monad.return (Inr ())
                          | Inr active \<Rightarrow>
                              if active then State_Monad.return (Inr ())
                              else UpdateRoomStatus h (gs_room stay) RoomStatusAvailable);
                     State_Monad.return (OK (cq_fee req))
                   }
               }
       })))"

definition checkin_tx :: "uuid \<Rightarrow> uuid \<Rightarrow> GuestStay \<Rightarrow> time \<Rightarrow> (goerr + unit) go" where
  "checkin_tx h i existing now = do {
     ru \<leftarrow> UpdateStay h i [F_actual_check_in now, F_status ReservationInHouse];
     case ru of
       Inl e \<Rightarrow> State_Monad.return (Inl e)
     | Inr _ \<Rightarrow> do {
         rr \<leftarrow> UpdateRoomStatus h (gs_room existing) RoomStatusOccupied;
         case rr of
           Inl e \<Rightarrow> State_Monad.return (Inl e)
         | Inr _ \<Rightarrow> do {
             rg \<leftarrow> EnsureGuest h (gs_name existing) (derefStr (gs_email existing)) (derefStr (gs_phone existing));
             case rg of
               Inl e \<Rightarrow> State_Monad.return (Inl e)
             | Inr gid \<Rightarrow>
                 if gid = uuid_Nil then State_Monad.return (Inr ())
                 else do {
                   rf \<leftarrow> EnsureFolioForBooking h i gid ''INR'';
                   State_Monad.return (case rf of Inl e \<Rightarrow> Inl e | Inr _ \<Rightarrow> Inr ())
                 }
           }
       }
   }"

definition CheckIn :: "ReservationHandler \<Rightarrow> ctx \<Rightarrow> string \<Rightarrow> string response go" where
  "CheckIn H c idp = guarded (requireFrontDesk H c) (with_id H idp (\<lambda>i.
     let h = tenantHotelID (rh_lib H) c in
     with_stay h i (\<lambda>sv. let existing = fst sv in
       if gs_status existing = ReservationCancelled then fail 409 ''cannot check in a cancelled reservation''
       else if gs_actual_in existing \<noteq> None then fail 409 ''reservation is already checked in''
       else do {
         now \<leftarrow> time_Now;
         rt \<leftarrow> inTx (checkin_tx h i existing now);
         case rt of
           Inl e \<Rightarrow> if e = ErrNotFound then fail 404 ''reservation not found'' else fail 500 ''check-in failed''
         | Inr _ \<Rightarrow> do {
             s \<leftarrow> FindStayByID h i;
             _ \<leftarrow> (case s of Inl _ \<Rightarrow> State_Monad.return () | Inr sv \<Rightarrow> notifyCheckedIn H h (fst sv));
             State_Monad.return (OK ''checked_in'')
           }
       })))"

definition sql_close_folio :: "uuid \<Rightarrow> uuid \<Rightarrow> db \<Rightarrow> db" where
  "sql_close_folio h folio d = d\<lparr>folios := upd_where
     (\<lambda>f. fo_id f = folio \<and> fo_hotel f = h \<and> fo_status f = ''open'') (\<lambda>f. f\<lparr>fo_status := ''closed''\<rparr>) (folios d)\<rparr>"

definition checkout_tx :: "uuid \<Rightarrow> uuid \<Rightarrow> GuestStay \<Rightarrow> uuid \<Rightarrow> time \<Rightarrow> (goerr + unit) go" where
  "checkout_tx h i existing folio now = do {
     ru \<leftarrow> UpdateStay h i [F_actual_check_out now, F_status ReservationCheckedOut];
     case ru of
       Inl e \<Rightarrow> State_Monad.return (Inl e)
     | Inr _ \<Rightarrow> do {
         rr \<leftarrow> UpdateRoomStatus h (gs_room existing) RoomStatusCleaning;
         case rr of
           Inl e \<Rightarrow> State_Monad.return (Inl e)
         | Inr _ \<Rightarrow> do {
             rf \<leftarrow> (if folio \<noteq> uuid_Nil then exec (sql_close_folio h folio) else State_Monad.return (Inr ()));
             case rf of
               Inl e \<Rightarrow> State_Monad.return (Inl e)
             | Inr _ \<Rightarrow> raise_checkout_task h (gs_room existing) (''Departure - '' @ gs_name existing)
           }
       }
   }"

definition CheckOut :: "ReservationHandler \<Rightarrow> ctx \<Rightarrow> string \<Rightarrow> string \<Rightarrow> string response go" where
  "CheckOut H c idp allow_outstanding = guarded (requireFrontDesk H c) (with_id H idp (\<lambda>i.
     let h = tenantHotelID (rh_lib H) c in
     with_stay h i (\<lambda>sv. let existing = fst sv in
       if gs_actual_in existing = None then fail 409 ''reservation has not been checked in''
       else if gs_actual_out existing \<noteq> None then fail 409 ''reservation is already checked out''
       else do {
         ro \<leftarrow> folioOutstanding h i;
         case ro of
           Inl _ \<Rightarrow> fail 500 ''failed to read folio balance''
         | Inr (outstanding, folio) \<Rightarrow>
             if 0 < outstanding \<and> \<not> EqualFold allow_outstanding ''true''
             then fail 409 ''folio has an outstanding balance of %.2f - settle it, or pass allow_outstanding=true to bill it later''
             else do {
               now \<leftarrow> time_Now;
               rt \<leftarrow> inTx (checkout_tx h i existing folio now);
               case rt of
                 Inl e \<Rightarrow> if e = ErrNotFound then fail 404 ''reservation not found'' else fail 500 ''check-out failed''
               | Inr _ \<Rightarrow> do {
                   s \<leftarrow> FindStayByID h i;
                   _ \<leftarrow> (case s of
                          Inl _ \<Rightarrow> State_Monad.return ()
                        | Inr sv \<Rightarrow> do {
                            _ \<leftarrow> hotelDisplayName h;
                            _ \<leftarrow> submit_if True ''email.invoice'' (gs_email (fst sv));
                            submit_if True ''sms.checkout_thanks'' (gs_phone (fst sv))
                          });
                   State_Monad.return (OK ''checked_out'')
                 }
             }
       })))"

subsection \<open>What the handlers keep\<close>

lemma keeps_guarded [keeps_intros]: "(g = Pass \<Longrightarrow> keeps J m) \<Longrightarrow> keeps J (guarded g m)"
  by (auto simp: guarded_def keeps_fail split: guard.split)

lemma keeps_with_id [keeps_intros]: "(\<And>i. keeps J (k i)) \<Longrightarrow> keeps J (with_id H raw k)"
  unfolding with_id_def by (intro keeps_intros)

lemma keeps_with_body [keeps_intros]: "(\<And>r. keeps J (k r)) \<Longrightarrow> keeps J (with_body body k)"
  unfolding with_body_def by (intro keeps_intros)

lemma keeps_inTx [keeps_intros]: "keeps_ok J m \<Longrightarrow> keeps J (inTx m)"
  unfolding inTx_def by (rule keeps_with_tx)

text \<open>The reads of the handlers, and their notifications, change nothing.\<close>

lemma keeps_reads [keeps_intros]:
  "keeps J (FindStayByID h i)" "keeps J (FindRoomByID h i)" "keeps J (RoomIsFree h room ci co x)"
  "keeps J (RoomHasActiveStay h room)" "keeps J (hasCompletedPayment h i)" "keeps J (HotelGSTRate h)"
  "keeps J (HotelName h)" "keeps J (ListStays h fs)"
  unfolding FindStayByID_def FindRoomByID_def RoomIsFree_def RoomHasActiveStay_def hasCompletedPayment_def
    HotelGSTRate_def HotelName_def ListStays_def by (intro keeps_intros)+

lemma keeps_gst_or_zero [keeps_intros]: "keeps J (gst_or_zero h)"
  unfolding gst_or_zero_def by (intro keeps_intros)

lemma keeps_folioOutstanding [keeps_intros]: "keeps J (folioOutstanding h i)"
  unfolding folioOutstanding_def by (intro keeps_intros)

lemma keeps_resolvePromo [keeps_intros]: "keeps J (resolvePromo h code base n)"
  unfolding resolvePromo_def by (intro keeps_intros)

lemma keeps_submit_if [keeps_intros]: "keeps J (submit_if b name a)"
  unfolding submit_if_def by (intro keeps_intros)

lemma keeps_hotelDisplayName [keeps_intros]: "keeps J (hotelDisplayName h)"
  unfolding hotelDisplayName_def by (intro keeps_intros)

lemma keeps_notifyStay [keeps_intros]: "keeps J (notifyStay H h s kind)"
  unfolding notifyStay_def by (intro keeps_intros)

lemma keeps_newConfirmationNo [keeps_intros]: "keeps J (newConfirmationNo t)"
  unfolding newConfirmationNo_def by (intro keeps_intros)

lemma keeps_with_stay [keeps_intros]: "(\<And>s. keeps J (k s)) \<Longrightarrow> keeps J (with_stay h i k)"
  unfolding with_stay_def by (intro keeps_intros)

lemma keeps_errors [keeps_intros]: "keeps J (create_error e)" "keeps J (move_error e)"
  unfolding create_error_def move_error_def by (intro keeps_intros)+

lemma keeps_reprice_fields [keeps_intros]: "keeps J (reprice_fields h cur ci co)"
  unfolding reprice_fields_def by (intro keeps_intros)

text \<open>The writes the front desk of tenant \<open>h\<close> makes, as an interface: an invariant that every one of
  them keeps is kept by every handler that edits a reservation, whatever it is sent and wherever
  it stops. With the writes of a settlement it is kept by \<open>Create\<close> as well.\<close>

locale desk_writes =
  fixes h :: uuid and J :: "db \<Rightarrow> bool"
  assumes guest: "keeps J (EnsureGuest h n e p)"
    and identity: "J d \<Longrightarrow> J (sql_guest_identity h gi t n d)"
    and insert_stay: "gs_hotel s = h \<Longrightarrow> stmt_keeps J (sql_insert_stay s)"
    and update_stay: "stmt_keeps J (sql_update_stay h si fs)"
    and cancel_stay: "stmt_keeps J (sql_soft_cancel now h si reason fee u)"
    and redeem: "stmt_keeps J (sql_redeem h pid)"
    and room_status: "stmt_keeps J (sql_room_status h room st)"
    and task: "J d \<Longrightarrow> J (sql_checkout_task ti h room msg d)"
    and folio: "keeps J (EnsureFolioForBooking h booking gst cur)"
    and close: "J d \<Longrightarrow> J (sql_close_folio h f d)"
begin

lemma updates_keep: "keeps J (UpdateStay h i fs)" "keeps J (UpdateRoomStatus h r st)"
  "keeps J (SoftCancelStay h i reason fee u)" "keeps J (raise_checkout_task h r msg)"
  unfolding UpdateStay_def UpdateRoomStatus_def SoftCancelStay_def raise_checkout_task_def
  by (intro keeps_intros update_stay room_status cancel_stay task; assumption?)+

lemma SetGuestIdentity_keeps: "keeps J (SetGuestIdentity h i t n)"
  unfolding SetGuestIdentity_def by (intro keeps_intros identity)

lemma CreateStay_keeps: "keeps J (CreateStay h st s)"
  unfolding CreateStay_def by (intro keeps_intros insert_stay) simp

lemma tx_bodies_keep:
  "keeps J (move_tx h i flds inHouse newRoom oldRoom gst)"
  "keeps J (checkin_tx h i existing now)"
  "keeps J (checkout_tx h i existing f now)"
  unfolding move_tx_def checkin_tx_def checkout_tx_def
  by (intro keeps_intros updates_keep guest folio close; assumption?)+

lemma update_write_keeps: "keeps J (update_write h i flds)"
  unfolding update_write_def by (intro keeps_intros updates_keep)

lemma edits_keep:
  assumes "tenantHotelID (rh_lib H) c = h"
  shows "keeps J (Update H c idp body)" "keeps J (Cancel H c idp cbody)"
    "keeps J (CheckIn H c idp)" "keeps J (CheckOut H c idp allow)" "keeps J (MoveRoom H c idp mbody)"
  unfolding Update_def Cancel_def CheckIn_def CheckOut_def MoveRoom_def notifyCheckedIn_def assms Let_def
  by (intro keeps_intros keeps_ok_keeps update_write_keeps updates_keep tx_bodies_keep)+

end

locale frontdesk_invariant = settlement_invariant + desk_writes
begin

lemma create_tx_keeps: "keeps J (create_tx h req stay promo quote)"
  unfolding create_tx_def
  by (intro keeps_intros guest SetGuestIdentity_keeps CreateStay_keeps keeps_redeemPromo redeem
      settleReservation_keeps)

lemma create_write_keeps: "keeps J (create_write H h req room ci co promo taxRate)"
  unfolding create_write_def notifyBookingConfirmed_def
  by (intro keeps_intros keeps_ok_keeps create_tx_keeps)

lemma Create_keeps: "tenantHotelID (rh_lib H) c = h \<Longrightarrow> keeps J (Create H c body)"
  unfolding Create_def Let_def by (intro keeps_intros) (simp_all add: create_write_keeps)

end

end
