(* ===== verification/FrontDesk.thy ===== *)
theory FrontDesk
  imports Reservations
begin

text \<open>
  The front desk as a state machine: the routes \<^verbatim>\<open>Register\<close> of
  \<^verbatim>\<open>reservation_handler.go\<close> sets up, the requests they serve, and the databases a history of
  requests can lead to. The invariants of \<open>Reservations\<close> are interpreted here and carried over to
  histories by rule induction.
\<close>

subsection \<open>Requests and histories\<close>

datatype desk_request =
    Req_List listQuery
  | Req_Calendar string
  | Req_Quote "createReservationRequest option"
  | Req_Get string
  | Req_Create "createReservationRequest option"
  | Req_Update string "createReservationRequest option"
  | Req_Cancel string "cancelReservationRequest option"
  | Req_CheckIn string
  | Req_CheckOut string string
  | Req_MoveRoom string "moveRoomRequest option"

text \<open>The handler of a request; what is left of the answer is whether the request succeeded.\<close>

definition answered :: "'a response go \<Rightarrow> bool go" where
  "answered m = do { r \<leftarrow> m; State_Monad.return (succeeded r) }"

primrec serve :: "ReservationHandler \<Rightarrow> ctx \<Rightarrow> desk_request \<Rightarrow> bool go" where
  "serve H c (Req_List q) = answered (List_reservations H c q)"
| "serve H c (Req_Calendar month) = answered (Calendar H c month)"
| "serve H c (Req_Quote body) = answered (Quote H c body)"
| "serve H c (Req_Get i) = answered (Get H c i)"
| "serve H c (Req_Create body) = answered (Create H c body)"
| "serve H c (Req_Update i body) = answered (Update H c i body)"
| "serve H c (Req_Cancel i body) = answered (Cancel H c i body)"
| "serve H c (Req_CheckIn i) = answered (CheckIn H c i)"
| "serve H c (Req_CheckOut i allow) = answered (CheckOut H c i allow)"
| "serve H c (Req_MoveRoom i body) = answered (MoveRoom H c i body)"

text \<open>One request of some user of tenant \<open>h\<close>, at some time, with whatever identifiers, faults and
  message the world has in store; and a history of requests of the tenants in \<open>T\<close>.\<close>

inductive desk_step :: "ReservationHandler \<Rightarrow> uuid \<Rightarrow> db \<Rightarrow> db \<Rightarrow> bool" for H where
  request: "tenantHotelID (rh_lib H) c = h \<Longrightarrow> run_state (serve H c r) w = (ok, w') \<Longrightarrow>
    desk_step H h (w_db w) (w_db w')"

inductive desk_history :: "ReservationHandler \<Rightarrow> uuid set \<Rightarrow> db \<Rightarrow> db \<Rightarrow> bool" for H T d where
  start: "desk_history H T d d"
| step: "desk_history H T d d1 \<Longrightarrow> h \<in> T \<Longrightarrow> desk_step H h d1 d2 \<Longrightarrow> desk_history H T d d2"

inductive_cases desk_stepE: "desk_step H h d d'"

lemma keeps_answered [keeps_intros]: "keeps J m \<Longrightarrow> keeps J (answered m)"
  unfolding answered_def by (intro keeps_intros)

lemma serve_reads:
  "keeps J (List_reservations H c q)" "keeps J (Calendar H c month)" "keeps J (Quote H c body)" "keeps J (Get H c i)"
  unfolding List_reservations_def Calendar_def Quote_def Get_def by (intro keeps_intros)+

text \<open>The interface of \<open>Reservations\<close>, seen from a history.\<close>

context frontdesk_invariant
begin

lemma serve_keeps: "tenantHotelID (rh_lib H) c = h \<Longrightarrow> keeps J (serve H c r)"
  by (cases r) (simp_all add: keeps_answered serve_reads Create_keeps edits_keep)

lemma desk_step_keeps: "desk_step H h d d' \<Longrightarrow> J d \<Longrightarrow> J d'"
  using serve_keeps by (elim desk_stepE) (metis keeps_def snd_conv)

end

lemma desk_history_keeps:
  assumes "\<And>h. h \<in> T \<Longrightarrow> frontdesk_invariant h J" "desk_history H T d d'" "J d"
  shows "J d'"
  using assms(2,3,1)
proof (induction rule: desk_history.induct)
  case (step d1 h d2)
  then show ?case using frontdesk_invariant.desk_step_keeps by blast
qed

subsection \<open>Invariants of the front desk\<close>

lemma EnsureGuest_keeps:
  assumes "\<And>d gs. J d \<Longrightarrow> J (d\<lparr>guests := gs\<rparr>)"
  shows "keeps J (EnsureGuest h n e p)"
proof -
  have "stmt_keeps J (sql_insert_guest g)" for g
    using assms by (auto simp: stmt_keeps_def sql_insert_guest_def split: if_splits)
  then show ?thesis
    unfolding EnsureGuest_def guest_lookup_def
    by (intro keeps_intros) (simp_all add: assms sql_backfill_guest_def)
qed

lemma EnsureFolio_keeps:
  assumes "\<And>d fs. J d \<Longrightarrow> J (d\<lparr>folios := fs\<rparr>)"
  shows "keeps J (EnsureFolioForBooking h b g c)"
proof -
  have "stmt_keeps J (sql_insert_folio f)" for f
    using assms by (auto simp: stmt_keeps_def sql_insert_folio_def split: if_splits)
  then show ?thesis
    unfolding EnsureFolioForBooking_def by (intro keeps_intros)
qed

lemmas desk_stmt_defs = stmt_keeps_def sql_guest_identity_def sql_insert_stay_def sql_update_stay_def
  sql_soft_cancel_def sql_redeem_def sql_room_status_def sql_checkout_task_def sql_close_folio_def Let_def

text \<open>No two bookings of a room overlap.\<close>

interpretation desk_overlap: frontdesk_invariant h "\<lambda>d. no_overlap (stays d)" for h
proof (intro frontdesk_invariant.intro settlement_invariant_frame desk_writes.intro
    EnsureGuest_keeps EnsureFolio_keeps)
  show "ignores_settlement (\<lambda>d. no_overlap (stays d))"
    by (simp add: ignores_settlement_def ignores_ledger_def)
  show "stmt_keeps (\<lambda>d. no_overlap (stays d)) (sql_soft_cancel now h si reason fee u)" for now si reason fee u
    by (auto simp: desk_stmt_defs overlaps_def intro!: no_overlap_upd_where split: if_splits)
  show "stmt_keeps (\<lambda>d. no_overlap (stays d)) (sql_insert_stay s)" for s
    by (auto simp: desk_stmt_defs no_overlap_append overlaps_def numeric_stay_def list_ex_iff split: if_splits)
qed (auto simp: desk_stmt_defs split: if_splits)

text \<open>No promo code is redeemed more often than its limit.\<close>

interpretation desk_promos: frontdesk_invariant h promos_within_limit for h
proof (intro frontdesk_invariant.intro settlement_invariant_frame desk_writes.intro
    EnsureGuest_keeps EnsureFolio_keeps sql_redeem_within_limit)
  show "ignores_settlement promos_within_limit"
    by (simp add: ignores_settlement_def ignores_ledger_def promos_within_limit_def)
qed (auto simp: desk_stmt_defs promos_within_limit_def split: if_splits)

text \<open>The desk opens at most one folio for a booking.\<close>

interpretation desk_folios: frontdesk_invariant h one_folio_per_booking for h
proof (intro frontdesk_invariant.intro settlement_invariant_frame desk_writes.intro
    EnsureGuest_keeps keeps_EnsureFolioForBooking_one)
  show "ignores_settlement one_folio_per_booking"
    by (simp add: ignores_settlement_def ignores_ledger_def one_folio_per_booking_def)
qed (auto simp: desk_stmt_defs one_folio_per_booking_def map_upd_where split: if_splits)

text \<open>The rows of other tenants are out of reach. The one statement that updates a guest by id alone
  follows a lookup within the tenant.\<close>

lemma backfill_guest_tenant:
  assumes J: "tenant_frame h X d" and q: "\<exists>g \<in> set (guests d). gu_id g = i \<and> gu_hotel g = h"
  shows "tenant_frame h X (sql_backfill_guest i e p d)"
proof -
  have dist: "distinct (map gu_id (guests d))" using J by (simp add: tenant_frame_def)
  have "gu_hotel x = h" if "x \<in> set (guests d)" "gu_id x = i" for x
    using q that distinct_map_eqI [OF dist that(1)] by metis
  then have "filter (\<lambda>x. gu_hotel x \<noteq> h) (guests (sql_backfill_guest i e p d)) = filter (\<lambda>x. gu_hotel x \<noteq> h) (guests d)"
    unfolding sql_backfill_guest_def by (simp, intro filter_upd_where_key) auto
  then have "others h (sql_backfill_guest i e p d) = others h d"
    by (simp add: sql_backfill_guest_def others_upd)
  moreover have "map gu_id (guests (sql_backfill_guest i e p d)) = map gu_id (guests d)"
    by (simp add: sql_backfill_guest_def map_upd_where)
  moreover have "customers (sql_backfill_guest i e p d) = customers d"
    by (simp add: sql_backfill_guest_def)
  ultimately show ?thesis using J unfolding tenant_frame_def by metis
qed

lemma guest_lookup_tenant:
  assumes q: "\<And>d i. q d = Some i \<Longrightarrow> \<exists>g \<in> set (guests d). gu_id g = i \<and> gu_hotel g = h"
    and m: "keeps (tenant_frame h X) m"
  shows "keeps (tenant_frame h X) (guest_lookup e p q arg m)"
proof -
  let ?J = "tenant_frame h X"
  have fill: "triple (\<lambda>d. ?J d \<and> q d = Some i) (exec (sql_backfill_guest i e p)) (\<lambda>_. ?J)" for i
    by (rule triple_exec) (auto intro: backfill_guest_tenant q)
  have found: "triple (\<lambda>d. ?J d \<and> (\<forall>a. r = Inr a \<longrightarrow> q d = Some a) \<and> (r = Inl NoRows \<longrightarrow> q d = None))
      (case r of Inr i \<Rightarrow> do { _ \<leftarrow> exec (sql_backfill_guest i e p); State_Monad.return (Inr i) }
       | Inl e \<Rightarrow> if e = NoRows then m else State_Monad.return (Inl e)) (\<lambda>_. ?J)" for r
  proof (cases r)
    case (Inr i)
    have "triple (\<lambda>d. ?J d \<and> q d = Some i)
       (do { _ \<leftarrow> exec (sql_backfill_guest i e p); State_Monad.return (Inr i) }) (\<lambda>_. ?J)"
      by (rule triple_bind [OF fill]) (rule triple_return)
    then show ?thesis using Inr by (auto elim: triple_conseq)
  next
    case (Inl err)
    have "triple ?J m (\<lambda>_. ?J)" using m by (simp add: keeps_triple)
    then show ?thesis using Inl by (auto elim: triple_conseq intro: triple_return)
  qed
  have "keeps ?J (do { r \<leftarrow> query_row q;
      case r of Inr i \<Rightarrow> do { _ \<leftarrow> exec (sql_backfill_guest i e p); State_Monad.return (Inr i) }
       | Inl e \<Rightarrow> if e = NoRows then m else State_Monad.return (Inl e) })"
    unfolding keeps_triple by (rule triple_bind [OF triple_query_row found])
  then show ?thesis unfolding guest_lookup_def using m by simp
qed

lemma EnsureGuest_tenant: "keeps (tenant_frame h X) (EnsureGuest h n e p)"
proof -
  have "stmt_keeps (tenant_frame h X) (sql_insert_guest g)" if "gu_hotel g = h" for g
    using that by (auto simp: stmt_keeps_def sql_insert_guest_def tenant_frame_def others_upd list_ex_iff split: if_splits)
  then show ?thesis
    unfolding EnsureGuest_def Let_def
    by (intro keeps_if keeps_return guest_lookup_tenant keeps_bind keeps_uuid_New keeps_stmt)
       (auto simp: find_guest_by_phone_def find_guest_by_email_def dest!: find_SomeD)
qed

lemma EnsureFolio_tenant: "keeps (tenant_frame h X) (EnsureFolioForBooking h b g c)"
proof -
  have "stmt_keeps (tenant_frame h X) (sql_insert_folio f)" if "fo_hotel f = h" for f
    using that by (auto simp: stmt_keeps_def sql_insert_folio_def tenant_frame_def others_upd split: if_splits)
  then show ?thesis
    unfolding EnsureFolioForBooking_def by (intro keeps_intros) simp
qed

interpretation desk_tenant: frontdesk_invariant h "tenant_frame h X" for h X
proof (intro frontdesk_invariant.intro settle_tenant.settlement_invariant_axioms desk_writes.intro
    EnsureGuest_tenant EnsureFolio_tenant)
  let ?J = "tenant_frame h X"
  show "?J (sql_guest_identity h gi t n d)" if "?J d" for gi t n d
  proof -
    have "others h (sql_guest_identity h gi t n d) = others h d"
      unfolding sql_guest_identity_def by (intro others_upd_where) auto
    then show ?thesis using that
      by (simp add: tenant_frame_def) (simp add: sql_guest_identity_def map_upd_where)
  qed
  show "stmt_keeps ?J (sql_insert_stay s)" if "gs_hotel s = h" for s
    using that by (auto simp: desk_stmt_defs tenant_frame_def others_upd numeric_stay_def split: if_splits)
  show "stmt_keeps ?J (sql_update_stay h si fs)" for si fs
    by (auto simp: desk_stmt_defs tenant_frame_def split: if_splits intro!: others_upd_where)
  show "stmt_keeps ?J (sql_soft_cancel now h si reason fee u)" for now si reason fee u
    by (auto simp: desk_stmt_defs tenant_frame_def split: if_splits intro!: others_upd_where)
  show "stmt_keeps ?J (sql_redeem h pid)" for pid
    by (auto simp: desk_stmt_defs redeemable_def tenant_frame_def split: if_splits intro!: others_upd_where)
  show "stmt_keeps ?J (sql_room_status h room st)" for room st
    by (auto simp: desk_stmt_defs tenant_frame_def split: if_splits intro!: others_upd_where)
  show "?J (sql_checkout_task ti h room msg d)" if "?J d" for ti room msg d
    using that by (simp add: sql_checkout_task_def tenant_frame_def others_upd)
  show "?J (sql_close_folio h f d)" if "?J d" for f d
  proof -
    have "others h (sql_close_folio h f d) = others h d"
      unfolding sql_close_folio_def by (intro others_upd_where) auto
    then show ?thesis using that by (simp add: tenant_frame_def) (simp add: sql_close_folio_def)
  qed
qed

subsection \<open>Failed requests change nothing\<close>

lemma clean_guarded [clean_intros]: "clean m \<Longrightarrow> clean (guarded g m)"
  by (auto simp: guarded_def intro: clean_intros split: guard.split)

lemma clean_with_id [clean_intros]: "(\<And>i. clean (k i)) \<Longrightarrow> clean (with_id H raw k)"
  unfolding with_id_def by (intro clean_intros)

lemma clean_with_body [clean_intros]: "(\<And>r. clean (k r)) \<Longrightarrow> clean (with_body body k)"
  unfolding with_body_def by (intro clean_intros)

lemma clean_with_stay [clean_intros]: "(\<And>s. clean (k s)) \<Longrightarrow> clean (with_stay h i k)"
  unfolding with_stay_def by (intro clean_bind readsI clean_sum clean_fail keeps_reads)

lemma clean_errors [clean_intros]: "clean (create_error e)" "clean (move_error e)"
  unfolding create_error_def move_error_def by (intro clean_intros)+

lemma rolls_back_inTx: "rolls_back (inTx m)"
  unfolding inTx_def by (rule rolls_back_with_tx)

text \<open>An update that affects no row, reported as not found, leaves the table as it is.\<close>

lemma rolls_back_must_affect:
  assumes "\<And>d d'. f d = Inr (0, d') \<Longrightarrow> d' = d"
  shows "rolls_back (do { r \<leftarrow> stmt f; State_Monad.return (must_affect r) })"
  unfolding rolls_back_def stmt_def must_affect_def using assms
  by (auto dest: next_fault_db split: prod.split sum.split)

lemma rolls_back_UpdateStay: "rolls_back (UpdateStay h i fs)"
  unfolding UpdateStay_def
  by (rule rolls_back_must_affect) (auto simp: sql_update_stay_def Let_def upd_where_none split: if_splits)

lemma rolls_back_SoftCancelStay: "rolls_back (SoftCancelStay h i reason fee u)"
proof -
  have "rolls_back (do { r \<leftarrow> stmt (sql_soft_cancel now h i reason fee u); State_Monad.return (must_affect r) })" for now
    by (rule rolls_back_must_affect) (auto simp: sql_soft_cancel_def Let_def upd_where_none split: if_splits)
  then show ?thesis
    by (simp add: SoftCancelStay_def rolls_back_def)
qed

lemmas clean_writes = clean_write [OF rolls_back_inTx] clean_write [OF rolls_back_UpdateStay]
  clean_write [OF rolls_back_SoftCancelStay]

lemmas clean_steps = clean_guarded clean_with_id clean_with_body clean_with_stay clean_errors
  clean_if clean_let clean_option clean_prod clean_fail clean_writes clean_return

lemmas answers_steps = answers_bind answers_return answers_prod

lemma clean_create_write: "clean (create_write H h req room ci co promo taxRate)"
  unfolding create_write_def
  by (rule clean_steps answers_steps readsI keeps_intros clean_bind | simp add: Created_def)+

lemma clean_handlers:
  "clean (Create H c body)" "clean (Update H c idp body)" "clean (Cancel H c idp cbody)"
  "clean (CheckIn H c idp)" "clean (CheckOut H c idp allow)" "clean (MoveRoom H c idp mbody)"
  unfolding Create_def Update_def update_write_def Cancel_def CheckIn_def CheckOut_def MoveRoom_def
  by (rule clean_create_write clean_steps answers_steps clean_sum readsI keeps_intros clean_bind | simp add: OK_def)+

lemma clean_reading:
  "clean (List_reservations H c q)" "clean (Calendar H c month)" "clean (Quote H c body)" "clean (Get H c i)"
  by (intro clean_reads readsI serve_reads)+

lemma clean_answered:
  assumes "clean m" "run_state (answered m) w = (False, w')"
  shows "w_db w' = w_db w"
  using assms by (auto simp: answered_def clean_def split: prod.splits) (metis fst_conv snd_conv)

subsection \<open>Who may ask\<close>

lemma guarded_refused: "requireFrontDesk H c \<noteq> Pass \<Longrightarrow>
    \<exists>n msg. n \<in> {401, 403} \<and> run_state (guarded (requireFrontDesk H c) m) w = (Fail n msg, w)"
  by (auto simp: guarded_def requireFrontDesk_def requireAnyRoleFromToken_def split: option.split)

lemma guarded_refused_manager: "requireFrontDeskManager H c \<noteq> Pass \<Longrightarrow>
    \<exists>n msg. n \<in> {401, 403} \<and> run_state (guarded (requireFrontDeskManager H c) m) w = (Fail n msg, w)"
  by (auto simp: guarded_def requireFrontDeskManager_def requireAnyRoleFromToken_def split: option.split)

lemma manager_is_frontdesk: "requireFrontDeskManager H c = Pass \<Longrightarrow> requireFrontDesk H c = Pass"
  unfolding requireFrontDesk_def requireFrontDeskManager_def
  by (erule requireAnyRole_mono) (auto simp: frontDeskRoles_def frontDeskManagerRoles_def)

lemma answered_refused:
  "\<exists>n msg. P n \<and> run_state m w = (Fail n msg, w) \<Longrightarrow> run_state (answered m) w = (False, w)"
  by (auto simp: answered_def)

subsection \<open>Properties\<close>

text \<open>C1: no double booking. Whatever requests the users of whatever tenants send, in whatever order
  and with whatever infrastructure faults, two stays of one room whose dates overlap are never
  both on the books unless one is cancelled; no promo code is redeemed more often than its usage
  limit; and the desk never opens a second folio for a booking.\<close>

theorem no_double_booking:
  assumes "desk_history H T d d'"
  shows "(no_overlap (stays d) \<longrightarrow> no_overlap (stays d')) \<and>
    (promos_within_limit d \<longrightarrow> promos_within_limit d') \<and>
    (one_folio_per_booking d \<longrightarrow> one_folio_per_booking d')"
  using desk_history_keeps [OF desk_overlap.frontdesk_invariant_axioms assms]
    desk_history_keeps [OF desk_promos.frontdesk_invariant_axioms assms]
    desk_history_keeps [OF desk_folios.frontdesk_invariant_axioms assms] by blast

text \<open>A receptionist of tenant 7, and a library that reads identifiers as decimal numbers.\<close>

definition desk_lib :: lib where
  "desk_lib = \<lparr>lib_jwt = \<lambda>s t. if t = ''tok'' then Some [(''hotel_id'', JStr ''7''), (''roles'', JArr [JStr ''receptionist''])] else None,
     lib_uuid = \<lambda>s. if s \<noteq> [] \<and> list_all is_digit s then Some (digits_val s) else None\<rparr>"

definition desk_handler :: ReservationHandler where
  "desk_handler = \<lparr>rh_lib = desk_lib, rh_secret = ''k'', rh_email = True, rh_sms = False\<rparr>"

definition desk_ctx :: ctx where
  "desk_ctx = \<lparr>c_authorization = ''Bearer tok'', c_cookie = [], c_branch_header = [],
     c_path = ''/api/reservations'', c_locals = [(''hotel_id'', ''7'')]\<rparr>"

lemma desk_tenant_7: "tenantHotelID (rh_lib desk_handler) desk_ctx = 7"
  by code_simp

definition desk_db :: db where
  "desk_db = booked_db\<lparr>stays := [stay_sample\<lparr>gs_phone := Some ''9811122333''\<rparr>]\<rparr>"

definition checked_in_db :: db where
  "checked_in_db = w_db (snd (run_state (serve desk_handler desk_ctx (Req_CheckIn ''5'')) (start desk_db 90000)))"

lemma checked_in_step: "desk_step desk_handler 7 desk_db checked_in_db"
  using request [OF desk_tenant_7, of "Req_CheckIn ''5''" "start desk_db 90000"]
  unfolding checked_in_db_def by (metis prod.collapse start_simps(1))

lemma checked_in_history: "7 \<in> T \<Longrightarrow> desk_history desk_handler T desk_db checked_in_db"
  by (rule step [OF desk_history.start _ checked_in_step])

theorem no_double_booking_witness:
  "no_overlap (stays checked_in_db) \<and> map gs_status (stays checked_in_db) = [ReservationInHouse] \<and>
   one_folio_per_booking checked_in_db \<and> length (folios checked_in_db) = 1"
proof -
  have "no_overlap (stays desk_db)" by (simp add: desk_db_def no_overlap_def)
  moreover have "one_folio_per_booking desk_db" by (simp add: desk_db_def booked_db_def one_folio_per_booking_def empty_db_def)
  moreover have "map gs_status (stays checked_in_db) = [ReservationInHouse]" "length (folios checked_in_db) = 1"
    by code_simp+
  ultimately show ?thesis
    using no_double_booking [OF checked_in_history [of "{7}"]] by simp
qed

text \<open>C2: tenants are isolated. Requests of tenant \<open>h\<close> leave every row of every other tenant as it
  is, in every table, although two of the statements update a guest or a customer by primary key
  alone: the primary keys are unique, and stay so.\<close>

theorem tenant_isolation:
  assumes "desk_history H {h} d d'" "distinct (map gu_id (guests d))" "distinct (map cu_id (customers d))"
  shows "others h d' = others h d"
proof -
  have "frontdesk_invariant x (tenant_frame h (others h d))" if "x \<in> {h}" for x
    using that desk_tenant.frontdesk_invariant_axioms by simp
  from desk_history_keeps [OF this assms(1)] assms(2,3) show ?thesis by (simp add: tenant_frame_def)
qed

theorem tenant_isolation_witness:
  "let d = desk_db\<lparr>rooms := rooms desk_db @ [room_sample\<lparr>rm_id := 3, rm_hotel := 8\<rparr>]\<rparr>;
       d' = w_db (snd (run_state (serve desk_handler desk_ctx (Req_CheckIn ''5'')) (start d 90000)))
   in others 7 d' = others 7 d \<and> d' \<noteq> d \<and> map rm_id (rooms (others 7 d)) = [3]"
proof -
  let ?d = "desk_db\<lparr>rooms := rooms desk_db @ [room_sample\<lparr>rm_id := 3, rm_hotel := 8\<rparr>]\<rparr>"
  let ?r = "run_state (serve desk_handler desk_ctx (Req_CheckIn ''5'')) (start ?d 90000)"
  have "desk_step desk_handler 7 ?d (w_db (snd ?r))"
    using request [OF desk_tenant_7, of "Req_CheckIn ''5''" "start ?d 90000"] by (metis prod.collapse start_simps(1))
  then have "desk_history desk_handler {7} ?d (w_db (snd ?r))" by (auto intro: desk_history.intros)
  moreover have "map gs_status (stays (w_db (snd ?r))) = [ReservationInHouse]" by code_simp
  moreover have "map gs_status (stays ?d) = [ReservationConfirmed]" "map rm_id (rooms (others 7 ?d)) = [3]" by code_simp+
  ultimately show ?thesis
    using tenant_isolation [of desk_handler 7 ?d "w_db (snd ?r)"]
    by (auto simp: Let_def desk_db_def booked_db_def empty_db_def)
qed

text \<open>C7: a request that is answered with an error has changed nothing, wherever it failed: in a
  validation, in the availability check, in the middle of the transaction of a booking (after the
  guest, the stay, the promo code or the invoice was written), or at the commit.\<close>

theorem failed_request_changes_nothing:
  assumes "run_state (serve H c r) w = (False, w')"
  shows "w_db w' = w_db w"
  using assms by (cases r) (auto dest: clean_answered [OF clean_handlers(1)] clean_answered [OF clean_handlers(2)]
    clean_answered [OF clean_handlers(3)] clean_answered [OF clean_handlers(4)] clean_answered [OF clean_handlers(5)]
    clean_answered [OF clean_handlers(6)] clean_answered [OF clean_reading(1)] clean_answered [OF clean_reading(2)]
    clean_answered [OF clean_reading(3)] clean_answered [OF clean_reading(4)])

text \<open>A check-in whose guest lookup fails, after the stay and the room were written.\<close>

theorem failed_request_changes_nothing_witness:
  "let w = (start desk_db 90000)\<lparr>w_faults := [False, False, False, False, True]\<rparr>;
       r = run_state (serve desk_handler desk_ctx (Req_CheckIn ''5'')) w
   in fst r = False \<and> w_db (snd r) = desk_db"
proof -
  let ?w = "(start desk_db 90000)\<lparr>w_faults := [False, False, False, False, True]\<rparr>"
  let ?r = "run_state (serve desk_handler desk_ctx (Req_CheckIn ''5'')) ?w"
  have "fst ?r = False" by code_simp
  then have "?r = (False, snd ?r)" by (metis prod.collapse)
  from failed_request_changes_nothing [OF this] \<open>fst ?r = False\<close> show ?thesis by (simp add: Let_def)
qed

text \<open>C13: only the front desk is served. A request whose token carries none of the front-desk roles is
  refused with 401 or 403 before anything is read or written, and a cancellation needs a manager:
  a receptionist's is refused, although the same person may do everything else.\<close>

theorem only_front_desk_served:
  "(requireFrontDesk H c \<noteq> Pass \<longrightarrow> run_state (serve H c r) w = (False, w)) \<and>
   (requireFrontDeskManager H c \<noteq> Pass \<longrightarrow> (\<exists>n msg. n \<in> {401, 403} \<and> run_state (Cancel H c i body) w = (Fail n msg, w))) \<and>
   (requireFrontDesk H c = Pass \<longleftrightarrow> (\<exists>cl rs role. jwtClaimsFromRequest (rh_lib H) (rh_secret H) c = Some cl \<and>
      raw_roles cl = Some rs \<and> role \<in> set rs \<and> as_string (Some role) \<in> set frontDeskRoles)) \<and>
   set frontDeskManagerRoles = set frontDeskRoles - {''receptionist''}"
proof (intro conjI impI)
  assume refused: "requireFrontDesk H c \<noteq> Pass"
  then have "requireFrontDeskManager H c \<noteq> Pass" using manager_is_frontdesk by blast
  note no = guarded_refused [OF refused] guarded_refused_manager [OF this]
  show "run_state (serve H c r) w = (False, w)"
    by (cases r) (simp_all add: List_reservations_def Calendar_def Quote_def Get_def Create_def Update_def
      Cancel_def CheckIn_def CheckOut_def MoveRoom_def answered_refused [OF no(1)] answered_refused [OF no(2)])
next
  assume "requireFrontDeskManager H c \<noteq> Pass"
  then show "\<exists>n msg. n \<in> {401, 403} \<and> run_state (Cancel H c i body) w = (Fail n msg, w)"
    unfolding Cancel_def by (rule guarded_refused_manager)
qed (auto simp: requireFrontDesk_def requireAnyRole_Pass_iff frontDeskRoles_def frontDeskManagerRoles_def)

theorem only_front_desk_served_witness:
  "requireFrontDesk desk_handler desk_ctx = Pass \<and> requireFrontDeskManager desk_handler desk_ctx \<noteq> Pass \<and>
   snd (run_state (Cancel desk_handler desk_ctx ''5'' None) (start desk_db 0)) = start desk_db 0 \<and>
   snd (run_state (serve desk_handler (desk_ctx\<lparr>c_authorization := []\<rparr>) (Req_CheckIn ''5'')) (start desk_db 0)) = start desk_db 0"
proof -
  have a: "requireFrontDesk desk_handler desk_ctx = Pass" "requireFrontDeskManager desk_handler desk_ctx \<noteq> Pass"
    "requireFrontDesk desk_handler (desk_ctx\<lparr>c_authorization := []\<rparr>) \<noteq> Pass" by code_simp+
  show ?thesis
    using only_front_desk_served [of desk_handler desk_ctx _ "start desk_db 0" "''5''" None] a
      only_front_desk_served [of desk_handler "desk_ctx\<lparr>c_authorization := []\<rparr>" "Req_CheckIn ''5''" "start desk_db 0"]
    by auto
qed

end
