(* ===== verification/Lifecycle.thy ===== *)
theory Lifecycle
  imports FrontDesk
begin

text \<open>
  The life of a reservation: a well-formedness invariant of \<^verbatim>\<open>guest_stays\<close> that ties the
  status to the two arrival and departure times and every stay to a room of its own tenant, and
  that the reservation handlers keep.
\<close>

subsection \<open>The invariant\<close>

definition lifecycle_ok :: "GuestStay \<Rightarrow> bool" where
  "lifecycle_ok g \<longleftrightarrow>
     (gs_status g = ReservationInHouse \<longleftrightarrow> gs_actual_in g \<noteq> None \<and> gs_actual_out g = None) \<and>
     (gs_status g = ReservationCheckedOut \<longleftrightarrow> gs_actual_out g \<noteq> None) \<and>
     (gs_actual_out g \<noteq> None \<longrightarrow> gs_actual_in g \<noteq> None)"

definition in_own_room :: "db \<Rightarrow> GuestStay \<Rightarrow> bool" where
  "in_own_room d g \<longleftrightarrow> list_ex (\<lambda>r. rm_id r = gs_room g \<and> rm_hotel r = gs_hotel g) (rooms d)"

definition desk_wf :: "db \<Rightarrow> bool" where
  "desk_wf d \<longleftrightarrow> distinct (map gs_id (stays d)) \<and> distinct (map rm_id (rooms d)) \<and>
     list_all (\<lambda>g. lifecycle_ok g \<and> stay_row_ok g \<and> in_own_room d g) (stays d)"

text \<open>The abstract state machine of a reservation, and the invariant of a request: the rows are well
  formed, and every reservation there was before it is still there, where the machine allows.\<close>

inductive stay_move :: "ReservationStatus \<Rightarrow> ReservationStatus \<Rightarrow> bool" where
  arrive: "s \<notin> {ReservationInHouse, ReservationCheckedOut, ReservationCancelled} \<Longrightarrow> stay_move s ReservationInHouse"
| depart: "stay_move ReservationInHouse ReservationCheckedOut"
| cancel: "s \<notin> {ReservationInHouse, ReservationCheckedOut, ReservationCancelled} \<Longrightarrow> stay_move s ReservationCancelled"

inductive_simps stay_move_simps: "stay_move s t"

definition moves_to :: "GuestStay \<Rightarrow> GuestStay \<Rightarrow> bool" where
  "moves_to g g' \<longleftrightarrow> gs_id g' = gs_id g \<and> gs_hotel g' = gs_hotel g \<and> rtranclp stay_move (gs_status g) (gs_status g')"

definition desk_inv :: "db \<Rightarrow> db \<Rightarrow> bool" where
  "desk_inv d0 d \<longleftrightarrow> desk_wf d \<and> (\<forall>g \<in> set (stays d0). \<exists>g' \<in> set (stays d). moves_to g g')"

lemma moves_to_refl [simp]: "moves_to g g"
  by (simp add: moves_to_def)

lemma moves_to_trans: "moves_to g g' \<Longrightarrow> moves_to g' g'' \<Longrightarrow> moves_to g g''"
  by (auto simp: moves_to_def)

lemma desk_inv_refl: "desk_wf d \<Longrightarrow> desk_inv d d"
  by (auto simp: desk_inv_def intro: moves_to_refl)

lemma desk_inv_wf: "desk_inv d0 d \<Longrightarrow> desk_wf d"
  by (simp add: desk_inv_def)

subsection \<open>Writes\<close>

lemma in_own_room_keys:
  "map (\<lambda>r. (rm_id r, rm_hotel r)) (rooms d') = map (\<lambda>r. (rm_id r, rm_hotel r)) (rooms d) \<Longrightarrow>
     in_own_room d' g = in_own_room d g"
proof -
  assume "map (\<lambda>r. (rm_id r, rm_hotel r)) (rooms d') = map (\<lambda>r. (rm_id r, rm_hotel r)) (rooms d)"
  moreover have "in_own_room e g = ((gs_room g, gs_hotel g) \<in> set (map (\<lambda>r. (rm_id r, rm_hotel r)) (rooms e)))" for e
    by (force simp: in_own_room_def list_ex_iff)
  ultimately show ?thesis by (simp only:)
qed

lemma desk_wf_frame:
  assumes "stays d' = stays d" "map (\<lambda>r. (rm_id r, rm_hotel r)) (rooms d') = map (\<lambda>r. (rm_id r, rm_hotel r)) (rooms d)"
  shows "desk_wf d' = desk_wf d"
proof -
  have "map rm_id (rooms d') = map rm_id (rooms d)"
    using arg_cong [OF assms(2), of "map fst"] by (simp add: comp_def)
  then show ?thesis using in_own_room_keys [OF assms(2)] assms(1) by (simp add: desk_wf_def)
qed

lemma desk_inv_frame:
  assumes "stays d' = stays d" "map (\<lambda>r. (rm_id r, rm_hotel r)) (rooms d') = map (\<lambda>r. (rm_id r, rm_hotel r)) (rooms d)"
  shows "desk_inv d0 d' = desk_inv d0 d"
  using desk_wf_frame [OF assms] assms(1) by (simp add: desk_inv_def)

lemma desk_inv_upd [simp]:
  "desk_inv d0 (d\<lparr>guests := x1\<rparr>) = desk_inv d0 d" "desk_inv d0 (d\<lparr>folios := x2\<rparr>) = desk_inv d0 d"
  "desk_inv d0 (d\<lparr>promotions := x3\<rparr>) = desk_inv d0 d" "desk_inv d0 (d\<lparr>tasks := x4\<rparr>) = desk_inv d0 d"
  "desk_inv d0 (d\<lparr>accounts := x5\<rparr>) = desk_inv d0 d" "desk_inv d0 (d\<lparr>counters := x6\<rparr>) = desk_inv d0 d"
  "desk_inv d0 (d\<lparr>entries := x7\<rparr>) = desk_inv d0 d" "desk_inv d0 (d\<lparr>jlines := x8\<rparr>) = desk_inv d0 d"
  "desk_inv d0 (d\<lparr>customers := x9\<rparr>) = desk_inv d0 d" "desk_inv d0 (d\<lparr>payments := x10\<rparr>) = desk_inv d0 d"
  "desk_inv d0 (d\<lparr>invoices := x11\<rparr>) = desk_inv d0 d" "desk_inv d0 (d\<lparr>invlines := x12\<rparr>) = desk_inv d0 d"
  by (rule desk_inv_frame; simp)+

lemma desk_wf_settle: "keeps (desk_inv d0) (settleReservation h s pay q)"
  by (rule settlement_invariant.settleReservation_keeps [OF settlement_invariant_frame])
     (simp add: ignores_settlement_def ignores_ledger_def)

lemma room_status_wf: "stmt_keeps (desk_inv d0) (sql_room_status h r st)"
  unfolding stmt_keeps_def
proof (intro allI impI)
  fix d n d' assume "desk_inv d0 d" "sql_room_status h r st d = Inr (n, d')"
  then show "desk_inv d0 d'"
    by (subst desk_inv_frame [of _ d]) (auto simp: sql_room_status_def Let_def map_upd_where)
qed

lemma redeem_wf: "stmt_keeps (desk_inv d0) (sql_redeem h pid)"
  by (auto simp: stmt_keeps_def sql_redeem_def Let_def split: if_splits)

lemma desk_wf_writes:
  "keeps (desk_inv d0) (EnsureGuest h n e p)" "keeps (desk_inv d0) (EnsureFolioForBooking h b g c)"
  "keeps (desk_inv d0) (SetGuestIdentity h i t n)" "keeps (desk_inv d0) (UpdateRoomStatus h r st)"
  "keeps (desk_inv d0) (raise_checkout_task h r note)" "keeps (desk_inv d0) (exec (sql_close_folio h f))"
  "keeps (desk_inv d0) (redeemPromo h pid)"
  unfolding SetGuestIdentity_def UpdateRoomStatus_def raise_checkout_task_def
  by (intro EnsureGuest_keeps EnsureFolio_keeps keeps_exec keeps_bind keeps_return keeps_uuid_New keeps_stmt
      keeps_redeemPromo room_status_wf redeem_wf;
      simp add: sql_guest_identity_def sql_checkout_task_def sql_close_folio_def)+

text \<open>Writing a row that was read: the other rows stay as they are.\<close>

definition row_step :: "db \<Rightarrow> GuestStay \<Rightarrow> GuestStay \<Rightarrow> bool" where
  "row_step d s g \<longleftrightarrow> lifecycle_ok g \<and> in_own_room d g \<and> rtranclp stay_move (gs_status s) (gs_status g)"

lemma desk_inv_update:
  assumes I: "desk_inv d0 d" and s: "find_stay h i d = Some s" and p: "\<And>g. p g \<Longrightarrow> gs_id g = i \<and> gs_hotel g = h"
    and f: "\<And>g. gs_id (f g) = gs_id g" "\<And>g. gs_hotel (f g) = gs_hotel g" and ok: "row_step d s (f s)"
    and rows: "\<not> list_ex (\<lambda>g. p g \<and> \<not> stay_row_ok (f g)) (stays d)"
  shows "desk_inv d0 (d\<lparr>stays := upd_where p f (stays d)\<rparr>)"
proof -
  have wf: "desk_wf d" and dist: "distinct (map gs_id (stays d))" using I by (simp_all add: desk_inv_def desk_wf_def)
  note sd = find_stayD [OF s]
  have only: "g = s" if "g \<in> set (stays d)" "p g" for g
    using distinct_map_eqI [OF dist that(1), of s] sd p [OF that(2)] by simp
  let ?u = "\<lambda>x. if p x then f x else x"
  have row: "lifecycle_ok (?u x) \<and> stay_row_ok (?u x) \<and> in_own_room d (?u x) \<and> moves_to x (?u x)"
    if x: "x \<in> set (stays d)" for x
  proof (cases "p x")
    case True
    then show ?thesis using only [OF x True] ok rows f sd by (auto simp: row_step_def moves_to_def list_ex_iff)
  next
    case False
    then show ?thesis using x wf by (auto simp: desk_wf_def list_all_iff)
  qed
  have "map gs_id (upd_where p f (stays d)) = map gs_id (stays d)" by (rule map_upd_where) (rule f)
  moreover have "\<forall>g \<in> set (upd_where p f (stays d)). lifecycle_ok g \<and> stay_row_ok g \<and> in_own_room d g"
    unfolding upd_where_def set_map by (intro ballI, erule imageE) (use row in blast)
  ultimately have "desk_wf (d\<lparr>stays := upd_where p f (stays d)\<rparr>)"
    using wf by (simp add: desk_wf_def list_all_iff in_own_room_def)
  moreover have "\<exists>g' \<in> set (upd_where p f (stays d)). moves_to g g'" if g: "g \<in> set (stays d0)" for g
  proof -
    obtain x where x: "x \<in> set (stays d)" "moves_to g x" using I g by (auto simp: desk_inv_def)
    then have "?u x \<in> set (upd_where p f (stays d))" by (auto simp: upd_where_def)
    with x row [OF x(1)] moves_to_trans show ?thesis by blast
  qed
  ultimately show ?thesis by (simp add: desk_inv_def)
qed

lemma UpdateStay_wf:
  assumes "\<And>d. P d \<Longrightarrow> desk_inv d0 d \<and> find_stay h i d = Some s \<and> row_step d s (fold (set_stay_field (db_num d)) fs s)"
  shows "triple P (UpdateStay h i fs) (\<lambda>_. desk_inv d0)"
proof -
  have "triple P (stmt (sql_update_stay h i fs)) (\<lambda>_. desk_inv d0)"
  proof (rule triple_stmt)
    fix d n d' assume P: "P d" and u: "sql_update_stay h i fs d = Inr (n, d')"
    note A = assms [OF P]
    let ?p = "\<lambda>g. gs_id g = i \<and> gs_hotel g = h"
    have "d' = d\<lparr>stays := upd_where ?p (fold (set_stay_field (db_num d)) fs) (stays d)\<rparr>"
      "\<not> list_ex (\<lambda>g. ?p g \<and> \<not> stay_row_ok (fold (set_stay_field (db_num d)) fs g)) (stays d)"
      using u by (auto simp: sql_update_stay_def Let_def split: if_splits)
    then show "desk_inv d0 d'"
      using desk_inv_update [of d0 d h i s ?p "fold (set_stay_field (db_num d)) fs"] A by simp
  qed (use assms in blast)
  then show ?thesis
    unfolding UpdateStay_def by (rule triple_bind) (rule triple_return)
qed

lemma SoftCancel_wf:
  assumes "\<And>d. P d \<Longrightarrow> desk_inv d0 d \<and> find_stay h i d = Some s" "gs_actual_in s = None"
  shows "triple P (SoftCancelStay h i reason fee u) (\<lambda>_. desk_inv d0)"
proof -
  have "triple P (stmt (sql_soft_cancel now h i reason fee u)) (\<lambda>_. desk_inv d0)" for now
  proof (rule triple_stmt)
    fix d n d' assume P: "P d" and u: "sql_soft_cancel now h i reason fee u d = Inr (n, d')"
    let ?p = "\<lambda>g. gs_hotel g = h \<and> gs_id g = i \<and> gs_status g \<noteq> ReservationCancelled"
    let ?f = "\<lambda>g. g\<lparr>gs_status := ReservationCancelled, gs_cancelled_at := Some now,
        gs_cancel_reason := strPtr reason, gs_cancel_fee := db_num d fee, gs_cancelled_by := u\<rparr>"
    have A: "desk_inv d0 d" "find_stay h i d = Some s" using assms(1) [OF P] by auto
    then have "lifecycle_ok s \<and> in_own_room d s" using find_stayD [OF A(2)] by (auto simp: desk_inv_def desk_wf_def list_all_iff)
    moreover have "rtranclp stay_move (gs_status s) ReservationCancelled" if "lifecycle_ok s"
      using that assms(2) by (cases "gs_status s = ReservationCancelled")
        (auto simp: lifecycle_ok_def stay_move_simps intro!: r_into_rtranclp)
    ultimately have "row_step d s (?f s)" using assms(2) by (auto simp: row_step_def lifecycle_ok_def in_own_room_def)
    moreover have "d' = d\<lparr>stays := upd_where ?p ?f (stays d)\<rparr>"
      "\<not> list_ex (\<lambda>g. ?p g \<and> \<not> stay_row_ok (?f g)) (stays d)"
      using u by (auto simp: sql_soft_cancel_def Let_def split: if_splits)
    ultimately show "desk_inv d0 d'" using desk_inv_update [OF A, of ?p ?f] by simp
  qed (use assms in blast)
  then have "triple P (do { r \<leftarrow> stmt (sql_soft_cancel now h i reason fee u); State_Monad.return (must_affect r) }) (\<lambda>_. desk_inv d0)" for now
    by (rule triple_bind) (rule triple_return)
  then show ?thesis by (simp add: SoftCancelStay_def triple_def)
qed

subsection \<open>Handlers\<close>

text \<open>Rules that carry what a handler has read to the write that relies on it.\<close>

lemma triple_read: "keeps P m \<Longrightarrow> (\<And>x. triple P (f x) Q) \<Longrightarrow> triple P (State_Monad.bind m f) Q"
  unfolding keeps_triple by (rule triple_bind)

lemma triple_then_keeps: "triple P m (\<lambda>_. J) \<Longrightarrow> (\<And>x. keeps J (f x)) \<Longrightarrow> triple P (State_Monad.bind m f) (\<lambda>_. J)"
  unfolding keeps_triple by (rule triple_bind)

lemma triple_fail: "(\<And>d. P d \<Longrightarrow> J d) \<Longrightarrow> triple P (fail n msg) (\<lambda>_. J)"
  by (simp add: triple_def)

lemma triple_cases:
  "(\<And>e. triple P (f e) Q) \<Longrightarrow> (\<And>x. triple P (g x) Q) \<Longrightarrow> triple P (case s of Inl e \<Rightarrow> f e | Inr x \<Rightarrow> g x) Q"
  "triple P n Q \<Longrightarrow> (\<And>y. triple P (k y) Q) \<Longrightarrow> triple P (case opt of None \<Rightarrow> n | Some y \<Rightarrow> k y) Q"
  "(\<And>x y. triple P (l x y) Q) \<Longrightarrow> triple P (case pr of (x, y) \<Rightarrow> l x y) Q"
  by (simp_all split: sum.split option.split prod.split)

lemma triple_guarded:
  "(\<And>d. P d \<Longrightarrow> J d) \<Longrightarrow> triple P m (\<lambda>_. J) \<Longrightarrow> triple P (guarded g m) (\<lambda>_. J)"
  by (auto simp: guarded_def intro: triple_fail split: guard.split)

lemma triple_with_id:
  "(\<And>d. P d \<Longrightarrow> J d) \<Longrightarrow> (\<And>i. triple P (k i) (\<lambda>_. J)) \<Longrightarrow> triple P (with_id H raw k) (\<lambda>_. J)"
  unfolding with_id_def by (intro triple_cases triple_fail)

lemma triple_with_body:
  "(\<And>d. P d \<Longrightarrow> J d) \<Longrightarrow> (\<And>r. triple P (k r) (\<lambda>_. J)) \<Longrightarrow> triple P (with_body body k) (\<lambda>_. J)"
  unfolding with_body_def by (intro triple_cases triple_fail)

lemma triple_FindStayByID:
  "triple P (FindStayByID h i) (\<lambda>r d. P d \<and> (\<forall>sv. r = Inr sv \<longrightarrow> find_stay h i d = Some (fst sv)))"
  unfolding FindStayByID_def
  by (rule triple_bind [OF triple_query_row], rule triple_return) (auto simp: not_found_def enrich_def split: sum.splits)

lemma triple_FindRoomByID:
  "triple P (FindRoomByID h i) (\<lambda>r d. P d \<and> (\<forall>rm. r = Inr rm \<longrightarrow> find_room h i d = Some rm))"
  unfolding FindRoomByID_def
  by (rule triple_bind [OF triple_query_row], rule triple_return) (auto simp: not_found_def split: sum.splits)

lemma triple_with_stay:
  assumes "\<And>d. P d \<Longrightarrow> J d" "\<And>sv. triple (\<lambda>d. P d \<and> find_stay h i d = Some (fst sv)) (k sv) (\<lambda>_. J)"
  shows "triple P (with_stay h i k) (\<lambda>_. J)"
  unfolding with_stay_def
proof (rule triple_bind [OF triple_FindStayByID])
  fix r :: "goerr + stay_view"
  show "triple (\<lambda>d. P d \<and> (\<forall>sv. r = Inr sv \<longrightarrow> find_stay h i d = Some (fst sv)))
      (case r of Inl _ \<Rightarrow> fail 404 ''reservation not found'' | Inr s \<Rightarrow> k s) (\<lambda>_. J)"
    using assms by (cases r) (auto intro!: triple_fail)
qed

lemma triple_room:
  assumes "\<And>e. triple P (f e) Q" "\<And>rm. triple (\<lambda>d. P d \<and> find_room h i d = Some rm) (g rm) Q"
  shows "triple P (State_Monad.bind (FindRoomByID h i) (\<lambda>r. case r of Inl e \<Rightarrow> f e | Inr rm \<Rightarrow> g rm)) Q"
proof (rule triple_bind [OF triple_FindRoomByID])
  fix r :: "goerr + Room"
  show "triple (\<lambda>d. P d \<and> (\<forall>rm. r = Inr rm \<longrightarrow> find_room h i d = Some rm))
      (case r of Inl e \<Rightarrow> f e | Inr rm \<Rightarrow> g rm) Q"
    using assms by (cases r) simp_all
qed

lemma triple_inTx:
  assumes "\<And>d. P d \<Longrightarrow> J d" "triple P m (ok_post (\<lambda>_. J))"
  shows "triple P (inTx m) (\<lambda>_. J)"
  unfolding triple_def inTx_def
proof (intro allI impI)
  fix w :: world
  assume P: "P (w_db w)"
  show "J (w_db (snd (run_state (with_tx (\<lambda>e. e) (\<lambda>e. e) m) w)))"
  proof (cases rule: with_tx_result [of "\<lambda>e. e" "\<lambda>e. e" m w])
    case (committed a w1 w2 w')
    then show ?thesis using tripleD [OF assms(2), of w1] P by simp
  qed (use assms(1) P in simp)
qed

text \<open>The fields an edit writes do not touch the life of the stay or its room.\<close>

fun neutral :: "stay_field \<Rightarrow> bool" where
  "neutral (F_room_id _) = False"
| "neutral (F_actual_check_in _) = False"
| "neutral (F_actual_check_out _) = False"
| "neutral (F_status _) = False"
| "neutral _ = True"

lemma fold_neutral:
  "list_all neutral fs \<Longrightarrow> lifecycle_ok (fold (set_stay_field num) fs g) = lifecycle_ok g"
  "list_all neutral fs \<Longrightarrow> in_own_room d (fold (set_stay_field num) fs g) = in_own_room d g"
  "list_all neutral fs \<Longrightarrow> gs_status (fold (set_stay_field num) fs g) = gs_status g"
proof -
  have one: "neutral f \<Longrightarrow> gs_status (set_stay_field num f g) = gs_status g \<and>
      gs_actual_in (set_stay_field num f g) = gs_actual_in g \<and> gs_actual_out (set_stay_field num f g) = gs_actual_out g \<and>
      gs_room (set_stay_field num f g) = gs_room g \<and> gs_hotel (set_stay_field num f g) = gs_hotel g" for f g
    by (cases f) auto
  show "list_all neutral fs \<Longrightarrow> lifecycle_ok (fold (set_stay_field num) fs g) = lifecycle_ok g"
    by (induction fs arbitrary: g) (simp_all add: lifecycle_ok_def one)
  show "list_all neutral fs \<Longrightarrow> gs_status (fold (set_stay_field num) fs g) = gs_status g"
    by (induction fs arbitrary: g) (simp_all add: one)
  have "list_all neutral fs \<Longrightarrow> gs_room (fold (set_stay_field num) fs g) = gs_room g"
    by (induction fs arbitrary: g) (simp_all add: one)
  then show "list_all neutral fs \<Longrightarrow> in_own_room d (fold (set_stay_field num) fs g) = in_own_room d g"
    by (simp add: in_own_room_def)
qed

lemma neutral_update_fields: "list_all neutral (update_fields req)"
  by (auto simp: update_fields_def split: option.split)

lemma desk_inv_row: "desk_inv d0 d \<Longrightarrow> find_stay h i d = Some s \<Longrightarrow> lifecycle_ok s \<and> in_own_room d s \<and> gs_hotel s = h"
  using find_stayD [of h i d s] by (auto simp: desk_inv_def desk_wf_def list_all_iff)

lemma find_room_own: "find_room h r d = Some rm \<Longrightarrow> gs_room g = r \<Longrightarrow> gs_hotel g = h \<Longrightarrow> in_own_room d g"
  using find_roomD [of h r d rm] by (auto simp: in_own_room_def list_ex_iff)

text \<open>The tail of a transaction after its first write.\<close>

lemma triple_ok_then:
  assumes "triple P m (\<lambda>_. J)" "\<And>x. keeps J (f x)"
  shows "triple P (State_Monad.bind m (\<lambda>r. case r of Inl e \<Rightarrow> State_Monad.return (Inl (g e)) | Inr x \<Rightarrow> f x)) (ok_post (\<lambda>_. J))"
proof -
  have "keeps J (case r of Inl e \<Rightarrow> State_Monad.return (Inl (g e)) | Inr x \<Rightarrow> f x)" for r
    using assms(2) by (intro keeps_intros)
  then have "triple P (State_Monad.bind m (\<lambda>r. case r of Inl e \<Rightarrow> State_Monad.return (Inl (g e)) | Inr x \<Rightarrow> f x)) (\<lambda>_. J)"
    by (rule triple_then_keeps [OF assms(1)])
  then show ?thesis by (simp add: triple_def ok_post_def split: sum.split)
qed

lemma move_fields_row:
  assumes "find_stay h i d = Some s" "desk_inv d0 d" "find_room h r d = Some rm"
  shows "row_step d s (fold (set_stay_field num) (move_fields paid t rm s) s)"
proof -
  have "rm_id rm = r" using find_roomD [OF assms(3)] by simp
  then have "in_own_room d (s\<lparr>gs_room := rm_id rm\<rparr>)" "lifecycle_ok (s\<lparr>gs_room := rm_id rm\<rparr>)"
    using desk_inv_row [OF assms(2,1)] find_room_own [OF assms(3), of "s\<lparr>gs_room := rm_id rm\<rparr>"]
    by (simp_all add: lifecycle_ok_def)
  then show ?thesis
    by (simp add: move_fields_def Let_def row_step_def lifecycle_ok_def in_own_room_def)
qed

lemma move_tx_wf:
  assumes "\<And>d. P d \<Longrightarrow> desk_inv d0 d \<and> find_stay h i d = Some s \<and> find_room h r d = Some rm"
  shows "triple P (move_tx h i (move_fields paid t rm s) b r old gst) (ok_post (\<lambda>_. desk_inv d0))"
  unfolding move_tx_def
proof (rule triple_ok_then)
  show "triple P (UpdateStay h i (move_fields paid t rm s)) (\<lambda>_. desk_inv d0)"
    by (rule UpdateStay_wf) (use assms move_fields_row in blast)
qed (intro keeps_intros desk_wf_writes)

lemma checkin_tx_wf:
  assumes "\<And>d. P d \<Longrightarrow> desk_inv d0 d \<and> find_stay h i d = Some s" "gs_actual_in s = None" "gs_status s \<noteq> ReservationCancelled"
  shows "triple P (checkin_tx h i s now) (ok_post (\<lambda>_. desk_inv d0))"
  unfolding checkin_tx_def
proof (rule triple_ok_then)
  show "triple P (UpdateStay h i [F_actual_check_in now, F_status ReservationInHouse]) (\<lambda>_. desk_inv d0)"
  proof (rule UpdateStay_wf)
    fix d assume "P d"
    note A = assms(1) [OF this]
    then show "desk_inv d0 d \<and> find_stay h i d = Some s \<and>
        row_step d s (fold (set_stay_field (db_num d)) [F_actual_check_in now, F_status ReservationInHouse] s)"
      using desk_inv_row [of d0 d h i s] assms(2-) by (auto simp: row_step_def lifecycle_ok_def in_own_room_def stay_move_simps intro!: r_into_rtranclp)
  qed
qed (intro keeps_intros desk_wf_writes)

lemma checkout_tx_wf:
  assumes "\<And>d. P d \<Longrightarrow> desk_inv d0 d \<and> find_stay h i d = Some s" "gs_actual_in s \<noteq> None" "gs_actual_out s = None"
  shows "triple P (checkout_tx h i s f now) (ok_post (\<lambda>_. desk_inv d0))"
  unfolding checkout_tx_def
proof (rule triple_ok_then)
  show "triple P (UpdateStay h i [F_actual_check_out now, F_status ReservationCheckedOut]) (\<lambda>_. desk_inv d0)"
  proof (rule UpdateStay_wf)
    fix d assume "P d"
    note A = assms(1) [OF this]
    then show "desk_inv d0 d \<and> find_stay h i d = Some s \<and>
        row_step d s (fold (set_stay_field (db_num d)) [F_actual_check_out now, F_status ReservationCheckedOut] s)"
      using desk_inv_row [of d0 d h i s] assms(2-) by (auto simp: row_step_def lifecycle_ok_def in_own_room_def stay_move_simps intro!: r_into_rtranclp)
  qed
qed (intro keeps_intros desk_wf_writes)

lemmas triple_steps = triple_guarded triple_with_id triple_with_body triple_with_stay triple_if triple_fail

lemma CheckIn_wf: "keeps (desk_inv d0) (CheckIn H c idp)"
  unfolding keeps_triple CheckIn_def Let_def notifyCheckedIn_def
  by (rule triple_steps triple_read [OF keeps_time_Now] triple_then_keeps triple_inTx checkin_tx_wf
      | blast | simp | intro keeps_intros)+

lemma CheckOut_wf: "keeps (desk_inv d0) (CheckOut H c idp allow)"
  unfolding keeps_triple CheckOut_def Let_def
  by (rule triple_steps triple_read [OF keeps_time_Now] triple_read [OF keeps_folioOutstanding] triple_cases
        triple_then_keeps triple_inTx checkout_tx_wf
      | blast | simp | intro keeps_intros)+

lemma Cancel_wf: "keeps (desk_inv d0) (Cancel H c idp body)"
  unfolding keeps_triple Cancel_def Let_def
  by (rule triple_steps triple_read [OF keeps_reads(5)] triple_cases triple_then_keeps SoftCancel_wf
      | blast | simp | intro keeps_intros desk_wf_writes)+

lemma update_write_wf:
  assumes "list_all neutral fs"
  shows "triple (\<lambda>d. desk_inv d0 d \<and> find_stay h i d = Some s) (update_write h i fs) (\<lambda>_. desk_inv d0)"
proof -
  have upd: "triple (\<lambda>d. desk_inv d0 d \<and> find_stay h i d = Some s) (UpdateStay h i fs) (\<lambda>_. desk_inv d0)"
    using assms desk_inv_row by (intro UpdateStay_wf) (auto simp: row_step_def fold_neutral)
  show ?thesis
    unfolding update_write_def
    by (rule triple_if triple_fail triple_then_keeps [OF upd] | simp | intro keeps_intros)+
qed

lemma reprice_neutral: "triple P (reprice_fields h cur ci co) (\<lambda>fs d. P d \<and> list_all neutral fs)"
proof -
  have gst: "triple P (gst_or_zero h) (\<lambda>_. P)" by (rule triple_keeps [OF keeps_gst_or_zero])
  have room: "triple P (FindRoomByID h (gs_room cur)) (\<lambda>_. P)" by (rule triple_keeps [OF keeps_reads(2)])
  show ?thesis
    unfolding reprice_fields_def Let_def
    by (rule triple_bind [OF room], rule triple_cases, rule triple_return, simp,
        rule triple_bind [OF gst], rule triple_return) simp
qed

lemma Update_wf: "keeps (desk_inv d0) (Update H c idp body)"
proof -
  have reprice: "triple (\<lambda>d. desk_inv d0 d \<and> find_stay h i d = Some (fst sv))
      (do { price \<leftarrow> reprice_fields h cur ci co; update_write h i (price @ update_fields req) }) (\<lambda>_. desk_inv d0)"
    for h i sv cur ci co req
    by (rule triple_bind [OF reprice_neutral], rule triple_pure, rule update_write_wf)
       (simp add: neutral_update_fields)
  show ?thesis
    unfolding keeps_triple Update_def Let_def
    by (rule triple_steps update_write_wf [OF neutral_update_fields] reprice triple_read [OF keeps_reads(5)]
          triple_read [OF keeps_reads(3)] triple_cases | blast | simp)+
qed

lemma MoveRoom_wf: "keeps (desk_inv d0) (MoveRoom H c idp body)"
  unfolding keeps_triple MoveRoom_def Let_def
  by (rule triple_steps triple_room triple_read [OF keeps_reads(3)] triple_read [OF keeps_reads(5)]
        triple_read [OF keeps_if [OF keeps_return keeps_gst_or_zero]] triple_cases
        triple_then_keeps triple_inTx move_tx_wf
      | blast | simp | intro keeps_intros)+

lemma CreateStay_wf:
  assumes "gs_actual_in s = None" "gs_actual_out s = None" "gs_room s = r"
  shows "triple (\<lambda>d. desk_inv d0 d \<and> find_room h r d = Some rm) (CreateStay h (Some ReservationConfirmed) s) (\<lambda>_. desk_inv d0)"
  unfolding CreateStay_def
proof (rule triple_bind [OF triple_uuid_New [of _ "\<lambda>_ d. desk_inv d0 d \<and> find_room h r d = Some rm"]], assumption, rule triple_stmt)
  fix i d a d'
  let ?s = "s\<lparr>gs_id := i, gs_hotel := h,
       gs_status := (case Some ReservationConfirmed of None \<Rightarrow> ReservationConfirmed | Some st \<Rightarrow> st),
       gs_adults := (if gs_adults s \<le> 0 then 1 else gs_adults s),
       gs_approach := (if gs_approach s = [] then ''manual'' else gs_approach s),
       gs_cancelled_at := None, gs_cancel_reason := None, gs_cancel_fee := 0, gs_cancelled_by := None\<rparr>"
  assume P: "desk_inv d0 d \<and> find_room h r d = Some rm" and ins: "sql_insert_stay ?s d = Inr (a, d')"
  let ?n = "numeric_stay (db_num d) ?s"
  have d': "d' = d\<lparr>stays := stays d @ [?n]\<rparr>" and new: "stay_row_ok ?s" "\<forall>x \<in> set (stays d). gs_id x \<noteq> i"
    using ins unfolding sql_insert_stay_def Let_def by (auto simp: list_ex_iff split: if_splits)
  have "in_own_room d ?n" using find_room_own [of h r d rm ?n] P assms(3) by (simp add: numeric_stay_def)
  moreover have "lifecycle_ok ?n" using assms(1,2) by (simp add: lifecycle_ok_def numeric_stay_def)
  moreover have "stay_row_ok ?n" using new(1) by (simp add: stay_row_ok_def numeric_stay_def)
  ultimately show "desk_inv d0 d'"
    using P new(2) unfolding d' desk_inv_def desk_wf_def list_all_iff in_own_room_def by (auto simp: numeric_stay_def)
qed simp

lemma create_tx_wf:
  assumes "gs_actual_in s = None" "gs_actual_out s = None" "gs_room s = r"
  shows "triple (\<lambda>d. desk_inv d0 d \<and> find_room h r d = Some rm) (create_tx h req s promo quote) (\<lambda>_. desk_inv d0)"
proof -
  let ?P = "\<lambda>d. desk_inv d0 d \<and> find_room h r d = Some rm"
  have g: "keeps ?P (EnsureGuest h n e p)" for n e p
    by (rule EnsureGuest_keeps) (simp add: find_room_def)
  have i: "keeps ?P (if b then SetGuestIdentity h k t n else State_Monad.return (Inr ()))" for b k t n
    unfolding SetGuestIdentity_def by (intro keeps_intros) (simp add: sql_guest_identity_def find_room_def)
  show ?thesis
    unfolding create_tx_def
    by (rule triple_read [OF g] triple_read [OF i] triple_cases triple_return
          triple_then_keeps [OF CreateStay_wf [OF assms]]
        | intro keeps_intros desk_wf_writes desk_wf_settle | simp)+
qed

lemma create_write_wf:
  "triple (\<lambda>d. desk_inv d0 d \<and> find_room h r d = Some rm) (create_write H h req rm ci co promo t) (\<lambda>_. desk_inv d0)"
  (is "triple ?P _ _")
proof -
  have tx: "triple ?P (inTx (create_tx h req (new_stay req i (rm_id rm) ci co q conf) promo q)) (\<lambda>_. desk_inv d0)" for i q conf
  proof (rule triple_inTx)
    have "triple ?P (create_tx h req (new_stay req i (rm_id rm) ci co q conf) promo q) (\<lambda>_. desk_inv d0)"
    proof (cases "rm_id rm = r")
      case True
      then show ?thesis by (intro create_tx_wf) (simp_all add: new_stay_def)
    next
      case False
      then show ?thesis using find_roomD by (auto simp: triple_def)
    qed
    then show "triple ?P (create_tx h req (new_stay req i (rm_id rm) ci co q conf) promo q) (ok_post (\<lambda>_. desk_inv d0))"
      by (simp add: triple_def ok_post_def split: sum.split)
  qed simp
  show ?thesis
    unfolding create_write_def Let_def notifyBookingConfirmed_def
    by (rule triple_cases triple_fail triple_read [OF keeps_newConfirmationNo] triple_read [OF keeps_uuid_New]
          triple_then_keeps [OF tx] | intro keeps_intros | simp)+
qed

lemma Create_wf: "keeps (desk_inv d0) (Create H c body)"
  unfolding keeps_triple Create_def Let_def
  by (rule triple_steps triple_room create_write_wf triple_read [OF keeps_reads(3)]
        triple_read [OF keeps_gst_or_zero] triple_read [OF keeps_resolvePromo] triple_cases
      | simp)+

lemma serve_inv: "keeps (desk_inv d0) (serve H c r)"
  by (cases r) (simp_all add: keeps_answered serve_reads Create_wf Update_wf Cancel_wf CheckIn_wf CheckOut_wf MoveRoom_wf)

lemma history_inv:
  assumes "desk_history H T d d'" "desk_wf d"
  shows "desk_inv d d'"
  using assms
proof (induction rule: desk_history.induct)
  case start
  then show ?case by (rule desk_inv_refl)
next
  case (step d1 h d2)
  then have I: "desk_inv d d1" by simp
  from step(3) show ?case
  proof (cases rule: desk_step.cases)
    case (request c r w ok w')
    then have "run_state (serve H c r) w = (ok, w')" "d1 = w_db w" "d2 = w_db w'" by simp_all
    then show ?thesis using serve_inv [of d H c r] I unfolding keeps_def by (metis snd_conv)
  qed
qed

text \<open>A reservation that is checked out or cancelled has come to rest.\<close>

lemma stay_move_terminal: "rtranclp stay_move s t \<Longrightarrow> s \<in> {ReservationCheckedOut, ReservationCancelled} \<Longrightarrow> t = s"
  by (induction rule: rtranclp_induct) (auto simp: stay_move_simps)

subsection \<open>Properties\<close>

text \<open>C3: the reservation handlers implement the reservation state machine. Through every history of
  requests the rows stay well formed (the status agrees with the two arrival and departure times,
  dates and occupancy are sound, every stay is in a room of its own tenant, identifiers are
  unique), no reservation disappears, and each one only ever moves along the machine: it arrives or
  is cancelled before arrival, departs after arrival, and a departed or cancelled reservation never
  changes its status again.\<close>

theorem handlers_refine_stay_machine:
  assumes "desk_history H T d d'" "desk_wf d"
  shows "(desk_wf d') \<and>
    (find_stay h i d = Some s \<longrightarrow> (\<exists>s'. find_stay h i d' = Some s' \<and> rtranclp stay_move (gs_status s) (gs_status s') \<and>
      (gs_status s \<in> {ReservationCheckedOut, ReservationCancelled} \<longrightarrow> gs_status s' = gs_status s)))"
proof (intro conjI)
  have I: "desk_inv d d'" by (rule history_inv [OF assms])
  then show wf: "desk_wf d'" by (rule desk_inv_wf)
  show "find_stay h i d = Some s \<longrightarrow> (\<exists>s'. find_stay h i d' = Some s' \<and> rtranclp stay_move (gs_status s) (gs_status s') \<and>
      (gs_status s \<in> {ReservationCheckedOut, ReservationCancelled} \<longrightarrow> gs_status s' = gs_status s))"
  proof
    assume "find_stay h i d = Some s"
    note s = find_stayD [OF this]
    obtain s' where s': "s' \<in> set (stays d')" "moves_to s s'" using I s by (auto simp: desk_inv_def)
    then have "find_stay h i d' \<noteq> None"
      using s by (auto simp: find_stay_def find_None_iff moves_to_def)
    then obtain x where x: "find_stay h i d' = Some x" by blast
    have "x = s'"
      using distinct_map_eqI [of gs_id "stays d'" x s'] wf find_stayD [OF x] s s' by (auto simp: desk_wf_def moves_to_def)
    then show "\<exists>s'. find_stay h i d' = Some s' \<and> rtranclp stay_move (gs_status s) (gs_status s') \<and>
      (gs_status s \<in> {ReservationCheckedOut, ReservationCancelled} \<longrightarrow> gs_status s' = gs_status s)"
      using x s' stay_move_terminal by (auto simp: moves_to_def)
  qed
qed

theorem handlers_refine_stay_machine_witness:
  "desk_wf desk_db \<and> desk_wf checked_in_db \<and>
   (\<exists>s'. find_stay 7 5 checked_in_db = Some s' \<and> rtranclp stay_move ReservationConfirmed (gs_status s') \<and>
      gs_status s' = ReservationInHouse)"
proof -
  have wf: "desk_wf desk_db" and st: "map_option gs_status (find_stay 7 5 desk_db) = Some ReservationConfirmed"
    and st': "map_option gs_status (find_stay 7 5 checked_in_db) = Some ReservationInHouse" by code_simp+
  obtain s where s: "find_stay 7 5 desk_db = Some s" "gs_status s = ReservationConfirmed" using st by auto
  note H = checked_in_history [of "{7}", simplified]
  show ?thesis
    using wf handlers_refine_stay_machine [OF H wf, of 7 5 s] s st'
    by auto
qed

end
