(* ===== verification/Books.thy ===== *)
theory Books
  imports Lifecycle
begin

text \<open>
  The books behind the front desk: what a booking stores, posts and prints is one price, and the
  ledger of the server stays balanced through every history of reservation requests.
\<close>

subsection \<open>Prices\<close>

text \<open>Room prices of whole cents up to a million, tax rates between 0 and 100 percent, and promo
  values that are not negative: what the screens that maintain these tables accept.\<close>

definition price_ok :: "rat \<Rightarrow> bool" where
  "price_ok v \<longleftrightarrow> (\<exists>r. 0 \<le> r \<and> r \<le> 10 ^ 8 \<and> v = cents r)"

definition tariff_ok :: "db \<Rightarrow> bool" where
  "tariff_ok d \<longleftrightarrow> (\<forall>r \<in> set (rooms d). price_ok (rm_price r)) \<and>
     (\<forall>x \<in> set (hotels d). \<forall>v. h_gst_rate x = Some v \<longrightarrow> 0 \<le> v \<and> v \<le> 100) \<and>
     (\<forall>p \<in> set (promotions d). 0 \<le> pr_value p)"

lemma nights_bound: "1 \<le> stay_nights ci co \<and> stay_nights ci co \<le> 106752"
proof -
  have "whole_days (sub_ns a b) \<le> 106752" for a b
  proof -
    let ?x = "sub_ns a b"
    have x: "?x \<le> 2 ^ 63 - 1" "- (2 ^ 63) \<le> ?x" by (simp_all add: sub_ns_def)
    show ?thesis
    proof (cases "0 < ?x")
      case True
      then have "\<bar>?x\<bar> div (day_secs * 1000000000) \<le> (2 ^ 63) div (day_secs * 1000000000)"
        using x by (intro zdiv_mono1) auto
      then show ?thesis using True by (simp add: whole_days_def)
    next
      case False
      have "0 \<le> \<bar>?x\<bar> div (day_secs * 1000000000)" by simp
      then have "whole_days ?x \<le> 0"
        using False unfolding whole_days_def by (auto simp: sgn_if)
      then show ?thesis by simp
    qed
  qed
  then show ?thesis by (simp add: stay_nights_def CalendarNights_def)
qed

lemma price_in_range:
  assumes "0 \<le> r" "r \<le> 10 ^ 8"
  shows "cent_range (2 * (r * stay_nights ci co) + 1)"
proof -
  have "r * stay_nights ci co \<le> 10 ^ 8 * 106752"
    using assms nights_bound [of ci co] by (intro mult_mono) auto
  moreover have "0 \<le> r * stay_nights ci co" using assms nights_bound [of ci co] by simp
  ultimately show ?thesis by simp
qed

lemma quote_of_tariff:
  assumes "price_ok v" "0 \<le> rate" "rate \<le> 100" "0 \<le> D" "cent_range D"
  shows "cent_quote (priceStay v ci co rate (cents D))"
proof -
  obtain r where r: "0 \<le> r" "r \<le> 10 ^ 8" "v = cents r" using assms(1) by (auto simp: price_ok_def)
  have "stay_nights ci co \<le> 10 ^ 14" using nights_bound [of ci co] by simp
  then show ?thesis
    unfolding r(3) by (intro priceStay_cent_quote assms price_in_range r)
qed

definition cent_discount :: "promoResult \<Rightarrow> bool" where
  "cent_discount p \<longleftrightarrow> (\<exists>D. 0 \<le> D \<and> cent_range D \<and> o_discount p = cents D)"

lemma cent_discount_none: "o_discount p = 0 \<Longrightarrow> cent_discount p"
  unfolding cent_discount_def by (intro exI [of _ 0]) simp

lemma promo_discount_cents:
  assumes "0 \<le> b" "cent_range b" "0 \<le> pr_value p"
  shows "\<exists>D. 0 \<le> D \<and> cent_range D \<and> promo_discount p (cents b) = cents D"
proof -
  have v: "0 \<le> (if EqualFold (pr_type p) ''percentage'' then fdiv (fmul (cents b) (pr_value p)) 100 else pr_value p)"
    using assms by (auto simp: fdiv_def fmul_def intro!: f64.nonneg divide_nonneg_pos mult_nonneg_nonneg)
  have "\<exists>x. promo_discount p (cents b) = round2 x \<and> 0 \<le> x \<and> x \<le> cents b"
    unfolding promo_discount_def Let_def
    by (intro exI conjI, rule refl) (use v assms in \<open>auto split: option.split\<close>)
  then obtain x where x: "promo_discount p (cents b) = cents (to_cents x)" "0 \<le> x" "x \<le> cents b"
    by (auto simp: round2_eq_cents)
  have "0 \<le> to_cents x" "to_cents x \<le> b"
    using to_cents_nonneg [OF x(2)] to_cents_mono [OF x(3)] assms(2) by simp_all
  with x(1) assms(2) show ?thesis by (intro exI [of _ "to_cents x"]) auto
qed

subsection \<open>What a request reads\<close>

lemma gst_or_zero_rate:
  "triple (\<lambda>d. P d \<and> tariff_ok d) (gst_or_zero h) (\<lambda>t d. (P d \<and> tariff_ok d) \<and> 0 \<le> t \<and> t \<le> 100)"
proof -
  let ?P = "\<lambda>d. P d \<and> tariff_ok d"
  have rate: "triple ?P (HotelGSTRate h) (\<lambda>r d. ?P d \<and> (\<forall>v. r = Inr v \<longrightarrow> 0 \<le> v \<and> v \<le> 100))"
    unfolding HotelGSTRate_def
  proof (rule triple_bind [OF triple_query_row], rule triple_return)
    fix r :: "goerr + rat" and d
    assume "?P d \<and> (\<forall>a. r = Inr a \<longrightarrow> map_option (\<lambda>x. case h_gst_rate x of None \<Rightarrow> 0 | Some v \<Rightarrow> v)
        (find (\<lambda>x. h_id x = h) (hotels d)) = Some a) \<and> (r = Inl NoRows \<longrightarrow>
        map_option (\<lambda>x. case h_gst_rate x of None \<Rightarrow> 0 | Some v \<Rightarrow> v) (find (\<lambda>x. h_id x = h) (hotels d)) = None)"
    then show "?P d \<and> (\<forall>v. not_found r = Inr v \<longrightarrow> 0 \<le> v \<and> v \<le> 100)"
      by (auto simp: not_found_def tariff_ok_def dest!: find_SomeD split: sum.splits option.splits)
  qed
  show ?thesis
    unfolding gst_or_zero_def
    by (rule triple_bind [OF rate], rule triple_return) (auto split: sum.split)
qed

lemma resolvePromo_discount:
  assumes "0 \<le> b" "cent_range b"
  shows "triple (\<lambda>d. P d \<and> tariff_ok d) (resolvePromo h code (cents b) n)
    (\<lambda>r d. (P d \<and> tariff_ok d) \<and> (\<forall>promo. r = Inr promo \<longrightarrow> cent_discount promo))"
proof -
  let ?P = "\<lambda>d. P d \<and> tariff_ok d"
  let ?Q = "\<lambda>r d. ?P d \<and> (\<forall>p. r = Inr p \<longrightarrow> 0 \<le> pr_value p)"
  have found: "triple ?P (query_row (find_promo h c)) ?Q" for c
    by (rule triple_conseq [OF triple_query_row [of ?P]])
       (auto simp: find_promo_def tariff_ok_def dest!: find_SomeD)
  have now: "triple (?Q r) time_Now (\<lambda>_. ?Q r)" for r :: "goerr + Promotion"
    by (rule triple_keeps [OF keeps_time_Now])
  have disc: "cent_discount x" if "0 \<le> pr_value p" "o_discount x = promo_discount p (cents b)" for x p
    using promo_discount_cents [OF assms that(1)] that(2) by (auto simp: cent_discount_def)
  show ?thesis
    unfolding resolvePromo_def Let_def
    by (rule triple_if, rule triple_return, force intro: cent_discount_none,
        rule triple_bind [OF found], rule triple_bind [OF now], rule triple_return)
       (auto intro: cent_discount_none disc split: sum.splits goerr.splits option.splits)
qed

subsection \<open>The books\<close>

definition books_ok :: "db \<Rightarrow> bool" where
  "books_ok d \<longleftrightarrow> ledger_balanced d \<and> tariff_ok d"

lemma books_ok_upd [simp]:
  "books_ok (d\<lparr>stays := x1\<rparr>) = books_ok d" "books_ok (d\<lparr>guests := x2\<rparr>) = books_ok d"
  "books_ok (d\<lparr>folios := x3\<rparr>) = books_ok d" "books_ok (d\<lparr>tasks := x4\<rparr>) = books_ok d"
  by (simp_all add: books_ok_def tariff_ok_def)

interpretation desk_books: desk_writes h books_ok for h
proof (intro desk_writes.intro EnsureGuest_keeps EnsureFolio_keeps)
  show "stmt_keeps books_ok (sql_redeem h pid)" for pid
    by (auto simp: desk_stmt_defs books_ok_def tariff_ok_def set_upd_where split: if_splits)
  show "stmt_keeps books_ok (sql_room_status h room st)" for room st
    by (auto simp: desk_stmt_defs books_ok_def tariff_ok_def set_upd_where)
qed (auto simp: desk_stmt_defs split: if_splits)

lemma keeps_ok_conj:
  assumes "keeps_ok A m" "keeps B m"
  shows "keeps_ok (\<lambda>d. A d \<and> B d) m"
  using assms unfolding keeps_ok_def triple_def keeps_def ok_post_def by (auto split: sum.split)

lemma settle_books:
  assumes "cent_quote q"
  shows "keeps_ok books_ok (settleReservation h s pay q)"
proof -
  have "keeps tariff_ok (settleReservation h s pay q)"
    by (rule settlement_invariant.settleReservation_keeps [OF settlement_invariant_frame])
       (simp add: ignores_settlement_def ignores_ledger_def tariff_ok_def)
  from keeps_ok_conj [OF settleReservation_balanced [OF assms] this]
  show ?thesis by (simp add: books_ok_def [abs_def])
qed

lemma create_tx_books:
  assumes "cent_quote quote"
  shows "keeps_ok books_ok (create_tx h req stay promo quote)"
proof -
  note ok = desk_books.guest [THEN keeps_ok_keeps] desk_books.CreateStay_keeps [THEN keeps_ok_keeps]
    keeps_redeemPromo [OF desk_books.redeem, THEN keeps_ok_keeps] keeps_return [THEN keeps_ok_keeps]
    desk_books.SetGuestIdentity_keeps [THEN keeps_ok_keeps] settle_books [OF assms]
  show ?thesis
    unfolding create_tx_def
    by (rule keeps_ok_bind [OF ok(1)] keeps_ok_bind [OF ok(2)] keeps_ok_bind [OF keeps_ok_if] keeps_ok_option ok
        keeps_ok_map [OF ok(6)])+
qed

lemma create_write_books:
  assumes "price_ok (rm_price rm)" "0 \<le> t" "t \<le> 100" "cent_discount promo"
  shows "keeps books_ok (create_write H h req rm ci co promo t)"
proof -
  obtain D where "0 \<le> D" "cent_range D" "o_discount promo = cents D" using assms(4) by (auto simp: cent_discount_def)
  then have "cent_quote (priceStay (rm_price rm) ci co t (o_discount promo))"
    using quote_of_tariff [OF assms(1-3)] by simp
  then show ?thesis
    unfolding create_write_def notifyBookingConfirmed_def Let_def
    by (intro keeps_intros create_tx_books)
qed

lemma priced_base:
  assumes "price_ok v" "0 \<le> t" "t \<le> 100"
  shows "\<exists>b. 0 \<le> b \<and> cent_range b \<and> q_base (priceStay v ci co t 0) = cents b"
proof -
  obtain r where r: "0 \<le> r" "r \<le> 10 ^ 8" "v = cents r" using assms(1) by (auto simp: price_ok_def)
  have n: "1 \<le> stay_nights ci co" "stay_nights ci co \<le> 10 ^ 14" using nights_bound [of ci co] by auto
  have R: "cent_range r" "cent_range (r * stay_nights ci co)"
    using price_in_range [OF r(1,2), of ci co] r n(1) by (auto simp: mult_nonneg_nonneg)
  have "\<exists>b D T. b = r * stay_nights ci co \<and> q_base (priceStay (cents r) ci co t (cents 0)) = cents b"
    using priceStay_cents [OF r(1) R n(2), of 0 t] assms(2,3) by auto
  then show ?thesis using r R n by (intro exI [of _ "r * stay_nights ci co"]) auto
qed

lemma find_room_price: "books_ok d \<Longrightarrow> find_room h r d = Some rm \<Longrightarrow> price_ok (rm_price rm)"
  using find_roomD [of h r d rm] by (auto simp: books_ok_def tariff_ok_def)

lemma Create_books: "keeps books_ok (Create H c body)"
proof -
  have promo: "triple books_ok (do { rp \<leftarrow> resolvePromo h code (q_base (priceStay (rm_price rm) ci co t 0)) n;
      case rp of Inl _ \<Rightarrow> fail 500 ''failed to validate promo code''
      | Inr promo \<Rightarrow> if \<not> o_valid promo then fail 400 (o_message promo)
          else create_write H h req rm ci co promo t }) (\<lambda>_. books_ok)"
    if p: "price_ok (rm_price rm)" "0 \<le> t" "t \<le> 100" for h code rm ci co t n req
  proof -
    obtain b where b: "0 \<le> b" "cent_range b" "q_base (priceStay (rm_price rm) ci co t 0) = cents b"
      using priced_base [OF p] by blast
    have "triple (\<lambda>d. books_ok d \<and> (\<forall>promo. rp = Inr promo \<longrightarrow> cent_discount promo))
        (case rp of Inl _ \<Rightarrow> fail 500 ''failed to validate promo code''
         | Inr promo \<Rightarrow> if \<not> o_valid promo then fail 400 (o_message promo)
          else create_write H h req rm ci co promo t) (\<lambda>_. books_ok)" for rp
      using triple_keeps [OF create_write_books [OF p]]
      by (cases rp) (auto intro!: triple_fail triple_pure)
    then show ?thesis
      unfolding b(3)
      by (rule triple_bind [OF resolvePromo_discount [OF b(1,2), of ledger_balanced, folded books_ok_def]])
  qed
  have none: "cent_discount no_promo" by (rule cent_discount_none) (simp add: no_promo_def)
  have priced: "triple (\<lambda>d. books_ok d \<and> find_room h r d = Some rm) (do { taxRate \<leftarrow> gst_or_zero h;
       if TrimSpace (r_promo req) = [] then create_write H h req rm ci co no_promo taxRate
       else do { rp \<leftarrow> resolvePromo h (r_promo req) (q_base (priceStay (rm_price rm) ci co taxRate 0)) (CalendarNights ci co);
         case rp of Inl _ \<Rightarrow> fail 500 ''failed to validate promo code''
         | Inr promo \<Rightarrow> if \<not> o_valid promo then fail 400 (o_message promo)
           else create_write H h req rm ci co promo taxRate } }) (\<lambda>_. books_ok)" for h r rm req ci co
  proof (cases "price_ok (rm_price rm)")
    case p: True
    have rate: "triple books_ok (gst_or_zero h) (\<lambda>t d. books_ok d \<and> (0 \<le> t \<and> t \<le> 100))"
      using gst_or_zero_rate [of ledger_balanced h] by (simp add: books_ok_def [abs_def] conj_assoc)
    have "triple (\<lambda>d. books_ok d \<and> (0 \<le> t \<and> t \<le> 100)) (if TrimSpace (r_promo req) = [] then create_write H h req rm ci co no_promo t
       else do { rp \<leftarrow> resolvePromo h (r_promo req) (q_base (priceStay (rm_price rm) ci co t 0)) (CalendarNights ci co);
         case rp of Inl _ \<Rightarrow> fail 500 ''failed to validate promo code''
         | Inr promo \<Rightarrow> if \<not> o_valid promo then fail 400 (o_message promo)
           else create_write H h req rm ci co promo t }) (\<lambda>_. books_ok)" for t
      using triple_keeps [OF create_write_books [OF p _ _ none]] promo [OF p]
      by (intro triple_pure triple_if) auto
    from triple_bind [OF rate this] show ?thesis by (rule triple_conseq) auto
  next
    case False
    then show ?thesis using find_room_price by (auto simp: triple_def)
  qed
  show ?thesis
    unfolding keeps_triple Create_def Let_def
    by (rule triple_steps triple_room priced triple_read [OF keeps_reads(3)] triple_cases | simp)+
qed

lemma serve_books: "tenantHotelID (rh_lib H) c = h \<Longrightarrow> keeps books_ok (serve H c r)"
  by (cases r) (simp_all add: keeps_answered serve_reads Create_books desk_books.edits_keep)

subsection \<open>Properties\<close>

text \<open>C8: the books of the hotel stay balanced. With room prices of whole cents, tax rates between 0
  and 100 percent and promo values that are not negative, every history of reservation requests
  keeps the sum of all debits equal to the sum of all credits, to the cent, although every amount
  is computed in binary floating point: the receivable or cash leg of a booking is exactly the
  room revenue plus the tax, whatever rate, discount and rounding led to them.\<close>

theorem books_stay_balanced:
  assumes "desk_history H T d d'" "ledger_balanced d" "tariff_ok d"
  shows "ledger_balanced d'"
proof -
  have "books_ok d'"
    using assms
  proof (induction rule: desk_history.induct)
    case start
    then show ?case by (simp add: books_ok_def)
  next
    case (step d1 h d2)
    then have d1: "books_ok d1" by simp
    from step(3) show ?case
    proof (cases rule: desk_step.cases)
      case (request c r w ok w')
      then show ?thesis using serve_books [of H c h r] d1 unfolding keeps_def by (metis snd_conv)
    qed
  qed
  then show ?thesis by (simp add: books_ok_def)
qed

definition booking_request :: createReservationRequest where
  "booking_request = \<lparr>r_guest_name = ''Raj'', r_guest_email = [], r_guest_phone = ''9811122333'', r_room_id = ''2'',
     r_check_in = ''2024-03-01'', r_check_out = ''2024-03-03'', r_source = [], r_notes = [], r_adults = 2, r_children = 0,
     r_approach = [], r_nights = 0, r_promo = [], r_in_time = [], r_out_time = [], r_id_type = [], r_id_number = [],
     r_payment = Some \<lparr>p_method = ''cash'', p_amount = 0, p_upi = [], p_txn = [], p_last4 = [], p_auth = [], p_cash = 6000\<rparr>\<rparr>"

lemma desk_db_books: "ledger_balanced desk_db" "tariff_ok desk_db"
proof -
  have "price_ok (cents 249999)" by (auto simp: price_ok_def intro!: exI [of _ 249999])
  then show "tariff_ok desk_db"
    by (simp add: tariff_ok_def desk_db_def booked_db_def empty_db_def room_sample_def)
  show "ledger_balanced desk_db"
    by (simp add: ledger_balanced_def numeric_exact_def desk_db_def booked_db_def empty_db_def ledger_net_def)
qed

text \<open>A guest checks in, and another books two nights of March and pays in cash.\<close>

theorem books_stay_balanced_witness:
  "ledger_balanced (w_db (snd (run_state (serve desk_handler desk_ctx (Req_Create (Some booking_request)))
     (start checked_in_db 1709000000)))) \<and> checked_in_db \<noteq> desk_db"
proof -
  let ?r = "run_state (serve desk_handler desk_ctx (Req_Create (Some booking_request))) (start checked_in_db 1709000000)"
  have "desk_step desk_handler 7 checked_in_db (w_db (snd ?r))"
    using request [OF desk_tenant_7, of "Req_Create (Some booking_request)" "start checked_in_db 1709000000"]
    by (metis prod.collapse start_simps(1))
  then have "desk_history desk_handler {7} desk_db (w_db (snd ?r))"
    using checked_in_history [of "{7}"] by (auto intro: desk_history.step)
  from books_stay_balanced [OF this desk_db_books]
  have "ledger_balanced (w_db (snd ?r))" .
  moreover have "map gs_status (stays checked_in_db) = [ReservationInHouse]"
    "map gs_status (stays desk_db) = [ReservationConfirmed]" by code_simp+
  ultimately show ?thesis by auto
qed

end
