(* ===== verification/Arrivals.thy ===== *)
theory Arrivals
  imports Books
begin

text \<open>
  Arrival and departure: what a successful check-in and check-out have done, row by row. The
  statements hold for every infrastructure fault a request can meet: a check-in or check-out that
  answers with success has done all of it.
\<close>

subsection \<open>Effects of the writes\<close>

definition stay_written :: "uuid \<Rightarrow> uuid \<Rightarrow> stay_field list \<Rightarrow> db \<Rightarrow> db" where
  "stay_written h i fs d = d\<lparr>stays := upd_where (\<lambda>g. gs_id g = i \<and> gs_hotel g = h)
     (fold (set_stay_field (db_num d)) fs) (stays d)\<rparr>"

definition room_marked :: "uuid \<Rightarrow> uuid \<Rightarrow> RoomStatus \<Rightarrow> db \<Rightarrow> db" where
  "room_marked h r st d = d\<lparr>rooms := upd_where (\<lambda>x. rm_hotel x = h \<and> rm_id x = r) (\<lambda>x. x\<lparr>rm_status := st\<rparr>) (rooms d)\<rparr>"

lemma UpdateStay_effect: "triple (\<lambda>d. d = d0) (UpdateStay h i fs) (ok_post (\<lambda>_ d. d = stay_written h i fs d0))"
proof -
  have "triple (\<lambda>d. d = d0) (stmt (sql_update_stay h i fs)) (ok_post (\<lambda>_ d. d = stay_written h i fs d0))"
    by (rule triple_stmt_ok) (auto simp: sql_update_stay_def stay_written_def Let_def split: if_splits)
  then show ?thesis
    unfolding UpdateStay_def
    by (rule triple_bind) (auto simp: must_affect_def triple_def ok_post_def split: sum.splits)
qed

lemma UpdateRoomStatus_effect:
  "triple (\<lambda>d. d = d0) (UpdateRoomStatus h r st)
    (ok_post (\<lambda>_ d. d = room_marked h r st d0 \<and> (\<exists>x \<in> set (rooms d0). rm_hotel x = h \<and> rm_id x = r)))"
proof -
  have "triple (\<lambda>d. d = d0) (stmt (sql_room_status h r st))
      (ok_post (\<lambda>n d. d = room_marked h r st d0 \<and> n = affected (\<lambda>x. rm_hotel x = h \<and> rm_id x = r) (rooms d0)))"
    by (rule triple_stmt_ok) (simp add: sql_room_status_def room_marked_def Let_def)
  then show ?thesis
    unfolding UpdateRoomStatus_def
    by (rule triple_bind) (auto simp: must_affect_def triple_def ok_post_def affected_pos split: sum.splits)
qed

lemma triple_exec_ok: "triple (\<lambda>d. d = d0) (exec f) (ok_post (\<lambda>_ d. d = f d0))"
  by (rule triple_exec) simp_all

lemma raise_task_effect:
  "triple (\<lambda>d. d = d0) (raise_checkout_task h r msg) (ok_post (\<lambda>_ d. \<exists>k. d = sql_checkout_task k h r msg d0))"
  unfolding raise_checkout_task_def
  by (rule triple_bind [OF triple_uuid_New [of _ "\<lambda>_ d. d = d0"]], assumption,
      rule triple_conseq [OF triple_exec_ok [of d0]]) (auto simp: ok_post_def split: sum.split)

text \<open>The database a departure leaves behind.\<close>

definition left_behind :: "uuid \<Rightarrow> uuid \<Rightarrow> GuestStay \<Rightarrow> uuid \<Rightarrow> time \<Rightarrow> uuid \<Rightarrow> db \<Rightarrow> db" where
  "left_behind h i s f now k d =
     sql_checkout_task k h (gs_room s) (''Departure - '' @ gs_name s)
       ((if f \<noteq> uuid_Nil then sql_close_folio h f else id)
         (room_marked h (gs_room s) RoomStatusCleaning
           (stay_written h i [F_actual_check_out now, F_status ReservationCheckedOut] d)))"

lemma checkout_tx_effect:
  "triple (\<lambda>d. d = d0) (checkout_tx h i s f now) (ok_post (\<lambda>_ d. \<exists>k. d = left_behind h i s f now k d0))"
  unfolding checkout_tx_def left_behind_def
proof (rule triple_bind_ok [OF UpdateStay_effect], rule triple_bind_ok, rule triple_conseq)
  let ?d1 = "stay_written h i [F_actual_check_out now, F_status ReservationCheckedOut] d0"
  let ?d2 = "room_marked h (gs_room s) RoomStatusCleaning ?d1"
  show "triple (\<lambda>d. d = ?d1) (UpdateRoomStatus h (gs_room s) RoomStatusCleaning) (ok_post (\<lambda>_ d. d = ?d2))"
    by (rule triple_conseq [OF UpdateRoomStatus_effect [of ?d1]]) (auto simp: ok_post_def split: sum.split)
  fix x :: unit
  have "triple (\<lambda>d. d = ?d2) (if f \<noteq> uuid_Nil then exec (sql_close_folio h f) else State_Monad.return (Inr ()))
     (ok_post (\<lambda>_ d. d = (if f \<noteq> uuid_Nil then sql_close_folio h f else id) ?d2))"
    by (auto intro: triple_exec_ok triple_return)
  then show "triple (\<lambda>d. d = ?d2) (do {
      rf \<leftarrow> (if f \<noteq> uuid_Nil then exec (sql_close_folio h f) else State_Monad.return (Inr ()));
      case rf of Inl e \<Rightarrow> State_Monad.return (Inl e)
      | Inr _ \<Rightarrow> raise_checkout_task h (gs_room s) (''Departure - '' @ gs_name s) }) (ok_post (\<lambda>_ d. \<exists>k.
     d = sql_checkout_task k h (gs_room s) (''Departure - '' @ gs_name s)
       ((if f \<noteq> uuid_Nil then sql_close_folio h f else id) ?d2)))"
    by (rule triple_bind_ok) (rule raise_task_effect)
qed auto

subsection \<open>Departure\<close>

text \<open>What a successful answer says of the database.\<close>

definition on_success :: "(db \<Rightarrow> bool) \<Rightarrow> 'a response \<Rightarrow> db \<Rightarrow> bool" where
  "on_success R r d \<longleftrightarrow> (succeeded r \<longrightarrow> R d)"

lemma triple_success_fail: "triple P (fail n msg) (on_success R)"
  by (simp add: triple_def on_success_def)

lemma triple_success_reads:
  assumes "\<And>d. P d \<Longrightarrow> R d" "keeps R m"
  shows "triple P m (on_success R)"
  using assms by (auto simp: triple_def on_success_def keeps_def)

lemma triple_success_tx:
  assumes "triple P m (ok_post (\<lambda>_. R))" "\<And>e. triple P (f e) (on_success R)" "\<And>x. keeps R (g x)"
  shows "triple P (State_Monad.bind (inTx m) (\<lambda>r. case r of Inl e \<Rightarrow> f e | Inr x \<Rightarrow> g x)) (on_success R)"
proof -
  have "triple P (inTx m) (\<lambda>r d. (isl r \<longrightarrow> P d) \<and> (\<not> isl r \<longrightarrow> R d))"
    unfolding triple_def inTx_def
  proof (intro allI impI)
    fix w :: world
    assume P: "P (w_db w)"
    show "(isl (fst (run_state (with_tx (\<lambda>e. e) (\<lambda>e. e) m) w)) \<longrightarrow> P (w_db (snd (run_state (with_tx (\<lambda>e. e) (\<lambda>e. e) m) w)))) \<and>
      (\<not> isl (fst (run_state (with_tx (\<lambda>e. e) (\<lambda>e. e) m) w)) \<longrightarrow> R (w_db (snd (run_state (with_tx (\<lambda>e. e) (\<lambda>e. e) m) w))))"
    proof (cases rule: with_tx_result [of "\<lambda>e. e" "\<lambda>e. e" m w])
      case (committed a w1 w2 w')
      then show ?thesis using tripleD [OF assms(1), of w1] P by simp
    qed (use P in simp)
  qed
  then show ?thesis
  proof (rule triple_bind)
    fix r
    show "triple (\<lambda>d. (isl r \<longrightarrow> P d) \<and> (\<not> isl r \<longrightarrow> R d)) (case r of Inl e \<Rightarrow> f e | Inr x \<Rightarrow> g x) (on_success R)"
      using assms(2,3) by (cases r) (auto intro: triple_success_reads)
  qed
qed

lemma triple_success_guarded: "triple P m (on_success R) \<Longrightarrow> triple P (guarded g m) (on_success R)"
  by (auto simp: guarded_def intro: triple_success_fail split: guard.split)

lemma triple_success_with_id:
  "(\<And>i. lib_uuid (rh_lib H) raw = Some i \<Longrightarrow> triple P (k i) (on_success R)) \<Longrightarrow> triple P (with_id H raw k) (on_success R)"
  by (auto simp: with_id_def intro: triple_success_fail split: option.split)

lemma triple_success_with_stay:
  assumes "\<And>sv. triple (\<lambda>d. P d \<and> find_stay h i d = Some (fst sv)) (k sv) (on_success R)"
  shows "triple P (with_stay h i k) (on_success R)"
  unfolding with_stay_def
proof (rule triple_bind [OF triple_FindStayByID])
  fix r :: "goerr + stay_view"
  show "triple (\<lambda>d. P d \<and> (\<forall>sv. r = Inr sv \<longrightarrow> find_stay h i d = Some (fst sv)))
      (case r of Inl _ \<Rightarrow> fail 404 ''reservation not found'' | Inr s \<Rightarrow> k s) (on_success R)"
    using assms by (cases r) (auto intro!: triple_success_fail)
qed

lemma folioOutstanding_reads:
  "triple (\<lambda>d. d = d0) (folioOutstanding h i) (\<lambda>r d. d = d0 \<and> (\<forall>amount f. r = Inr (amount, f) \<longrightarrow>
     (case open_folio h i d0 of
        None \<Rightarrow> amount = 0 \<and> f = uuid_Nil
      | Some x \<Rightarrow> f = x \<and> amount = round2 (fsub (cents (folio_charges_cents f d0)) (cents (stay_paid_cents h i d0))))))"
  unfolding triple_def folioOutstanding_def query_row_def query_def stmt_def
  by (auto dest!: next_fault_db split: prod.splits option.splits sum.splits if_splits)

definition departed :: "uuid \<Rightarrow> uuid \<Rightarrow> string \<Rightarrow> db \<Rightarrow> db \<Rightarrow> bool" where
  "departed h i allow d0 d \<longleftrightarrow> (\<exists>s now k. find_stay h i d0 = Some s \<and> gs_actual_in s \<noteq> None \<and> gs_actual_out s = None \<and>
     (\<forall>f. open_folio h i d0 = Some f \<and> \<not> EqualFold allow ''true'' \<longrightarrow>
        round2 (fsub (cents (folio_charges_cents f d0)) (cents (stay_paid_cents h i d0))) \<le> 0) \<and>
     d = left_behind h i s (case open_folio h i d0 of None \<Rightarrow> uuid_Nil | Some f \<Rightarrow> f) now k d0)"

lemma CheckOut_departed:
  assumes "tenantHotelID (rh_lib H) c = h"
  shows "triple (\<lambda>d. d = d0) (CheckOut H c idp allow) (on_success (\<lambda>d. \<exists>i. lib_uuid (rh_lib H) idp = Some i \<and> departed h i allow d0 d))"
    (is "triple _ _ (on_success ?R)")
proof -
  have rest: "triple (\<lambda>d. d = d0 \<and> find_stay h i d0 = Some s) (do {
       ro \<leftarrow> folioOutstanding h i;
       case ro of Inl _ \<Rightarrow> fail 500 ''failed to read folio balance''
       | Inr (outstanding, folio) \<Rightarrow>
           if 0 < outstanding \<and> \<not> EqualFold allow ''true'' then fail 409 msg
           else do { now \<leftarrow> time_Now; rt \<leftarrow> inTx (checkout_tx h i s folio now);
             case rt of Inl e \<Rightarrow> k1 e | Inr u \<Rightarrow> k2 u } }) (on_success ?R)"
    if i: "lib_uuid (rh_lib H) idp = Some i" and s: "gs_actual_in s \<noteq> None" "gs_actual_out s = None"
      and k: "\<And>P e. triple P (k1 e) (on_success ?R)" "\<And>u. keeps ?R (k2 u)" for i s msg k1 k2
  proof -
    let ?out = "\<lambda>amount f. case open_folio h i d0 of None \<Rightarrow> amount = 0 \<and> f = uuid_Nil
      | Some x \<Rightarrow> f = x \<and> amount = round2 (fsub (cents (folio_charges_cents f d0)) (cents (stay_paid_cents h i d0)))"
    have tx: "triple (\<lambda>d. d = d0) (checkout_tx h i s f now) (ok_post (\<lambda>_. ?R))"
      if "?out amount f" "find_stay h i d0 = Some s" "\<not> (0 < amount \<and> \<not> EqualFold allow ''true'')" for amount f now
    proof (rule triple_conseq [OF checkout_tx_effect [of d0]])
      fix x :: "goerr + unit" and d
      assume E: "ok_post (\<lambda>_ d. \<exists>k. d = left_behind h i s f now k d0) x d"
      have f: "f = (case open_folio h i d0 of None \<Rightarrow> uuid_Nil | Some f \<Rightarrow> f)"
        using that(1) by (auto split: option.splits)
      have "\<forall>f. open_folio h i d0 = Some f \<and> \<not> EqualFold allow ''true'' \<longrightarrow>
        round2 (fsub (cents (folio_charges_cents f d0)) (cents (stay_paid_cents h i d0))) \<le> 0"
        using that by (auto simp: not_less)
      then have "departed h i allow d0 d" if "\<exists>k. d = left_behind h i s f now k d0"
        using that \<open>find_stay h i d0 = Some s\<close> s unfolding departed_def f by blast
      with E i show "ok_post (\<lambda>_. ?R) x d" by (cases x) simp_all
    qed assumption
    have bal: "triple (\<lambda>d. d = d0 \<and> find_stay h i d0 = Some s) (folioOutstanding h i)
        (\<lambda>r d. d = d0 \<and> find_stay h i d0 = Some s \<and> (\<forall>amount f. r = Inr (amount, f) \<longrightarrow> ?out amount f))"
      by (rule triple_pure, rule triple_conseq [OF folioOutstanding_reads [of d0]]) auto
    show ?thesis
    proof (rule triple_bind [OF bal])
      fix r :: "goerr + rat \<times> uuid"
      show "triple (\<lambda>d. d = d0 \<and> find_stay h i d0 = Some s \<and> (\<forall>amount f. r = Inr (amount, f) \<longrightarrow> ?out amount f))
         (case r of Inl _ \<Rightarrow> fail 500 ''failed to read folio balance''
          | Inr (outstanding, folio) \<Rightarrow>
           if 0 < outstanding \<and> \<not> EqualFold allow ''true'' then fail 409 msg
           else do { now \<leftarrow> time_Now; rt \<leftarrow> inTx (checkout_tx h i s folio now);
             case rt of Inl e \<Rightarrow> k1 e | Inr u \<Rightarrow> k2 u }) (on_success ?R)"
      proof (cases "\<exists>amount f. r = Inr (amount, f) \<and> find_stay h i d0 = Some s \<and> ?out amount f")
        case True
        then obtain amount f where r: "r = Inr (amount, f)" "find_stay h i d0 = Some s" "?out amount f" by blast
        have "triple (\<lambda>d. d = d0) (if 0 < amount \<and> \<not> EqualFold allow ''true'' then fail 409 msg
           else do { now \<leftarrow> time_Now; rt \<leftarrow> inTx (checkout_tx h i s f now);
             case rt of Inl e \<Rightarrow> k1 e | Inr u \<Rightarrow> k2 u }) (on_success ?R)"
          by (rule triple_if, rule triple_success_fail, rule triple_read [OF keeps_time_Now],
              rule triple_success_tx [OF tx [OF r(3,2)]]) (assumption | rule k)+
        then show ?thesis using r by (auto elim!: triple_conseq)
      next
        case False
        then show ?thesis by (cases r) (auto simp: triple_def on_success_def)
      qed
    qed
  qed
  have balance: "triple (\<lambda>d. d = d0 \<and> find_stay h i d = Some s) m Q"
    if "triple (\<lambda>d. d = d0 \<and> find_stay h i d0 = Some s) m Q" for i s m and Q :: "string response \<Rightarrow> db \<Rightarrow> bool"
    using that by (auto simp: triple_def)
  show ?thesis
    unfolding CheckOut_def assms Let_def
    by (rule triple_success_guarded triple_success_with_id triple_success_with_stay triple_if triple_success_fail balance rest
        | simp | intro keeps_intros)+
qed

lemma find_upd_where:
  "(\<And>x. p (f x) = p x) \<Longrightarrow> find p (upd_where p f xs) = map_option f (find p xs)"
  by (induction xs) (auto simp: upd_where_def)

lemma left_behind_stay:
  assumes "find_stay h i d = Some s"
  shows "find_stay h i (left_behind h i s f now k d) = Some (s\<lparr>gs_actual_out := Some now, gs_status := ReservationCheckedOut\<rparr>)"
proof -
  let ?p = "\<lambda>g. gs_hotel g = h \<and> gs_id g = i"
  let ?f = "fold (set_stay_field (db_num d)) [F_actual_check_out now, F_status ReservationCheckedOut]"
  have "stays (left_behind h i s f now k d) = upd_where ?p ?f (stays d)"
    by (simp add: left_behind_def sql_checkout_task_def sql_close_folio_def room_marked_def stay_written_def conj_commute)
  moreover have "find ?p (upd_where ?p ?f (stays d)) = map_option ?f (find ?p (stays d))"
    by (rule find_upd_where) simp
  ultimately show ?thesis using assms by (simp add: find_stay_def)
qed

lemma left_behind_room:
  assumes "in_own_room d s" "gs_hotel s = h"
  shows "list_ex (\<lambda>r. rm_id r = gs_room s \<and> rm_hotel r = h \<and> rm_status r = RoomStatusCleaning)
    (rooms (left_behind h i s f now k d))"
proof -
  have "rooms (left_behind h i s f now k d) =
      upd_where (\<lambda>x. rm_hotel x = h \<and> rm_id x = gs_room s) (\<lambda>x. x\<lparr>rm_status := RoomStatusCleaning\<rparr>) (rooms d)"
    by (simp add: left_behind_def sql_checkout_task_def sql_close_folio_def room_marked_def stay_written_def)
  then show ?thesis using assms by (force simp: in_own_room_def list_ex_iff set_upd_where)
qed

lemma left_behind_task:
  "list_ex (\<lambda>t. hk_hotel t = h \<and> hk_room t = gs_room s \<and> hk_type t = ''checkout_clean'' \<and>
     hk_status t \<in> {''pending'', ''in_progress''}) (tasks (left_behind h i s f now k d))"
  by (auto simp: left_behind_def sql_checkout_task_def list_ex_iff)

lemma left_behind_folio:
  assumes "one_folio_per_booking d" "\<forall>x \<in> set (folios d). fo_id x \<noteq> uuid_Nil"
    and "f = (case open_folio h i d of None \<Rightarrow> uuid_Nil | Some f \<Rightarrow> f)"
  shows "open_folio h i (left_behind h i s f now k d) = None"
proof -
  have F: "folios (left_behind h i s f now k d) = (if f \<noteq> uuid_Nil then
      upd_where (\<lambda>x. fo_id x = f \<and> fo_hotel x = h \<and> fo_status x = ''open'') (\<lambda>x. x\<lparr>fo_status := ''closed''\<rparr>) (folios d)
      else folios d)"
    by (simp add: left_behind_def sql_checkout_task_def sql_close_folio_def room_marked_def stay_written_def)
  show ?thesis
  proof (cases "open_folio h i d")
    case None
    then show ?thesis using F assms(3) by (simp add: open_folio_def)
  next
    case (Some g)
    then have "f = g" using assms(3) by simp
    with Some obtain x where x: "x \<in> set (folios d)" "fo_hotel x = h" "fo_booking x = i" "fo_status x = ''open''" "fo_id x = f"
      by (auto simp: open_folio_def dest!: find_SomeD)
    have only: "y = x" if "y \<in> set (folios d)" "fo_hotel y = h" "fo_booking y = i" for y
      using distinct_map_eqI [OF assms(1) [unfolded one_folio_per_booking_def] that(1) x(1)] that x by simp
    have "f \<noteq> uuid_Nil" using assms(2) x(1,5) by blast
    let ?P = "\<lambda>x. fo_id x = f \<and> fo_hotel x = h \<and> fo_status x = ''open''"
    have closed: "\<not> (fo_hotel y = h \<and> fo_booking y = i \<and> fo_status y = ''open'')"
      if y: "y = (if ?P z then z\<lparr>fo_status := ''closed''\<rparr> else z)" "z \<in> set (folios d)" for y z
    proof (cases "?P z")
      case False
      show ?thesis
      proof
        assume "fo_hotel y = h \<and> fo_booking y = i \<and> fo_status y = ''open''"
        then have "z = x" using only [of z] y False by simp
        then show False using x False by simp
      qed
    qed (use y in simp)
    have "find (\<lambda>x. fo_hotel x = h \<and> fo_booking x = i \<and> fo_status x = ''open'')
        (upd_where ?P (\<lambda>x. x\<lparr>fo_status := ''closed''\<rparr>) (folios d)) = None"
      unfolding find_None_iff set_upd_where
    proof (intro notI, elim exE conjE CollectE)
      fix y z assume "z \<in> set (folios d)" "y = (if ?P z then z\<lparr>fo_status := ''closed''\<rparr> else z)"
        "fo_hotel y = h" "fo_booking y = i" "fo_status y = ''open''"
      then show False using closed by blast
    qed
    then show ?thesis
      using F \<open>f \<noteq> uuid_Nil\<close> unfolding open_folio_def by simp
  qed
qed

subsection \<open>Properties\<close>

text \<open>C9: a guest leaves in good order. When a check-out answers with success, the stay was in house,
  it is now checked out with its departure time recorded and nothing else of it changed, its room
  is marked for cleaning, housekeeping has an open departure task for that room, no folio of the
  stay is open any more, and, unless the desk asked to bill it later, the charges on the folio were
  covered to the cent by the payments recorded for the stay.\<close>

theorem checkout_hands_over:
  assumes "run_state (CheckOut H c idp allow) w = (Resp n x, w')" "tenantHotelID (rh_lib H) c = h"
    and "desk_wf (w_db w)" "one_folio_per_booking (w_db w)" "\<forall>f \<in> set (folios (w_db w)). fo_id f \<noteq> uuid_Nil"
  shows "\<exists>i s now. lib_uuid (rh_lib H) idp = Some i \<and> find_stay h i (w_db w) = Some s \<and>
     gs_status s = ReservationInHouse \<and>
     find_stay h i (w_db w') = Some (s\<lparr>gs_actual_out := Some now, gs_status := ReservationCheckedOut\<rparr>) \<and>
     list_ex (\<lambda>r. rm_id r = gs_room s \<and> rm_hotel r = h \<and> rm_status r = RoomStatusCleaning) (rooms (w_db w')) \<and>
     list_ex (\<lambda>t. hk_hotel t = h \<and> hk_room t = gs_room s \<and> hk_type t = ''checkout_clean'' \<and>
       hk_status t \<in> {''pending'', ''in_progress''}) (tasks (w_db w')) \<and>
     open_folio h i (w_db w') = None \<and>
     (\<forall>f. open_folio h i (w_db w) = Some f \<and> \<not> EqualFold allow ''true'' \<and>
        cent_range (folio_charges_cents f (w_db w)) \<and> cent_range (stay_paid_cents h i (w_db w)) \<longrightarrow>
        folio_charges_cents f (w_db w) \<le> stay_paid_cents h i (w_db w))"
proof -
  obtain i where i: "lib_uuid (rh_lib H) idp = Some i" "departed h i allow (w_db w) (w_db w')"
    using tripleD [OF CheckOut_departed [OF assms(2), of "w_db w" idp allow], of w] assms(1) by (auto simp: on_success_def)
  then obtain s now k where s: "find_stay h i (w_db w) = Some s" "gs_actual_in s \<noteq> None" "gs_actual_out s = None"
    and bal: "\<forall>f. open_folio h i (w_db w) = Some f \<and> \<not> EqualFold allow ''true'' \<longrightarrow>
        round2 (fsub (cents (folio_charges_cents f (w_db w))) (cents (stay_paid_cents h i (w_db w)))) \<le> 0"
    and w': "w_db w' = left_behind h i s (case open_folio h i (w_db w) of None \<Rightarrow> uuid_Nil | Some f \<Rightarrow> f) now k (w_db w)"
    unfolding departed_def by blast
  have row: "lifecycle_ok s" "in_own_room (w_db w) s" "gs_hotel s = h"
    using desk_inv_row [OF desk_inv_refl [OF assms(3)] s(1)] by auto
  have "gs_status s = ReservationInHouse" using row(1) s by (simp add: lifecycle_ok_def)
  moreover have "folio_charges_cents f (w_db w) \<le> stay_paid_cents h i (w_db w)"
    if "open_folio h i (w_db w) = Some f" "\<not> EqualFold allow ''true''"
      "cent_range (folio_charges_cents f (w_db w))" "cent_range (stay_paid_cents h i (w_db w))" for f
  proof (rule ccontr)
    let ?c = "folio_charges_cents f (w_db w)" and ?p = "stay_paid_cents h i (w_db w)"
    assume "\<not> ?c \<le> ?p"
    then have "0 < cents (?c - ?p)" using cents_mono [of 1 "?c - ?p"] cents_less_iff [of 0 1] by simp
    then show False using bal that round2_fsub_cents [OF that(3,4)] by auto
  qed
  ultimately show ?thesis
    unfolding w'
    by (intro exI [of _ i] exI [of _ s] exI [of _ now] conjI i(1) s(1) left_behind_stay [OF s(1)]
        left_behind_room [OF row(2,3)] left_behind_task left_behind_folio [OF assms(4,5) refl]) blast+
qed

definition in_house_db :: db where
  "in_house_db = prepaid_db\<lparr>stays := [stay_sample\<lparr>gs_actual_in := Some 90000, gs_status := ReservationInHouse\<rparr>]\<rparr>"

theorem checkout_hands_over_witness:
  "\<exists>w'. run_state (CheckOut desk_handler desk_ctx ''5'' []) (start in_house_db 200000) = (Resp 200 ''checked_out'', w') \<and>
     open_folio 7 5 in_house_db = Some 30 \<and> open_folio 7 5 (w_db w') = None \<and>
     (\<exists>s. find_stay 7 5 (w_db w') = Some s \<and> gs_status s = ReservationCheckedOut)"
proof -
  let ?r = "run_state (CheckOut desk_handler desk_ctx ''5'' []) (start in_house_db 200000)"
  have f: "fst ?r = Resp 200 ''checked_out''" by code_simp
  then have r: "?r = (Resp 200 ''checked_out'', snd ?r)" by (metis prod.collapse)
  have wf: "desk_wf in_house_db" "one_folio_per_booking in_house_db" "open_folio 7 5 in_house_db = Some 30" by code_simp+
  have ids: "\<forall>f \<in> set (folios (w_db (start in_house_db 200000))). fo_id f \<noteq> uuid_Nil"
    by (simp add: in_house_db_def prepaid_db_def)
  have five: "lib_uuid (rh_lib desk_handler) ''5'' = Some 5" by code_simp
  from checkout_hands_over [OF r desk_tenant_7 _ _ ids] wf(1,2) five
  have "open_folio 7 5 (w_db (snd ?r)) = None \<and> (\<exists>s. find_stay 7 5 (w_db (snd ?r)) = Some s \<and> gs_status s = ReservationCheckedOut)"
    by force
  then show ?thesis using r wf(3) by blast
qed

lemma payable_cents:
  assumes "cent_range b" "cent_range d" "cent_range t" "\<bar>b - d + t\<bar> \<le> 3 * 10 ^ 14"
  shows "round2 (fadd (fsub (cents b) (cents d)) (cents t)) = cents (b - d + t)"
proof -
  have "near (fsub (cents b) (cents d)) (b - d) (1 / 8000 + 1 / 8000 + 1 / 2000)"
    by (rule near_fsub [OF near_cents near_cents]) (use assms in auto)
  from near_fadd [OF this near_cents [OF assms(3)]] assms(4)
  have "near (fadd (fsub (cents b) (cents d)) (cents t)) (b - d + t) (11 / 8000)" by simp
  then show ?thesis by (rule round2_near) (use assms(4) in auto)
qed

text \<open>C10: the price after a room move. An unpaid stay that is moved stores the base and the tax of the
  new room, but keeps its old discount amount. While the discount does not exceed the new base,
  what the stay then owes is the quote; in a cheaper room whose base is below the discount, the
  stay owes a negative amount where the quote is zero. (\<open>Update\<close>, which reprices the same way,
  writes the discount too.)\<close>

theorem moved_stay_price:
  assumes "0 \<le> r" "r \<le> 10 ^ 8" "rm_price rm = cents r" "0 \<le> D" "cent_range D" "gs_discount g = cents D"
    and "0 \<le> rate" "rate \<le> 100" "b = r * stay_nights (gs_in g) (gs_out g)"
    and "\<forall>k. cent_range k \<longrightarrow> num (cents k) = cents k"
    and "q = priceStay (rm_price rm) (gs_in g) (gs_out g) rate (gs_discount g)"
    and "g' = fold (set_stay_field num) (move_fields False rate rm g) g"
  shows "(D \<le> b \<longrightarrow> round2 (Payable g') = q_payable q) \<and>
    (b < D \<longrightarrow> round2 (Payable g') = cents (b - D) \<and> q_payable q = 0)"
proof -
  let ?n = "stay_nights (gs_in g) (gs_out g)"
  have n: "1 \<le> ?n" "?n \<le> 10 ^ 14" using nights_bound [of "gs_in g" "gs_out g"] by auto
  have two: "cent_range (2 * b + 1)" "0 \<le> b" "r \<le> b"
    using price_in_range [OF assms(1,2), of "gs_in g" "gs_out g"] assms(1) n(1)
    unfolding assms(9) by (simp_all add: mult_le_cancel_left1)
  then have R: "cent_range r" "cent_range (r * ?n)" using assms(1) unfolding assms(9) by auto
  obtain t where q: "0 \<le> t" "t \<le> b - min D b + 1" "\<bar>of_int t - of_int (b - min D b) * rate / 100\<bar> < 1"
    "q_base q = cents b" "q_tax q = cents t" "q_payable q = cents (b - min D b + t)"
    using priceStay_cents [OF assms(1) R n(2) assms(4,5,7,8)] unfolding assms(3,6,9,11) by blast
  have t: "cent_range t" "cent_range b" using q(1,2) two assms(4) by auto
  have g': "gs_total g' = Some (cents b)" "gs_discount g' = cents D" "gs_tax g' = cents t"
    using assms(6,10) q(4,5) t unfolding assms(11,12) move_fields_def Let_def by simp_all
  have pay: "round2 (Payable g') = cents (b - D + t)"
    unfolding Payable_def g' Let_def using payable_cents [OF t(2) assms(5) t(1)] t two assms(4,5) by simp
  have "t = 0" if "b < D"
    using q(1,3) that by simp
  then show ?thesis using pay q(6) by auto
qed

theorem moved_stay_price_witness:
  "let g = stay_sample\<lparr>gs_discount := cents 500000\<rparr>; rm = room_sample\<lparr>rm_price := cents 100000\<rparr>;
       g' = fold (set_stay_field (\<lambda>x. x)) (move_fields False 18 rm g) g
   in round2 (Payable g') = cents (- 200000) \<and>
      q_payable (priceStay (cents 100000) (gs_in g) (gs_out g) 18 (cents 500000)) = 0"
proof -
  let ?g = "stay_sample\<lparr>gs_discount := cents 500000\<rparr>" and ?rm = "room_sample\<lparr>rm_price := cents 100000\<rparr>"
  have n: "stay_nights 0 259200 = 3" by code_simp
  have g: "gs_in ?g = 0" "gs_out ?g = 259200" "gs_discount ?g = cents 500000" "rm_price ?rm = cents 100000"
    by (simp_all add: stay_sample_def)
  have b: "(300000 :: int) = 100000 * stay_nights (gs_in ?g) (gs_out ?g)" unfolding g n by simp
  have "(b < D \<longrightarrow> P) \<Longrightarrow> b < D \<Longrightarrow> P" for b D :: int and P by blast
  from this [OF moved_stay_price [OF _ _ g(4) _ _ g(3) _ _ b _ refl refl, of 18 "\<lambda>x. x", THEN conjunct2]]
  show ?thesis unfolding Let_def g by simp
qed

end
