(* ===== verification/Dinein.thy ===== *)
theory Dinein
  imports Reservations
begin

text \<open>
  The dine-in workflow of the restaurant, \<^verbatim>\<open>internal/handler/pos_dinein_handler.go\<close>: tables,
  dining sessions, kitchen order tickets (KOTs) and their items, bills and payments, in the order of
  the source. The statements carry the unique indexes of \<^verbatim>\<open>schema.go\<close> (one open or billed
  session per table, one non-void bill per session, unique numbers per tenant) and the overflow of
  \<^verbatim>\<open>INT\<close> and \<^verbatim>\<open>NUMERIC(12,2)\<close> columns. A row identifier the database generates is drawn with
  \<open>uuid_New\<close>. How the driver and the database store a JSON value in a named column, which
  \<^verbatim>\<open>UpdateTable\<close> leaves to them, is the parameter \<open>ph_set\<close>. Columns that are only displayed
  (station, notes, contact details of a session, time stamps other than the opening of a session)
  are left out, and so is the text of a database error in an answer. All requests run on one
  database: a tenant with a pool of its own sees only its rows of it.
\<close>

record POSHandler =
  ph_lib :: lib
  ph_secret :: string
  ph_set :: "string \<Rightarrow> json \<Rightarrow> Table \<Rightarrow> Table option"

definition pos_hotel :: "POSHandler \<Rightarrow> ctx \<Rightarrow> uuid" where
  "pos_hotel H c = hotelID (ph_lib H) (ph_secret H) c"

definition pos_user :: "POSHandler \<Rightarrow> ctx \<Rightarrow> uuid option" where
  "pos_user H c = userID (ph_lib H) (ph_secret H) c"

definition pos_roles :: "POSHandler \<Rightarrow> ctx \<Rightarrow> string list \<Rightarrow> guard" where
  "pos_roles H c allowed = requireRoles (ph_lib H) (ph_secret H) c allowed"

text \<open>The role lists of the guarded handlers: managers, and whoever may take money.\<close>

definition posManagerRoles :: "string list" where
  "posManagerRoles = [''admin'', ''hotel_admin'', ''super_admin'', ''food_manager'', ''platform_admin'']"

definition posCashierRoles :: "string list" where
  "posCashierRoles = [''admin'', ''hotel_admin'', ''super_admin'', ''receptionist'', ''cashier'',
     ''food_manager'', ''platform_admin'']"

text \<open>A sample handler and a request of a food manager of hotel 7, for the examples.\<close>

definition pos_lib :: lib where
  "pos_lib = \<lparr>lib_jwt = \<lambda>s t. if t = ''tok'' then Some [(''hotel_id'', JStr ''7''), (''roles'', JArr [JStr ''food_manager''])] else None,
     lib_uuid = \<lambda>s. if list_all is_digit s \<and> s \<noteq> [] then Some (digits_val s) else None\<rparr>"

definition pos_handler :: POSHandler where
  "pos_handler = \<lparr>ph_lib = pos_lib, ph_secret = ''secret'', ph_set = \<lambda>k v t. Some t\<rparr>"

definition pos_ctx :: ctx where
  "pos_ctx = \<lparr>c_authorization = ''Bearer tok'', c_cookie = [], c_branch_header = [], c_path = ''/pos'', c_locals = []\<rparr>"

subsection \<open>Transactions of a handler\<close>

text \<open>The handlers open a transaction, answer from inside it on an error (the deferred rollback then
  undoes it) and commit at the end. \<open>try_or\<close> is one step inside, \<open>refuse\<close> an early answer.\<close>

definition refuse :: "nat \<Rightarrow> string \<Rightarrow> ('a response + 'b) go" where
  "refuse n msg = State_Monad.return (Inl (Fail n msg))"

definition try_or :: "(goerr + 'a) go \<Rightarrow> nat \<Rightarrow> string \<Rightarrow> ('a \<Rightarrow> ('r response + 'b) go) \<Rightarrow> ('r response + 'b) go" where
  "try_or m n msg k = do { r \<leftarrow> m; case r of Inl _ \<Rightarrow> refuse n msg | Inr a \<Rightarrow> k a }"

definition pos_tx :: "string \<Rightarrow> ('r response + 'b) go \<Rightarrow> ('b \<Rightarrow> 'r response go) \<Rightarrow> 'r response go" where
  "pos_tx msg m k = do {
     r \<leftarrow> with_tx (\<lambda>_. Fail 500 ''failed to start transaction'') (\<lambda>_. Fail 500 msg) m;
     case r of Inl answer \<Rightarrow> State_Monad.return answer | Inr b \<Rightarrow> k b
   }"

lemma pos_tx_committed:
  assumes "run_state m (w\<lparr>w_tx := TxOpen\<rparr>) = (Inr b, w2)" "w_faults w = []" "w_faults w2 = []" "w_tx w2 \<noteq> TxFailed"
  shows "run_state (pos_tx msg m k) w = run_state (k b) (w2\<lparr>w_tx := NoTx\<rparr>)"
  using assms by (simp add: pos_tx_def with_tx_def)

lemma pos_tx_refused:
  assumes "run_state m (w\<lparr>w_tx := TxOpen\<rparr>) = (Inl answer, w2)" "w_faults w = []"
  shows "run_state (pos_tx msg m k) w = (answer, w2\<lparr>w_db := w_db w, w_tx := NoTx\<rparr>)"
  using assms by (simp add: pos_tx_def with_tx_def)

definition with_param :: "POSHandler \<Rightarrow> string \<Rightarrow> string \<Rightarrow> (uuid \<Rightarrow> 'r response go) \<Rightarrow> 'r response go" where
  "with_param H raw msg k = (case lib_uuid (ph_lib H) raw of None \<Rightarrow> fail 400 msg | Some i \<Rightarrow> k i)"

text \<open>\<^verbatim>\<open>OpenSession\<close> resolves the customer on another connection while its transaction is open, so
  what that writes is not undone. The transaction has only read until then: \<open>tx_begin\<close> opens it,
  \<open>on_pool\<close> runs a step outside it, \<open>tx_rest\<close> is the writing part with its commit or rollback, and
  \<open>tx_rollback\<close> ends a transaction that has written nothing.\<close>

definition tx_begin :: "(goerr + unit) go" where
  "tx_begin = State (\<lambda>w. case next_fault w of (bad, w1) \<Rightarrow>
     if bad then (Inl DbFault, w1) else (Inr (), w1\<lparr>w_tx := TxOpen\<rparr>))"

definition tx_rollback :: "'a \<Rightarrow> 'a go" where
  "tx_rollback a = State (\<lambda>w. (a, w\<lparr>w_tx := NoTx\<rparr>))"

definition on_pool :: "'a go \<Rightarrow> 'a go" where
  "on_pool m = State (\<lambda>w. case run_state m (w\<lparr>w_tx := NoTx\<rparr>) of (a, w1) \<Rightarrow> (a, w1\<lparr>w_tx := w_tx w\<rparr>))"

definition tx_rest :: "'e \<Rightarrow> ('e + 'a) go \<Rightarrow> ('e + 'a) go" where
  "tx_rest commit_err m = State (\<lambda>w. case run_state m w of
       (Inl e, w2) \<Rightarrow> (Inl e, w2\<lparr>w_db := w_db w, w_tx := NoTx\<rparr>)
     | (Inr a, w2) \<Rightarrow>
         (case next_fault w2 of (bad, w3) \<Rightarrow>
            if bad \<or> w_tx w3 = TxFailed then (Inl commit_err, w3\<lparr>w_db := w_db w, w_tx := NoTx\<rparr>)
            else (Inr a, w3\<lparr>w_tx := NoTx\<rparr>)))"

text \<open>\<^verbatim>\<open>audit\<close>: a row of \<^verbatim>\<open>audit_logs\<close>, a table no modelled handler reads; errors are ignored.\<close>

definition audit :: "unit go" where
  "audit = do { _ \<leftarrow> uuid_New; _ \<leftarrow> exec (\<lambda>d. d); State_Monad.return () }"

lemma run_audit [simp]: "calm w \<Longrightarrow> run_state audit w = ((), w\<lparr>w_next := Suc (w_next w)\<rparr>)"
  by (simp add: audit_def)

subsection \<open>Money and state machine helpers\<close>

definition kotTransitions :: "(string \<times> string list) list" where
  "kotTransitions = [
     (''draft'', [''sent'', ''cancelled'']),
     (''sent'', [''acknowledged'', ''preparing'', ''cancelled'']),
     (''acknowledged'', [''preparing'', ''cancelled'']),
     (''preparing'', [''ready'']),
     (''ready'', [''served''])]"

definition canTransition :: "(string \<times> string list) list \<Rightarrow> string \<Rightarrow> string \<Rightarrow> bool" where
  "canTransition table from to =
     (case map_of table from of None \<Rightarrow> False | Some ts \<Rightarrow> list_ex (\<lambda>t. t = to) ts)"

definition validPaymentMethod :: "string \<Rightarrow> bool" where
  "validPaymentMethod m \<longleftrightarrow> m \<in> {''cash'', ''card'', ''upi'', ''room_charge'', ''wallet''}"

text \<open>\<^verbatim>\<open>genNumber\<close>: the prefix, the UTC date and the milliseconds modulo a million.\<close>

definition genNumber :: "string \<Rightarrow> string go" where
  "genNumber prefix = do {
     now \<leftarrow> time_Now;
     ms \<leftarrow> time_UnixMilli;
     State_Monad.return (prefix @ ''-'' @ format_compact now @ ''-'' @ show_int (ms mod 1000000))
   }"

text \<open>The range of an \<^verbatim>\<open>INT\<close> column, and of a list of \<^verbatim>\<open>NUMERIC(12,2)\<close> columns.\<close>

definition int4 :: "int \<Rightarrow> bool" where
  "int4 n \<longleftrightarrow> - 2147483648 \<le> n \<and> n \<le> 2147483647"

definition num12 :: "db \<Rightarrow> rat list \<Rightarrow> bool" where
  "num12 d vs \<longleftrightarrow> list_all (\<lambda>v. \<bar>db_num d v\<bar> < 10000000000) vs"

definition out_of_range :: goerr where
  "out_of_range = ErrMsg ''value out of range''"

subsection \<open>Tables\<close>

definition ListTables :: "POSHandler \<Rightarrow> ctx \<Rightarrow> string \<Rightarrow> string \<Rightarrow> Table list response go" where
  "ListTables H c status outlet = (let h = pos_hotel H c in do {
     r \<leftarrow> (if outlet \<noteq> [] \<and> lib_uuid (ph_lib H) outlet = None then State_Monad.return (Inl (ErrMsg ''invalid uuid''))
          else query (\<lambda>d. sort_key tb_number (filter (\<lambda>t. tb_hotel t = h \<and>
             (status = [] \<or> tb_status t = status) \<and>
             (outlet = [] \<or> tb_outlet t = lib_uuid (ph_lib H) outlet)) (tables d))));
     case r of Inl _ \<Rightarrow> fail 500 ''failed to list tables'' | Inr ts \<Rightarrow> State_Monad.return (OK ts)
   })"

record createTableRequest =
  ct_outlet :: "uuid option"
  ct_number :: string
  ct_section :: "string option"
  ct_seats :: int
  ct_x :: "int option"
  ct_y :: "int option"

definition sql_insert_table :: "Table \<Rightarrow> db \<Rightarrow> goerr + Table \<times> db" where
  "sql_insert_table t d =
     (if \<not> int4 (tb_seats t) \<or> \<not> list_all int4 (map the (filter (\<lambda>x. x \<noteq> None) [tb_x t, tb_y t]))
      then Inl out_of_range
      else if list_ex (\<lambda>x. tb_id x = tb_id t \<or> tb_hotel x = tb_hotel t \<and> tb_number x = tb_number t) (tables d)
      then Inl UniqueViolation
      else if (case tb_outlet t of None \<Rightarrow> False | Some i \<Rightarrow> \<not> list_ex (\<lambda>x. ol_id x = i) (outlets d))
      then Inl ForeignKeyViolation
      else Inr (t, d\<lparr>tables := tables d @ [t]\<rparr>))"

definition CreateTable :: "POSHandler \<Rightarrow> ctx \<Rightarrow> createTableRequest option \<Rightarrow> Table response go" where
  "CreateTable H c body = guarded (pos_roles H c posManagerRoles) (with_body body (\<lambda>req.
     if TrimSpace (ct_number req) = [] then fail 422 ''table_number is required''
     else do {
       i \<leftarrow> uuid_New;
       r \<leftarrow> stmt (sql_insert_table \<lparr>tb_id = i, tb_hotel = pos_hotel H c, tb_outlet = ct_outlet req,
              tb_number = ct_number req, tb_section = ct_section req,
              tb_seats = (if ct_seats req \<le> 0 then 2 else ct_seats req), tb_status = ''available'',
              tb_x = ct_x req, tb_y = ct_y req, tb_active = True\<rparr>);
       case r of Inl _ \<Rightarrow> fail 400 ''database error'' | Inr t \<Rightarrow> State_Monad.return (Created t)
     }))"

definition table_columns :: "string list" where
  "table_columns = [''table_number'', ''section'', ''seats'', ''status'', ''pos_x'', ''pos_y'', ''is_active'']"

text \<open>The \<^verbatim>\<open>SET\<close> list of the allowed keys, applied to a row: \<open>None\<close> when a value does not fit its
  column. Every key of the body is set once, so the order Go walks the map in does not matter.\<close>

fun set_columns :: "POSHandler \<Rightarrow> (string \<times> json) list \<Rightarrow> Table \<Rightarrow> Table option" where
  "set_columns H [] t = Some t"
| "set_columns H ((k, v) # kvs) t =
     (case ph_set H k v t of None \<Rightarrow> None | Some t' \<Rightarrow> set_columns H kvs t')"

definition sql_update_table :: "POSHandler \<Rightarrow> uuid \<Rightarrow> uuid \<Rightarrow> (string \<times> json) list \<Rightarrow> db \<Rightarrow> goerr + Table option \<times> db" where
  "sql_update_table H i h kvs d =
     (case find (\<lambda>t. tb_id t = i \<and> tb_hotel t = h) (tables d) of
        None \<Rightarrow> Inr (None, d)
      | Some t \<Rightarrow>
          (case set_columns H kvs t of
             None \<Rightarrow> Inl (ErrMsg ''invalid value'')
           | Some t' \<Rightarrow>
               if list_ex (\<lambda>x. tb_id x \<noteq> i \<and> tb_hotel x = h \<and> tb_number x = tb_number t') (tables d)
               then Inl UniqueViolation
               else Inr (Some t', d\<lparr>tables := upd_where (\<lambda>x. tb_id x = i \<and> tb_hotel x = h) (\<lambda>_. t') (tables d)\<rparr>)))"

definition UpdateTable :: "POSHandler \<Rightarrow> ctx \<Rightarrow> string \<Rightarrow> (string \<times> json) list option \<Rightarrow> Table response go" where
  "UpdateTable H c idp body = guarded (pos_roles H c posManagerRoles) (with_param H idp ''invalid table id'' (\<lambda>i.
     with_body body (\<lambda>raw. let set_list = filter (\<lambda>kv. fst kv \<in> set table_columns) raw in
       if set_list = [] then fail 400 ''no fields to update''
       else do {
         r \<leftarrow> stmt (sql_update_table H i (pos_hotel H c) set_list);
         case r of Inl _ \<Rightarrow> fail 400 ''database error'' | Inr None \<Rightarrow> fail 400 ''no rows in result set''
         | Inr (Some t) \<Rightarrow> State_Monad.return (OK t)
       })))"

definition sql_clean_table :: "uuid \<Rightarrow> uuid \<Rightarrow> db \<Rightarrow> goerr + nat \<times> db" where
  "sql_clean_table i h d =
     (let p = (\<lambda>t. tb_id t = i \<and> tb_hotel t = h \<and> tb_status t = ''cleaning'') in
      Inr (affected p (tables d), d\<lparr>tables := upd_where p (\<lambda>t. t\<lparr>tb_status := ''available''\<rparr>) (tables d)\<rparr>))"

definition CleanTable :: "POSHandler \<Rightarrow> ctx \<Rightarrow> string \<Rightarrow> string response go" where
  "CleanTable H c idp = with_param H idp ''invalid table id'' (\<lambda>i. do {
     r \<leftarrow> stmt (sql_clean_table i (pos_hotel H c));
     case r of Inl _ \<Rightarrow> fail 400 ''database error''
     | Inr n \<Rightarrow> if n = 0 then fail 409 ''table is not in cleaning status'' else State_Monad.return (OK ''available'')
   })"

subsection \<open>Dining sessions\<close>

abbreviation seated :: "string \<Rightarrow> bool" where
  "seated s \<equiv> s = ''open'' \<or> s = ''billed''"

definition ListSessions :: "POSHandler \<Rightarrow> ctx \<Rightarrow> string \<Rightarrow> DiningSession list response go" where
  "ListSessions H c status = (let h = pos_hotel H c in do {
     r \<leftarrow> query (\<lambda>d. sort_key (\<lambda>s. - ds_opened s) (filter (\<lambda>s. ds_hotel s = h \<and>
            (status = [] \<or> ds_status s = status)) (sessions d)));
     case r of Inl _ \<Rightarrow> fail 500 ''failed to list sessions'' | Inr ss \<Rightarrow> State_Monad.return (OK ss)
   })"

record openSessionRequest =
  os_covers :: int
  os_guest_name :: "string option"
  os_customer_type :: string
  os_stay :: "uuid option"
  os_details :: CustomerDetails

definition find_table :: "uuid \<Rightarrow> uuid \<Rightarrow> db \<Rightarrow> Table option" where
  "find_table i h d = find (\<lambda>t. tb_id t = i \<and> tb_hotel t = h) (tables d)"

text \<open>The insert of a session, with the indexes on \<^verbatim>\<open>(hotel_id, session_number)\<close> and on the table
  of a session that is open or billed.\<close>

definition sql_insert_session :: "DiningSession \<Rightarrow> db \<Rightarrow> goerr + uuid \<times> db" where
  "sql_insert_session s d =
     (if \<not> int4 (ds_covers s) then Inl out_of_range
      else if list_ex (\<lambda>x. ds_id x = ds_id s \<or> ds_hotel x = ds_hotel s \<and> ds_number x = ds_number s \<or>
            seated (ds_status s) \<and> seated (ds_status x) \<and> ds_table x = ds_table s) (sessions d) then Inl UniqueViolation
      else if \<not> list_ex (\<lambda>t. tb_id t = ds_table s) (tables d) then Inl ForeignKeyViolation
      else Inr (ds_id s, d\<lparr>sessions := sessions d @ [s]\<rparr>))"

text \<open>An update of a session's status by identifier, subject to the index on seated sessions.\<close>

definition sql_session_status :: "uuid \<Rightarrow> string \<Rightarrow> db \<Rightarrow> goerr + unit \<times> db" where
  "sql_session_status i st d =
     (if seated st \<and> list_ex (\<lambda>x. ds_id x = i \<and>
           list_ex (\<lambda>y. ds_id y \<noteq> i \<and> ds_table y = ds_table x \<and> seated (ds_status y)) (sessions d)) (sessions d)
      then Inl UniqueViolation
      else Inr ((), d\<lparr>sessions := upd_where (\<lambda>x. ds_id x = i) (\<lambda>x. x\<lparr>ds_status := st\<rparr>) (sessions d)\<rparr>))"

definition sql_table_status :: "uuid \<Rightarrow> string \<Rightarrow> db \<Rightarrow> db" where
  "sql_table_status i st d = d\<lparr>tables := upd_where (\<lambda>t. tb_id t = i) (\<lambda>t. t\<lparr>tb_status := st\<rparr>) (tables d)\<rparr>"

definition session_details :: "openSessionRequest \<Rightarrow> CustomerDetails" where
  "session_details req =
     (case os_guest_name req of
        Some n \<Rightarrow> if cd_name (os_details req) = [] then (os_details req)\<lparr>cd_name := n\<rparr> else os_details req
      | None \<Rightarrow> os_details req)"

definition new_session :: "uuid \<Rightarrow> uuid \<Rightarrow> string \<Rightarrow> Table \<Rightarrow> openSessionRequest \<Rightarrow> uuid \<Rightarrow> time \<Rightarrow> DiningSession" where
  "new_session i h number t req customer now =
     \<lparr>ds_id = i, ds_hotel = h, ds_number = number, ds_table = tb_id t, ds_outlet = tb_outlet t,
      ds_covers = (if os_covers req \<le> 0 then 1 else os_covers req), ds_guest_name = os_guest_name req,
      ds_customer_type = (if os_customer_type req \<noteq> ''hotel_guest'' then ''walk_in'' else os_customer_type req),
      ds_stay = os_stay req, ds_customer = nilAsNull customer, ds_opened = now, ds_status = ''open''\<rparr>"

text \<open>The writes of \<^verbatim>\<open>OpenSession\<close>: the session, then the table.\<close>

definition open_writes :: "uuid \<Rightarrow> Table \<Rightarrow> openSessionRequest \<Rightarrow> uuid \<Rightarrow> (DiningSession response + DiningSession) go" where
  "open_writes h t req customer = do {
     number \<leftarrow> genNumber ''DIN'';
     i \<leftarrow> uuid_New;
     now \<leftarrow> time_Now;
     let s = new_session i h number t req customer now;
     try_or (stmt (sql_insert_session s)) 409 ''table already has an active session'' (\<lambda>_.
       try_or (exec (sql_table_status (tb_id t) ''occupied'')) 500 ''failed to occupy table'' (\<lambda>_.
         State_Monad.return (Inr s)))
   }"

definition OpenSession :: "POSHandler \<Rightarrow> ctx \<Rightarrow> string \<Rightarrow> openSessionRequest option \<Rightarrow> DiningSession response go" where
  "OpenSession H c idp body = with_param H idp ''invalid table id'' (\<lambda>i. with_body body (\<lambda>req.
     let h = pos_hotel H c in do {
       rb \<leftarrow> tx_begin;
       case rb of
         Inl _ \<Rightarrow> fail 500 ''failed to start transaction''
       | Inr _ \<Rightarrow> do {
           rt \<leftarrow> query_row (find_table i h);
           case rt of
             Inl _ \<Rightarrow> tx_rollback (Fail 404 ''table not found'')
           | Inr t \<Rightarrow>
               if tb_status t \<noteq> ''available'' \<and> tb_status t \<noteq> ''reserved''
               then tx_rollback (Fail 409 ''table is not available'')
               else do {
                 rc \<leftarrow> on_pool (ensureAccountingCustomer h (session_details req));
                 r \<leftarrow> tx_rest (Fail 500 ''failed to open session'')
                       (open_writes h t req (case rc of Inl _ \<Rightarrow> uuid_Nil | Inr u \<Rightarrow> u));
                 case r of
                   Inl answer \<Rightarrow> State_Monad.return answer
                 | Inr s \<Rightarrow> do { _ \<leftarrow> audit; State_Monad.return (Created s) }
               }
         }
     }))"

definition find_session :: "uuid \<Rightarrow> uuid \<Rightarrow> db \<Rightarrow> DiningSession option" where
  "find_session i h d = find (\<lambda>s. ds_id s = i \<and> ds_hotel s = h) (sessions d)"

definition close_tx :: "uuid \<Rightarrow> uuid \<Rightarrow> (uuid response + unit) go" where
  "close_tx h i = try_or (query_row (find_session i h)) 404 ''session not found'' (\<lambda>s.
     if ds_status s \<noteq> ''settled'' then refuse 409 ''session must be settled (bill paid) before closing''
     else try_or (stmt (sql_session_status i ''closed'')) 500 ''failed to close session'' (\<lambda>_.
       try_or (exec (sql_table_status (ds_table s) ''cleaning'')) 500 ''failed to release table'' (\<lambda>_.
         State_Monad.return (Inr ()))))"

definition CloseSession :: "POSHandler \<Rightarrow> ctx \<Rightarrow> string \<Rightarrow> uuid response go" where
  "CloseSession H c idp = with_param H idp ''invalid session id'' (\<lambda>i.
     pos_tx ''failed to close session'' (close_tx (pos_hotel H c) i) (\<lambda>_.
       do { _ \<leftarrow> audit; State_Monad.return (OK i) }))"

subsection \<open>Kitchen order tickets\<close>

text \<open>The items of every ticket of a session; a row of the result is a ticket with its items.\<close>

fun attach_items :: "KOT list \<Rightarrow> (goerr + (KOT \<times> KOTItem list) list) go" where
  "attach_items [] = State_Monad.return (Inr [])"
| "attach_items (k # ks) = do {
     r \<leftarrow> query (\<lambda>d. filter (\<lambda>x. ki_kot x = kt_id k) (kitems d));
     case r of
       Inl e \<Rightarrow> State_Monad.return (Inl e)
     | Inr its \<Rightarrow> do {
         rs \<leftarrow> attach_items ks;
         State_Monad.return (case rs of Inl e \<Rightarrow> Inl e | Inr rest \<Rightarrow> Inr ((k, its) # rest))
       }
   }"

definition loadKOTs :: "uuid \<Rightarrow> (goerr + (KOT \<times> KOTItem list) list) go" where
  "loadKOTs session = do {
     r \<leftarrow> query (\<lambda>d. sort_key kt_round (filter (\<lambda>k. kt_session k = session) (kots d)));
     case r of Inl e \<Rightarrow> State_Monad.return (Inl e) | Inr ks \<Rightarrow> attach_items ks
   }"

record kotItemRequest =
  kr_menu :: "uuid option"
  kr_name :: string
  kr_qty :: int
  kr_price :: rat
  kr_mods :: "json option"

text \<open>\<^verbatim>\<open>json.Unmarshal\<close> into a list of structs with one field \<^verbatim>\<open>price_delta\<close>: keys match without
  regard to case and the last one counts, a null element or value is the zero value, anything else
  that is not a number is an error.\<close>

fun delta_field :: "rat option \<Rightarrow> string \<times> json \<Rightarrow> rat option" where
  "delta_field acc (k, v) =
     (if \<not> EqualFold k ''price_delta'' then acc
      else case v of JNull \<Rightarrow> acc | JNum x \<Rightarrow> map_option (\<lambda>_. x) acc | _ \<Rightarrow> None)"

definition price_delta :: "json \<Rightarrow> rat option" where
  "price_delta j =
     (case j of JNull \<Rightarrow> Some 0 | JObj fs \<Rightarrow> foldl delta_field (Some 0) fs | _ \<Rightarrow> None)"

definition modifier_deltas :: "json \<Rightarrow> rat list option" where
  "modifier_deltas j =
     (case j of JNull \<Rightarrow> Some []
      | JArr xs \<Rightarrow> (if list_ex (\<lambda>x. price_delta x = None) xs then None else Some (map (\<lambda>x. the (price_delta x)) xs))
      | _ \<Rightarrow> None)"

definition sumModifierDeltas :: "json \<Rightarrow> rat" where
  "sumModifierDeltas raw = (case modifier_deltas raw of None \<Rightarrow> 0 | Some ds \<Rightarrow> foldl fadd 0 ds)"

definition line_total :: "kotItemRequest \<Rightarrow> rat" where
  "line_total it = (let mods = (case kr_mods it of None \<Rightarrow> JArr [] | Some m \<Rightarrow> m)
     in round2 (fmul (fadd (kr_price it) (sumModifierDeltas mods)) (of_int (kr_qty it))))"

definition sql_insert_kot :: "KOT \<Rightarrow> db \<Rightarrow> goerr + uuid \<times> db" where
  "sql_insert_kot k d =
     (if \<not> int4 (kt_round k) then Inl out_of_range
      else if list_ex (\<lambda>x. kt_id x = kt_id k \<or> kt_hotel x = kt_hotel k \<and> kt_number x = kt_number k) (kots d)
      then Inl UniqueViolation
      else Inr (kt_id k, d\<lparr>kots := kots d @ [k]\<rparr>))"

definition sql_insert_kitem :: "KOTItem \<Rightarrow> db \<Rightarrow> goerr + unit \<times> db" where
  "sql_insert_kitem x d =
     (if \<not> int4 (ki_qty x) \<or> \<not> num12 d [ki_unit x, ki_total x] then Inl out_of_range
      else if list_ex (\<lambda>y. ki_id y = ki_id x) (kitems d) then Inl UniqueViolation
      else Inr ((), d\<lparr>kitems := kitems d @
        [x\<lparr>ki_unit := db_num d (ki_unit x), ki_total := db_num d (ki_total x)\<rparr>]\<rparr>))"

fun insert_items :: "uuid \<Rightarrow> uuid \<Rightarrow> kotItemRequest list \<Rightarrow> (goerr + unit) go" where
  "insert_items h kot [] = State_Monad.return (Inr ())"
| "insert_items h kot (it # its) = do {
     i \<leftarrow> uuid_New;
     r \<leftarrow> stmt (sql_insert_kitem \<lparr>ki_id = i, ki_hotel = h, ki_kot = kot, ki_menu = kr_menu it, ki_name = kr_name it,
            ki_qty = kr_qty it, ki_unit = kr_price it, ki_total = line_total it, ki_status = ''queued'',
            ki_void_reason = None, ki_voided_by = None\<rparr>);
     case r of Inl e \<Rightarrow> State_Monad.return (Inl e) | Inr _ \<Rightarrow> insert_items h kot its
   }"

definition next_round :: "uuid \<Rightarrow> db \<Rightarrow> int" where
  "next_round session d = fold max (map kt_round (filter (\<lambda>k. kt_session k = session) (kots d))) 0 + 1"

definition create_kot_tx :: "uuid \<Rightarrow> uuid \<Rightarrow> kotItemRequest list \<Rightarrow> (KOT response + KOT) go" where
  "create_kot_tx h session items = try_or (query_row (find_session session h)) 404 ''session not found'' (\<lambda>s.
     if \<not> seated (ds_status s) then refuse 409 (''cannot add items to a '' @ ds_status s @ '' session'')
     else do {
       rr \<leftarrow> query (next_round session);
       number \<leftarrow> genNumber ''KOT'';
       i \<leftarrow> uuid_New;
       let k = \<lparr>kt_id = i, kt_hotel = h, kt_session = session, kt_number = number,
                kt_round = (case rr of Inl _ \<Rightarrow> 0 | Inr n \<Rightarrow> n), kt_status = ''draft''\<rparr>;
       try_or (stmt (sql_insert_kot k)) 500 ''failed to create kot'' (\<lambda>_.
         try_or (insert_items h i items) 400 ''failed to add kot item'' (\<lambda>_. do {
           _ \<leftarrow> (if ds_status s = ''billed'' then stmt (sql_session_status session ''open'')
                else State_Monad.return (Inr ()));
           State_Monad.return (Inr k)
         }))
     })"

definition CreateKOT :: "POSHandler \<Rightarrow> ctx \<Rightarrow> string \<Rightarrow> kotItemRequest list option \<Rightarrow> KOT response go" where
  "CreateKOT H c idp body = with_param H idp ''invalid session id'' (\<lambda>i. with_body body (\<lambda>items.
     if items = [] then fail 422 ''at least one item is required''
     else if list_ex (\<lambda>it. TrimSpace (kr_name it) = [] \<or> kr_qty it \<le> 0) items
     then fail 422 ''each item needs a name and quantity > 0''
     else pos_tx ''failed to create kot'' (create_kot_tx (pos_hotel H c) i items) (\<lambda>k.
       do { _ \<leftarrow> audit; State_Monad.return (Created k) })))"

definition sql_send_kot :: "uuid \<Rightarrow> uuid \<Rightarrow> db \<Rightarrow> goerr + nat \<times> db" where
  "sql_send_kot i h d =
     (let p = (\<lambda>k. kt_id k = i \<and> kt_hotel k = h \<and> kt_status k = ''draft'') in
      Inr (affected p (kots d), d\<lparr>kots := upd_where p (\<lambda>k. k\<lparr>kt_status := ''sent''\<rparr>) (kots d)\<rparr>))"

definition SendKOT :: "POSHandler \<Rightarrow> ctx \<Rightarrow> string \<Rightarrow> uuid response go" where
  "SendKOT H c idp = with_param H idp ''invalid kot id'' (\<lambda>i. do {
     r \<leftarrow> stmt (sql_send_kot i (pos_hotel H c));
     case r of Inl _ \<Rightarrow> fail 400 ''database error''
     | Inr n \<Rightarrow> if n = 0 then fail 409 ''kot is not in draft status''
               else do { _ \<leftarrow> audit; State_Monad.return (OK i) }
   })"

definition find_kot :: "uuid \<Rightarrow> uuid \<Rightarrow> db \<Rightarrow> KOT option" where
  "find_kot i h d = find (\<lambda>k. kt_id k = i \<and> kt_hotel k = h) (kots d)"

definition sql_kot_status :: "uuid \<Rightarrow> string \<Rightarrow> db \<Rightarrow> db" where
  "sql_kot_status i st d = d\<lparr>kots := upd_where (\<lambda>k. kt_id k = i) (\<lambda>k. k\<lparr>kt_status := st\<rparr>) (kots d)\<rparr>"

definition sql_items_status :: "uuid \<Rightarrow> string \<Rightarrow> db \<Rightarrow> db" where
  "sql_items_status kot st d = d\<lparr>kitems := upd_where (\<lambda>x. ki_kot x = kot \<and> ki_status x \<noteq> ''cancelled'')
     (\<lambda>x. x\<lparr>ki_status := st\<rparr>) (kitems d)\<rparr>"

definition kot_status_tx :: "uuid \<Rightarrow> uuid \<Rightarrow> string \<Rightarrow> (string response + unit) go" where
  "kot_status_tx h i st = try_or (query_row (find_kot i h)) 404 ''kot not found'' (\<lambda>k.
     if \<not> canTransition kotTransitions (kt_status k) st
     then refuse 409 (''invalid transition: '' @ kt_status k @ '' -> '' @ st)
     else try_or (exec (sql_kot_status i st)) 500 ''failed to update kot'' (\<lambda>_.
       if st = ''preparing'' \<or> st = ''ready'' \<or> st = ''served''
       then try_or (exec (sql_items_status i st)) 500 ''failed to update kot items'' (\<lambda>_. State_Monad.return (Inr ()))
       else State_Monad.return (Inr ())))"

definition UpdateKOTStatus :: "POSHandler \<Rightarrow> ctx \<Rightarrow> string \<Rightarrow> string option \<Rightarrow> string response go" where
  "UpdateKOTStatus H c idp body = with_param H idp ''invalid kot id'' (\<lambda>i. with_body body (\<lambda>st.
     pos_tx ''failed to update kot'' (kot_status_tx (pos_hotel H c) i st) (\<lambda>_.
       do { _ \<leftarrow> audit; State_Monad.return (OK st) })))"

subsection \<open>Bills\<close>

text \<open>\<^verbatim>\<open>computeTotals\<close>: every derived amount of a bill, from the subtotal and the inputs.\<close>

definition bill_discount :: "Bill \<Rightarrow> rat" where
  "bill_discount b =
     (let amount = (if bl_disc_type b = Some ''percent'' then round2 (fdiv (fmul (bl_subtotal b) (bl_disc_value b)) 100)
                    else if bl_disc_type b = Some ''flat'' then bl_disc_value b else 0)
      in if bl_subtotal b < amount then bl_subtotal b else amount)"

definition bill_tip :: "rat \<Rightarrow> Bill \<Rightarrow> rat" where
  "bill_tip taxable b =
     (if bl_tip_type b = Some ''percent'' then round2 (fdiv (fmul taxable (bl_tip_value b)) 100)
      else if bl_tip_type b = Some ''flat'' then bl_tip_value b else 0)"

definition computeTotals :: "Bill \<Rightarrow> Bill" where
  "computeTotals b =
     (let disc = bill_discount b;
          taxable = fsub (bl_subtotal b) disc;
          tax = round2 (fdiv (fmul taxable (bl_tax_rate b)) 100);
          tip = bill_tip taxable b;
          tot = round2 (fadd (fadd (fadd taxable tax) tip) (bl_rounding b))
      in b\<lparr>bl_disc_amount := disc, bl_tax := tax, bl_tip := tip, bl_total := tot,
           bl_due := round2 (fsub tot (bl_paid b))\<rparr>)"

definition find_bill :: "uuid \<Rightarrow> uuid \<Rightarrow> db \<Rightarrow> Bill option" where
  "find_bill i h d = find (\<lambda>b. bl_id b = i \<and> bl_hotel b = h) (bills d)"

definition bill_of_session :: "uuid \<Rightarrow> db \<Rightarrow> Bill option" where
  "bill_of_session session d = find (\<lambda>b. bl_session b = session \<and> bl_status b \<noteq> ''void'') (bills d)"

definition loadBillBySession :: "uuid \<Rightarrow> (goerr + Bill) go" where
  "loadBillBySession session = query_row (bill_of_session session)"

definition GetSession :: "POSHandler \<Rightarrow> ctx \<Rightarrow> string \<Rightarrow>
    (DiningSession \<times> (KOT \<times> KOTItem list) list \<times> Bill option) response go" where
  "GetSession H c idp = with_param H idp ''invalid session id'' (\<lambda>i. do {
     rs \<leftarrow> query_row (find_session i (pos_hotel H c));
     case rs of
       Inl _ \<Rightarrow> fail 404 ''session not found''
     | Inr s \<Rightarrow> do {
         rk \<leftarrow> loadKOTs i;
         case rk of
           Inl _ \<Rightarrow> fail 500 ''failed to load kots''
         | Inr ks \<Rightarrow> do {
             rb \<leftarrow> loadBillBySession i;
             State_Monad.return (OK (s, ks, case rb of Inl _ \<Rightarrow> None | Inr b \<Rightarrow> Some b))
           }
       }
   })"

text \<open>The line items of a session that are not cancelled, and their sum: the database adds the
  two-decimal column exactly, and the sum is rounded to a double when it is scanned.\<close>

definition billable :: "uuid \<Rightarrow> db \<Rightarrow> KOTItem list" where
  "billable session d = filter (\<lambda>x. ki_status x \<noteq> ''cancelled'' \<and>
     list_ex (\<lambda>k. kt_id k = ki_kot x \<and> kt_session k = session) (kots d)) (kitems d)"

definition subtotal_cents :: "uuid \<Rightarrow> db \<Rightarrow> int" where
  "subtotal_cents session d = sum_list (map (\<lambda>x. to_cents (ki_total x)) (billable session d))"

definition sql_insert_bill :: "Bill \<Rightarrow> db \<Rightarrow> goerr + Bill \<times> db" where
  "sql_insert_bill b d =
     (let b' = b\<lparr>bl_subtotal := db_num d (bl_subtotal b), bl_tax_rate := db_num d (bl_tax_rate b),
                 bl_tax := db_num d (bl_tax b), bl_total := db_num d (bl_total b), bl_due := db_num d (bl_due b)\<rparr> in
      if \<not> num12 d [bl_subtotal b, bl_tax b, bl_total b, bl_due b] then Inl out_of_range
      else if list_ex (\<lambda>x. bl_id x = bl_id b \<or> bl_hotel x = bl_hotel b \<and> bl_number x = bl_number b \<or>
            bl_session x = bl_session b \<and> bl_status x \<noteq> ''void'' \<and> bl_status b \<noteq> ''void'') (bills d) then Inl UniqueViolation
      else Inr (b', d\<lparr>bills := bills d @ [b']\<rparr>))"

definition new_bill :: "uuid \<Rightarrow> uuid \<Rightarrow> string \<Rightarrow> DiningSession \<Rightarrow> rat \<Rightarrow> rat \<Rightarrow> string \<Rightarrow> Bill" where
  "new_bill i h number s subtotal rate currency = computeTotals
     \<lparr>bl_id = i, bl_hotel = h, bl_session = ds_id s, bl_outlet = ds_outlet s, bl_number = number,
      bl_status = ''open'', bl_subtotal = round2 subtotal, bl_disc_type = None, bl_disc_value = 0,
      bl_disc_amount = 0, bl_tax_rate = rate, bl_tax = 0, bl_tip_type = None, bl_tip_value = 0, bl_tip = 0,
      bl_rounding = 0, bl_total = 0, bl_paid = 0, bl_due = 0, bl_currency = currency, bl_customer = None\<rparr>"

text \<open>The default tax rate and currency: of the outlet, or the rate of the hotel. A failed read leaves
  the defaults.\<close>

definition bill_rate :: "uuid \<Rightarrow> DiningSession \<Rightarrow> (rat \<times> string) go" where
  "bill_rate h s =
     (case ds_outlet s of
        Some o' \<Rightarrow> do {
          r \<leftarrow> query_row (\<lambda>d. find (\<lambda>x. ol_id x = o') (outlets d));
          State_Monad.return (case r of Inl _ \<Rightarrow> (0, ''INR'') | Inr x \<Rightarrow> (ol_tax_rate x, ol_currency x))
        }
      | None \<Rightarrow> do {
          r \<leftarrow> query_row (\<lambda>d. find (\<lambda>x. h_id x = h) (hotels d));
          State_Monad.return (case r of Inl _ \<Rightarrow> (0, ''INR'')
            | Inr x \<Rightarrow> (case h_gst_rate x of None \<Rightarrow> 0 | Some t \<Rightarrow> t, ''INR''))
        })"

definition generate_tx :: "uuid \<Rightarrow> uuid \<Rightarrow> (Bill response + Bill) go" where
  "generate_tx h session = try_or (query_row (find_session session h)) 404 ''session not found'' (\<lambda>s.
     if ds_status s = ''closed'' \<or> ds_status s = ''cancelled'' then refuse 409 (''session is '' @ ds_status s)
     else do {
       re \<leftarrow> query_row (bill_of_session session);
       case re of
         Inr existing \<Rightarrow> State_Monad.return (Inl (OK existing))
       | Inl _ \<Rightarrow>
           try_or (query (\<lambda>d. cents (subtotal_cents session d))) 500 ''failed to total items'' (\<lambda>subtotal.
             if subtotal \<le> 0 then refuse 422 ''no billable items in this session''
             else do {
               rate \<leftarrow> bill_rate h s;
               number \<leftarrow> genNumber ''BILL'';
               i \<leftarrow> uuid_New;
               try_or (stmt (sql_insert_bill (new_bill i h number s subtotal (fst rate) (snd rate)))) 409
                   ''a bill already exists for this session'' (\<lambda>created.
                 try_or (stmt (sql_session_status session ''billed'')) 500 ''failed to mark session billed'' (\<lambda>_. do {
                   _ \<leftarrow> exec (sql_table_status (ds_table s) ''billed'');
                   State_Monad.return (Inr created)
                 }))
             })
     })"

definition GenerateBill :: "POSHandler \<Rightarrow> ctx \<Rightarrow> string \<Rightarrow> Bill response go" where
  "GenerateBill H c idp = with_param H idp ''invalid session id'' (\<lambda>i.
     pos_tx ''failed to generate bill'' (generate_tx (pos_hotel H c) i) (\<lambda>b.
       do { _ \<leftarrow> audit; State_Monad.return (Created b) }))"

subsection \<open>Voiding an item\<close>

definition find_item :: "uuid \<Rightarrow> uuid \<Rightarrow> uuid \<Rightarrow> db \<Rightarrow> (uuid \<times> string) option" where
  "find_item item kot h d =
     (case find (\<lambda>x. ki_id x = item \<and> ki_kot x = kot \<and> ki_hotel x = h) (kitems d) of
        None \<Rightarrow> None
      | Some x \<Rightarrow> map_option (\<lambda>k. (kt_session k, ki_status x)) (find (\<lambda>k. kt_id k = ki_kot x) (kots d)))"

definition sql_void_item :: "uuid \<Rightarrow> string \<Rightarrow> uuid option \<Rightarrow> db \<Rightarrow> db" where
  "sql_void_item i reason user d = d\<lparr>kitems := upd_where (\<lambda>x. ki_id x = i)
     (\<lambda>x. x\<lparr>ki_status := ''cancelled'', ki_void_reason := Some reason, ki_voided_by := user\<rparr>) (kitems d)\<rparr>"

definition sql_bill_totals :: "Bill \<Rightarrow> db \<Rightarrow> goerr + unit \<times> db" where
  "sql_bill_totals b d =
     (if \<not> num12 d [bl_subtotal b, bl_disc_amount b, bl_tax b, bl_tip b, bl_total b, bl_due b] then Inl out_of_range
      else Inr ((), d\<lparr>bills := upd_where (\<lambda>x. bl_id x = bl_id b)
        (\<lambda>x. x\<lparr>bl_subtotal := db_num d (bl_subtotal b), bl_disc_amount := db_num d (bl_disc_amount b),
              bl_tax := db_num d (bl_tax b), bl_tip := db_num d (bl_tip b), bl_total := db_num d (bl_total b),
              bl_due := db_num d (bl_due b)\<rparr>) (bills d)\<rparr>))"

definition void_tx :: "uuid \<Rightarrow> uuid option \<Rightarrow> uuid \<Rightarrow> uuid \<Rightarrow> string \<Rightarrow> (uuid response + unit) go" where
  "void_tx h user kot item reason = try_or (query_row (find_item item kot h)) 404 ''kot item not found'' (\<lambda>si.
     if snd si = ''cancelled'' then refuse 409 ''item is already voided''
     else do {
       rb \<leftarrow> query_row (bill_of_session (fst si));
       if (case rb of Inl _ \<Rightarrow> False | Inr b \<Rightarrow> bl_status b \<noteq> ''open'')
       then refuse 409 ''bill is locked; cannot void an item on a locked bill''
       else try_or (exec (sql_void_item item reason user)) 500 ''failed to void item'' (\<lambda>_.
         case rb of
           Inl _ \<Rightarrow> State_Monad.return (Inr ())
         | Inr b \<Rightarrow>
             try_or (query (\<lambda>d. cents (subtotal_cents (fst si) d))) 500 ''failed to recompute bill'' (\<lambda>subtotal.
               try_or (stmt (sql_bill_totals (computeTotals (b\<lparr>bl_subtotal := round2 subtotal\<rparr>)))) 500
                   ''failed to update bill totals'' (\<lambda>_. State_Monad.return (Inr ()))))
     })"

definition VoidKOTItem :: "POSHandler \<Rightarrow> ctx \<Rightarrow> string \<Rightarrow> string \<Rightarrow> string option \<Rightarrow> uuid response go" where
  "VoidKOTItem H c kotp itemp body = guarded (pos_roles H c posCashierRoles)
     (with_param H kotp ''invalid kot id'' (\<lambda>kot. with_param H itemp ''invalid item id'' (\<lambda>item.
       with_body body (\<lambda>raw. let reason = TrimSpace raw in
         if reason = [] then fail 422 ''a void reason is required''
         else pos_tx ''failed to void item'' (void_tx (pos_hotel H c) (pos_user H c) kot item reason) (\<lambda>_.
           do { _ \<leftarrow> audit; State_Monad.return (OK item) })))))"

subsection \<open>Editing and finalizing a bill\<close>

record updateBillRequest =
  ub_disc_type :: "string option"
  ub_disc_value :: "rat option"
  ub_tax_rate :: "rat option"
  ub_tip_type :: "string option"
  ub_tip_value :: "rat option"
  ub_rounding :: "rat option"

definition or_else :: "'a option \<Rightarrow> 'a \<Rightarrow> 'a" where
  "or_else x y = (case x of None \<Rightarrow> y | Some v \<Rightarrow> v)"

text \<open>The bill with the fields of the request, before the totals are computed.\<close>

definition edited_bill :: "updateBillRequest \<Rightarrow> Bill \<Rightarrow> Bill" where
  "edited_bill req b = b\<lparr>
     bl_disc_type := (case ub_disc_type req of None \<Rightarrow> bl_disc_type b | t \<Rightarrow> t),
     bl_disc_value := or_else (ub_disc_value req) (bl_disc_value b),
     bl_tax_rate := or_else (ub_tax_rate req) (bl_tax_rate b),
     bl_tip_type := (case ub_tip_type req of None \<Rightarrow> bl_tip_type b | t \<Rightarrow> t),
     bl_tip_value := or_else (ub_tip_value req) (bl_tip_value b),
     bl_rounding := or_else (ub_rounding req) (bl_rounding b)\<rparr>"

definition sql_edit_bill :: "uuid \<Rightarrow> Bill \<Rightarrow> db \<Rightarrow> goerr + Bill option \<times> db" where
  "sql_edit_bill i b d =
     (if \<not> num12 d [bl_disc_value b, bl_disc_amount b, bl_tax b, bl_tip_value b, bl_tip b, bl_rounding b, bl_total b, bl_due b]
      then Inl out_of_range
      else let ed = (\<lambda>x. x\<lparr>bl_disc_type := bl_disc_type b, bl_disc_value := db_num d (bl_disc_value b),
             bl_disc_amount := db_num d (bl_disc_amount b), bl_tax_rate := db_num d (bl_tax_rate b),
             bl_tax := db_num d (bl_tax b), bl_tip_type := bl_tip_type b, bl_tip_value := db_num d (bl_tip_value b),
             bl_tip := db_num d (bl_tip b), bl_rounding := db_num d (bl_rounding b),
             bl_total := db_num d (bl_total b), bl_due := db_num d (bl_due b)\<rparr>) in
        Inr (map_option ed (find (\<lambda>x. bl_id x = i) (bills d)),
             d\<lparr>bills := upd_where (\<lambda>x. bl_id x = i) ed (bills d)\<rparr>))"

text \<open>\<open>manager\<close> is the outcome of the second role check, which only an override of the tax rate meets.\<close>

definition update_bill_tx :: "uuid \<Rightarrow> guard \<Rightarrow> uuid \<Rightarrow> updateBillRequest \<Rightarrow> (Bill response + Bill) go" where
  "update_bill_tx h manager i req = try_or (query_row (find_bill i h)) 404 ''bill not found'' (\<lambda>b.
     if bl_status b \<noteq> ''open'' then refuse 409 ''bill can only be edited while open''
     else
       let overrides = (case ub_tax_rate req of None \<Rightarrow> False | Some t \<Rightarrow> t \<noteq> bl_tax_rate b) in
       case (if overrides then manager else Pass) of
         Refuse n msg \<Rightarrow> refuse n msg
       | Pass \<Rightarrow>
           if overrides \<and> (or_else (ub_tax_rate req) 0 < 0 \<or> 100 < or_else (ub_tax_rate req) 0)
           then refuse 422 ''tax_rate must be between 0 and 100''
           else let b' = edited_bill req b in
             if bl_disc_value b' < 0 \<or> bl_tip_value b' < 0
             then refuse 422 ''discount and tip must be non-negative''
             else try_or (stmt (sql_edit_bill i (computeTotals b'))) 500 ''failed to update bill'' (\<lambda>updated.
               case updated of None \<Rightarrow> refuse 500 ''failed to update bill'' | Some x \<Rightarrow> State_Monad.return (Inr x)))"

definition UpdateBill :: "POSHandler \<Rightarrow> ctx \<Rightarrow> string \<Rightarrow> updateBillRequest option \<Rightarrow> Bill response go" where
  "UpdateBill H c idp body = guarded (pos_roles H c posCashierRoles)
     (with_param H idp ''invalid bill id'' (\<lambda>i. with_body body (\<lambda>req.
       pos_tx ''failed to update bill'' (update_bill_tx (pos_hotel H c) (pos_roles H c posManagerRoles) i req)
         (\<lambda>b. State_Monad.return (OK b)))))"

definition sql_finalize_bill :: "uuid \<Rightarrow> uuid \<Rightarrow> db \<Rightarrow> goerr + nat \<times> db" where
  "sql_finalize_bill i h d =
     (let p = (\<lambda>b. bl_id b = i \<and> bl_hotel b = h \<and> bl_status b = ''open'') in
      Inr (affected p (bills d), d\<lparr>bills := upd_where p (\<lambda>b. b\<lparr>bl_status := ''finalized''\<rparr>) (bills d)\<rparr>))"

definition FinalizeBill :: "POSHandler \<Rightarrow> ctx \<Rightarrow> string \<Rightarrow> uuid response go" where
  "FinalizeBill H c idp = guarded (pos_roles H c posCashierRoles) (with_param H idp ''invalid bill id'' (\<lambda>i. do {
     r \<leftarrow> stmt (sql_finalize_bill i (pos_hotel H c));
     case r of Inl _ \<Rightarrow> fail 400 ''database error''
     | Inr n \<Rightarrow> if n = 0 then fail 409 ''bill is not open'' else do { _ \<leftarrow> audit; State_Monad.return (OK i) }
   }))"

subsection \<open>Payments\<close>

record billPaymentRequest =
  br_method :: string
  br_amount :: rat
  br_tendered :: "rat option"
  br_txn :: "string option"

definition payment_change :: "billPaymentRequest \<Rightarrow> rat" where
  "payment_change req =
     (case br_tendered req of Some t \<Rightarrow> if br_method req = ''cash'' then round2 (fsub t (br_amount req)) else 0
      | None \<Rightarrow> 0)"

text \<open>The checks of a payment against its bill, in the order of the source.\<close>

definition payment_refusal :: "Bill \<Rightarrow> billPaymentRequest \<Rightarrow> (nat \<times> string) option" where
  "payment_refusal b req =
     (if bl_status b \<noteq> ''finalized'' \<and> bl_status b \<noteq> ''partially_paid''
      then Some (409, ''bill must be finalized before payment'')
      else if br_method req = ''cash'' \<and> (case br_tendered req of None \<Rightarrow> False | Some t \<Rightarrow> t < br_amount req)
      then Some (422, ''tendered is less than amount'')
      else if (br_method req = ''card'' \<or> br_method req = ''upi'') \<and> TrimSpace (derefStr (br_txn req)) = []
      then Some (422, ''txn_reference is required for card/upi'')
      else if br_method req \<noteq> ''cash'' \<and> bl_total b < round2 (fadd (bl_paid b) (br_amount req))
      then Some (422, ''payment exceeds amount due'')
      else None)"

definition sql_insert_bpayment :: "BillPayment \<Rightarrow> db \<Rightarrow> goerr + unit \<times> db" where
  "sql_insert_bpayment p d =
     (if \<not> num12 d ([bp_amount p, bp_change p] @ (case bp_tendered p of None \<Rightarrow> [] | Some t \<Rightarrow> [t])) then Inl out_of_range
      else if list_ex (\<lambda>x. bp_id x = bp_id p) (bpayments d) then Inl UniqueViolation
      else if \<not> list_ex (\<lambda>b. bl_id b = bp_bill p) (bills d) then Inl ForeignKeyViolation
      else Inr ((), d\<lparr>bpayments := bpayments d @
        [p\<lparr>bp_amount := db_num d (bp_amount p), bp_tendered := map_option (db_num d) (bp_tendered p),
           bp_change := db_num d (bp_change p)\<rparr>]\<rparr>))"

text \<open>The row of \<^verbatim>\<open>payments\<close> the revenue reports read.\<close>

definition fnb_payment :: "uuid \<Rightarrow> uuid \<Rightarrow> string \<Rightarrow> rat \<Rightarrow> string \<Rightarrow> string \<Rightarrow> Payment" where
  "fnb_payment i h number amount method notes = \<lparr>py_id = i, py_hotel = h, py_number = number, py_stay = None,
     py_amount = amount, py_method = method, py_status = ''completed'', py_upi = None, py_txn = None,
     py_last4 = None, py_auth = None, py_cash = 0, py_change = 0, py_notes = notes, py_category = ''fnb''\<rparr>"

definition paid_bill :: "Bill \<Rightarrow> rat \<Rightarrow> Bill" where
  "paid_bill b credited =
     (let paid = round2 (fadd (bl_paid b) credited); due = round2 (fsub (bl_total b) paid)
      in if due \<le> 0 then b\<lparr>bl_paid := paid, bl_due := 0, bl_status := ''paid''\<rparr>
         else b\<lparr>bl_paid := paid, bl_due := due, bl_status := ''partially_paid''\<rparr>)"

definition sql_bill_paid :: "Bill \<Rightarrow> db \<Rightarrow> goerr + unit \<times> db" where
  "sql_bill_paid b d =
     (if \<not> num12 d [bl_paid b, bl_due b] then Inl out_of_range
      else Inr ((), d\<lparr>bills := upd_where (\<lambda>x. bl_id x = bl_id b)
        (\<lambda>x. x\<lparr>bl_paid := db_num d (bl_paid b), bl_due := db_num d (bl_due b), bl_status := bl_status b\<rparr>) (bills d)\<rparr>))"

text \<open>Where the money goes: a room charge on the guest's folio, anything else into \<^verbatim>\<open>payments\<close>.\<close>

definition record_revenue :: "uuid \<Rightarrow> uuid option \<Rightarrow> Bill \<Rightarrow> billPaymentRequest \<Rightarrow> string \<Rightarrow> ('r response + unit) go" where
  "record_revenue h user b req number =
     (if br_method req = ''room_charge'' then do {
        rf \<leftarrow> resolveFolioForRoomCharge h (bl_session b);
        case rf of
          Inl e \<Rightarrow> refuse (if e = ErrNoRoomForCharge then 422 else 500) ''room charge refused''
        | Inr fs \<Rightarrow> try_or (postFolioCharge h (fst fs) (bl_id b) (''Restaurant - bill '' @ bl_number b)
              (bl_subtotal b) (bl_tax b) user) 500 ''folio charge failed'' (\<lambda>_. State_Monad.return (Inr ()))
      } else do {
        i \<leftarrow> uuid_New;
        try_or (stmt (sql_insert_payment (fnb_payment i h number (br_amount req) (br_method req)
            (''Dine-in bill '' @ bl_number b)))) 500 ''failed to record revenue'' (\<lambda>_. State_Monad.return (Inr ()))
      })"

record paymentReceipt =
  pt_id :: uuid
  pt_number :: string
  pt_change :: rat
  pt_bill :: Bill

definition payment_tx :: "uuid \<Rightarrow> uuid option \<Rightarrow> uuid \<Rightarrow> billPaymentRequest \<Rightarrow> ('r response + paymentReceipt) go" where
  "payment_tx h user i req = try_or (query_row (find_bill i h)) 404 ''bill not found'' (\<lambda>b.
     case payment_refusal b req of
       Some (n, msg) \<Rightarrow> refuse n msg
     | None \<Rightarrow> do {
         number \<leftarrow> genNumber ''PAY'';
         pid \<leftarrow> uuid_New;
         try_or (stmt (sql_insert_bpayment \<lparr>bp_id = pid, bp_hotel = h, bp_bill = i, bp_number = number,
             bp_method = br_method req, bp_amount = br_amount req, bp_tendered = br_tendered req,
             bp_change = payment_change req, bp_status = ''completed'', bp_txn = br_txn req\<rparr>)) 400
             ''failed to record payment'' (\<lambda>_. do {
           rr \<leftarrow> record_revenue h user b req number;
           case rr of
             Inl answer \<Rightarrow> State_Monad.return (Inl answer)
           | Inr _ \<Rightarrow>
               let b' = paid_bill b (br_amount req) in
               try_or (stmt (sql_bill_paid b')) 500 ''failed to update bill'' (\<lambda>_. do {
                 rs \<leftarrow> (if bl_status b' = ''paid'' then stmt (sql_session_status (bl_session b) ''settled'')
                       else State_Monad.return (Inr ()));
                 case rs of Inl _ \<Rightarrow> refuse 500 ''failed to settle session''
                 | Inr _ \<Rightarrow> State_Monad.return (Inr \<lparr>pt_id = pid, pt_number = number,
                     pt_change = payment_change req, pt_bill = b'\<rparr>)
               })
         })
       })"

text \<open>The postings after a bill is paid, outside the transaction: errors are logged, never
  answered.\<close>

definition sql_bill_customer :: "uuid \<Rightarrow> uuid \<Rightarrow> db \<Rightarrow> db" where
  "sql_bill_customer i customer d =
     d\<lparr>bills := upd_where (\<lambda>x. bl_id x = i) (\<lambda>x. x\<lparr>bl_customer := Some customer\<rparr>) (bills d)\<rparr>"

definition session_customer :: "uuid \<Rightarrow> db \<Rightarrow> uuid option" where
  "session_customer session d =
     map_option (\<lambda>s. or_else (ds_customer s) uuid_Nil) (find (\<lambda>s. ds_id s = session) (sessions d))"

definition post_sale :: "uuid \<Rightarrow> string \<Rightarrow> Bill \<Rightarrow> uuid go" where
  "post_sale h method b = do {
     rc \<leftarrow> query_row (session_customer (bl_session b));
     let customer = (case rc of Inl _ \<Rightarrow> uuid_Nil | Inr u \<Rightarrow> u);
     _ \<leftarrow> (if customer \<noteq> uuid_Nil then exec (sql_bill_customer (bl_id b) customer) else State_Monad.return (Inr ()));
     rj \<leftarrow> postSalesToLedgerFor h method (bl_subtotal b) (bl_tax b) (bl_total b) (''BILL '' @ bl_number b)
            (''POS sale - bill '' @ bl_number b) customer;
     cogs \<leftarrow> sessionCOGS (bl_session b);
     _ \<leftarrow> (if 0 < cogs then postCOGS h cogs (''BILL '' @ bl_number b) (''COGS - bill '' @ bl_number b)
          else State_Monad.return (Inr uuid_Nil));
     State_Monad.return (case rj of Inl _ \<Rightarrow> uuid_Nil | Inr j \<Rightarrow> j)
   }"

definition AddBillPayment :: "POSHandler \<Rightarrow> ctx \<Rightarrow> string \<Rightarrow> billPaymentRequest option \<Rightarrow>
    (paymentReceipt \<times> uuid) response go" where
  "AddBillPayment H c idp body = guarded (pos_roles H c posCashierRoles)
     (with_param H idp ''invalid bill id'' (\<lambda>i. with_body body (\<lambda>req.
       if \<not> validPaymentMethod (br_method req) then fail 422 ''unsupported payment method''
       else if br_amount req \<le> 0 then fail 422 ''amount must be positive''
       else pos_tx ''failed to record payment'' (payment_tx (pos_hotel H c) (pos_user H c) i req) (\<lambda>p. do {
         _ \<leftarrow> audit;
         journal \<leftarrow> (if bl_status (pt_bill p) = ''paid'' then post_sale (pos_hotel H c) (br_method req) (pt_bill p)
                    else State_Monad.return uuid_Nil);
         State_Monad.return (Created (p, journal))
       }))))"

subsection \<open>Refunds and receipts\<close>

definition sql_bill_status :: "uuid \<Rightarrow> string \<Rightarrow> db \<Rightarrow> db" where
  "sql_bill_status i st d = d\<lparr>bills := upd_where (\<lambda>x. bl_id x = i) (\<lambda>x. x\<lparr>bl_status := st\<rparr>) (bills d)\<rparr>"

definition refund_tx :: "uuid \<Rightarrow> uuid \<Rightarrow> ('r response + Bill) go" where
  "refund_tx h i = try_or (query_row (find_bill i h)) 404 ''bill not found'' (\<lambda>b.
     if bl_status b \<noteq> ''paid'' \<and> bl_status b \<noteq> ''partially_paid'' then refuse 409 ''only a paid bill can be refunded''
     else do {
       rp \<leftarrow> (if 0 < bl_paid b then do {
                number \<leftarrow> genNumber ''REF'';
                pid \<leftarrow> uuid_New;
                stmt (sql_insert_payment (fnb_payment pid h number (- bl_paid b) ''refund'' (''Refund bill '' @ bl_number b)))
              } else State_Monad.return (Inr ()));
       case rp of
         Inl _ \<Rightarrow> refuse 500 ''failed to record refund''
       | Inr _ \<Rightarrow>
           try_or (exec (sql_bill_status i ''refunded'')) 500 ''failed to update bill'' (\<lambda>_.
             try_or (stmt (sql_session_status (bl_session b) ''refunded'')) 500 ''failed to update session'' (\<lambda>_.
               State_Monad.return (Inr b)))
     })"

definition RefundBill :: "POSHandler \<Rightarrow> ctx \<Rightarrow> string \<Rightarrow> (rat \<times> uuid) response go" where
  "RefundBill H c idp = guarded (pos_roles H c posManagerRoles) (with_param H idp ''invalid bill id'' (\<lambda>i.
     pos_tx ''failed to refund'' (refund_tx (pos_hotel H c) i) (\<lambda>b. do {
       _ \<leftarrow> audit;
       rv \<leftarrow> reverseJournalsByReference (pos_hotel H c) (''BILL '' @ bl_number b) (''Refund - bill '' @ bl_number b);
       State_Monad.return (OK (bl_paid b, case rv of Inl _ \<Rightarrow> uuid_Nil | Inr j \<Rightarrow> j))
     })))"

text \<open>The round of the ticket an item is on, by which the receipt is ordered.\<close>

definition item_round :: "db \<Rightarrow> KOTItem \<Rightarrow> int" where
  "item_round d x = (case find (\<lambda>k. kt_id k = ki_kot x) (kots d) of None \<Rightarrow> 0 | Some k \<Rightarrow> kt_round k)"

definition BillReceipt :: "POSHandler \<Rightarrow> ctx \<Rightarrow> string \<Rightarrow> (Bill \<times> KOTItem list \<times> BillPayment list) response go" where
  "BillReceipt H c idp = with_param H idp ''invalid bill id'' (\<lambda>i. do {
     rb \<leftarrow> query_row (find_bill i (pos_hotel H c));
     case rb of
       Inl _ \<Rightarrow> fail 404 ''bill not found''
     | Inr b \<Rightarrow> do {
         ri \<leftarrow> query (\<lambda>d. sort_key (item_round d) (billable (bl_session b) d));
         case ri of
           Inl _ \<Rightarrow> fail 500 ''failed to load items''
         | Inr its \<Rightarrow> do {
             rp \<leftarrow> query (\<lambda>d. filter (\<lambda>p. bp_bill p = i) (bpayments d));
             case rp of Inl _ \<Rightarrow> fail 500 ''failed to load payments''
             | Inr ps \<Rightarrow> State_Monad.return (OK (b, its, ps))
           }
       }
   })"

end
