(* ===== verification/Split.thy ===== *)
theory Split
  imports Dinein
begin

text \<open>
  Split billing, \<^verbatim>\<open>internal/handler/pos_split.go\<close>: the total of a bill divided between named
  customers, equally or by given amounts, and the stored shares renormalized to the current total
  when they are read. Amounts that are displayed sum to exactly the total of the bill, and a split
  reads back as it was saved as long as the total does not change.
\<close>

record billSplitRow =
  bs_id :: uuid
  bs_no :: int
  bs_customer :: string
  bs_amount :: rat

subsection \<open>Reading\<close>

text \<open>The renormalization loop of \<^verbatim>\<open>loadBillSplits\<close>: \<open>allocated\<close> runs over the amounts given out, and
  the last split takes the remainder.\<close>

fun allocate :: "rat \<Rightarrow> rat \<Rightarrow> rat \<Rightarrow> rat list \<Rightarrow> rat list" where
  "allocate tot sumShares allocated [] = []"
| "allocate tot sumShares allocated [s] = [round2 (fsub tot allocated)]"
| "allocate tot sumShares allocated (s # s' # ss) =
     (let amt = (if 0 < sumShares then round2 (fdiv (fmul tot s) sumShares) else 0)
      in amt # allocate tot sumShares (round2 (fadd allocated amt)) (s' # ss))"

definition split_amounts :: "rat \<Rightarrow> rat list \<Rightarrow> rat list" where
  "split_amounts tot shares = allocate tot (foldl fadd 0 shares) 0 shares"

definition splits_of :: "uuid \<Rightarrow> db \<Rightarrow> BillSplit list" where
  "splits_of bill d = sort_key sp_no (filter (\<lambda>s. sp_bill s = bill) (splits d))"

definition loadBillSplits :: "uuid \<Rightarrow> rat \<Rightarrow> (goerr + billSplitRow list) go" where
  "loadBillSplits bill tot = do {
     r \<leftarrow> query (splits_of bill);
     State_Monad.return (case r of
       Inl e \<Rightarrow> Inl e
     | Inr rows \<Rightarrow> Inr (map (\<lambda>(s, a). \<lparr>bs_id = sp_id s, bs_no = sp_no s, bs_customer = sp_customer s, bs_amount = a\<rparr>)
         (zip rows (split_amounts tot (map sp_share rows)))))
   }"

definition GetBillSplits :: "POSHandler \<Rightarrow> ctx \<Rightarrow> string \<Rightarrow> (bool \<times> billSplitRow list) response go" where
  "GetBillSplits H c idp = with_param H idp ''invalid bill id'' (\<lambda>i. do {
     rb \<leftarrow> query_row (find_bill i (pos_hotel H c));
     case rb of
       Inl _ \<Rightarrow> fail 404 ''bill not found''
     | Inr b \<Rightarrow> do {
         rs \<leftarrow> loadBillSplits i (bl_total b);
         case rs of Inl _ \<Rightarrow> fail 500 ''failed to load splits''
         | Inr ss \<Rightarrow> State_Monad.return (OK (ss \<noteq> [], ss))
       }
   })"

subsection \<open>Saving\<close>

record splitCustomer =
  sc_name :: string
  sc_amount :: "rat option"

record setSplitsRequest =
  ss_enabled :: bool
  ss_customers :: "splitCustomer list"

text \<open>The loop over the customers: the first customer with a blank name or an amount that is not
  positive ends the request.\<close>

fun customer_refusal :: "splitCustomer list \<Rightarrow> string option" where
  "customer_refusal [] = None"
| "customer_refusal (cu # cus) =
     (if TrimSpace (sc_name cu) = [] then Some ''every customer needs a name''
      else if (case sc_amount cu of None \<Rightarrow> False | Some a \<Rightarrow> a \<le> 0) then Some ''split amounts must be positive''
      else customer_refusal cus)"

definition given_amounts :: "splitCustomer list \<Rightarrow> rat list" where
  "given_amounts cus = map (\<lambda>cu. the (sc_amount cu)) (filter (\<lambda>cu. sc_amount cu \<noteq> None) cus)"

definition split_refusal :: "rat \<Rightarrow> splitCustomer list \<Rightarrow> string option" where
  "split_refusal tot cus =
     (if length cus < 2 then Some ''split needs at least 2 customers''
      else case customer_refusal cus of
        Some msg \<Rightarrow> Some msg
      | None \<Rightarrow>
          (let amounts = given_amounts cus in
           if amounts \<noteq> [] \<and> length amounts \<noteq> length cus
           then Some ''provide amounts for all customers or none''
           else if length amounts = length cus \<and>
                fl64 (1 / 100) < \<bar>fsub (round2 (foldl fadd 0 amounts)) tot\<bar>
           then Some ''split amounts must sum to the bill total''
           else None))"

text \<open>The stored shares: the given amounts, or an equal split whose last share takes the rest.\<close>

definition equal_shares :: "rat \<Rightarrow> nat \<Rightarrow> rat list" where
  "equal_shares tot n =
     (let each = round2 (fdiv tot (of_nat n))
      in replicate (n - 1) each @ [round2 (fsub tot (fmul each (of_nat (n - 1))))])"

definition new_shares :: "rat \<Rightarrow> splitCustomer list \<Rightarrow> rat list" where
  "new_shares tot cus =
     (if length (given_amounts cus) = length cus then map round2 (given_amounts cus)
      else equal_shares tot (length cus))"

definition sql_insert_split :: "BillSplit \<Rightarrow> db \<Rightarrow> goerr + unit \<times> db" where
  "sql_insert_split s d =
     (if \<not> num12 d [sp_share s] then Inl out_of_range
      else if list_ex (\<lambda>x. sp_id x = sp_id s \<or> sp_bill x = sp_bill s \<and> sp_no x = sp_no s) (splits d) then Inl UniqueViolation
      else Inr ((), d\<lparr>splits := splits d @ [s\<lparr>sp_share := db_num d (sp_share s)\<rparr>]\<rparr>))"

fun insert_splits :: "uuid \<Rightarrow> uuid \<Rightarrow> nat \<Rightarrow> (string \<times> rat) list \<Rightarrow> (goerr + billSplitRow list) go" where
  "insert_splits h bill n [] = State_Monad.return (Inr [])"
| "insert_splits h bill n ((name, share) # rest) = do {
     i \<leftarrow> uuid_New;
     r \<leftarrow> stmt (sql_insert_split \<lparr>sp_id = i, sp_hotel = h, sp_bill = bill, sp_no = int n + 1, sp_customer = name, sp_share = share\<rparr>);
     case r of
       Inl e \<Rightarrow> State_Monad.return (Inl e)
     | Inr _ \<Rightarrow> do {
         rr \<leftarrow> insert_splits h bill (Suc n) rest;
         State_Monad.return (case rr of Inl e \<Rightarrow> Inl e
           | Inr rows \<Rightarrow> Inr (\<lparr>bs_id = i, bs_no = int n + 1, bs_customer = name, bs_amount = share\<rparr> # rows))
       }
   }"

definition sql_delete_splits :: "uuid \<Rightarrow> db \<Rightarrow> db" where
  "sql_delete_splits bill d = d\<lparr>splits := filter (\<lambda>s. sp_bill s \<noteq> bill) (splits d)\<rparr>"

definition splits_tx :: "uuid \<Rightarrow> uuid \<Rightarrow> setSplitsRequest \<Rightarrow> ('r response + billSplitRow list) go" where
  "splits_tx h i req = try_or (query_row (find_bill i h)) 404 ''bill not found'' (\<lambda>b.
     if bl_status b = ''void'' then refuse 409 ''bill is void''
     else try_or (exec (sql_delete_splits i)) 500 ''failed to reset splits'' (\<lambda>_.
       if \<not> ss_enabled req then State_Monad.return (Inr [])
       else case split_refusal (bl_total b) (ss_customers req) of
         Some msg \<Rightarrow> refuse 422 msg
       | None \<Rightarrow> try_or (insert_splits h i 0
             (zip (map (\<lambda>cu. TrimSpace (sc_name cu)) (ss_customers req)) (new_shares (bl_total b) (ss_customers req))))
           500 ''failed to save split'' (\<lambda>rows. State_Monad.return (Inr rows))))"

definition SetBillSplits :: "POSHandler \<Rightarrow> ctx \<Rightarrow> string \<Rightarrow> setSplitsRequest option \<Rightarrow> (bool \<times> billSplitRow list) response go" where
  "SetBillSplits H c idp body = guarded (pos_roles H c posCashierRoles)
     (with_param H idp ''invalid bill id'' (\<lambda>i. with_body body (\<lambda>req.
       pos_tx ''failed to save splits'' (splits_tx (pos_hotel H c) i req) (\<lambda>rows.
         do { _ \<leftarrow> audit; State_Monad.return (OK (ss_enabled req, rows)) }))))"

subsection \<open>Relative error\<close>

text \<open>\<open>rclose v x e\<close>: the double \<open>v\<close> is the number \<open>x\<close> up to the relative error \<open>e\<close>. A share of a bill
  is a product and a quotient of doubles, whose error is relative.\<close>

definition rclose :: "rat \<Rightarrow> rat \<Rightarrow> rat \<Rightarrow> bool" where
  "rclose v x e \<longleftrightarrow> 0 \<le> x \<and> \<bar>v - x\<bar> \<le> e * x"

lemma rclose_fl64:
  assumes "rclose v x e" "e \<le> 1 / 2" "1 / 2 ^ 47 \<le> x"
  shows "rclose (fl64 v) x (e + 1 / 2 ^ 51)"
proof -
  have v: "\<bar>v - x\<bar> \<le> e * x" and x: "0 \<le> x" using assms by (auto simp: rclose_def)
  have "e * x \<le> 1 / 2 * x" using assms(2) x by (rule mult_right_mono)
  with v have "\<bar>v\<bar> \<le> 3 / 2 * x" using x by linarith
  then have "\<bar>fl64 v - v\<bar> \<le> (3 / 2 * x) / 2 ^ 53 + 1 / 2 ^ 100" using f64.err [of v] by simp
  also have "\<dots> \<le> x / 2 ^ 51" using assms(3) by simp
  finally have "\<bar>fl64 v - x\<bar> \<le> e * x + x / 2 ^ 51" using v by linarith
  then show ?thesis using x by (simp add: rclose_def algebra_simps)
qed

lemma rclose_mult:
  assumes "rclose v x e" "rclose w y f" "e \<le> 1" "0 \<le> e" "0 \<le> f"
  shows "rclose (v * w) (x * y) (e + 2 * f)"
proof -
  have a: "\<bar>v - x\<bar> \<le> e * x" "\<bar>w - y\<bar> \<le> f * y" "0 \<le> x" "0 \<le> y" using assms by (auto simp: rclose_def)
  have "e * x \<le> 1 * x" by (rule mult_right_mono) (use assms a in auto)
  with a have v: "\<bar>v\<bar> \<le> 2 * x" by linarith
  have "\<bar>v * w - x * y\<bar> = \<bar>v * (w - y) + (v - x) * y\<bar>" by (simp add: algebra_simps)
  also have "\<dots> \<le> \<bar>v\<bar> * \<bar>w - y\<bar> + \<bar>v - x\<bar> * y"
    using abs_triangle_ineq [of "v * (w - y)" "(v - x) * y"] a(4) by (simp add: abs_mult)
  also have "\<dots> \<le> (2 * x) * (f * y) + (e * x) * y"
    using a v by (intro add_mono mult_mono) auto
  finally show ?thesis using a by (simp add: rclose_def algebra_simps)
qed

lemma rclose_div:
  assumes "rclose v x e" "rclose w y f" "0 < y" "f \<le> 1 / 2" "0 \<le> e" "0 \<le> f"
  shows "rclose (v / w) (x / y) (2 * (e + f))"
proof -
  have a: "\<bar>v - x\<bar> \<le> e * x" "\<bar>w - y\<bar> \<le> f * y" "0 \<le> x" using assms by (auto simp: rclose_def)
  have "f * y \<le> 1 / 2 * y" by (rule mult_right_mono) (use assms in auto)
  with a have w: "y / 2 \<le> w" by linarith
  then have w0: "0 < w" using assms(3) by linarith
  have "\<bar>v * y - x * w\<bar> = \<bar>(v - x) * y + x * (y - w)\<bar>" by (simp add: algebra_simps)
  also have "\<dots> \<le> \<bar>v - x\<bar> * y + x * \<bar>w - y\<bar>"
    using abs_triangle_ineq [of "(v - x) * y" "x * (y - w)"] a(3) assms(3)
    by (simp add: abs_mult abs_minus_commute)
  also have "\<dots> \<le> (e * x) * y + x * (f * y)"
    using a assms(3) by (intro add_mono mult_mono) auto
  also have "\<dots> = (e + f) * x * y" by (simp add: algebra_simps)
  finally have num: "\<bar>v * y - x * w\<bar> \<le> (e + f) * x * y" .
  have "\<bar>v / w - x / y\<bar> = \<bar>v * y - x * w\<bar> / (w * y)"
    using w0 assms(3) by (simp add: diff_frac_eq abs_mult)
  also have "\<dots> \<le> (e + f) * x * y / (w * y)"
    using num w0 assms(3) by (intro divide_right_mono) auto
  also have "\<dots> = (e + f) * x / w" using assms(3) by simp
  also have "\<dots> \<le> (e + f) * x / (y / 2)"
    using w w0 assms a by (intro divide_left_mono mult_nonneg_nonneg mult_pos_pos) auto
  also have "\<dots> = 2 * (e + f) * (x / y)" by simp
  finally show ?thesis using a(3) assms(3) unfolding rclose_def by simp
qed

lemma rclose_weaken: "rclose v x e \<Longrightarrow> e \<le> e' \<Longrightarrow> rclose v x e'"
  unfolding rclose_def by (meson mult_right_mono order_trans)

lemma rclose_abs: "rclose v x e \<Longrightarrow> x \<le> M \<Longrightarrow> 0 \<le> e \<Longrightarrow> e * M \<le> c \<Longrightarrow> \<bar>v - x\<bar> \<le> c"
  unfolding rclose_def by (meson mult_left_mono order_trans)

lemma rclose_cents:
  assumes "0 \<le> k"
  shows "rclose (cents k) (of_int k / 100) (1 / 2 ^ 51)"
proof (cases "k = 0")
  case False
  then have "1 \<le> k" using assms by linarith
  then have "1 \<le> (of_int k :: rat)" by (simp only: of_int_1_le_iff)
  moreover have "rclose (of_int k / 100) (of_int k / 100) 0" using assms by (simp add: rclose_def)
  ultimately show ?thesis using rclose_fl64 [of "of_int k / 100" _ 0] by (simp add: cents_def)
qed (simp add: rclose_def)

lemma rclose_fsum:
  assumes "rclose acc (of_int A / 100) (of_nat j / 2 ^ 51)" "0 \<le> A" "list_all (\<lambda>k. 0 \<le> k) ks"
    "1 \<le> j" "j + length ks \<le> 2 ^ 50"
  shows "rclose (foldl fadd acc (map cents ks)) (of_int (A + sum_list ks) / 100) (of_nat (j + length ks) / 2 ^ 51)"
  using assms
proof (induction ks arbitrary: acc A j)
  case (Cons k ks)
  have k: "0 \<le> k" using Cons.prems by simp
  have c: "\<bar>cents k - of_int k / 100\<bar> \<le> 1 / 2 ^ 51 * (of_int k / 100)"
    using rclose_cents [OF k] by (simp add: rclose_def)
  also have "\<dots> \<le> of_nat j / 2 ^ 51 * (of_int k / 100)"
    using Cons.prems(4) k by (intro mult_right_mono divide_right_mono) auto
  finally have c': "\<bar>cents k - of_int k / 100\<bar> \<le> of_nat j / 2 ^ 51 * (of_int k / 100)" .
  have a: "\<bar>acc - of_int A / 100\<bar> \<le> of_nat j / 2 ^ 51 * (of_int A / 100)"
    using Cons.prems(1) by (simp add: rclose_def)
  have s: "rclose (acc + cents k) (of_int (A + k) / 100) (of_nat j / 2 ^ 51)"
    unfolding rclose_def
  proof
    show "0 \<le> (of_int (A + k) / 100 :: rat)" using k Cons.prems(2) by simp
    show "\<bar>acc + cents k - of_int (A + k) / 100\<bar> \<le> of_nat j / 2 ^ 51 * (of_int (A + k) / 100)"
      using a c' unfolding of_int_add add_divide_distrib distrib_left by linarith
  qed
  have "rclose (fadd acc (cents k)) (of_int (A + k) / 100) (of_nat (Suc j) / 2 ^ 51)"
  proof (cases "A + k = 0")
    case True
    then show ?thesis using s by (simp add: rclose_def fadd_def)
  next
    case False
    then have "1 \<le> A + k" using k Cons.prems(2) by linarith
    then have "1 \<le> (of_int (A + k) :: rat)" by (simp only: of_int_1_le_iff)
    moreover have "of_nat j \<le> (2 ^ 50 :: rat)"
    proof -
      have "j \<le> 2 ^ 50" using Cons.prems(5) by simp
      then have "(of_nat j :: rat) \<le> of_nat (2 ^ 50)" by (simp only: of_nat_le_iff)
      then show ?thesis by simp
    qed
    ultimately have "rclose (fl64 (acc + cents k)) (of_int (A + k) / 100) (of_nat j / 2 ^ 51 + 1 / 2 ^ 51)"
      using s by (intro rclose_fl64) simp_all
    then show ?thesis by (simp add: fadd_def add_divide_distrib add.commute)
  qed
  from Cons.IH [OF this] Cons.prems k show ?case by (simp add: algebra_simps)
qed simp

lemma share_amount_close:
  assumes "0 \<le> T" "T \<le> 10 ^ 12" "list_all (\<lambda>k. 0 \<le> k) ks" "length ks \<le> 100" "sum_list ks \<le> 10 ^ 12"
    "k \<in> set ks" "0 < sum_list ks"
  shows "\<bar>fdiv (fmul (cents T) (cents k)) (foldl fadd 0 (map cents ks)) - of_int (T * k) / of_int (100 * sum_list ks)\<bar> \<le> 1 / 400"
proof (cases "T * k = 0")
  case True
  then show ?thesis by (auto simp: fmul_def fdiv_def)
next
  case False
  let ?P = "sum_list ks" let ?S = "foldl fadd 0 (map cents ks)"
  have k: "0 \<le> k" "k \<le> ?P" using assms(3,6) member_le_sum_list [of k ks] by (auto simp: list_all_iff)
  with False assms(1) have pos: "1 \<le> T" "1 \<le> k" "1 \<le> ?P" by auto
  have "1 \<le> T * k" using mult_mono [OF pos(1,2)] pos by simp
  then have Tk: "1 \<le> (of_int (T * k) :: rat)" by (simp only: of_int_1_le_iff)
  have P: "(of_int ?P :: rat) \<le> 10 ^ 12" "1 \<le> (of_int ?P :: rat)"
    using pos(3) abs_of_int_le [of ?P "10 ^ 12"] assms(5) by auto
  have "rclose (cents T * cents k) (of_int T / 100 * (of_int k / 100)) (1 / 2 ^ 51 + 2 * (1 / 2 ^ 51))"
    by (rule rclose_mult [OF rclose_cents rclose_cents]) (use assms k in auto)
  then have "rclose (fmul (cents T) (cents k)) (of_int T / 100 * (of_int k / 100)) (1 / 2 ^ 51 + 2 * (1 / 2 ^ 51) + 1 / 2 ^ 51)"
    unfolding fmul_def using Tk by (intro rclose_fl64) auto
  moreover have "rclose ?S (of_int ?P / 100) (of_nat (1 + length ks) / 2 ^ 51)"
    using rclose_fsum [of 0 0 1 ks] assms(3,4) by (simp add: rclose_def)
  ultimately have quo: "rclose (fmul (cents T) (cents k) / ?S) (of_int T / 100 * (of_int k / 100) / (of_int ?P / 100))
      (2 * (1 / 2 ^ 51 + 2 * (1 / 2 ^ 51) + 1 / 2 ^ 51 + of_nat (1 + length ks) / 2 ^ 51))"
    using P assms(4) by (intro rclose_div) (auto simp: add_divide_distrib)
  have q: "of_int T / 100 * (of_int k / 100) / (of_int ?P / 100) = (of_int (T * k) / of_int (100 * ?P) :: rat)"
    by simp
  have "(of_nat (length ks) :: rat) \<le> 100" using assms(4) by simp
  then have "2 * (1 / 2 ^ 51 + 2 * (1 / 2 ^ 51) + 1 / 2 ^ 51 + of_nat (1 + length ks) / 2 ^ 51) \<le> (300 / 2 ^ 51 :: rat)"
    by simp
  from rclose_weaken [OF quo this] have "rclose (fmul (cents T) (cents k) / ?S) (of_int (T * k) / of_int (100 * ?P)) (300 / 2 ^ 51)"
    unfolding q .
  moreover have "1 / 2 ^ 47 \<le> (of_int (T * k) / of_int (100 * ?P) :: rat)"
  proof -
    have "1 / 2 ^ 47 \<le> (1 / (100 * 10 ^ 12) :: rat)" by simp
    also have "\<dots> \<le> of_int (T * k) / of_int (100 * ?P)" using Tk P by (intro frac_le) auto
    finally show ?thesis .
  qed
  ultimately have c: "rclose (fdiv (fmul (cents T) (cents k)) ?S) (of_int (T * k) / of_int (100 * ?P)) (300 / 2 ^ 51 + 1 / 2 ^ 51)"
    unfolding fdiv_def by (intro rclose_fl64) auto
  have "of_int (T * k) / of_int (100 * ?P) \<le> (10 ^ 10 :: rat)"
  proof -
    have "T * k \<le> 10 ^ 12 * ?P" using assms(1,2) k by (intro mult_mono) auto
    then have "(of_int (T * k) :: rat) \<le> of_int (10 ^ 12 * ?P)" by (simp only: of_int_le_iff)
    moreover have "0 < (of_int (100 * ?P) :: rat)" using pos(3) by simp
    ultimately show ?thesis by (simp add: pos_divide_le_eq)
  qed
  then show ?thesis by (rule rclose_abs [OF c]) simp_all
qed


lemma to_cents_share:
  assumes "0 \<le> T" "T \<le> 10 ^ 12" "list_all (\<lambda>k. 0 \<le> k) ks" "length ks \<le> 100" "sum_list ks \<le> 10 ^ 12"
    "k \<in> set ks" "0 < sum_list ks"
  shows "0 \<le> to_cents (fdiv (fmul (cents T) (cents k)) (foldl fadd 0 (map cents ks)))"
    and "to_cents (fdiv (fmul (cents T) (cents k)) (foldl fadd 0 (map cents ks))) \<le> T"
    and "T = sum_list ks \<Longrightarrow> to_cents (fdiv (fmul (cents T) (cents k)) (foldl fadd 0 (map cents ks))) = k"
proof -
  let ?v = "fdiv (fmul (cents T) (cents k)) (foldl fadd 0 (map cents ks))" and ?P = "sum_list ks"
  note close = share_amount_close [OF assms]
  have k: "0 \<le> k" "k \<le> ?P" using assms(3,6) member_le_sum_list [of k ks] by (auto simp: list_all_iff)
  have P: "0 < (of_int ?P :: rat)" using assms(7) by simp
  have tk: "0 \<le> T * k" "T * k \<le> T * ?P" using assms(1) k by (auto intro: mult_left_mono)
  have "0 \<le> (of_int (T * k) :: rat)" using tk(1) by (simp only: of_int_0_le_iff)
  then have "0 \<le> (of_int (T * k) / of_int (100 * ?P) :: rat)" using P by simp
  with close have "- 1 / 400 \<le> ?v" by linarith
  then have "to_cents (- 1 / 400) \<le> to_cents ?v" by (rule to_cents_mono)
  moreover have "to_cents (- 1 / 400) = 0" by (rule to_cents_near) (auto simp: near_def)
  ultimately show "0 \<le> to_cents ?v" by simp
  have "(of_int (T * k) :: rat) \<le> of_int (T * ?P)" using tk(2) by (simp only: of_int_le_iff)
  then have "(of_int (T * k) / of_int (100 * ?P) :: rat) \<le> of_int T / 100"
    using P by (simp add: pos_divide_le_eq)
  with close have "?v \<le> of_int T / 100 + 1 / 400" by linarith
  then have "to_cents ?v \<le> to_cents (of_int T / 100 + 1 / 400)" by (rule to_cents_mono)
  moreover have "to_cents (of_int T / 100 + 1 / 400) = T"
    by (rule to_cents_near) (use assms in \<open>auto simp: near_def\<close>)
  ultimately show "to_cents ?v \<le> T" by simp
  assume T: "T = ?P"
  then have e: "(of_int (T * k) / of_int (100 * ?P) :: rat) = of_int k / 100" using P by simp
  have "near ?v k (1 / 400)" using close unfolding e near_def .
  then have "near ?v k (1 / 250)" by (rule near_weaken) simp
  moreover have "\<bar>k\<bar> \<le> 4 * 10 ^ 14" using k T assms(2) by simp
  ultimately show "to_cents ?v = k" by (rule to_cents_near)
qed

subsection \<open>The shares of a bill\<close>

lemma allocate_cents:
  assumes "0 \<le> T" "T \<le> 10 ^ 12" "list_all (\<lambda>k. 0 \<le> k) all" "length all \<le> 100" "sum_list all \<le> 10 ^ 12"
    "set ks \<subseteq> set all" "0 \<le> A" "A + int (length ks) * T \<le> 10 ^ 14" "ks \<noteq> []"
    "S = foldl fadd 0 (map cents all)"
  shows "\<exists>as. allocate (cents T) S (cents A) (map cents ks) = map cents as \<and> length as = length ks \<and>
    sum_list as = T - A \<and> list_all (\<lambda>a. 0 \<le> a \<and> a \<le> T) (butlast as) \<and> list_all (\<lambda>a. \<bar>a\<bar> \<le> 10 ^ 14) as"
  using assms(6-9)
proof (induction ks arbitrary: A rule: induct_list012)
  case (2 k)
  have "cent_range T" "cent_range A" using 2 assms(1,2) by auto
  from round2_fsub_cents [OF this] 2 assms(1,2) show ?case by (intro exI [of _ "[T - A]"]) auto
next
  case (3 k k' ks)
  let ?a = "if 0 < S then to_cents (fdiv (fmul (cents T) (cents k)) S) else 0"
  have S0: "sum_list all = 0 \<Longrightarrow> S = 0"
    using rclose_fsum [of 0 0 1 all] assms(3,4,10) by (simp add: rclose_def)
  have "0 \<le> sum_list all" using assms(3) by (auto simp: list_all_iff intro: sum_list_nonneg)
  then have pos: "0 < S \<Longrightarrow> 0 < sum_list all" using S0 by fastforce
  have a: "0 \<le> ?a" "?a \<le> T"
    using to_cents_share(1,2) [OF assms(1-5) _ pos, of k] 3(3) assms(1,10) by auto
  have "A + ?a + int (length (k' # ks)) * T \<le> 10 ^ 14" using 3(5) a by (simp add: algebra_simps)
  moreover have r: "cent_range A" "cent_range ?a"
  proof -
    have n: "0 \<le> int (length (k' # ks)) * T" using assms(1) by (rule mult_nonneg_nonneg [OF of_nat_0_le_iff])
    have m: "A + T + int (length (k' # ks)) * T \<le> 10 ^ 14" using 3(5) by (simp add: algebra_simps)
    show "cent_range A" using n m a(1) assms(1) 3(4) by linarith
    show "cent_range ?a" using n m a 3(4) by linarith
  qed
  ultimately obtain as where as: "allocate (cents T) S (cents (A + ?a)) (map cents (k' # ks)) = map cents as"
    "length as = length (k' # ks)" "sum_list as = T - (A + ?a)"
    "list_all (\<lambda>a. 0 \<le> a \<and> a \<le> T) (butlast as)" "list_all (\<lambda>a. \<bar>a\<bar> \<le> 10 ^ 14) as"
    using 3(2) [of "A + ?a"] 3(3,4) a by auto
  have "(if 0 < S then round2 (fdiv (fmul (cents T) (cents k)) S) else 0) = cents ?a"
    by (simp add: round2_eq_cents)
  then have "allocate (cents T) S (cents A) (map cents (k # k' # ks)) = map cents (?a # as)"
    using as(1) round2_fadd_cents [OF r] by (simp add: Let_def)
  moreover have "as \<noteq> []" using as(2) by auto
  ultimately show ?case using as a r by (intro exI [of _ "?a # as"]) auto
qed simp


text \<open>Shares that sum to the total are given out unchanged.\<close>

lemma allocate_exact:
  assumes "T \<le> 10 ^ 12" "list_all (\<lambda>k. 0 \<le> k) all" "length all \<le> 100" "sum_list all = T"
    "S = foldl fadd 0 (map cents all)" "set ks \<subseteq> set all" "0 \<le> A" "A + sum_list ks = T"
  shows "allocate (cents T) S (cents A) (map cents ks) = map cents ks"
  using assms(6-8)
proof (induction ks arbitrary: A rule: induct_list012)
  case (2 k)
  have "0 \<le> k" using 2 assms(2) by (auto simp: list_all_iff)
  then have "cent_range T" "cent_range A" "T - A = k" using 2 assms(1) by auto
  with round2_fsub_cents [of T A] show ?case by simp
next
  case (3 k k' ks)
  have nonneg: "0 \<le> k" "0 \<le> sum_list (k' # ks)"
    using 3(3) assms(2) by (auto simp: list_all_iff intro!: sum_list_nonneg add_nonneg_nonneg)
  have T0: "0 \<le> T" using assms(2,4) by (auto simp: list_all_iff intro: sum_list_nonneg)
  have amt: "(if 0 < S then round2 (fdiv (fmul (cents T) (cents k)) S) else 0) = cents k"
  proof (cases "T = 0")
    case True
    then have "S = 0" using rclose_fsum [of 0 0 1 all] assms(2-5) by (simp add: rclose_def)
    moreover have "k = 0" using 3(4,5) nonneg True by simp
    ultimately show ?thesis by simp
  next
    case False
    then have "rclose S (of_int T / 100) (of_nat (1 + length all) / 2 ^ 51)"
      using rclose_fsum [of 0 0 1 all] assms(2-5) by (simp add: rclose_def)
    moreover have "of_nat (1 + length all) / 2 ^ 51 * (of_int T / 100) < (of_int T / 100 :: rat)"
      using assms(3) False T0 by (simp add: divide_less_eq)
    ultimately have "0 < S" unfolding rclose_def by linarith
    moreover have "to_cents (fdiv (fmul (cents T) (cents k)) S) = k"
      unfolding assms(5) by (rule to_cents_share(3)) (use 3(3) assms(1-4) T0 False in auto)
    ultimately show ?thesis by (simp add: round2_eq_cents)
  qed
  have "A \<le> T" "k \<le> T" using 3(4,5) nonneg by auto
  then have "cent_range A" "cent_range k" using 3(4) nonneg(1) assms(1) by auto
  note add = round2_fadd_cents [OF this]
  have "allocate (cents T) S (cents (A + k)) (map cents (k' # ks)) = map cents (k' # ks)"
    by (rule 3(2)) (use 3(3-5) nonneg(1) in auto)
  then show ?case by (simp only: list.map allocate.simps Let_def amt add)
qed simp

lemma split_amounts_exact:
  assumes "T \<le> 10 ^ 12" "list_all (\<lambda>k. 0 \<le> k) ks" "length ks \<le> 100" "sum_list ks = T"
  shows "split_amounts (cents T) (map cents ks) = map cents ks"
  using allocate_exact [OF assms refl, of ks 0] assms(4) by (simp add: split_amounts_def)

text \<open>The equal share of a bill, to the cent.\<close>

lemma equal_share_bounds:
  assumes "0 < n" "0 \<le> T" "T \<le> 10 ^ 12"
  shows "T div int n \<le> to_cents (fdiv (cents T) (of_nat n))" "to_cents (fdiv (cents T) (of_nat n)) \<le> T div int n + 1"
proof -
  let ?n = "int n" and ?q = "T div int n" and ?v = "fdiv (cents T) (of_nat n)"
  let ?e = "to_cents ?v"
  have n: "1 \<le> ?n" using assms by auto
  have q: "?n * ?q \<le> T" "T < ?n * (?q + 1)"
    using n pos_mod_bound [of ?n T] pos_mod_sign [of ?n T]
    unfolding minus_mod_eq_mult_div [symmetric] distrib_left by linarith+
  have T: "cent_range T" using assms by auto
  have nq: "(1::rat) \<le> of_nat n" using assms(1) by simp
  have near_T: "\<bar>cents T - of_int T / 100\<bar> \<le> 1 / 8000" using near_cents [OF T] by (simp add: near_def)
  have "\<bar>cents T / of_nat n - of_int T / 100 / of_nat n\<bar> = \<bar>cents T - of_int T / 100\<bar> / of_nat n"
    unfolding diff_divide_distrib [symmetric] abs_divide by simp
  also have "\<dots> \<le> (1 / 8000) / 1" using near_T nq by (intro frac_le) auto
  finally have d: "\<bar>cents T / of_nat n - of_int T / 100 / of_nat n\<bar> \<le> 1 / 8000" by simp
  have low: "of_int ?q / 100 \<le> (of_int T / 100 / of_nat n :: rat)"
  proof -
    have "(of_int (?n * ?q) :: rat) \<le> of_int T" using q(1) by (simp only: of_int_le_iff)
    then show ?thesis using nq by (simp add: field_simps)
  qed
  have up: "of_int T / 100 / of_nat n \<le> (of_int (?q + 1) / 100 :: rat)"
  proof -
    have "(of_int T :: rat) < of_int (?n * (?q + 1))" using q(2) by (simp only: of_int_less_iff)
    then show ?thesis using nq by (simp add: field_simps)
  qed
  have v: "\<bar>?v - cents T / of_nat n\<bar> \<le> 1 / 2000"
  proof -
    have "\<bar>cents T / of_nat n\<bar> \<le> \<bar>cents T\<bar> / 1" unfolding abs_divide using nq by (intro frac_le) auto
    also have "\<dots> \<le> 4 * 10 ^ 12" using near_bound [OF near_cents [OF T]] T by simp
    finally show ?thesis unfolding fdiv_def by (rule f64.err_bounded)
  qed
  have q0: "0 \<le> ?q" using assms n by (simp add: pos_imp_zdiv_nonneg_iff)
  have "?q \<le> ?n * ?q" using q0 n by (simp add: mult_le_cancel_right1)
  then have qT: "?q \<le> 10 ^ 12" using q(1) assms(3) by linarith
  show "?q \<le> ?e"
  proof -
    have "to_cents (of_int ?q / 100 - 1 / 1000) \<le> ?e" using v d low by (intro to_cents_mono) linarith
    moreover have "to_cents (of_int ?q / 100 - 1 / 1000) = ?q"
      by (rule to_cents_near) (use q0 qT in \<open>auto simp: near_def\<close>)
    ultimately show ?thesis by simp
  qed
  show "?e \<le> ?q + 1"
  proof -
    have "?e \<le> to_cents (of_int (?q + 1) / 100 + 1 / 1000)" using v d up by (intro to_cents_mono) linarith
    moreover have "to_cents (of_int (?q + 1) / 100 + 1 / 1000) = ?q + 1"
      by (rule to_cents_near) (use q0 qT in \<open>auto simp: near_def add_divide_distrib\<close>)
    ultimately show ?thesis by simp
  qed
qed

text \<open>An equal split: all shares but the last are the total over the number of customers, to the
  cent; the last share is not negative once the bill is at least the square of that number in
  cents.\<close>

lemma equal_shares_cents:
  assumes "2 \<le> n" "n \<le> 100" "int (n * n) \<le> T" "T \<le> 10 ^ 12"
  shows "\<exists>ks. equal_shares (cents T) n = map cents ks \<and> length ks = n \<and> list_all (\<lambda>k. 0 \<le> k) ks \<and> sum_list ks = T"
proof -
  let ?n = "int n" and ?q = "T div int n" and ?v = "fdiv (cents T) (of_nat n)"
  let ?e = "to_cents ?v" and ?l = "T - to_cents ?v * (int n - 1)"
  have n: "2 \<le> ?n" "?n \<le> 100" using assms by auto
  have q: "?n * ?q \<le> T" "T < ?n * (?q + 1)"
    using n pos_mod_bound [of ?n T] pos_mod_sign [of ?n T]
    unfolding minus_mod_eq_mult_div [symmetric] distrib_left by linarith+
  have T0: "0 \<le> T" using assms(3) order_trans [of 0 "int (n * n)" T] by (simp del: of_nat_mult)
  then have T: "cent_range T" "0 \<le> T" using assms(4) by auto
  have "?n \<le> ?q"
  proof -
    have "?n * ?n < ?n * (?q + 1)" using q(2) assms(3) by simp
    then show ?thesis using n by (simp add: mult_less_cancel_left)
  qed
  have q0: "0 \<le> ?q" using \<open>?n \<le> ?q\<close> n by linarith
  have "?q \<le> ?n * ?q" using q0 n by (simp add: mult_le_cancel_right1)
  then have qT: "?q \<le> 10 ^ 12" using q(1) assms(4) by linarith
  have e1: "?q \<le> ?e" and e2: "?e \<le> ?q + 1" using equal_share_bounds [of n T] assms T0 by auto
  have le: "?e * (?n - 1) \<le> (?q + 1) * (?n - 1)" using e2 n by (intro mult_right_mono) auto
  also have "\<dots> = ?n * ?q - ?q + ?n - 1" by (simp add: algebra_simps)
  finally have l0: "0 \<le> ?l" using q(1) \<open>?n \<le> ?q\<close> by linarith
  have en: "0 \<le> ?e * (?n - 1)" using e1 q0 n by (intro mult_nonneg_nonneg) auto
  have r: "cent_range ?e" "cent_range (?e * (?n - 1))"
    using e1 e2 q0 qT en l0 T0 assms(4) by auto
  have "fmul (cents ?e) (of_nat (n - 1)) = fmul (cents ?e) (of_int (?n - 1))"
    using assms(1) by (simp add: of_nat_diff)
  moreover have "near (fmul (cents ?e) (of_int (?n - 1))) (?e * (?n - 1)) (1 / 1000)"
    by (rule near_fmul_int [OF r]) (use n in auto)
  ultimately have nf: "near (fmul (cents ?e) (of_nat (n - 1))) (?e * (?n - 1)) (1 / 1000)" by simp
  have "near (fsub (cents T) (fmul (cents ?e) (of_nat (n - 1)))) ?l (1 / 8000 + 1 / 1000 + 1 / 2000)"
    by (rule near_fsub [OF near_cents [OF T(1)] nf]) (use l0 en T0 assms(4) in auto)
  then have "round2 (fsub (cents T) (fmul (cents ?e) (of_nat (n - 1)))) = cents ?l"
    by (rule round2_near) (use l0 en assms(4) in auto)
  then have "equal_shares (cents T) n = map cents (replicate (n - 1) ?e @ [?l])"
    by (simp add: equal_shares_def Let_def round2_eq_cents [of ?v] map_replicate_const)
  moreover have "sum_list (replicate (n - 1) ?e @ [?l]) = T"
    using assms(1) by (simp add: sum_list_replicate of_nat_diff algebra_simps)
  moreover have "list_all (\<lambda>k. 0 \<le> k) (replicate (n - 1) ?e @ [?l])" using l0 e1 q0 by (auto simp: list_all_iff)
  moreover have "length (replicate (n - 1) ?e @ [?l]) = n" using assms(1) by simp
  ultimately show ?thesis by blast
qed

subsection \<open>A split reads back\<close>

lemma new_shares_cents:
  assumes "2 \<le> length cus" "length cus \<le> 100" "T \<le> 10 ^ 12"
    and "list_all (\<lambda>cu. sc_amount cu = None) cus \<and> int (length cus * length cus) \<le> T \<or>
      map sc_amount cus = map (\<lambda>k. Some (cents k)) ks \<and> list_all (\<lambda>k. 0 < k) ks \<and> sum_list ks = T"
  shows "\<exists>ks. new_shares (cents T) cus = map cents ks \<and> length ks = length cus \<and> list_all (\<lambda>k. 0 \<le> k) ks \<and> sum_list ks = T"
  using assms(4)
proof (elim disjE conjE)
  assume "list_all (\<lambda>cu. sc_amount cu = None) cus" and sq: "int (length cus * length cus) \<le> T"
  then have "given_amounts cus = []" by (auto simp: given_amounts_def list_all_iff filter_empty_conv)
  then have "new_shares (cents T) cus = equal_shares (cents T) (length cus)"
    using assms(1) by (auto simp: new_shares_def)
  then show ?thesis using equal_shares_cents [OF assms(1,2) sq assms(3)] by simp
next
  assume ks: "map sc_amount cus = map (\<lambda>k. Some (cents k)) ks" "list_all (\<lambda>k. 0 < k) ks" "sum_list ks = T"
  then have len: "length cus = length ks" by (metis length_map)
  have "given_amounts cus = map the (filter (\<lambda>x. x \<noteq> None) (map sc_amount cus))"
    by (induction cus) (auto simp: given_amounts_def)
  then have g: "given_amounts cus = map cents ks" unfolding ks(1) by (simp add: comp_def filter_map)
  have "cent_range k" if "k \<in> set ks" for k
  proof -
    have "k \<le> sum_list ks" using ks(2) that by (intro member_le_sum_list) (auto simp: list_all_iff less_imp_le)
    then show ?thesis using ks(2,3) that assms(3) by (auto simp: list_all_iff)
  qed
  then have "map round2 (given_amounts cus) = map cents ks" unfolding g by simp
  then have "new_shares (cents T) cus = map cents ks" using g len by (simp add: new_shares_def)
  then show ?thesis using ks len by (intro exI [of _ ks]) (auto simp: list_all_iff less_imp_le)
qed

text \<open>What a run of inserts leaves in the table, and what it answers.\<close>

definition shown :: "BillSplit \<Rightarrow> billSplitRow" where
  "shown s = \<lparr>bs_id = sp_id s, bs_no = sp_no s, bs_customer = sp_customer s, bs_amount = sp_share s\<rparr>"

lemma insert_splits_run:
  assumes "run_state (insert_splits h bill n nss) w = (Inr rows, w')" "calm w" "numeric_exact (w_db w)"
    "list_all (\<lambda>ns. whole_cents (snd ns)) nss"
  shows "\<exists>new. w_db w' = (w_db w)\<lparr>splits := splits (w_db w) @ new\<rparr> \<and> calm w' \<and> w_tx w' = w_tx w \<and>
    rows = map shown new \<and> list_all (\<lambda>s. sp_bill s = bill) new \<and> map sp_share new = map snd nss \<and>
    map sp_no new = map (\<lambda>i. int i + 1) [n..<n + length nss]"
  using assms
proof (induction nss arbitrary: n w rows)
  case Nil
  then show ?case by (intro exI [of _ "[]"]) simp
next
  case (Cons ns nss)
  obtain name share where ns: "ns = (name, share)" by fastforce
  let ?i = "w_ids w (w_next w)" let ?w1 = "w\<lparr>w_next := Suc (w_next w)\<rparr>"
  let ?s = "\<lparr>sp_id = ?i, sp_hotel = h, sp_bill = bill, sp_no = int n + 1, sp_customer = name, sp_share = share\<rparr>"
  have sh: "db_num (w_db w) share = share" using Cons.prems(3,4) ns by (auto intro: numeric_whole_cents)
  obtain d1 where ins: "sql_insert_split ?s (w_db w) = Inr ((), d1)"
    using Cons.prems(1,2) ns by (auto simp: run_stmt split: sum.splits prod.splits)
  then have d1: "d1 = (w_db w)\<lparr>splits := splits (w_db w) @ [?s]\<rparr>"
    using sh by (auto simp: sql_insert_split_def split: if_splits)
  let ?w2 = "?w1\<lparr>w_db := d1\<rparr>"
  obtain rest where rest: "run_state (insert_splits h bill (Suc n) nss) ?w2 = (Inr rest, w')" "rows = shown ?s # rest"
    using Cons.prems(1,2) ns ins by (auto simp: run_stmt shown_def split: sum.splits prod.splits)
  have "calm ?w2" "numeric_exact (w_db ?w2)" "list_all (\<lambda>ns. whole_cents (snd ns)) nss"
    using Cons.prems d1 by (auto simp: numeric_exact_def)
  from Cons.IH [OF rest(1) this] obtain new where new:
    "w_db w' = (w_db ?w2)\<lparr>splits := splits (w_db ?w2) @ new\<rparr>" "calm w'" "w_tx w' = w_tx ?w2" "rest = map shown new"
    "list_all (\<lambda>s. sp_bill s = bill) new" "map sp_share new = map snd nss"
    "map sp_no new = map (\<lambda>i. int i + 1) [Suc n..<Suc n + length nss]" by blast
  have "[n..<n + length (ns # nss)] = n # [Suc n..<Suc n + length nss]"
    using upt_conv_Cons [of n "n + length (ns # nss)"] by (simp del: upt_Suc)
  then show ?case using new rest(2) d1 ns by (intro exI [of _ "?s # new"]) auto
qed

lemma splits_of_inserted:
  assumes "list_all (\<lambda>s. sp_bill s = bill) new" "map sp_no new = map (\<lambda>i. int i + 1) [n..<m]"
    "splits d' = filter (\<lambda>s. sp_bill s \<noteq> bill) old @ new"
  shows "splits_of bill d' = new"
proof -
  have "filter (\<lambda>s. sp_bill s = bill) (splits d') = new"
    using assms(1) unfolding assms(3) by (simp add: filter_empty_conv list_all_iff)
  moreover have "sorted (map sp_no new)" unfolding assms(2) by (simp add: sorted_map)
  ultimately show ?thesis by (simp add: splits_of_def sort_key_id_if_sorted)
qed

lemma splits_tx_run:
  assumes "calm w" "find_bill i h (w_db w) = Some b" "ss_enabled req"
  shows "run_state (splits_tx h i req) w =
    (if bl_status b = ''void'' then (Inl (Fail 409 ''bill is void''), w)
     else let w1 = w\<lparr>w_db := sql_delete_splits i (w_db w)\<rparr> in
       case split_refusal (bl_total b) (ss_customers req) of
         Some msg \<Rightarrow> (Inl (Fail 422 msg), w1)
       | None \<Rightarrow> (case run_state (insert_splits h i 0 (zip (map (\<lambda>cu. TrimSpace (sc_name cu)) (ss_customers req))
             (new_shares (bl_total b) (ss_customers req)))) w1 of
           (Inl _, w2) \<Rightarrow> (Inl (Fail 500 ''failed to save split''), w2) | (Inr rows, w2) \<Rightarrow> (Inr rows, w2)))"
  using assms by (simp add: splits_tx_def try_or_def refuse_def Let_def split: option.splits prod.splits sum.splits)

lemma split_refusal_length: "split_refusal tot cus = None \<Longrightarrow> 2 \<le> length cus"
  by (simp add: split_refusal_def split: if_splits)

text \<open>C25: the amounts shown for a split always add up to exactly the total of the bill, whatever the
  total has become since the split was saved: for up to a hundred customers, a total and stored shares
  of whole cents, the cents of the amounts \<^verbatim>\<open>loadBillSplits\<close> returns sum to the total. Every amount but
  the last lies between zero and the total; the last one takes the rounding.\<close>

theorem split_amounts_sum:
  assumes "run_state (loadBillSplits bill (cents T)) w = (Inr rows, w')" "calm w"
    and "map sp_share (splits_of bill (w_db w)) = map cents ks" "ks \<noteq> []" "length ks \<le> 100"
    and "list_all (\<lambda>k. 0 \<le> k) ks" "sum_list ks \<le> 10 ^ 12" "0 \<le> T" "T \<le> 10 ^ 12"
  shows "sum_list (map (\<lambda>r. to_cents (bs_amount r)) rows) = T \<and> length rows = length ks \<and>
    list_all (\<lambda>r. 0 \<le> bs_amount r \<and> bs_amount r \<le> cents T) (butlast rows)"
proof -
  have len: "int (length ks) * T \<le> 100 * 10 ^ 12" using assms(5,8,9) by (intro mult_mono) auto
  then have "0 + int (length ks) * T \<le> 10 ^ 14" by simp
  from allocate_cents [OF assms(8,9,6,5,7) subset_refl _ this assms(4) refl]
  obtain as where as: "split_amounts (cents T) (map cents ks) = map cents as" "length as = length ks" "sum_list as = T"
    "list_all (\<lambda>a. 0 \<le> a \<and> a \<le> T) (butlast as)" "list_all cent_range as"
    by (auto simp: split_amounts_def)
  let ?ss = "splits_of bill (w_db w)"
  have rows: "rows = map (\<lambda>(s, a). \<lparr>bs_id = sp_id s, bs_no = sp_no s, bs_customer = sp_customer s, bs_amount = a\<rparr>) (zip ?ss (map cents as))"
    using assms(1,2) by (auto simp: loadBillSplits_def assms(3) as(1) simp del: map_map)
  have l: "length ?ss = length as" using assms(3) as(2) by (metis length_map)
  have "map bs_amount rows = map snd (zip ?ss (map cents as))" unfolding rows by auto
  then have amounts: "map bs_amount rows = map cents as" using l by simp
  have "map (\<lambda>r. to_cents (bs_amount r)) rows = map to_cents (map bs_amount rows)" by simp
  also have "\<dots> = as" unfolding amounts using as(5) by (simp add: list_all_iff map_idI)
  finally have "sum_list (map (\<lambda>r. to_cents (bs_amount r)) rows) = T" using as(3) by simp
  moreover have "list_all (\<lambda>a. 0 \<le> a \<and> a \<le> cents T) (map bs_amount (butlast rows))"
    unfolding map_butlast amounts using as(4) by (simp add: map_butlast [symmetric] list_all_iff cents_mono)
  moreover have "length rows = length ks" unfolding rows using l as(2) by simp
  ultimately show ?thesis by (simp add: list.pred_map comp_def)
qed

definition split_bill :: Bill where
  "split_bill = \<lparr>bl_id = 70, bl_hotel = 7, bl_session = 60, bl_outlet = None, bl_number = ''BILL-1'', bl_status = ''open'',
     bl_subtotal = cents 10000, bl_disc_type = None, bl_disc_value = 0, bl_disc_amount = 0, bl_tax_rate = 0,
     bl_tax = 0, bl_tip_type = None, bl_tip_value = 0, bl_tip = 0, bl_rounding = 0, bl_total = cents 10000,
     bl_paid = 0, bl_due = cents 10000, bl_currency = ''INR'', bl_customer = None\<rparr>"

definition split_row :: "uuid \<Rightarrow> int \<Rightarrow> int \<Rightarrow> BillSplit" where
  "split_row i n k = \<lparr>sp_id = i, sp_hotel = 7, sp_bill = 70, sp_no = n, sp_customer = ''guest'', sp_share = cents k\<rparr>"

definition split_db :: db where
  "split_db = empty_db\<lparr>bills := [split_bill], splits := [split_row 71 1 3333, split_row 72 2 3333, split_row 73 3 3334]\<rparr>"

text \<open>A bill of 100.00 split in three, read after a tip made it 125.50.\<close>

theorem split_amounts_sum_witness:
  "\<exists>rows w'. run_state (loadBillSplits 70 (cents 12550)) (start split_db 0) = (Inr rows, w') \<and>
     sum_list (map (\<lambda>r. to_cents (bs_amount r)) rows) = 12550 \<and> length rows = 3"
proof -
  let ?w = "start split_db 0" and ?ks = "[3333, 3333, 3334] :: int list"
  have ks: "map sp_share (splits_of 70 (w_db ?w)) = map cents ?ks"
    by (simp add: split_db_def splits_of_def split_row_def)
  obtain rows where r: "run_state (loadBillSplits 70 (cents 12550)) ?w = (Inr rows, ?w)"
    by (simp add: loadBillSplits_def)
  from split_amounts_sum [OF r _ ks] r show ?thesis by simp
qed

lemma splits_tx_inserted:
  assumes "calm w" "find_bill i h (w_db w) = Some b" "ss_enabled req"
    "run_state (splits_tx h i req) w = (Inr rows, w')"
  shows "split_refusal (bl_total b) (ss_customers req) = None \<and>
    run_state (insert_splits h i 0 (zip (map (\<lambda>cu. TrimSpace (sc_name cu)) (ss_customers req))
      (new_shares (bl_total b) (ss_customers req)))) (w\<lparr>w_db := sql_delete_splits i (w_db w)\<rparr>) = (Inr rows, w')"
proof -
  note run = assms(4) [unfolded splits_tx_run [OF assms(1-3)]]
  have open_bill: "bl_status b \<noteq> ''void''" using run by (cases "bl_status b = ''void''") simp_all
  have ok: "split_refusal (bl_total b) (ss_customers req) = None"
    using run open_bill by (cases "split_refusal (bl_total b) (ss_customers req)") (simp_all add: Let_def)
  let ?m = "insert_splits h i 0 (zip (map (\<lambda>cu. TrimSpace (sc_name cu)) (ss_customers req)) (new_shares (bl_total b) (ss_customers req)))"
  obtain r w2 where m: "run_state ?m (w\<lparr>w_db := sql_delete_splits i (w_db w)\<rparr>) = (r, w2)" by fastforce
  then show ?thesis using run open_bill ok by (cases r) (simp_all add: Let_def)
qed

lemma splits_tx_refused:
  assumes "calm w" "find_bill i h (w_db w) = Some b" "ss_enabled req"
    "run_state (splits_tx h i req) w = (Inl a, w')"
  shows "\<exists>n msg. a = Fail n msg"
proof -
  let ?m = "insert_splits h i 0 (zip (map (\<lambda>cu. TrimSpace (sc_name cu)) (ss_customers req)) (new_shares (bl_total b) (ss_customers req)))"
  obtain r w2 where m: "run_state ?m (w\<lparr>w_db := sql_delete_splits i (w_db w)\<rparr>) = (r, w2)" by fastforce
  note run = assms(4) [unfolded splits_tx_run [OF assms(1-3)]]
  show ?thesis
  proof (cases "bl_status b = ''void''")
    case True
    then show ?thesis using run by auto
  next
    case False
    then show ?thesis using run m
      by (cases "split_refusal (bl_total b) (ss_customers req)"; cases r) (auto simp: Let_def)
  qed
qed

lemma insert_splits_calm:
  "run_state (insert_splits h bill n nss) w = (Inr rows, w') \<Longrightarrow> calm w \<Longrightarrow> calm w'"
  by (induction nss arbitrary: n w rows rule: list.induct)
     (auto simp: run_stmt split: prod.splits sum.splits, fastforce+)

text \<open>A request that saved a split ran the inserts on a database without the old rows.\<close>

lemma SetBillSplits_inserted:
  assumes "run_state (SetBillSplits H c idp (Some req)) w = (Resp n (True, rows), w')" "calm w"
    and "lib_uuid (ph_lib H) idp = Some i" "find_bill i (pos_hotel H c) (w_db w) = Some b" "ss_enabled req"
  obtains w3 where "split_refusal (bl_total b) (ss_customers req) = None"
    "run_state (insert_splits (pos_hotel H c) i 0 (zip (map (\<lambda>cu. TrimSpace (sc_name cu)) (ss_customers req))
      (new_shares (bl_total b) (ss_customers req)))) (w\<lparr>w_tx := TxOpen, w_db := sql_delete_splits i (w_db w)\<rparr>) = (Inr rows, w3)"
    "w_db w' = w_db w3" "calm w'"
proof -
  let ?h = "pos_hotel H c" and ?w1 = "w\<lparr>w_tx := TxOpen\<rparr>"
  let ?k = "\<lambda>rows. do { _ \<leftarrow> audit; State_Monad.return (OK (ss_enabled req, rows)) }"
  have roles: "pos_roles H c posCashierRoles = Pass"
    using assms(1) by (cases "pos_roles H c posCashierRoles") (simp_all add: SetBillSplits_def guarded_def)
  have set: "run_state (pos_tx ''failed to save splits'' (splits_tx ?h i req) ?k) w = (Resp n (True, rows), w')"
    using assms(1) roles assms(3) by (simp add: SetBillSplits_def guarded_def with_param_def with_body_def)
  have w1: "calm ?w1" "find_bill i ?h (w_db ?w1) = Some b" using assms(2,4) by simp_all
  obtain r w3 where t: "run_state (splits_tx ?h i req :: ((bool \<times> billSplitRow list) response + billSplitRow list) go) ?w1 = (r, w3)" by fastforce
  show thesis
  proof (cases r)
    case (Inl a)
    from splits_tx_refused [OF w1 assms(5) t [unfolded Inl]] pos_tx_refused [OF t [unfolded Inl]] set assms(2)
    show ?thesis by auto
  next
    case (Inr rs)
    note ins = splits_tx_inserted [OF w1 assms(5) t [unfolded Inr]]
    have "calm w3" using insert_splits_calm [OF conjunct2 [OF ins]] assms(2) by simp
    then have "rs = rows" "w_db w' = w_db w3" "calm w'"
      using pos_tx_committed [OF t [unfolded Inr], of "''failed to save splits''" ?k] set assms(2,5) by (auto simp: OK_def)
    with ins show ?thesis by (intro that [of w3]) simp_all
  qed
qed

text \<open>C26: a split reads back as it was saved. When the cashier splits a bill of \<open>T\<close> cents between
  2 to 100 customers, equally (and the bill is at least the square of their number in cents) or by
  amounts that sum to the total, the rows \<^verbatim>\<open>SetBillSplits\<close> answers with are the rows
  \<^verbatim>\<open>GetBillSplits\<close> answers with afterwards, and their amounts sum to the total.\<close>

theorem split_reads_back:
  assumes "run_state (SetBillSplits H c idp (Some req)) w = (Resp n (True, rows), w')" "calm w"
    and "lib_uuid (ph_lib H) idp = Some i" "find_bill i (pos_hotel H c) (w_db w) = Some b" "bl_total b = cents T"
    and "numeric_exact (w_db w)" "T \<le> 10 ^ 12" "ss_enabled req" "length (ss_customers req) \<le> 100"
    and "list_all (\<lambda>cu. sc_amount cu = None) (ss_customers req) \<and> int (length (ss_customers req) * length (ss_customers req)) \<le> T \<or>
      map sc_amount (ss_customers req) = map (\<lambda>k. Some (cents k)) ks \<and> list_all (\<lambda>k. 0 < k) ks \<and> sum_list ks = T"
  shows "run_state (GetBillSplits H c idp) w' = (Resp 200 (True, rows), w') \<and>
    sum_list (map (\<lambda>r. to_cents (bs_amount r)) rows) = T"
proof -
  let ?h = "pos_hotel H c" and ?cus = "ss_customers req"
  let ?w2 = "w\<lparr>w_tx := TxOpen, w_db := sql_delete_splits i (w_db w)\<rparr>"
  let ?nss = "zip (map (\<lambda>cu. TrimSpace (sc_name cu)) ?cus) (new_shares (bl_total b) ?cus)"
  from SetBillSplits_inserted [OF assms(1-4,8)] obtain w3 where ok: "split_refusal (bl_total b) ?cus = None"
    and ins: "run_state (insert_splits ?h i 0 ?nss) ?w2 = (Inr rows, w3)" and fin: "w_db w' = w_db w3" "calm w'" by blast
  obtain js where js: "new_shares (cents T) ?cus = map cents js" "length js = length ?cus" "list_all (\<lambda>k. 0 \<le> k) js" "sum_list js = T"
    using new_shares_cents [OF split_refusal_length [OF ok] assms(9,7,10)] by blast
  have jr: "list_all cent_range js"
  proof -
    have "k \<le> T" if "k \<in> set js" for k using js(3,4) that member_le_sum_list [of k js] by (auto simp: list_all_iff)
    then show ?thesis using js(3) assms(7) by (fastforce simp: list_all_iff)
  qed
  have shares: "map snd ?nss = map cents js" using js(1,2) assms(5) by simp
  moreover have "list_all whole_cents (map cents js)" using jr by (simp add: list.pred_map list_all_iff)
  ultimately have "list_all (\<lambda>ns. whole_cents (snd ns)) ?nss" by (metis list.pred_map comp_apply list_all_cong)
  moreover have "calm ?w2" "numeric_exact (w_db ?w2)" using assms(2,6) by (simp_all add: numeric_exact_def sql_delete_splits_def)
  ultimately obtain new where new: "w_db w3 = (w_db ?w2)\<lparr>splits := splits (w_db ?w2) @ new\<rparr>" "rows = map shown new"
    "list_all (\<lambda>s. sp_bill s = i) new" "map sp_share new = map snd ?nss" "map sp_no new = map (\<lambda>i. int i + 1) [0..<0 + length ?nss]"
    using insert_splits_run [OF ins] by blast
  have "splits_of i (w_db w') = new"
    by (rule splits_of_inserted [OF new(3,5)]) (simp add: fin new(1) sql_delete_splits_def)
  moreover have "split_amounts (cents T) (map sp_share new) = map sp_share new"
    unfolding new(4) shares using split_amounts_exact [OF assms(7) js(3) _ js(4)] js(2) assms(9) by simp
  moreover have "find_bill i ?h (w_db w') = Some b" using assms(4) by (simp add: find_bill_def fin new(1) sql_delete_splits_def)
  moreover have "map (\<lambda>(s, a). \<lparr>bs_id = sp_id s, bs_no = sp_no s, bs_customer = sp_customer s, bs_amount = a\<rparr>)
      (zip new (map sp_share new)) = rows"
    unfolding new(2) by (induction new) (auto simp: shown_def)
  moreover have "rows \<noteq> []" using new(2,4) shares js(2) split_refusal_length [OF ok] by auto
  ultimately have "run_state (GetBillSplits H c idp) w' = (Resp 200 (True, rows), w')"
    using assms(3,5) fin(2) by (simp add: GetBillSplits_def with_param_def loadBillSplits_def OK_def)
  moreover have "map (\<lambda>r. to_cents (bs_amount r)) rows = map to_cents (map cents js)"
    unfolding new(2) using new(4) shares by (metis (no_types, lifting) map_map comp_apply shown_def billSplitRow.select_convs(4) map_eq_conv)
  moreover have "map to_cents (map cents js) = js" using jr by (simp add: list_all_iff map_idI)
  ultimately show ?thesis using js(4) by simp
qed


definition halves :: setSplitsRequest where
  "halves = \<lparr>ss_enabled = True, ss_customers = [\<lparr>sc_name = ''Asha'', sc_amount = None\<rparr>, \<lparr>sc_name = ''Ravi'', sc_amount = None\<rparr>]\<rparr>"

theorem split_reads_back_witness:
  "\<exists>rows w'. run_state (SetBillSplits pos_handler pos_ctx ''70'' (Some halves)) (start split_db 0) = (Resp 200 (True, rows), w') \<and>
     run_state (GetBillSplits pos_handler pos_ctx ''70'') w' = (Resp 200 (True, rows), w') \<and>
     sum_list (map (\<lambda>r. to_cents (bs_amount r)) rows) = 10000"
proof -
  let ?r = "run_state (SetBillSplits pos_handler pos_ctx ''70'' (Some halves)) (start split_db 0)"
  have "case fst ?r of Resp n (b, rows) \<Rightarrow> n = 200 \<and> b | Fail n msg \<Rightarrow> False" by code_simp
  then obtain rows where "fst ?r = Resp 200 (True, rows)" by (auto split: response.splits)
  then have r: "?r = (Resp 200 (True, rows), snd ?r)" by (metis prod.collapse)
  have b: "lib_uuid (ph_lib pos_handler) ''70'' = Some 70" "pos_hotel pos_handler pos_ctx = 7" by code_simp+
  have f: "find_bill 70 (pos_hotel pos_handler pos_ctx) (w_db (start split_db 0)) = Some split_bill"
    unfolding b(2) by (simp add: find_bill_def split_db_def split_bill_def)
  have "run_state (GetBillSplits pos_handler pos_ctx ''70'') (snd ?r) = (Resp 200 (True, rows), snd ?r) \<and>
      sum_list (map (\<lambda>r. to_cents (bs_amount r)) rows) = 10000"
    by (rule split_reads_back [OF r _ b(1) f])
       (simp_all add: split_bill_def halves_def numeric_exact_def split_db_def empty_db_def)
  with r show ?thesis by blast
qed

end
