(* ===== verification/Commits.thy ===== *)
theory Commits
  imports Split
begin

text \<open>
  What a transaction of the restaurant commits. Inside a transaction every statement runs on a known
  database: \<open>commits D m R\<close> says that when \<open>m\<close>, started on the database \<open>D\<close> in an open transaction,
  ends with a result and the transaction can still commit, result and database are related by \<open>R\<close>. A
  statement that failed, even one whose error the code ignores, leaves the transaction aborted, and
  it stays so (\<open>sticky\<close>, which also says that the transaction is not ended). The rules follow the steps of a handler, so that the effect of a handler
  is read off its text.
\<close>

named_theorems sticky_intros \<open>rules that show that an aborted transaction stays aborted\<close>

definition sticky :: "'a go \<Rightarrow> bool" where
  "sticky m \<longleftrightarrow> (\<forall>w. (w_tx w = TxFailed \<longrightarrow> w_tx (snd (run_state m w)) = TxFailed) \<and>
     (w_tx w = TxOpen \<longrightarrow> w_tx (snd (run_state m w)) \<noteq> NoTx))"

definition commits :: "db \<Rightarrow> ('e + 'a) go \<Rightarrow> ('a \<Rightarrow> db \<Rightarrow> bool) \<Rightarrow> bool" where
  "commits D m R \<longleftrightarrow> (\<forall>w b w'. w_db w = D \<longrightarrow> w_tx w = TxOpen \<longrightarrow> run_state m w = (Inr b, w') \<longrightarrow>
     w_tx w' \<noteq> TxFailed \<longrightarrow> w_tx w' = TxOpen \<and> R b (w_db w'))"

subsection \<open>An aborted transaction stays aborted\<close>

lemma sticky_return [sticky_intros]: "sticky (State_Monad.return x)"
  and sticky_uuid_New [sticky_intros]: "sticky uuid_New"
  and sticky_time_Now [sticky_intros]: "sticky time_Now"
  and sticky_time_UnixMilli [sticky_intros]: "sticky time_UnixMilli"
  by (simp_all add: sticky_def)

lemma sticky_stmt [sticky_intros]: "sticky (stmt f)"
  by (auto simp: sticky_def stmt_def next_fault_def fail_tx_def split: sum.split list.split)

lemma sticky_bind [sticky_intros]: "sticky m \<Longrightarrow> (\<And>x. sticky (k x)) \<Longrightarrow> sticky (State_Monad.bind m k)"
  unfolding sticky_def
proof (intro allI)
  fix w
  assume m: "\<forall>w. (w_tx w = TxFailed \<longrightarrow> w_tx (snd (run_state m w)) = TxFailed) \<and>
      (w_tx w = TxOpen \<longrightarrow> w_tx (snd (run_state m w)) \<noteq> NoTx)"
    and k: "\<And>x. \<forall>w. (w_tx w = TxFailed \<longrightarrow> w_tx (snd (run_state (k x) w)) = TxFailed) \<and>
      (w_tx w = TxOpen \<longrightarrow> w_tx (snd (run_state (k x) w)) \<noteq> NoTx)"
  obtain a w1 where r: "run_state m w = (a, w1)" by fastforce
  show "(w_tx w = TxFailed \<longrightarrow> w_tx (snd (run_state (State_Monad.bind m k) w)) = TxFailed) \<and>
      (w_tx w = TxOpen \<longrightarrow> w_tx (snd (run_state (State_Monad.bind m k) w)) \<noteq> NoTx)"
    using m [rule_format, of w] k [rule_format, of w1 a] r by (cases "w_tx w1") auto
qed

lemma sticky_cases [sticky_intros]:
  "(b \<Longrightarrow> sticky m) \<Longrightarrow> (\<not> b \<Longrightarrow> sticky m') \<Longrightarrow> sticky (if b then m else m')"
  "(\<And>e. sticky (f e)) \<Longrightarrow> (\<And>x. sticky (g x)) \<Longrightarrow> sticky (case s of Inl e \<Rightarrow> f e | Inr x \<Rightarrow> g x)"
  "sticky m \<Longrightarrow> (\<And>x. sticky (g' x)) \<Longrightarrow> sticky (case o' of None \<Rightarrow> m | Some x \<Rightarrow> g' x)"
  "(\<And>x y. sticky (g'' x y)) \<Longrightarrow> sticky (case p of (x, y) \<Rightarrow> g'' x y)"
  "sticky (g3 a) \<Longrightarrow> sticky (Let a g3)"
  by (simp_all split: sum.split option.split prod.split)

lemma sticky_query [sticky_intros]: "sticky (query f)"
  and sticky_exec [sticky_intros]: "sticky (exec f')"
  unfolding query_def exec_def by (rule sticky_stmt)+

lemma sticky_query_row [sticky_intros]: "sticky (query_row f)"
  unfolding query_row_def by (intro sticky_intros)

lemma sticky_refuse [sticky_intros]: "sticky (refuse n msg)"
  unfolding refuse_def by (intro sticky_intros)

lemma sticky_try_or [sticky_intros]: "sticky m \<Longrightarrow> (\<And>x. sticky (k x)) \<Longrightarrow> sticky (try_or m n msg k)"
  unfolding try_or_def by (intro sticky_intros)

lemma sticky_genNumber [sticky_intros]: "sticky (genNumber p)"
  unfolding genNumber_def by (intro sticky_intros)

lemma sticky_insert_items [sticky_intros]: "sticky (insert_items h kot its)"
  by (induction its) (auto intro!: sticky_intros)

lemma sticky_insert_splits [sticky_intros]: "sticky (insert_splits h bill n nss)"
  by (induction nss arbitrary: n) (auto intro!: sticky_intros)

lemma sticky_resolveFolio [sticky_intros]: "sticky (resolveFolioForRoomCharge h s)"
  unfolding resolveFolioForRoomCharge_def by (intro sticky_intros)

lemma sticky_postFolioCharge [sticky_intros]: "sticky (postFolioCharge h f b ds a t u)"
  unfolding postFolioCharge_def by (intro sticky_intros)

lemma sticky_bill_rate [sticky_intros]: "sticky (bill_rate h s)"
  unfolding bill_rate_def by (intro sticky_intros)

lemma sticky_record_revenue [sticky_intros]: "sticky (record_revenue h u b req n)"
  unfolding record_revenue_def by (intro sticky_intros)

lemma keeps_genNumber [keeps_intros]: "keeps J (genNumber p)"
  unfolding genNumber_def by (intro keeps_intros)

subsection \<open>Steps of a transaction\<close>

lemma commitsD:
  "commits D m R \<Longrightarrow> w_db w = D \<Longrightarrow> w_tx w = TxOpen \<Longrightarrow> run_state m w = (Inr b, w') \<Longrightarrow> w_tx w' \<noteq> TxFailed \<Longrightarrow>
   w_tx w' = TxOpen \<and> R b (w_db w')"
  by (simp add: commits_def)

lemma commits_weaken: "commits D m R \<Longrightarrow> (\<And>b d. R b d \<Longrightarrow> R' b d) \<Longrightarrow> commits D m R'"
  by (simp add: commits_def)

lemma commits_return: "R b D \<Longrightarrow> commits D (State_Monad.return (Inr b)) R"
  and commits_error: "commits D (State_Monad.return (Inl x)) R"
  and commits_refuse: "commits D (refuse n msg) R"
  by (auto simp: commits_def refuse_def)

lemma commits_stmt: "(\<And>a d'. f D = Inr (a, d') \<Longrightarrow> R a d') \<Longrightarrow> commits D (stmt f) R"
  unfolding commits_def stmt_def next_fault_def
  by (auto simp: fail_tx_def split: prod.splits sum.splits if_splits list.splits)

lemma commits_exec: "R () (f D) \<Longrightarrow> commits D (exec f) R"
  and commits_query: "R' (g D) D \<Longrightarrow> commits D (query g) R'"
  unfolding exec_def query_def by (rule commits_stmt; simp)+

text \<open>The state after one statement: the transaction aborted, or the effect of the statement.\<close>

lemma stmt_outcome:
  assumes "run_state (stmt f) w = (r, w')" "w_db w = D" "w_tx w = TxOpen" "w_tx w' \<noteq> TxFailed"
  shows "\<exists>a d'. r = Inr a \<and> f D = Inr (a, d') \<and> w_db w' = d' \<and> w_tx w' = TxOpen"
  using assms unfolding stmt_def next_fault_def
  by (auto simp: fail_tx_def split: prod.splits sum.splits if_splits list.splits)

lemma query_row_outcome:
  assumes "run_state (query_row f) w = (r, w')" "w_db w = D" "w_tx w = TxOpen" "w_tx w' \<noteq> TxFailed"
  shows "r = (case f D of None \<Rightarrow> Inl NoRows | Some a \<Rightarrow> Inr a) \<and> w_db w' = D \<and> w_tx w' = TxOpen"
proof -
  obtain q where q: "run_state (query f) w = (q, w')" "r = (case q of Inl e \<Rightarrow> Inl e | Inr None \<Rightarrow> Inl NoRows | Inr (Some a) \<Rightarrow> Inr a)"
    using assms(1) by (auto simp: query_row_def split: prod.splits)
  from stmt_outcome [OF q(1) [unfolded query_def] assms(2-4)] q(2) show ?thesis by (auto split: option.split)
qed

lemma commits_query_row: "(\<And>a. f D = Some a \<Longrightarrow> R a D) \<Longrightarrow> commits D (query_row f) R"
  unfolding commits_def by (auto dest!: query_row_outcome split: option.splits)

text \<open>A part that keeps an invariant.\<close>

lemma commits_keeps: "keeps J m \<Longrightarrow> sticky m \<Longrightarrow> J D \<Longrightarrow> commits D m (\<lambda>_. J)"
  unfolding commits_def
proof (intro allI impI)
  fix w b w' assume k: "keeps J m" "sticky m" "J D" and w: "w_db w = D" "w_tx w = TxOpen" "run_state m w = (Inr b, w')" "w_tx w' \<noteq> TxFailed"
  have "w_tx w' \<noteq> NoTx" using k(2) w(2,3) unfolding sticky_def by (auto dest: spec [of _ w])
  moreover have "J (w_db w')" using k(1,3) w(1,3) unfolding keeps_def by (auto dest: spec [of _ w])
  ultimately show "w_tx w' = TxOpen \<and> J (w_db w')" using w(4) by (cases "w_tx w'") auto
qed

lemma commits_step:
  assumes "sticky (k r)" "run_state m w = (r, w1)" "run_state (State_Monad.bind m k) w = (Inr b, w')"
    "w_tx w' \<noteq> TxFailed"
  shows "w_tx w1 \<noteq> TxFailed" "run_state (k r) w1 = (Inr b, w')"
proof -
  show k: "run_state (k r) w1 = (Inr b, w')" using assms(2,3) by simp
  show "w_tx w1 \<noteq> TxFailed" using assms(1) [unfolded sticky_def, rule_format, of w1] k assms(4) by auto
qed

lemma commits_bind_stmt:
  assumes "\<And>a d'. f D = Inr (a, d') \<Longrightarrow> commits d' (k (Inr a)) R" "\<And>r. sticky (k r)"
  shows "commits D (State_Monad.bind (stmt f) k) R"
  unfolding commits_def
proof (intro allI impI)
  fix w b w' assume w: "w_db w = D" "w_tx w = TxOpen" and run: "run_state (State_Monad.bind (stmt f) k) w = (Inr b, w')"
    and ok: "w_tx w' \<noteq> TxFailed"
  obtain r w1 where s: "run_state (stmt f) w = (r, w1)" by fastforce
  note rest = commits_step [OF assms(2) s run ok]
  from stmt_outcome [OF s w rest(1)] obtain a d' where "r = Inr a" "f D = Inr (a, d')" "w_db w1 = d'" "w_tx w1 = TxOpen" by blast
  with rest(2) show "w_tx w' = TxOpen \<and> R b (w_db w')" using commitsD [OF assms(1)] ok by blast
qed

lemma commits_bind_row:
  assumes "f D = None \<Longrightarrow> commits D (k (Inl NoRows)) R" "\<And>a. f D = Some a \<Longrightarrow> commits D (k (Inr a)) R" "\<And>r. sticky (k r)"
  shows "commits D (State_Monad.bind (query_row f) k) R"
  unfolding commits_def
proof (intro allI impI)
  fix w b w' assume w: "w_db w = D" "w_tx w = TxOpen" and run: "run_state (State_Monad.bind (query_row f) k) w = (Inr b, w')"
    and ok: "w_tx w' \<noteq> TxFailed"
  obtain r w1 where s: "run_state (query_row f) w = (r, w1)" by fastforce
  note rest = commits_step [OF assms(3) s run ok]
  note row = query_row_outcome [OF s w rest(1)]
  show "w_tx w' = TxOpen \<and> R b (w_db w')"
    using row rest(2) ok commitsD [OF assms(1)] commitsD [OF assms(2)] by (cases "f D") auto
qed

lemma commits_bind_query:
  "commits D (k (Inr (f D))) R \<Longrightarrow> (\<And>r. sticky (k r)) \<Longrightarrow> commits D (State_Monad.bind (query f) k) R"
  and commits_bind_exec:
  "commits (g D) (k' (Inr ())) R \<Longrightarrow> (\<And>r. sticky (k' r)) \<Longrightarrow> commits D (State_Monad.bind (exec g) k') R"
  unfolding query_def exec_def by (rule commits_bind_stmt; simp)+

text \<open>A part that only reads, whatever it answers.\<close>

lemma commits_bind_reads:
  assumes "reads m" "sticky m" "\<And>r. commits D (k r) R" "\<And>r. sticky (k r)"
  shows "commits D (State_Monad.bind m k) R"
  unfolding commits_def
proof (intro allI impI)
  fix w b w' assume w: "w_db w = D" "w_tx w = TxOpen" and run: "run_state (State_Monad.bind m k) w = (Inr b, w')"
    and ok: "w_tx w' \<noteq> TxFailed"
  obtain r w1 where s: "run_state m w = (r, w1)" by fastforce
  note rest = commits_step [OF assms(4) s run ok]
  have "w_db w1 = D" using assms(1) [unfolded reads_def, rule_format, of w] s w(1) by simp
  moreover have "w_tx w1 = TxOpen"
    using assms(2) [unfolded sticky_def, rule_format, of w] s w(2) rest(1) by (cases "w_tx w1") auto
  ultimately show "w_tx w' = TxOpen \<and> R b (w_db w')" using commitsD [OF assms(3)] rest(2) ok by blast
qed

text \<open>A part of a transaction whose error ends it.\<close>

definition refuses :: "('e + 'a) go \<Rightarrow> bool" where
  "refuses m \<longleftrightarrow> (\<forall>w. isl (fst (run_state m w)))"

lemma refuses_intros: "refuses (refuse n msg)" "refuses (State_Monad.return (Inl x))"
  by (simp_all add: refuses_def refuse_def)

lemma commits_bind:
  assumes "commits D m R'" "\<And>a d'. R' a d' \<Longrightarrow> commits d' (k (Inr a)) R" "\<And>e. refuses (k (Inl e))" "\<And>r. sticky (k r)"
  shows "commits D (State_Monad.bind m k) R"
  unfolding commits_def
proof (intro allI impI)
  fix w b w' assume w: "w_db w = D" "w_tx w = TxOpen" and run: "run_state (State_Monad.bind m k) w = (Inr b, w')"
    and ok: "w_tx w' \<noteq> TxFailed"
  obtain r w1 where s: "run_state m w = (r, w1)" by fastforce
  note rest = commits_step [OF assms(4) s run ok]
  obtain a where r: "r = Inr a"
    using rest(2) assms(3) unfolding refuses_def by (cases r) (metis Inr_Inl_False fst_conv isl_def)+
  have "w_tx w1 = TxOpen \<and> R' a (w_db w1)" using commitsD [OF assms(1) w] s r rest(1) by blast
  with commitsD [OF assms(2)] rest(2) r ok show "w_tx w' = TxOpen \<and> R b (w_db w')" by blast
qed

lemma commits_try:
  assumes "commits D m R'" "\<And>a d'. R' a d' \<Longrightarrow> commits d' (k a) R" "\<And>a. sticky (k a)"
  shows "commits D (try_or m n msg k) R"
  unfolding try_or_def
  by (rule commits_bind [OF assms(1)]) (auto intro!: assms(2,3) refuses_intros sticky_intros split: sum.split)

lemma commits_silent:
  assumes "\<And>w. w_db (snd (run_state m w)) = w_db w \<and> w_tx (snd (run_state m w)) = w_tx w" "\<And>a. commits D (k a) R"
  shows "commits D (State_Monad.bind m k) R"
  unfolding commits_def
proof (intro allI impI)
  fix w b w' assume w: "w_db w = D" "w_tx w = TxOpen" and run: "run_state (State_Monad.bind m k) w = (Inr b, w')"
    and ok: "w_tx w' \<noteq> TxFailed"
  obtain a w1 where m: "run_state m w = (a, w1)" by fastforce
  then have "w_db w1 = D" "w_tx w1 = TxOpen" using assms(1) [of w] w by auto
  from commitsD [OF assms(2) this _ ok] m run show "w_tx w' = TxOpen \<and> R b (w_db w')" by simp
qed

lemma commits_fresh:
  "(\<And>i. commits D (k i) R) \<Longrightarrow> commits D (State_Monad.bind uuid_New k) R"
  "(\<And>t. commits D (k' t) R') \<Longrightarrow> commits D (State_Monad.bind time_Now k') R'"
  "(\<And>s. commits D (k'' s) R'') \<Longrightarrow> commits D (State_Monad.bind (genNumber p) k'') R''"
  by (rule commits_silent; simp add: genNumber_def)+

lemma commits_cases:
  "(b \<Longrightarrow> commits D m R) \<Longrightarrow> (\<not> b \<Longrightarrow> commits D m' R) \<Longrightarrow> commits D (if b then m else m') R"
  "(o' = None \<Longrightarrow> commits D m R) \<Longrightarrow> (\<And>x. o' = Some x \<Longrightarrow> commits D (g x) R) \<Longrightarrow>
     commits D (case o' of None \<Rightarrow> m | Some x \<Rightarrow> g x) R"
  "(\<And>x. x = a \<Longrightarrow> commits D (g' x) R) \<Longrightarrow> commits D (Let a g') R"
  by (simp_all split: option.split)

text \<open>One statement whose error ends the transaction.\<close>

lemma commits_try_stmt:
  assumes "\<And>a d'. f D = Inr (a, d') \<Longrightarrow> commits d' (k a) R" "\<And>a. sticky (k a)"
  shows "commits D (try_or (stmt f) n msg k) R"
  by (rule commits_try [where R' = "\<lambda>a d'. f D = Inr (a, d')"]) (use assms in \<open>auto intro: commits_stmt\<close>)

lemma commits_try_exec:
  assumes "commits (f D) (k ()) R" "\<And>a. sticky (k a)"
  shows "commits D (try_or (exec f) n msg k) R"
  by (rule commits_try [where R' = "\<lambda>a d'. d' = f D"]) (use assms in \<open>auto intro: commits_exec\<close>)

lemma commits_try_query:
  assumes "commits D (k (f D)) R" "\<And>a. sticky (k a)"
  shows "commits D (try_or (query f) n msg k) R"
  by (rule commits_try [where R' = "\<lambda>a d'. d' = D \<and> a = f D"]) (use assms in \<open>auto intro: commits_query\<close>)

lemma commits_try_row:
  assumes "\<And>a. f D = Some a \<Longrightarrow> commits D (k a) R" "\<And>a. sticky (k a)"
  shows "commits D (try_or (query_row f) n msg k) R"
  by (rule commits_try [where R' = "\<lambda>a d'. d' = D \<and> f D = Some a"]) (use assms in \<open>auto intro: commits_query_row\<close>)

lemmas commits_steps = commits_try_stmt commits_try_exec commits_try_query commits_try_row commits_fresh
  commits_bind_stmt commits_bind_row commits_bind_query commits_bind_exec commits_cases commits_refuse commits_error

subsection \<open>Transactions in a handler\<close>

lemma pos_tx_outcome:
  assumes "run_state (pos_tx msg m k) w = (r, w')" "commits (w_db w) m R"
  obtains (unchanged) "w_db w' = w_db w"
  | (committed) b w1 where "R b (w_db w1)" "w_tx w1 = NoTx" "run_state (k b) w1 = (r, w')"
proof -
  let ?tx = "with_tx (\<lambda>_. Fail 500 ''failed to start transaction'') (\<lambda>_. Fail 500 msg) m"
  obtain bad w1 where n1: "next_fault w = (bad, w1)" by fastforce
  obtain q w2 where m: "run_state m (w1\<lparr>w_tx := TxOpen\<rparr>) = (q, w2)" by fastforce
  obtain bad' w3 where n3: "next_fault w2 = (bad', w3)" by fastforce
  have db: "w_db w1 = w_db w" "w_db w3 = w_db w2" using n1 n3 next_fault_db by blast+
  have tx: "w_tx w3 = w_tx w2" using n3 by (auto simp: next_fault_def split: list.splits)
  show thesis
  proof (cases "bad \<or> isl q \<or> bad' \<or> w_tx w3 = TxFailed")
    case True
    then have "w_db w' = w_db w"
      using assms(1) n1 m n3 db by (cases q) (auto simp: pos_tx_def with_tx_def split: if_splits)
    then show ?thesis by (rule unchanged)
  next
    case False
    then obtain b where q: "q = Inr b" by (cases q) auto
    have "w_tx w2 = TxOpen \<and> R b (w_db w2)"
      using assms(2) m q False tx db by (intro commitsD [OF assms(2), of "w1\<lparr>w_tx := TxOpen\<rparr>"]) auto
    then have "R b (w_db (w3\<lparr>w_tx := NoTx\<rparr>))" using db by simp
    moreover have "run_state (k b) (w3\<lparr>w_tx := NoTx\<rparr>) = (r, w')"
      using assms(1) n1 m n3 q False by (auto simp: pos_tx_def with_tx_def)
    ultimately show ?thesis by (intro committed) auto
  qed
qed

end
