(* ===== verification/Restaurant.thy ===== *)
theory Restaurant
  imports Commits FrontDesk
begin

text \<open>
  The restaurant as a state machine. \<open>pos_move\<close> lists the moves a tenant can make on the tables of
  the restaurant, each with the guards its handler has checked on the database it writes to; the
  requests of \<^verbatim>\<open>pos_dinein_handler.go\<close> and \<^verbatim>\<open>pos_split.go\<close> make these moves and no others,
  whatever errors they meet. Invariants are then shown move by move: sessions, bills and tickets follow
  their state machines, a seated table has one session and a session one bill, and a bill and its
  session agree about what has been paid.
\<close>

subsection \<open>Requests\<close>

datatype pos_request =
    Pos_ListTables string string
  | Pos_CreateTable "createTableRequest option"
  | Pos_UpdateTable string "(string \<times> json) list option"
  | Pos_CleanTable string
  | Pos_ListSessions string
  | Pos_OpenSession string "openSessionRequest option"
  | Pos_GetSession string
  | Pos_CloseSession string
  | Pos_CreateKOT string "kotItemRequest list option"
  | Pos_SendKOT string
  | Pos_KOTStatus string "string option"
  | Pos_VoidItem string string "string option"
  | Pos_GenerateBill string
  | Pos_UpdateBill string "updateBillRequest option"
  | Pos_FinalizeBill string
  | Pos_Pay string "billPaymentRequest option"
  | Pos_Refund string
  | Pos_Receipt string
  | Pos_GetSplits string
  | Pos_SetSplits string "setSplitsRequest option"

primrec serve_pos :: "POSHandler \<Rightarrow> ctx \<Rightarrow> pos_request \<Rightarrow> bool go" where
  "serve_pos H c (Pos_ListTables status outlet) = answered (ListTables H c status outlet)"
| "serve_pos H c (Pos_CreateTable body) = answered (CreateTable H c body)"
| "serve_pos H c (Pos_UpdateTable i body) = answered (UpdateTable H c i body)"
| "serve_pos H c (Pos_CleanTable i) = answered (CleanTable H c i)"
| "serve_pos H c (Pos_ListSessions status) = answered (ListSessions H c status)"
| "serve_pos H c (Pos_OpenSession i body) = answered (OpenSession H c i body)"
| "serve_pos H c (Pos_GetSession i) = answered (GetSession H c i)"
| "serve_pos H c (Pos_CloseSession i) = answered (CloseSession H c i)"
| "serve_pos H c (Pos_CreateKOT i body) = answered (CreateKOT H c i body)"
| "serve_pos H c (Pos_SendKOT i) = answered (SendKOT H c i)"
| "serve_pos H c (Pos_KOTStatus i body) = answered (UpdateKOTStatus H c i body)"
| "serve_pos H c (Pos_VoidItem k i body) = answered (VoidKOTItem H c k i body)"
| "serve_pos H c (Pos_GenerateBill i) = answered (GenerateBill H c i)"
| "serve_pos H c (Pos_UpdateBill i body) = answered (UpdateBill H c i body)"
| "serve_pos H c (Pos_FinalizeBill i) = answered (FinalizeBill H c i)"
| "serve_pos H c (Pos_Pay i body) = answered (AddBillPayment H c i body)"
| "serve_pos H c (Pos_Refund i) = answered (RefundBill H c i)"
| "serve_pos H c (Pos_Receipt i) = answered (BillReceipt H c i)"
| "serve_pos H c (Pos_GetSplits i) = answered (GetBillSplits H c i)"
| "serve_pos H c (Pos_SetSplits i body) = answered (SetBillSplits H c i body)"

subsection \<open>Writes outside the restaurant\<close>

text \<open>What the handlers write besides the tables of the restaurant: customers, payments, folios and
  their charges, the ledger. \<open>frame h d d'\<close>: from \<open>d\<close> to \<open>d'\<close> tenant \<open>h\<close> wrote only there, and
  kept the laws of those tables.\<close>

definition restaurant where
  "restaurant d = (tables d, sessions d, kots d, kitems d, bills d, bpayments d, splits d, db_num d,
     stays d, rooms d, promotions d)"

definition frame :: "uuid \<Rightarrow> db \<Rightarrow> db \<Rightarrow> bool" where
  "frame h d d' \<longleftrightarrow> restaurant d' = restaurant d \<and> (\<forall>X. tenant_frame h X d \<longrightarrow> tenant_frame h X d') \<and>
     (one_charge_per_bill d \<longrightarrow> one_charge_per_bill d')"

lemma frame_refl [simp]: "frame h d d"
  by (simp add: frame_def)

lemma frame_simps [simp]:
  assumes "frame h d d'"
  shows "tables d' = tables d" "sessions d' = sessions d" "kots d' = kots d" "kitems d' = kitems d" "bills d' = bills d"
    "bpayments d' = bpayments d" "splits d' = splits d" "db_num d' = db_num d" "stays d' = stays d"
  using assms by (simp_all add: frame_def restaurant_def)

lemma keeps_frame:
  assumes "\<And>X. keeps (\<lambda>d. restaurant d = X) m" "\<And>X. keeps (tenant_frame h X) m"
    "keeps one_charge_per_bill m"
  shows "keeps (frame h d0) m"
  using assms unfolding keeps_def frame_def by blast

lemma keeps_frame_payment: "py_hotel p = h \<Longrightarrow> keeps (frame h d0) (stmt (sql_insert_payment p))"
  by (intro keeps_frame keeps_stmt settle_tenant.payment)
     (auto simp: stmt_keeps_def sql_insert_payment_def restaurant_def one_charge_per_bill_def split: if_splits)

lemma ignores_ledger_laws:
  "ignores_ledger (\<lambda>d. restaurant d = X)" "ignores_ledger one_charge_per_bill"
  by (simp_all add: ignores_ledger_def restaurant_def one_charge_per_bill_def)

lemmas ledger_laws = ignores_ledger_laws [THEN ledger_invariant_frame]

lemma keeps_frame_ledger:
  "keeps (frame h d0) (postSalesToLedgerFor h m s t tot ref ds c)"
  "keeps (frame h d0) (postCOGS h cogs ref ds)"
  "keeps (frame h d0) (reverseJournalsByReference h ref ds)"
  by (intro keeps_frame ledger_invariant.postSalesToLedgerFor_keeps ledger_invariant.postCOGS_keeps ledger_invariant.reverse_keeps
      ledger_laws settle_tenant.ledger_invariant_axioms)+

lemma keeps_frame_customer: "keeps (frame h d0) (ensureAccountingCustomer h c)"
  by (intro keeps_frame customer_tenant_frame ensureAccountingCustomer_keeps)
     (auto simp: restaurant_def one_charge_per_bill_def)

lemma keeps_frame_folio: "fo_hotel f = h \<Longrightarrow> keeps (frame h d0) (stmt (sql_insert_folio f))"
  by (intro keeps_frame keeps_stmt)
     (auto simp: stmt_keeps_def sql_insert_folio_def restaurant_def one_charge_per_bill_def
       tenant_frame_def others_upd list_ex_iff split: if_splits)

lemma keeps_frame_resolve: "keeps (frame h d0) (resolveFolioForRoomCharge h s)"
  unfolding resolveFolioForRoomCharge_def by (intro keeps_intros keeps_frame_folio) simp

lemma keeps_frame_charge: "keeps (frame h d0) (postFolioCharge h f b ds a t u)"
proof (intro keeps_frame postFolioCharge_once)
  show "keeps (tenant_frame h X) (postFolioCharge h f b ds a t u)" for X
    unfolding postFolioCharge_def
    by (intro keeps_intros) (auto simp: stmt_keeps_def sql_insert_charge_def tenant_frame_def others_upd split: if_splits)
  show "keeps (\<lambda>d. restaurant d = X) (postFolioCharge h f b ds a t u)" for X
    unfolding postFolioCharge_def
    by (intro keeps_intros) (auto simp: stmt_keeps_def sql_insert_charge_def restaurant_def split: if_splits)
qed

lemma keeps_frame_revenue: "keeps (frame h d0) (record_revenue h u b req n)"
  unfolding record_revenue_def try_or_def refuse_def
  by (intro keeps_intros keeps_frame_resolve keeps_frame_charge keeps_frame_payment) (simp add: fnb_payment_def)

subsection \<open>Moves\<close>

definition new_items :: "uuid \<Rightarrow> uuid \<Rightarrow> db \<Rightarrow> db \<Rightarrow> bool" where
  "new_items h kot d d' \<longleftrightarrow> (\<exists>xs. d' = d\<lparr>kitems := kitems d @ xs\<rparr> \<and>
     list_all (\<lambda>x. ki_hotel x = h \<and> ki_kot x = kot \<and> ki_status x = ''queued'') xs \<and>
     (distinct (map ki_id (kitems d)) \<longrightarrow> distinct (map ki_id (kitems d'))))"

definition cooking :: "string \<Rightarrow> bool" where
  "cooking st \<longleftrightarrow> st = ''preparing'' \<or> st = ''ready'' \<or> st = ''served''"

text \<open>The requests are those that \<open>A\<close> allows.\<close>

inductive pos_move :: "POSHandler \<Rightarrow> (pos_request \<Rightarrow> bool) \<Rightarrow> uuid \<Rightarrow> db \<Rightarrow> db \<Rightarrow> bool" for H A h where
  books: "frame h d d' \<Longrightarrow> pos_move H A h d d'"
| new_table: "tb_hotel t = h \<Longrightarrow> sql_insert_table t d = Inr (t', d') \<Longrightarrow> pos_move H A h d d'"
| set_table: "list_all (\<lambda>kv. fst kv \<in> set table_columns) kvs \<Longrightarrow> sql_update_table H i h kvs d = Inr (t', d') \<Longrightarrow> pos_move H A h d d'"
| clean_table: "sql_clean_table i h d = Inr (n, d') \<Longrightarrow> pos_move H A h d d'"
| seat: "find_table i h d = Some t \<Longrightarrow> ds_hotel s = h \<Longrightarrow> ds_table s = tb_id t \<Longrightarrow> ds_status s = ''open'' \<Longrightarrow>
    sql_insert_session s d = Inr (j, d1) \<Longrightarrow> pos_move H A h d (sql_table_status (tb_id t) ''occupied'' d1)"
| close: "find_session i h d = Some s \<Longrightarrow> ds_status s = ''settled'' \<Longrightarrow> sql_session_status i ''closed'' d = Inr ((), d1) \<Longrightarrow>
    pos_move H A h d (sql_table_status (ds_table s) ''cleaning'' d1)"
| order: "find_session i h d = Some s \<Longrightarrow> seated (ds_status s) \<Longrightarrow> kt_hotel k = h \<Longrightarrow> kt_session k = i \<Longrightarrow> kt_status k = ''draft'' \<Longrightarrow>
    sql_insert_kot k d = Inr (j, d1) \<Longrightarrow> new_items h (kt_id k) d1 d2 \<Longrightarrow>
    (if ds_status s = ''billed'' then sql_session_status i ''open'' d2 = Inr ((), d') else d' = d2) \<Longrightarrow> pos_move H A h d d'"
| send: "sql_send_kot i h d = Inr (n, d') \<Longrightarrow> pos_move H A h d d'"
| kitchen: "find_kot i h d = Some k \<Longrightarrow> canTransition kotTransitions (kt_status k) st \<Longrightarrow>
    d' = (if cooking st then sql_items_status i st (sql_kot_status i st d) else sql_kot_status i st d) \<Longrightarrow> pos_move H A h d d'"
| void_item: "find_item item kot h d = Some (session, st) \<Longrightarrow> st \<noteq> ''cancelled'' \<Longrightarrow> bill_of_session session d = None \<Longrightarrow>
    pos_move H A h d (sql_void_item item reason user d)"
| void_billed: "find_item item kot h d = Some (session, st) \<Longrightarrow> st \<noteq> ''cancelled'' \<Longrightarrow> bill_of_session session d = Some b \<Longrightarrow>
    bl_status b = ''open'' \<Longrightarrow> d1 = sql_void_item item reason user d \<Longrightarrow>
    sql_bill_totals (computeTotals (b\<lparr>bl_subtotal := round2 (cents (subtotal_cents session d1))\<rparr>)) d1 = Inr ((), d') \<Longrightarrow> pos_move H A h d d'"
| bill: "find_session i h d = Some s \<Longrightarrow> ds_status s \<noteq> ''closed'' \<Longrightarrow> ds_status s \<noteq> ''cancelled'' \<Longrightarrow> bill_of_session i d = None \<Longrightarrow>
    0 < cents (subtotal_cents i d) \<Longrightarrow>
    sql_insert_bill (new_bill j h number s (cents (subtotal_cents i d)) rate currency) d = Inr (b', d1) \<Longrightarrow>
    sql_session_status i ''billed'' d1 = Inr ((), d2) \<Longrightarrow> pos_move H A h d (sql_table_status (ds_table s) ''billed'' d2)"
| edit: "A (Pos_UpdateBill ip (Some req)) \<Longrightarrow> find_bill i h d = Some b \<Longrightarrow> bl_status b = ''open'' \<Longrightarrow> 0 \<le> bl_disc_value (edited_bill req b) \<Longrightarrow> 0 \<le> bl_tip_value (edited_bill req b) \<Longrightarrow>
    sql_edit_bill i (computeTotals (edited_bill req b)) d = Inr (u, d') \<Longrightarrow> pos_move H A h d d'"
| finalize: "sql_finalize_bill i h d = Inr (n, d') \<Longrightarrow> pos_move H A h d d'"
| pay: "A (Pos_Pay ip (Some req)) \<Longrightarrow> find_bill i h d = Some b \<Longrightarrow> payment_refusal b req = None \<Longrightarrow> 0 < br_amount req \<Longrightarrow>
    bp_hotel p = h \<Longrightarrow> bp_bill p = i \<Longrightarrow> bp_amount p = br_amount req \<Longrightarrow> sql_insert_bpayment p d = Inr ((), d1) \<Longrightarrow> frame h d1 d2 \<Longrightarrow>
    sql_bill_paid (paid_bill b (br_amount req)) d2 = Inr ((), d3) \<Longrightarrow>
    (if bl_status (paid_bill b (br_amount req)) = ''paid'' then sql_session_status (bl_session b) ''settled'' d3 = Inr ((), d') else d' = d3) \<Longrightarrow>
    pos_move H A h d d'"
| stamp: "\<exists>b \<in> set (bills d). bl_id b = i \<and> bl_hotel b = h \<Longrightarrow> pos_move H A h d (sql_bill_customer i customer d)"
| refund: "find_bill i h d = Some b \<Longrightarrow> bl_status b = ''paid'' \<or> bl_status b = ''partially_paid'' \<Longrightarrow> frame h d d1 \<Longrightarrow>
    sql_session_status (bl_session b) ''refunded'' (sql_bill_status i ''refunded'' d1) = Inr ((), d') \<Longrightarrow> pos_move H A h d d'"
| split: "find_bill i h d = Some b \<Longrightarrow> list_all (\<lambda>s. sp_hotel s = h \<and> sp_bill s = i) new \<Longrightarrow>
    pos_move H A h d (d\<lparr>splits := filter (\<lambda>s. sp_bill s \<noteq> i) (splits d) @ new\<rparr>)"

subsection \<open>Transactions make moves\<close>

lemma insert_items_commits: "commits D (insert_items h kot its) (\<lambda>_ d'. new_items h kot D d')"
proof (induction its arbitrary: D)
  case Nil
  show ?case by (auto intro!: commits_return simp: new_items_def intro: exI [of _ "[]"])
next
  case (Cons it its)
  show ?case
    unfolding insert_items.simps
  proof (rule commits_fresh, rule commits_bind_stmt, unfold sum.case)
    fix i a d'
    let ?x = "\<lparr>ki_id = i, ki_hotel = h, ki_kot = kot, ki_menu = kr_menu it, ki_name = kr_name it,
       ki_qty = kr_qty it, ki_unit = kr_price it, ki_total = line_total it, ki_status = ''queued'', ki_void_reason = None, ki_voided_by = None\<rparr>"
    assume ins: "sql_insert_kitem ?x D = Inr (a, d')"
    then have d': "d' = D\<lparr>kitems := kitems D @ [?x\<lparr>ki_unit := db_num D (ki_unit ?x), ki_total := db_num D (ki_total ?x)\<rparr>]\<rparr>"
      and fresh: "i \<notin> ki_id ` set (kitems D)"
      by (auto simp: sql_insert_kitem_def list_ex_iff split: if_splits)
    show "commits d' (insert_items h kot its) (\<lambda>_ d'. new_items h kot D d')"
      by (rule commits_weaken [OF Cons.IH]) (use d' fresh in \<open>auto simp: new_items_def\<close>)
  qed (auto intro!: sticky_intros)
qed

lemma close_tx_commits: "commits D (close_tx h i) (\<lambda>_. pos_move H A h D)"
  unfolding close_tx_def
  by (intro commits_steps commits_return sticky_intros) (auto intro: pos_move.close)

lemma open_writes_commits:
  assumes "find_table i h D = Some t"
  shows "commits D (open_writes h t req u) (\<lambda>_. pos_move H A h D)"
  unfolding open_writes_def Let_def
  by (intro commits_steps commits_return sticky_intros)
     (auto intro!: pos_move.seat [OF assms] simp: new_session_def)

lemma create_kot_commits: "commits D (create_kot_tx h i items) (\<lambda>_. pos_move H A h D)"
  unfolding create_kot_tx_def Let_def
proof (intro commits_try_row commits_cases commits_refuse sticky_intros commits_bind_query commits_fresh commits_try_stmt, unfold sum.case)
  fix s number j a d1
  let ?k = "\<lparr>kt_id = j, kt_hotel = h, kt_session = i, kt_number = number, kt_round = next_round i D, kt_status = ''draft''\<rparr>"
  assume s: "find_session i h D = Some s" "\<not> \<not> seated (ds_status s)" and k: "sql_insert_kot ?k D = Inr (a, d1)"
  show "commits d1 (try_or (insert_items h j items) 400 ''failed to add kot item'' (\<lambda>_. do {
       _ \<leftarrow> (if ds_status s = ''billed'' then stmt (sql_session_status i ''open'') else State_Monad.return (Inr ()));
       State_Monad.return (Inr ?k) })) (\<lambda>_. pos_move H A h D)"
  proof (rule commits_try [OF insert_items_commits])
    fix u :: unit and d2
    assume it: "new_items h j d1 d2"
    show "commits d2 (do {
       _ \<leftarrow> (if ds_status s = ''billed'' then stmt (sql_session_status i ''open'') else State_Monad.return (Inr ()));
       State_Monad.return (Inr ?k) }) (\<lambda>_. pos_move H A h D)"
      using pos_move.order [OF s(1) _ _ _ _ k] it s(2)
      by (cases "ds_status s = ''billed''") (auto intro!: commits_bind_stmt commits_return sticky_intros)
  qed (intro sticky_intros)
qed

lemma kot_status_commits: "commits D (kot_status_tx h i st) (\<lambda>_. pos_move H A h D)"
  unfolding kot_status_tx_def
  by (intro commits_steps commits_return sticky_intros) (auto intro!: pos_move.kitchen simp: cooking_def)

lemma void_commits: "commits D (void_tx h u kot item reason) (\<lambda>_. pos_move H A h D)"
  unfolding void_tx_def
  by (intro commits_steps commits_return sticky_intros)
     (auto intro!: commits_steps commits_return sticky_intros intro: pos_move.void_item pos_move.void_billed)

lemma generate_commits: "commits D (generate_tx h i) (\<lambda>_. pos_move H A h D)"
  unfolding generate_tx_def
proof (intro commits_try_row commits_cases commits_refuse sticky_intros commits_bind_row; (unfold sum.case)?)
  fix s
  assume s: "find_session i h D = Some s" "\<not> (ds_status s = ''closed'' \<or> ds_status s = ''cancelled'')" and none: "bill_of_session i D = None"
  have "reads (bill_rate h s)" unfolding bill_rate_def by (intro readsI keeps_intros)
  note rate = commits_bind_reads [OF this sticky_bill_rate]
  show "commits D (try_or (query (\<lambda>d. cents (subtotal_cents i d))) 500 ''failed to total items'' (\<lambda>subtotal.
             if subtotal \<le> 0 then refuse 422 ''no billable items in this session''
             else do {
               rate \<leftarrow> bill_rate h s;
               number \<leftarrow> genNumber ''BILL'';
               i' \<leftarrow> uuid_New;
               try_or (stmt (sql_insert_bill (new_bill i' h number s subtotal (fst rate) (snd rate)))) 409
                   ''a bill already exists for this session'' (\<lambda>created.
                 try_or (stmt (sql_session_status i ''billed'')) 500 ''failed to mark session billed'' (\<lambda>_. do {
                   _ \<leftarrow> exec (sql_table_status (ds_table s) ''billed'');
                   State_Monad.return (Inr created)
                 }))
             })) (\<lambda>_. pos_move H A h D)"
    by (intro commits_steps rate commits_return sticky_intros)
       (use s none in \<open>auto intro!: pos_move.bill\<close>)
qed (intro commits_error)

lemma update_bill_commits:
  assumes "A (Pos_UpdateBill ip (Some req))"
  shows "commits D (update_bill_tx h g i req) (\<lambda>_. pos_move H A h D)"
  unfolding update_bill_tx_def Let_def
  by (intro commits_steps commits_return sticky_intros)
     (auto intro!: commits_steps commits_return sticky_intros intro: pos_move.edit [where A = A and ip = ip and req = req, OF assms, unfolded not_less [symmetric]] split: guard.splits option.splits)

lemma bill_kept:
  assumes "find_bill i h D = Some b" "sql_insert_bpayment p D = Inr ((), d1)" "frame h d1 d2"
    "sql_bill_paid b' d2 = Inr ((), d3)"
    "(if paid then sql_session_status session st d3 = Inr ((), d') else d' = d3)"
  shows "\<exists>b \<in> set (bills d'). bl_id b = i \<and> bl_hotel b = h"
proof -
  have "b \<in> set (bills D)" "bl_id b = i" "bl_hotel b = h" using assms(1) by (auto simp: find_bill_def dest: find_SomeD)
  moreover have "bills d2 = bills D" using assms(2,3) by (auto simp: sql_insert_bpayment_def split: if_splits)
  moreover have "bills d' = bills d3" using assms(5) by (auto simp: sql_session_status_def split: if_splits)
  moreover have "bills d3 = upd_where (\<lambda>x. bl_id x = bl_id b')
      (\<lambda>x. x\<lparr>bl_paid := db_num d2 (bl_paid b'), bl_due := db_num d2 (bl_due b'), bl_status := bl_status b'\<rparr>) (bills d2)"
    using assms(4) by (auto simp: sql_bill_paid_def split: if_splits)
  ultimately have "map (\<lambda>b. (bl_id b, bl_hotel b)) (bills d') = map (\<lambda>b. (bl_id b, bl_hotel b)) (bills D)"
    by (simp add: map_upd_where)
  moreover have "(i, h) \<in> set (map (\<lambda>b. (bl_id b, bl_hotel b)) (bills D))"
    using \<open>b \<in> set (bills D)\<close> \<open>bl_id b = i\<close> \<open>bl_hotel b = h\<close> by force
  ultimately have "(i, h) \<in> set (map (\<lambda>b. (bl_id b, bl_hotel b)) (bills d'))" by simp
  then show ?thesis by auto
qed

lemma paid_bill_id [simp]: "bl_id (paid_bill b a) = bl_id b" "bl_session (paid_bill b a) = bl_session b" "bl_hotel (paid_bill b a) = bl_hotel b"
  by (simp_all add: paid_bill_def Let_def)

lemma payment_commits:
  assumes "A (Pos_Pay ip (Some req))" "0 < br_amount req"
  shows "commits D (payment_tx h u i req) (\<lambda>p d'. pos_move H A h D d' \<and> bl_id (pt_bill p) = i \<and>
    (\<exists>b \<in> set (bills d'). bl_id b = i \<and> bl_hotel b = h))"
  unfolding payment_tx_def
proof (intro commits_try_row commits_cases(2))
  fix b and x :: "nat \<times> string"
  show "commits D (case x of (n, msg) \<Rightarrow> refuse n msg) R" for R :: "paymentReceipt \<Rightarrow> db \<Rightarrow> bool"
    by (cases x) (simp add: commits_refuse)
next
  fix b
  assume b: "find_bill i h D = Some b" "payment_refusal b req = None"
  then have id: "bl_id b = i" by (auto simp: find_bill_def dest: find_SomeD)
  show "commits D (do {
         number \<leftarrow> genNumber ''PAY'';
         pid \<leftarrow> uuid_New;
         try_or (stmt (sql_insert_bpayment \<lparr>bp_id = pid, bp_hotel = h, bp_bill = i, bp_number = number,
             bp_method = br_method req, bp_amount = br_amount req, bp_tendered = br_tendered req,
             bp_change = payment_change req, bp_status = ''completed'', bp_txn = br_txn req\<rparr>)) 400
             ''failed to record payment'' (\<lambda>_. do {
           rr \<leftarrow> record_revenue h u b req number;
           case rr of
             Inl answer \<Rightarrow> State_Monad.return (Inl answer)
           | Inr _ \<Rightarrow>
               let b' = paid_bill b (br_amount req) in
               try_or (stmt (sql_bill_paid b')) 500 ''failed to update bill'' (\<lambda>_. do {
                 rs \<leftarrow> (if bl_status b' = ''paid'' then stmt (sql_session_status (bl_session b) ''settled'')
                       else State_Monad.return (Inr ()));
                 case rs of Inl _ \<Rightarrow> refuse 500 ''failed to settle session''
                 | Inr _ \<Rightarrow> State_Monad.return (Inr \<lparr>pt_id = pid, pt_number = number,
                     pt_change = payment_change req, pt_bill = b'\<rparr>)
               })
         })
       }) (\<lambda>p d'. pos_move H A h D d' \<and> bl_id (pt_bill p) = i \<and> (\<exists>b \<in> set (bills d'). bl_id b = i \<and> bl_hotel b = h))"
  proof (intro commits_fresh commits_try_stmt, goal_cases)
    case (1 number pid a d1)
    then have ins: "sql_insert_bpayment \<lparr>bp_id = pid, bp_hotel = h, bp_bill = i, bp_number = number,
        bp_method = br_method req, bp_amount = br_amount req, bp_tendered = br_tendered req,
        bp_change = payment_change req, bp_status = ''completed'', bp_txn = br_txn req\<rparr> D = Inr ((), d1)" by simp
    show ?case
    proof (rule commits_bind [OF commits_keeps [OF keeps_frame_revenue [of h d1] sticky_record_revenue frame_refl]],
        goal_cases)
      case (1 v d2)
      note fr = this
      let ?b = "paid_bill b (br_amount req)"
      show ?case
        unfolding sum.case Let_def
      proof (rule commits_try_stmt, goal_cases)
        case (1 v d3)
        then have up: "sql_bill_paid ?b d2 = Inr ((), d3)" by simp
        have "pos_move H A h D d' \<and> (\<exists>b \<in> set (bills d'). bl_id b = i \<and> bl_hotel b = h)"
          if "if bl_status ?b = ''paid'' then sql_session_status (bl_session b) ''settled'' d3 = Inr ((), d') else d' = d3" for d'
          using pos_move.pay [where A = A and ip = ip and req = req, OF assms(1) b assms(2) _ _ _ ins fr up that] bill_kept [OF b(1) ins fr up that] by simp
        then show ?case
          by (cases "bl_status ?b = ''paid''") (auto intro!: commits_bind_stmt commits_return sticky_intros simp: id commits_return)
      qed (intro sticky_intros)
    qed (auto intro!: refuses_intros sticky_intros split: sum.split)
  qed (intro sticky_intros)
qed (intro sticky_intros)

lemma refund_commits: "commits D (refund_tx h i) (\<lambda>_. pos_move H A h D)"
  unfolding refund_tx_def
proof (intro commits_try_row commits_cases(1) commits_refuse)
  fix b
  assume b: "find_bill i h D = Some b" "\<not> (bl_status b \<noteq> ''paid'' \<and> bl_status b \<noteq> ''partially_paid'')"
  let ?m = "if 0 < bl_paid b then do {
       number \<leftarrow> genNumber ''REF'';
       pid \<leftarrow> uuid_New;
       stmt (sql_insert_payment (fnb_payment pid h number (- bl_paid b) ''refund'' (''Refund bill '' @ bl_number b)))
     } else State_Monad.return (Inr ())"
  have m: "keeps (frame h D) ?m" "sticky ?m"
    by (intro keeps_if keeps_bind keeps_genNumber keeps_uuid_New keeps_return keeps_frame_payment, simp add: fnb_payment_def)
       (intro sticky_intros)
  show "commits D (State_Monad.bind ?m (\<lambda>rp. case rp of
         Inl _ \<Rightarrow> refuse 500 ''failed to record refund''
       | Inr _ \<Rightarrow>
           try_or (exec (sql_bill_status i ''refunded'')) 500 ''failed to update bill'' (\<lambda>_.
             try_or (stmt (sql_session_status (bl_session b) ''refunded'')) 500 ''failed to update session'' (\<lambda>_.
               State_Monad.return (Inr b))))) (\<lambda>_. pos_move H A h D)"
  proof (rule commits_bind [OF commits_keeps [OF m frame_refl]], unfold sum.case)
    fix u d1 assume fr: "frame h D d1"
    show "commits d1 (try_or (exec (sql_bill_status i ''refunded'')) 500 ''failed to update bill'' (\<lambda>_.
             try_or (stmt (sql_session_status (bl_session b) ''refunded'')) 500 ''failed to update session'' (\<lambda>_.
               State_Monad.return (Inr b)))) (\<lambda>_. pos_move H A h D)"
      by (intro commits_steps commits_return sticky_intros) (use b fr in \<open>auto intro: pos_move.refund\<close>)
  qed (auto intro!: refuses_intros sticky_intros)
qed (intro sticky_intros)

lemma insert_splits_commits:
  "commits D (insert_splits h i n nss) (\<lambda>_ d'. \<exists>new. d' = D\<lparr>splits := splits D @ new\<rparr> \<and> list_all (\<lambda>s. sp_hotel s = h \<and> sp_bill s = i) new)"
proof (induction nss arbitrary: D n)
  case Nil
  show ?case by (auto intro!: commits_return intro: exI [of _ "[]"])
next
  case (Cons ns nss)
  obtain name share where ns: "ns = (name, share)" by fastforce
  show ?case
    unfolding ns insert_splits.simps
  proof (intro commits_fresh commits_bind_stmt, unfold sum.case)
    fix j a d'
    let ?s = "\<lparr>sp_id = j, sp_hotel = h, sp_bill = i, sp_no = int n + 1, sp_customer = name, sp_share = share\<rparr>"
    assume "sql_insert_split ?s D = Inr (a, d')"
    then have d': "d' = D\<lparr>splits := splits D @ [?s\<lparr>sp_share := db_num D share\<rparr>]\<rparr>"
      by (auto simp: sql_insert_split_def split: if_splits)
    show "commits d' (State_Monad.bind (insert_splits h i (Suc n) nss) (\<lambda>rr. State_Monad.return (case rr of Inl e \<Rightarrow> Inl e
        | Inr rows \<Rightarrow> Inr (\<lparr>bs_id = j, bs_no = int n + 1, bs_customer = name, bs_amount = share\<rparr> # rows))))
      (\<lambda>_ d'. \<exists>new. d' = D\<lparr>splits := splits D @ new\<rparr> \<and> list_all (\<lambda>s. sp_hotel s = h \<and> sp_bill s = i) new)"
      by (rule commits_bind [OF Cons.IH])
         (use d' in \<open>auto intro!: commits_return refuses_intros sticky_intros
            intro: exI [of _ "?s\<lparr>sp_share := db_num D share\<rparr> # _"]\<close>)
  qed (auto intro!: sticky_intros)
qed

lemma splits_commits: "commits D (splits_tx h i req) (\<lambda>_. pos_move H A h D)"
  unfolding splits_tx_def
proof (intro commits_try_row commits_cases commits_refuse commits_try_exec sticky_intros)
  fix b assume b: "find_bill i h D = Some b"
  show "commits (sql_delete_splits i D) (State_Monad.return (Inr [])) (\<lambda>_. pos_move H A h D)"
    using pos_move.split [OF b, of "[]"] by (auto intro!: commits_return simp: sql_delete_splits_def)
  show "commits (sql_delete_splits i D) (try_or (insert_splits h i 0 nss) 500 msg (\<lambda>rows. State_Monad.return (Inr rows))) (\<lambda>_. pos_move H A h D)" for nss msg
    by (rule commits_try [OF insert_splits_commits])
       (auto intro!: commits_return sticky_intros pos_move.split [OF b] simp: sql_delete_splits_def)
qed

subsection \<open>Handlers make moves\<close>

definition served :: "POSHandler \<Rightarrow> (pos_request \<Rightarrow> bool) \<Rightarrow> uuid \<Rightarrow> 'a go \<Rightarrow> bool" where
  "served H A h m \<longleftrightarrow> (\<forall>w. (pos_move H A h)\<^sup>*\<^sup>* (w_db w) (w_db (snd (run_state m w))))"

named_theorems served_intros \<open>rules that show that a handler makes moves of its tenant\<close>

lemma served_frame: "(\<And>d0. keeps (frame h d0) m) \<Longrightarrow> served H A h m"
  unfolding served_def keeps_def by (blast intro: r_into_rtranclp pos_move.books frame_refl)

lemma served_reads: "(\<And>J. keeps J m) \<Longrightarrow> served H A h m"
  by (rule served_frame)

lemma served_bind [served_intros]: "served H A h m \<Longrightarrow> (\<And>x. served H A h (k x)) \<Longrightarrow> served H A h (State_Monad.bind m k)"
  unfolding served_def
  by (simp split: prod.split) (metis rtranclp_trans snd_conv)

lemma served_cases [served_intros]:
  "(b \<Longrightarrow> served H A h m) \<Longrightarrow> (\<not> b \<Longrightarrow> served H A h m') \<Longrightarrow> served H A h (if b then m else m')"
  "(\<And>e. served H A h (f e)) \<Longrightarrow> (\<And>x. served H A h (g x)) \<Longrightarrow> served H A h (case s of Inl e \<Rightarrow> f e | Inr x \<Rightarrow> g x)"
  "served H A h m \<Longrightarrow> (\<And>x. served H A h (g' x)) \<Longrightarrow> served H A h (case o' of None \<Rightarrow> m | Some x \<Rightarrow> g' x)"
  "(\<And>x. x = a \<Longrightarrow> served H A h (g3 x)) \<Longrightarrow> served H A h (Let a g3)"
  by (simp_all split: sum.split option.split)

lemma served_return [served_intros]: "served H A h (State_Monad.return x)"
  and served_fail [served_intros]: "served H A h (fail n msg)"
  and served_query [served_intros]: "served H A h (query f)"
  and served_query_row [served_intros]: "served H A h (query_row f')"
  and served_uuid_New [served_intros]: "served H A h uuid_New"
  by (rule served_reads, intro keeps_intros)+

lemma served_audit [served_intros]: "served H A h audit"
  unfolding audit_def by (rule served_reads, intro keeps_intros)

lemma served_stmt: "(\<And>d a d'. f d = Inr (a, d') \<Longrightarrow> pos_move H A h d d') \<Longrightarrow> served H A h (stmt f)"
  unfolding served_def stmt_def
  by (auto dest: next_fault_db intro: r_into_rtranclp split: prod.split sum.split) (metis next_fault_db r_into_rtranclp)

lemma served_answered [served_intros]: "served H A h m \<Longrightarrow> served H A h (answered m)"
  unfolding answered_def by (intro served_intros)

lemma served_steps [served_intros]:
  "served H A h m \<Longrightarrow> served H A h (guarded g m)"
  "(\<And>i. served H A h (k i)) \<Longrightarrow> served H A h (with_param H' raw msg k)"
  "(\<And>r. body = Some r \<Longrightarrow> served H A h (k' r)) \<Longrightarrow> served H A h (with_body body k')"
  unfolding guarded_def with_param_def with_body_def
  by (auto intro!: served_return served_fail served_bind split: guard.split option.split)

lemma served_tx:
  assumes "\<And>D. commits D m (\<lambda>b d'. pos_move H A h D d' \<and> Q b d')"
    and "\<And>b w. Q b (w_db w) \<Longrightarrow> (pos_move H A h)\<^sup>*\<^sup>* (w_db w) (w_db (snd (run_state (k b) w)))"
  shows "served H A h (pos_tx msg m k)"
  unfolding served_def
proof
  fix w
  obtain r w' where run: "run_state (pos_tx msg m k) w = (r, w')" by fastforce
  consider "w_db w' = w_db w" | b w1 where "pos_move H A h (w_db w) (w_db w1) \<and> Q b (w_db w1)" "run_state (k b) w1 = (r, w')"
    by (rule pos_tx_outcome [OF run assms(1)]) blast+
  then have "(pos_move H A h)\<^sup>*\<^sup>* (w_db w) (w_db w')"
  proof cases
    case (2 b w1)
    then show ?thesis using assms(2) [of b w1] by (metis converse_rtranclp_into_rtranclp snd_conv)
  qed simp
  then show "(pos_move H A h)\<^sup>*\<^sup>* (w_db w) (w_db (snd (run_state (pos_tx msg m k) w)))" using run by simp
qed

lemma served_pos_tx:
  "(\<And>D. commits D m (\<lambda>_. pos_move H A h D)) \<Longrightarrow> (\<And>b. served H A h (k b)) \<Longrightarrow> served H A h (pos_tx msg m k)"
  by (rule served_tx [where Q = "\<lambda>_ _. True"]) (simp_all add: served_def)

lemma tx_rest_outcome:
  assumes "run_state (tx_rest e m) w = (r, w')" "commits (w_db w) m R" "sticky m" "w_tx w \<noteq> NoTx"
  shows "w_db w' = w_db w \<or> (\<exists>b. R b (w_db w'))"
proof -
  obtain q w2 where m: "run_state m w = (q, w2)" by fastforce
  obtain bad w3 where n3: "next_fault w2 = (bad, w3)" by fastforce
  have n: "w_db w3 = w_db w2" "w_tx w3 = w_tx w2" using n3 by (auto simp: next_fault_def split: list.splits)
  show ?thesis
  proof (cases "isl q \<or> bad \<or> w_tx w2 = TxFailed")
    case True
    then show ?thesis using assms(1) m n3 n by (cases q) (auto simp: tx_rest_def split: if_splits)
  next
    case False
    then obtain b where q: "q = Inr b" by (cases q) auto
    have "w_tx w = TxOpen"
      using assms(3) [unfolded sticky_def, rule_format, of w] assms(4) m False by (cases "w_tx w") auto
    then have "R b (w_db w2)" using commitsD [OF assms(2) refl] m q False by blast
    then show ?thesis using assms(1) m n3 n q False by (auto simp: tx_rest_def)
  qed
qed

lemma served_OpenSession: "served H A (pos_hotel H c) (OpenSession H c idp body)"
  unfolding OpenSession_def Let_def
proof (intro served_steps)
  fix i and req :: openSessionRequest
  let ?h = "pos_hotel H c"
  let ?rest = "\<lambda>t rc. State_Monad.bind (tx_rest (Fail 500 ''failed to open session'')
      (open_writes ?h t req (case rc of Inl _ \<Rightarrow> uuid_Nil | Inr u \<Rightarrow> u))) (\<lambda>r. case r of
        Inl answer \<Rightarrow> State_Monad.return answer | Inr s \<Rightarrow> do { _ \<leftarrow> audit; State_Monad.return (Created s) })"
  have rest: "(pos_move H A ?h)\<^sup>*\<^sup>* (w_db w) (w_db (snd (run_state (?rest t rc) w)))"
    if "find_table i ?h (w_db w) = Some t" "w_tx w \<noteq> NoTx" for t rc w
  proof -
    have st: "sticky (open_writes ?h t req u)" for u unfolding open_writes_def by (intro sticky_intros)
    obtain r w1 where run: "run_state (tx_rest (Fail 500 ''failed to open session'')
        (open_writes ?h t req (case rc of Inl _ \<Rightarrow> uuid_Nil | Inr u \<Rightarrow> u))) w = (r, w1)" by fastforce
    have "(pos_move H A ?h)\<^sup>*\<^sup>* (w_db w) (w_db w1)"
      using tx_rest_outcome [OF run open_writes_commits [OF that(1), where H = H and A = A] st that(2)] by auto
    moreover have "served H A ?h (case r of Inl answer \<Rightarrow> State_Monad.return answer
        | Inr s \<Rightarrow> do { _ \<leftarrow> audit; State_Monad.return (Created s) })" by (intro served_intros)
    ultimately show ?thesis using run unfolding served_def by (simp add: rtranclp_trans)
  qed
  show "served H A ?h (State_Monad.bind tx_begin (\<lambda>rb. case rb of
         Inl _ \<Rightarrow> fail 500 ''failed to start transaction''
       | Inr _ \<Rightarrow> State_Monad.bind (query_row (find_table i ?h)) (\<lambda>rt. case rt of
             Inl _ \<Rightarrow> tx_rollback (Fail 404 ''table not found'')
           | Inr t \<Rightarrow>
               if tb_status t \<noteq> ''available'' \<and> tb_status t \<noteq> ''reserved''
               then tx_rollback (Fail 409 ''table is not available'')
               else State_Monad.bind (on_pool (ensureAccountingCustomer ?h (session_details req))) (?rest t))))"
    (is "served H A ?h (State_Monad.bind tx_begin ?body)")
    unfolding served_def
  proof
    fix w
    obtain rb w1 where b: "run_state tx_begin w = (rb, w1)" by fastforce
    then have w1: "w_db w1 = w_db w" "\<not> isl rb \<Longrightarrow> w_tx w1 = TxOpen"
      by (auto simp: tx_begin_def dest: next_fault_db split: prod.splits if_splits)
    obtain rt w2 where q: "run_state (query_row (find_table i ?h)) w1 = (rt, w2)" by fastforce
    then have w2: "w_db w2 = w_db w" "w_tx w1 = TxOpen \<Longrightarrow> w_tx w2 \<noteq> NoTx" "\<And>t. rt = Inr t \<Longrightarrow> find_table i ?h (w_db w) = Some t"
      using tripleD [OF triple_query_row [of "\<lambda>d. d = w_db w" "find_table i ?h"], of w1] w1(1)
        sticky_query_row [unfolded sticky_def, rule_format, of w1 "find_table i ?h"] by auto
    obtain rc w3 where p: "run_state (on_pool (ensureAccountingCustomer ?h (session_details req))) w2 = (rc, w3)" by fastforce
    have fr: "frame ?h (w_db w2) (w_db w3)" "w_tx w3 = w_tx w2"
      using p keeps_frame_customer [of ?h "w_db w2" "session_details req", unfolded keeps_def, rule_format, of "w2\<lparr>w_tx := NoTx\<rparr>"]
      by (auto simp: on_pool_def split: prod.splits)
    have r: "(pos_move H A ?h)\<^sup>*\<^sup>* (w_db w) (w_db (snd (run_state (?rest t rc) w3)))" if "rt = Inr t" "\<not> isl rb" for t
    proof -
      have "find_table i ?h (w_db w3) = Some t" "w_tx w3 \<noteq> NoTx"
        using w2 that w1(2) fr by (auto simp: find_table_def)
      from converse_rtranclp_into_rtranclp [OF pos_move.books [OF fr(1)] rest [OF this, of rc]]
      show ?thesis unfolding w2(1) .
    qed
    show "(pos_move H A ?h)\<^sup>*\<^sup>* (w_db w) (w_db (snd (run_state (State_Monad.bind tx_begin ?body) w)))"
      using b q p r w1(1) w2(1) by (auto simp: tx_rollback_def split: sum.split)
  qed
qed

lemma served_ledger:
  "served H A h (postSalesToLedgerFor h m s t tot ref ds c)" "served H A h (postCOGS h cogs ref ds)"
  "served H A h (reverseJournalsByReference h ref ds)" "served H A h (sessionCOGS session)"
  by (rule served_frame, rule keeps_frame_ledger)+
     (rule served_reads, unfold sessionCOGS_def, intro keeps_intros)

text \<open>The postings after a payment: the customer is stamped on a bill the tenant owns, the rest is
  written outside the restaurant.\<close>

lemma post_sale_moves:
  assumes own: "\<exists>b \<in> set (bills (w_db w)). bl_id b = bl_id x \<and> bl_hotel b = h"
  shows "(pos_move H A h)\<^sup>*\<^sup>* (w_db w) (w_db (snd (run_state (post_sale h m x) w)))"
proof -
  obtain rc w1 where q: "run_state (query_row (session_customer (bl_session x))) w = (rc, w1)" by fastforce
  have w1: "w_db w1 = w_db w"
    using keeps_query_row [of "\<lambda>d. d = w_db w" "session_customer (bl_session x)"] q unfolding keeps_def by (metis snd_conv)
  let ?c = "case rc of Inl _ \<Rightarrow> uuid_Nil | Inr u \<Rightarrow> u"
  let ?stamp = "if ?c \<noteq> uuid_Nil then exec (sql_bill_customer (bl_id x) ?c) else State_Monad.return (Inr ())"
  obtain rs w2 where s: "run_state ?stamp w1 = (rs, w2)" by fastforce
  have "w_db w2 = w_db w \<or> w_db w2 = sql_bill_customer (bl_id x) ?c (w_db w)"
    using s w1 by (auto simp: exec_def stmt_def dest: next_fault_db split: if_splits prod.splits)
  then have st: "(pos_move H A h)\<^sup>*\<^sup>* (w_db w) (w_db w2)" using pos_move.stamp [OF own] by auto
  let ?rest = "do {
     rj \<leftarrow> postSalesToLedgerFor h m (bl_subtotal x) (bl_tax x) (bl_total x) (''BILL '' @ bl_number x) (''POS sale - bill '' @ bl_number x) ?c;
     cogs \<leftarrow> sessionCOGS (bl_session x);
     _ \<leftarrow> (if 0 < cogs then postCOGS h cogs (''BILL '' @ bl_number x) (''COGS - bill '' @ bl_number x) else State_Monad.return (Inr uuid_Nil));
     State_Monad.return (case rj of Inl _ \<Rightarrow> uuid_Nil | Inr j \<Rightarrow> j) }"
  have "served H A h ?rest" by (intro served_intros served_ledger)
  then have "(pos_move H A h)\<^sup>*\<^sup>* (w_db w2) (w_db (snd (run_state ?rest w2)))" by (simp add: served_def)
  moreover have "run_state (post_sale h m x) w = run_state ?rest w2"
    unfolding post_sale_def Let_def using q s by (simp del: run_query_row)
  ultimately show ?thesis using st by (metis rtranclp_trans)
qed

lemma served_AddBillPayment:
  assumes "A (Pos_Pay idp body)"
  shows "served H A (pos_hotel H c) (AddBillPayment H c idp body)"
  unfolding AddBillPayment_def
proof (intro served_steps served_cases served_fail)
  fix i and req :: billPaymentRequest
  let ?h = "pos_hotel H c"
  assume "\<not> br_amount req \<le> 0" "body = Some req"
  with assms have pos: "A (Pos_Pay idp (Some req))" "0 < br_amount req" by simp_all
  show "served H A ?h (pos_tx ''failed to record payment'' (payment_tx ?h (pos_user H c) i req) (\<lambda>p. do {
         _ \<leftarrow> audit;
         journal \<leftarrow> (if bl_status (pt_bill p) = ''paid'' then post_sale ?h (br_method req) (pt_bill p) else State_Monad.return uuid_Nil);
         State_Monad.return (Created (p, journal)) }))"
  proof (rule served_tx [OF payment_commits [where A = A and ip = idp, OF pos]])
    fix p and w :: world
    assume own: "bl_id (pt_bill p) = i \<and> (\<exists>b \<in> set (bills (w_db w)). bl_id b = i \<and> bl_hotel b = ?h)"
    obtain u w1 where a: "run_state audit w = (u, w1)" by (rule prod.exhaust)
    have "keeps (\<lambda>d. d = w_db w) audit" unfolding audit_def by (intro keeps_intros)
    then have w1: "w_db w1 = w_db w" using a unfolding keeps_def by (metis snd_conv)
    show "(pos_move H A ?h)\<^sup>*\<^sup>* (w_db w) (w_db (snd (run_state (do {
         _ \<leftarrow> audit;
         journal \<leftarrow> (if bl_status (pt_bill p) = ''paid'' then post_sale ?h (br_method req) (pt_bill p) else State_Monad.return uuid_Nil);
         State_Monad.return (Created (p, journal)) }) w)))"
      using post_sale_moves [of w1 "pt_bill p" ?h H A "br_method req"] own w1 a by (auto simp del: run_audit split: prod.split)
  qed
qed

lemma served_RefundBill: "served H A (pos_hotel H c) (RefundBill H c idp)"
  unfolding RefundBill_def by (intro served_intros served_pos_tx refund_commits served_ledger)

lemma served_UpdateBill: "A (Pos_UpdateBill i body) \<Longrightarrow> served H A (pos_hotel H c) (UpdateBill H c i body)"
  unfolding UpdateBill_def by (intro served_intros served_pos_tx update_bill_commits [where ip = i]) simp

lemma served_handlers:
  "served H A (pos_hotel H c) (ListTables H c st o1)" "served H A (pos_hotel H c) (CreateTable H c b1)"
  "served H A (pos_hotel H c) (UpdateTable H c i b2)" "served H A (pos_hotel H c) (CleanTable H c i)"
  "served H A (pos_hotel H c) (ListSessions H c st)" "served H A (pos_hotel H c) (GetSession H c i)"
  "served H A (pos_hotel H c) (CloseSession H c i)" "served H A (pos_hotel H c) (CreateKOT H c i b3)"
  "served H A (pos_hotel H c) (SendKOT H c i)" "served H A (pos_hotel H c) (UpdateKOTStatus H c i b4)"
  "served H A (pos_hotel H c) (VoidKOTItem H c i j b4)" "served H A (pos_hotel H c) (GenerateBill H c i)"
  "served H A (pos_hotel H c) (FinalizeBill H c i)"
  "served H A (pos_hotel H c) (BillReceipt H c i)" "served H A (pos_hotel H c) (GetBillSplits H c i)"
  "served H A (pos_hotel H c) (SetBillSplits H c i b6)"
proof -
  have loads: "served H A h (loadKOTs s)" "served H A h (loadBillBySession s)" "served H A h (loadBillSplits s t)" for h s t
  proof -
    have "served H A h (attach_items ks)" for ks by (induction ks) (auto intro!: served_intros)
    then show "served H A h (loadKOTs s)" unfolding loadKOTs_def by (intro served_intros)
    show "served H A h (loadBillBySession s)" "served H A h (loadBillSplits s t)"
      unfolding loadBillBySession_def loadBillSplits_def by (intro served_intros)+
  qed
  show "served H A (pos_hotel H c) (ListTables H c st o1)" "served H A (pos_hotel H c) (ListSessions H c st)"
    "served H A (pos_hotel H c) (GetSession H c i)" "served H A (pos_hotel H c) (BillReceipt H c i)" "served H A (pos_hotel H c) (GetBillSplits H c i)"
    unfolding ListTables_def ListSessions_def GetSession_def BillReceipt_def GetBillSplits_def by (intro served_intros loads)+
  show "served H A (pos_hotel H c) (CreateTable H c b1)"
    unfolding CreateTable_def by (intro served_intros served_stmt) (rule pos_move.new_table [rotated], assumption, simp)
  show "served H A (pos_hotel H c) (CleanTable H c i)"
    unfolding CleanTable_def by (intro served_intros served_stmt) (rule pos_move.clean_table)
  show "served H A (pos_hotel H c) (SendKOT H c i)"
    unfolding SendKOT_def by (intro served_intros served_stmt) (rule pos_move.send)
  show "served H A (pos_hotel H c) (FinalizeBill H c i)"
    unfolding FinalizeBill_def by (intro served_intros served_stmt) (rule pos_move.finalize)
  show "served H A (pos_hotel H c) (UpdateTable H c i b2)"
    unfolding UpdateTable_def by (intro served_intros served_stmt) (rule pos_move.set_table [rotated], assumption, auto simp: list_all_iff)
  show "served H A (pos_hotel H c) (CloseSession H c i)"
    unfolding CloseSession_def by (intro served_intros served_pos_tx close_tx_commits)
  show "served H A (pos_hotel H c) (CreateKOT H c i b3)"
    unfolding CreateKOT_def by (intro served_intros served_pos_tx create_kot_commits)
  show "served H A (pos_hotel H c) (UpdateKOTStatus H c i b4)"
    unfolding UpdateKOTStatus_def by (intro served_intros served_pos_tx kot_status_commits)
  show "served H A (pos_hotel H c) (VoidKOTItem H c i j b4)"
    unfolding VoidKOTItem_def by (intro served_intros served_pos_tx void_commits)
  show "served H A (pos_hotel H c) (GenerateBill H c i)"
    unfolding GenerateBill_def by (intro served_intros served_pos_tx generate_commits)

  show "served H A (pos_hotel H c) (SetBillSplits H c i b6)"
    unfolding SetBillSplits_def by (intro served_intros served_pos_tx splits_commits)
qed

text \<open>Every request of the restaurant makes moves of its tenant.\<close>

lemma served_serve_pos: "A r \<Longrightarrow> served H A (pos_hotel H c) (serve_pos H c r)"
  by (cases r)
     (auto intro!: served_answered served_handlers served_OpenSession served_UpdateBill served_AddBillPayment served_RefundBill)

end
