(* ===== verification/Service.thy ===== *)
theory Service
  imports Restaurant
begin

text \<open>
  What the restaurant guarantees over any history of requests. The \<open>floor\<close> of a database is what a
  head waiter sees: which table has which session, which session has which bill, and how far each
  is. It is a small machine of its own (\<open>floor_move\<close>), which the handlers refine; its invariant says
  that a table is seated once, a session billed once, and that bill and session agree about what is
  paid. Kitchen tickets follow the table \<^verbatim>\<open>kotTransitions\<close>, and no request touches the rows of
  another tenant.
\<close>

subsection \<open>Histories\<close>

text \<open>Requests that \<open>A\<close> allows, of the tenants in \<open>T\<close>, in any order.\<close>

inductive pos_step :: "POSHandler \<Rightarrow> (pos_request \<Rightarrow> bool) \<Rightarrow> uuid \<Rightarrow> db \<Rightarrow> db \<Rightarrow> bool" for H A where
  request: "A r \<Longrightarrow> pos_hotel H c = h \<Longrightarrow> run_state (serve_pos H c r) w = (ok, w') \<Longrightarrow> pos_step H A h (w_db w) (w_db w')"

inductive pos_history :: "POSHandler \<Rightarrow> (pos_request \<Rightarrow> bool) \<Rightarrow> uuid set \<Rightarrow> db \<Rightarrow> db \<Rightarrow> bool" for H A T d where
  start: "pos_history H A T d d"
| step: "pos_history H A T d d1 \<Longrightarrow> h \<in> T \<Longrightarrow> pos_step H A h d1 d2 \<Longrightarrow> pos_history H A T d d2"

inductive_cases pos_stepE: "pos_step H A h d d'"

lemma pos_step_moves: "pos_step H A h d d' \<Longrightarrow> (pos_move H A h)\<^sup>*\<^sup>* d d'"
  by (elim pos_stepE) (metis served_serve_pos served_def snd_conv)

text \<open>A relation to the first database that every move keeps holds at the end of a history.\<close>

lemma pos_history_moves:
  assumes "pos_history H A T d d'" "R d" "\<And>h d1 d2. h \<in> T \<Longrightarrow> R d1 \<Longrightarrow> pos_move H A h d1 d2 \<Longrightarrow> R d2"
  shows "R d'"
  using assms(1)
proof induction
  case (step d1 h d2)
  from pos_step_moves [OF step.hyps(3)] have "R d1 \<longrightarrow> R d2"
    by induction (use assms(3) step.hyps(2) in blast)+
  with step.IH show ?case by blast
qed (rule assms(2))

subsection \<open>The floor\<close>

record seating =
  se_id :: uuid
  se_hotel :: uuid
  se_table :: uuid
  se_status :: string

record tab =
  ta_id :: uuid
  ta_hotel :: uuid
  ta_session :: uuid
  ta_status :: string

definition seating_of :: "DiningSession \<Rightarrow> seating" where
  "seating_of s = \<lparr>se_id = ds_id s, se_hotel = ds_hotel s, se_table = ds_table s, se_status = ds_status s\<rparr>"

definition tab_of :: "Bill \<Rightarrow> tab" where
  "tab_of b = \<lparr>ta_id = bl_id b, ta_hotel = bl_hotel b, ta_session = bl_session b, ta_status = bl_status b\<rparr>"

definition floor_of :: "db \<Rightarrow> seating list \<times> tab list" where
  "floor_of d = (map seating_of (sessions d), map tab_of (bills d))"

definition put_session :: "uuid \<Rightarrow> string \<Rightarrow> seating list \<Rightarrow> seating list" where
  "put_session i st = upd_where (\<lambda>s. se_id s = i) (\<lambda>s. s\<lparr>se_status := st\<rparr>)"

definition put_tab :: "uuid \<Rightarrow> string \<Rightarrow> tab list \<Rightarrow> tab list" where
  "put_tab i st = upd_where (\<lambda>b. ta_id b = i) (\<lambda>b. b\<lparr>ta_status := st\<rparr>)"

abbreviation owing :: "string \<Rightarrow> bool" where
  "owing st \<equiv> st = ''finalized'' \<or> st = ''partially_paid''"

inductive floor_move :: "uuid \<Rightarrow> seating list \<times> tab list \<Rightarrow> seating list \<times> tab list \<Rightarrow> bool" for h where
  sit: "se_hotel s = h \<Longrightarrow> se_status s = ''open'' \<Longrightarrow>
    list_all (\<lambda>x. se_id x \<noteq> se_id s \<and> \<not> (seated (se_status x) \<and> se_table x = se_table s)) S \<Longrightarrow> floor_move h (S, B) (S @ [s], B)"
| reopen: "s \<in> set S \<Longrightarrow> se_hotel s = h \<Longrightarrow> se_status s = ''billed'' \<Longrightarrow> floor_move h (S, B) (put_session (se_id s) ''open'' S, B)"
| present: "s \<in> set S \<Longrightarrow> se_hotel s = h \<Longrightarrow> se_status s \<noteq> ''closed'' \<Longrightarrow>
    ta_hotel b = h \<Longrightarrow> ta_session b = se_id s \<Longrightarrow> ta_status b = ''open'' \<Longrightarrow>
    list_all (\<lambda>x. ta_id x \<noteq> ta_id b \<and> (ta_session x = se_id s \<longrightarrow> ta_status x = ''void'')) B \<Longrightarrow>
    floor_move h (S, B) (put_session (se_id s) ''billed'' S, B @ [b])"
| lock: "b \<in> set B \<Longrightarrow> ta_hotel b = h \<Longrightarrow> ta_status b = ''open'' \<Longrightarrow> floor_move h (S, B) (S, put_tab (ta_id b) ''finalized'' B)"
| pay_part: "b \<in> set B \<Longrightarrow> ta_hotel b = h \<Longrightarrow> owing (ta_status b) \<Longrightarrow> floor_move h (S, B) (S, put_tab (ta_id b) ''partially_paid'' B)"
| settle: "b \<in> set B \<Longrightarrow> ta_hotel b = h \<Longrightarrow> owing (ta_status b) \<Longrightarrow>
    floor_move h (S, B) (put_session (ta_session b) ''settled'' S, put_tab (ta_id b) ''paid'' B)"
| leave: "s \<in> set S \<Longrightarrow> se_hotel s = h \<Longrightarrow> se_status s = ''settled'' \<Longrightarrow> floor_move h (S, B) (put_session (se_id s) ''closed'' S, B)"
| undo: "b \<in> set B \<Longrightarrow> ta_hotel b = h \<Longrightarrow> ta_status b = ''paid'' \<or> ta_status b = ''partially_paid'' \<Longrightarrow>
    floor_move h (S, B) (put_session (ta_session b) ''refunded'' S, put_tab (ta_id b) ''refunded'' B)"

text \<open>What a bill says about its session.\<close>

definition agree :: "string \<Rightarrow> string \<Rightarrow> bool" where
  "agree bill session \<longleftrightarrow>
     (bill = ''open'' \<or> owing bill) \<and> seated session \<or>
     bill = ''paid'' \<and> (session = ''settled'' \<or> session = ''closed'') \<or>
     bill = ''refunded'' \<and> session = ''refunded''"

definition one_seating :: "seating list \<Rightarrow> bool" where
  "one_seating S \<longleftrightarrow> (\<forall>s \<in> set S. \<forall>t \<in> set S.
     seated (se_status s) \<and> seated (se_status t) \<and> se_table s = se_table t \<longrightarrow> se_id s = se_id t)"

definition one_tab :: "tab list \<Rightarrow> bool" where
  "one_tab B \<longleftrightarrow> (\<forall>b \<in> set B. \<forall>c \<in> set B.
     ta_status b \<noteq> ''void'' \<and> ta_status c \<noteq> ''void'' \<and> ta_session b = ta_session c \<longrightarrow> ta_id b = ta_id c)"

definition backed :: "seating list \<Rightarrow> tab \<Rightarrow> bool" where
  "backed S b \<longleftrightarrow> (\<exists>s \<in> set S. se_id s = ta_session b \<and> se_hotel s = ta_hotel b \<and> agree (ta_status b) (se_status s))"

definition floor_wf :: "seating list \<times> tab list \<Rightarrow> bool" where
  "floor_wf f \<longleftrightarrow> (case f of (S, B) \<Rightarrow>
     distinct (map se_id S) \<and> distinct (map ta_id B) \<and> one_seating S \<and> one_tab B \<and>
     (\<forall>b \<in> set B. ta_status b \<noteq> ''void'' \<longrightarrow> backed S b) \<and>
     (\<forall>s \<in> set S. se_status s = ''open'' \<or> (\<exists>b \<in> set B. ta_status b \<noteq> ''void'' \<and> ta_session b = se_id s)))"

subsection \<open>The handlers refine the floor\<close>

lemma map_upd_where_abs:
  assumes "\<And>x. p' (a x) = p x" "\<And>x. p x \<Longrightarrow> a (f x) = f' (a x)"
  shows "map a (upd_where p f xs) = upd_where p' f' (map a xs)"
  using assms by (simp add: upd_where_def)

lemma seatings_status:
  "sql_session_status i st d = Inr (u, d') \<Longrightarrow>
   map seating_of (sessions d') = put_session i st (map seating_of (sessions d)) \<and> bills d' = bills d"
  by (auto simp: sql_session_status_def put_session_def seating_of_def intro!: map_upd_where_abs split: if_splits)

lemma upd_where_same: "(\<And>x. x \<in> set xs \<Longrightarrow> p x \<Longrightarrow> f x = x) \<Longrightarrow> upd_where p f xs = xs"
  by (simp add: upd_where_def map_idI)

lemma seating_of_fields [simp]:
  "se_id (seating_of s) = ds_id s" "se_hotel (seating_of s) = ds_hotel s"
  "se_table (seating_of s) = ds_table s" "se_status (seating_of s) = ds_status s"
  by (simp_all add: seating_of_def)

lemma tab_of_fields [simp]:
  "ta_id (tab_of b) = bl_id b" "ta_hotel (tab_of b) = bl_hotel b"
  "ta_session (tab_of b) = bl_session b" "ta_status (tab_of b) = bl_status b"
  by (simp_all add: tab_of_def)

lemma find_session_on_floor:
  "find_session i h d = Some s \<Longrightarrow> seating_of s \<in> set (fst (floor_of d)) \<and> ds_hotel s = h \<and> ds_id s = i"
  by (auto simp: find_session_def floor_of_def dest: find_SomeD)

lemma find_bill_on_floor:
  "find_bill i h d = Some b \<Longrightarrow> tab_of b \<in> set (snd (floor_of d)) \<and> bl_hotel b = h \<and> bl_id b = i"
  by (auto simp: find_bill_def floor_of_def dest: find_SomeD)

lemma computeTotals_keys [simp]:
  "bl_id (computeTotals b) = bl_id b" "bl_hotel (computeTotals b) = bl_hotel b" "bl_session (computeTotals b) = bl_session b"
  "bl_status (computeTotals b) = bl_status b" "bl_paid (computeTotals b) = bl_paid b" "bl_subtotal (computeTotals b) = bl_subtotal b"
  by (simp_all add: computeTotals_def Let_def)

lemma new_bill_keys [simp]:
  "bl_id (new_bill i h n s t r c) = i" "bl_hotel (new_bill i h n s t r c) = h" "bl_session (new_bill i h n s t r c) = ds_id s"
  "bl_status (new_bill i h n s t r c) = ''open''"
  by (simp_all add: new_bill_def)

lemma upd_where_cong:
  "(\<And>x. x \<in> set xs \<Longrightarrow> p x \<longleftrightarrow> q x) \<Longrightarrow> (\<And>x. x \<in> set xs \<Longrightarrow> p x \<Longrightarrow> f x = g x) \<Longrightarrow> upd_where p f xs = upd_where q g xs"
  by (simp add: upd_where_def)

lemma distinct_key: "distinct (map k xs) \<Longrightarrow> x \<in> set xs \<Longrightarrow> y \<in> set xs \<Longrightarrow> k x = k y \<Longrightarrow> x = y"
  by (auto simp: distinct_map dest: inj_onD)

lemma floor_table_status [simp]: "floor_of (sql_table_status i st d) = floor_of d"
  by (simp add: floor_of_def sql_table_status_def)

lemma floor_session_status:
  "sql_session_status i st d = Inr (u, d') \<Longrightarrow> floor_of d' = (put_session i st (fst (floor_of d)), snd (floor_of d))"
  using seatings_status by (simp add: floor_of_def)

lemma floor_bills:
  assumes "d' = d\<lparr>bills := upd_where p f (bills d)\<rparr>" "\<And>x. tab_of (f x) = tab_of x"
  shows "floor_of d' = floor_of d"
  by (simp add: assms floor_of_def map_upd_where)

text \<open>Most moves leave the floor as it is.\<close>

lemma floor_still:
  "frame h d d' \<Longrightarrow> floor_of d' = floor_of d"
  "sql_insert_table t d = Inr (t', d') \<Longrightarrow> floor_of d' = floor_of d"
  "sql_update_table H i h kvs d = Inr (r, d') \<Longrightarrow> floor_of d' = floor_of d"
  "sql_clean_table i h d = Inr (n, d') \<Longrightarrow> floor_of d' = floor_of d"
  "sql_send_kot i h d = Inr (n, d') \<Longrightarrow> floor_of d' = floor_of d"
  "sql_insert_kot k d = Inr (j, d') \<Longrightarrow> floor_of d' = floor_of d"
  "sql_insert_bpayment p d = Inr (u, d') \<Longrightarrow> floor_of d' = floor_of d"
  "new_items h kot d d' \<Longrightarrow> floor_of d' = floor_of d"
  "floor_of (sql_items_status i st d) = floor_of d" "floor_of (sql_kot_status i st d) = floor_of d"
  "floor_of (sql_void_item item reason user d) = floor_of d"
  "floor_of (d\<lparr>splits := S\<rparr>) = floor_of d"
  by (auto simp: floor_of_def sql_insert_table_def sql_update_table_def sql_clean_table_def sql_send_kot_def
      sql_insert_kot_def sql_insert_bpayment_def new_items_def sql_items_status_def sql_kot_status_def sql_void_item_def Let_def
      split: if_splits option.splits)

lemma floor_bill_totals: "sql_bill_totals b d = Inr (u, d') \<Longrightarrow> floor_of d' = floor_of d"
  by (auto simp: sql_bill_totals_def tab_of_def intro!: floor_bills split: if_splits)

lemma floor_edit_bill: "sql_edit_bill i b d = Inr (u, d') \<Longrightarrow> floor_of d' = floor_of d"
  by (auto simp: sql_edit_bill_def tab_of_def Let_def intro!: floor_bills split: if_splits)

lemma floor_bill_customer: "floor_of (sql_bill_customer i c d) = floor_of d"
  by (rule floor_bills [OF sql_bill_customer_def]) (simp add: tab_of_def)

lemma floor_insert_bill:
  assumes "sql_insert_bill b d = Inr (b', d')"
  shows "floor_of d' = (fst (floor_of d), snd (floor_of d) @ [tab_of b])"
    "list_all (\<lambda>x. ta_id x \<noteq> bl_id b \<and> (ta_session x = bl_session b \<longrightarrow> bl_status b \<noteq> ''void'' \<longrightarrow> ta_status x = ''void'')) (snd (floor_of d))"
  using assms by (auto simp: sql_insert_bill_def floor_of_def tab_of_def Let_def list_ex_iff list_all_iff split: if_splits)

lemma floor_bill_paid:
  assumes "sql_bill_paid b d = Inr (u, d')"
  shows "floor_of d' = (fst (floor_of d), put_tab (bl_id b) (bl_status b) (snd (floor_of d)))"
  using assms by (auto simp: sql_bill_paid_def floor_of_def put_tab_def tab_of_def intro!: map_upd_where_abs split: if_splits)

lemma floor_bill_status:
  "floor_of (sql_bill_status i st d) = (fst (floor_of d), put_tab i st (snd (floor_of d)))"
  by (auto simp: sql_bill_status_def floor_of_def put_tab_def tab_of_def intro!: map_upd_where_abs)

text \<open>A finalization meets at most one open bill, since identifiers are unique.\<close>

lemma floor_finalize:
  assumes "sql_finalize_bill i h d = Inr (n, d')" "floor_wf (floor_of d)"
  shows "floor_of d' = floor_of d \<or> floor_move h (floor_of d) (floor_of d')"
proof -
  let ?p = "\<lambda>b. ta_id b = i \<and> ta_hotel b = h \<and> ta_status b = ''open''"
  let ?f = "\<lambda>b. b\<lparr>ta_status := ''finalized''\<rparr>"
  obtain S B where f: "floor_of d = (S, B)" by (rule prod.exhaust)
  have f': "floor_of d' = (S, upd_where ?p ?f B)"
    using assms(1) f by (auto simp: sql_finalize_bill_def floor_of_def tab_of_def Let_def intro!: map_upd_where_abs)
  show ?thesis
  proof (cases "\<exists>b \<in> set B. ?p b")
    case True
    then obtain b where b: "b \<in> set B" "?p b" by blast
    have "distinct (map ta_id B)" using assms(2) f by (simp add: floor_wf_def)
    then have "upd_where ?p ?f B = put_tab (ta_id b) ''finalized'' B"
      unfolding put_tab_def using b distinct_key [of ta_id B] by (intro upd_where_cong) auto
    with b show ?thesis by (auto simp: f f' intro: floor_move.lock)
  next
    case False
    then show ?thesis by (simp add: f f' upd_where_none)
  qed
qed

lemma floor_seat:
  assumes "sql_insert_session s d = Inr (j, d')" "ds_status s = ''open''" "ds_hotel s = h"
  shows "floor_move h (floor_of d) (floor_of d')"
proof -
  have "floor_of d' = (fst (floor_of d) @ [seating_of s], snd (floor_of d))"
    "list_all (\<lambda>x. se_id x \<noteq> ds_id s \<and> \<not> (seated (se_status x) \<and> se_table x = ds_table s)) (fst (floor_of d))"
    using assms by (auto simp: sql_insert_session_def floor_of_def seating_of_def list_ex_iff list_all_iff split: if_splits)
  then show ?thesis
    using floor_move.sit [of "seating_of s" h "fst (floor_of d)" "snd (floor_of d)"] assms(2,3) by (simp add: seating_of_def)
qed

lemma floor_pay:
  assumes "find_bill i h d = Some b" "payment_refusal b req = None" "floor_of d2 = floor_of d"
    "sql_bill_paid (paid_bill b a) d2 = Inr ((), d3)"
    "if bl_status (paid_bill b a) = ''paid'' then sql_session_status (bl_session b) ''settled'' d3 = Inr ((), d') else d' = d3"
  shows "floor_move h (floor_of d) (floor_of d')"
proof -
  obtain S B where f: "floor_of d = (S, B)" by (rule prod.exhaust)
  have b: "tab_of b \<in> set B" "ta_hotel (tab_of b) = h" "owing (ta_status (tab_of b))"
    using find_bill_on_floor [OF assms(1)] assms(2) f
    by (auto simp: payment_refusal_def split: if_splits)
  have f3: "floor_of d3 = (S, put_tab (ta_id (tab_of b)) (bl_status (paid_bill b a)) B)"
    using floor_bill_paid [OF assms(4)] by (simp add: assms(3) f)
  show ?thesis
  proof (cases "bl_status (paid_bill b a) = ''paid''")
    case True
    then show ?thesis
      using assms(5) floor_move.settle [OF b, of S] f3 by (auto simp: f dest!: floor_session_status)
  next
    case False
    then have "bl_status (paid_bill b a) = ''partially_paid''" by (auto simp: paid_bill_def Let_def split: if_splits)
    with False show ?thesis using assms(5) floor_move.pay_part [OF b, of S] f3 by (simp add: f)
  qed
qed

text \<open>Every move of the handlers is a move on the floor, or leaves it alone.\<close>

lemma pos_move_on_floor:
  assumes "pos_move H A h d d'" "floor_wf (floor_of d)"
  shows "floor_of d' = floor_of d \<or> floor_move h (floor_of d) (floor_of d')"
  using assms(1)
proof cases
  case (close i s d1)
  with floor_move.leave [of "seating_of s" "fst (floor_of d)" h "snd (floor_of d)"] find_session_on_floor [OF close(2)]
    floor_session_status [OF close(4)]
  show ?thesis using close(1,3) by auto
next
  case (order i s k j d1 d2)
  have 2: "floor_of d2 = floor_of d" using floor_still order(6,7) by metis
  from order(8) show ?thesis
  proof (cases "ds_status s = ''billed''")
    case True
    with order(8) have "floor_of d' = (put_session i ''open'' (fst (floor_of d)), snd (floor_of d))"
      by (simp add: 2 floor_session_status)
    with floor_move.reopen [of "seating_of s" "fst (floor_of d)" h "snd (floor_of d)"] find_session_on_floor [OF order(1)] True
    show ?thesis by auto
  qed (simp add: 2)
next
  case (bill i s j number rate currency b' d1 d2)
  let ?b = "new_bill j h number s (cents (subtotal_cents i d)) rate currency"
  have i: "ds_id s = i" using bill(2) by (auto simp: find_session_def dest: find_SomeD)
  have "floor_of d' = (put_session i ''billed'' (fst (floor_of d)), snd (floor_of d) @ [tab_of ?b])"
    using floor_session_status [OF bill(8)] floor_insert_bill(1) [OF bill(7)] bill(1) by simp
  moreover have "list_all (\<lambda>x. ta_id x \<noteq> ta_id (tab_of ?b) \<and> (ta_session x = se_id (seating_of s) \<longrightarrow> ta_status x = ''void'')) (snd (floor_of d))"
    using floor_insert_bill(2) [OF bill(7)] by simp
  ultimately show ?thesis
    using floor_move.present [of "seating_of s" "fst (floor_of d)" h "tab_of ?b" "snd (floor_of d)"] find_session_on_floor [OF bill(2)] bill(3) i
    by auto
next
  case (seat i t s j d1)
  then show ?thesis using floor_seat [OF seat(6)] by simp
next
  case (finalize i n)
  then show ?thesis using floor_finalize assms(2) by blast
next
  case (pay ip req i b p d1 d2 d3)
  have "floor_of d2 = floor_of d" using floor_still(1) [OF pay(9)] floor_still(7) [OF pay(8)] by simp
  from floor_pay [OF pay(2,3) this pay(10,11)] show ?thesis ..
next
  case (refund i b d1)
  from find_bill_on_floor [OF refund(1)] floor_move.undo [of "tab_of b" "snd (floor_of d)" h "fst (floor_of d)"] refund(2)
    floor_session_status [OF refund(4)] floor_still(1) [OF refund(3)]
  show ?thesis by (auto simp: floor_bill_status)
qed (simp_all add: floor_still floor_bill_totals floor_edit_bill floor_bill_customer)

subsection \<open>The invariant of the floor\<close>

lemma put_session_ids [simp]: "map se_id (put_session i st S) = map se_id S"
  by (simp add: put_session_def map_upd_where)

lemma put_tab_ids [simp]: "map ta_id (put_tab i st B) = map ta_id B"
  by (simp add: put_tab_def map_upd_where)

lemma put_session_iff:
  "s' \<in> set (put_session i st S) \<longleftrightarrow> (\<exists>s \<in> set S. s' = (if se_id s = i then s\<lparr>se_status := st\<rparr> else s))"
  by (auto simp: put_session_def set_upd_where)

lemma put_tab_iff:
  "b' \<in> set (put_tab i st B) \<longleftrightarrow> (\<exists>b \<in> set B. b' = (if ta_id b = i then b\<lparr>ta_status := st\<rparr> else b))"
  by (auto simp: put_tab_def set_upd_where)

lemma floor_wf_backed: "floor_wf (S, B) \<Longrightarrow> b \<in> set B \<Longrightarrow> ta_status b \<noteq> ''void'' \<Longrightarrow> backed S b"
  by (simp add: floor_wf_def)

lemma floor_wf_billed:
  "floor_wf (S, B) \<Longrightarrow> s \<in> set S \<Longrightarrow> se_status s = ''open'' \<or> (\<exists>b \<in> set B. ta_status b \<noteq> ''void'' \<and> ta_session b = se_id s)"
  by (simp add: floor_wf_def)

lemma put_session_mem: "s \<in> set S \<Longrightarrow> s\<lparr>se_status := st\<rparr> \<in> set (put_session (se_id s) st S)"
  by (auto simp: put_session_iff)

lemma put_session_other: "s \<in> set S \<Longrightarrow> se_id s \<noteq> i \<Longrightarrow> s \<in> set (put_session i st S)"
  by (auto simp: put_session_iff)

lemma put_tab_mem: "b \<in> set B \<Longrightarrow> b\<lparr>ta_status := st\<rparr> \<in> set (put_tab (ta_id b) st B)"
  by (auto simp: put_tab_iff)

lemma put_tab_other: "b \<in> set B \<Longrightarrow> ta_id b \<noteq> i \<Longrightarrow> b \<in> set (put_tab i st B)"
  by (auto simp: put_tab_iff)

lemma put_session_same:
  assumes "distinct (map se_id S)" "s \<in> set S"
  shows "put_session (se_id s) (se_status s) S = S"
  unfolding put_session_def
proof (rule upd_where_same)
  fix x assume "x \<in> set S" "se_id x = se_id s"
  then have "x = s" using distinct_key [OF assms(1)] assms(2) by blast
  then show "x\<lparr>se_status := se_status s\<rparr> = x" by simp
qed

lemma put_tab_same:
  assumes "distinct (map ta_id B)" "b \<in> set B"
  shows "put_tab (ta_id b) (ta_status b) B = B"
  unfolding put_tab_def
proof (rule upd_where_same)
  fix x assume "x \<in> set B" "ta_id x = ta_id b"
  then have "x = b" using distinct_key [OF assms(1)] assms(2) by blast
  then show "x\<lparr>ta_status := ta_status b\<rparr> = x" by simp
qed

lemma agree_simps [simp]:
  "agree ''open'' s \<longleftrightarrow> seated s" "agree ''finalized'' s \<longleftrightarrow> seated s" "agree ''partially_paid'' s \<longleftrightarrow> seated s"
  "agree ''paid'' s \<longleftrightarrow> s = ''settled'' \<or> s = ''closed''" "agree ''refunded'' s \<longleftrightarrow> s = ''refunded''"
  by (simp_all add: agree_def)

lemma one_seatingI:
  "(\<And>s t. s \<in> set S \<Longrightarrow> t \<in> set S \<Longrightarrow> seated (se_status s) \<Longrightarrow> seated (se_status t) \<Longrightarrow> se_table s = se_table t \<Longrightarrow> se_id s = se_id t) \<Longrightarrow>
   one_seating S"
  unfolding one_seating_def by blast

lemma one_seatingD:
  "one_seating S \<Longrightarrow> s \<in> set S \<Longrightarrow> t \<in> set S \<Longrightarrow> seated (se_status s) \<Longrightarrow> seated (se_status t) \<Longrightarrow> se_table s = se_table t \<Longrightarrow> se_id s = se_id t"
  unfolding one_seating_def by blast

lemma one_seating_put:
  assumes "one_seating S" "\<And>s. s \<in> set S \<Longrightarrow> se_id s = i \<Longrightarrow> seated st \<Longrightarrow> seated (se_status s)"
  shows "one_seating (put_session i st S)"
proof -
  have old: "\<exists>t \<in> set S. se_id t = se_id z \<and> se_table t = se_table z \<and> seated (se_status t)"
    if z: "z \<in> set (put_session i st S)" "seated (se_status z)" for z
  proof -
    from z(1) obtain s where s: "s \<in> set S" "z = (if se_id s = i then s\<lparr>se_status := st\<rparr> else s)"
      unfolding put_session_iff by blast
    then have "seated (se_status s)" using assms(2) [OF s(1)] z(2) by (cases "se_id s = i") auto
    with s show ?thesis by (intro bexI [of _ s]) auto
  qed
  show ?thesis
  proof (rule one_seatingI)
    fix x y
    assume xy: "x \<in> set (put_session i st S)" "y \<in> set (put_session i st S)" "seated (se_status x)" "seated (se_status y)" "se_table x = se_table y"
    obtain s where s: "s \<in> set S" "se_id s = se_id x" "se_table s = se_table x" "seated (se_status s)" using old [OF xy(1,3)] by blast
    obtain t where t: "t \<in> set S" "se_id t = se_id y" "se_table t = se_table y" "seated (se_status t)" using old [OF xy(2,4)] by blast
    show "se_id x = se_id y" using one_seatingD [OF assms(1) s(1) t(1) s(4) t(4)] s(2,3) t(2,3) xy(5) by simp
  qed
qed

lemma one_tabD:
  "one_tab B \<Longrightarrow> b \<in> set B \<Longrightarrow> c \<in> set B \<Longrightarrow> ta_status b \<noteq> ''void'' \<Longrightarrow> ta_status c \<noteq> ''void'' \<Longrightarrow> ta_session b = ta_session c \<Longrightarrow> ta_id b = ta_id c"
  unfolding one_tab_def by blast

lemma one_tab_append:
  assumes "one_tab B" "\<And>x. x \<in> set B \<Longrightarrow> ta_session x = ta_session b \<Longrightarrow> ta_status x = ''void''"
  shows "one_tab (B @ [b])"
  unfolding one_tab_def
proof (intro ballI impI)
  fix x y
  assume x: "x \<in> set (B @ [b])" and y: "y \<in> set (B @ [b])"
    and xy: "ta_status x \<noteq> ''void'' \<and> ta_status y \<noteq> ''void'' \<and> ta_session x = ta_session y"
  consider "x = b" "y = b" | "x \<in> set B" "y = b" | "x = b" "y \<in> set B" | "x \<in> set B" "y \<in> set B" using x y by auto
  then show "ta_id x = ta_id y"
  proof cases
    case 4
    with xy show ?thesis using assms(1) unfolding one_tab_def by blast
  qed (use xy assms(2) [of x] assms(2) [of y] in simp_all)
qed

lemma one_tab_put:
  assumes "one_tab B" "\<And>b. b \<in> set B \<Longrightarrow> ta_id b = i \<Longrightarrow> ta_status b \<noteq> ''void''"
  shows "one_tab (put_tab i st B)"
proof -
  have "\<exists>c \<in> set B. ta_id c = ta_id z \<and> ta_session c = ta_session z \<and> ta_status c \<noteq> ''void''"
    if "z \<in> set (put_tab i st B)" "ta_status z \<noteq> ''void''" for z
    using that assms(2) by (auto simp: put_tab_iff split: if_splits)
  then show ?thesis using assms(1) unfolding one_tab_def by metis
qed

text \<open>A session and its bill move together.\<close>

lemma floor_wf_update:
  assumes wf: "floor_wf (S, B)" and b: "b \<in> set B" "ta_status b \<noteq> ''void''"
    and s: "s \<in> set S" "se_id s = ta_session b" "seated st \<longrightarrow> seated (se_status s)"
    and new: "agree st' st"
  shows "floor_wf (put_session (ta_session b) st S, put_tab (ta_id b) st' B)"
proof -
  have S: "distinct (map se_id S)" and B: "distinct (map ta_id B)" and one: "one_seating S" "one_tab B"
    using wf by (simp_all add: floor_wf_def)
  have s': "t = s" if "t \<in> set S" "se_id t = ta_session b" for t using distinct_key [OF S, of t s] s that by simp
  have b': "c = b" if "c \<in> set B" "ta_id c = ta_id b" for c using distinct_key [OF B, of c b] b that by simp
  have b'': "c = b" if "c \<in> set B" "ta_status c \<noteq> ''void''" "ta_session c = ta_session b" for c
    using b' b one(2) that unfolding one_tab_def by blast
  have st': "st' \<noteq> ''void''" using new by (auto simp: agree_def)
  have hotel: "se_hotel s = ta_hotel b" using floor_wf_backed [OF wf b] s' unfolding backed_def by blast
  have "backed (put_session (ta_session b) st S) c'"
    if c': "c' \<in> set (put_tab (ta_id b) st' B)" "ta_status c' \<noteq> ''void''" for c'
  proof -
    obtain c where c: "c \<in> set B" "c' = (if ta_id c = ta_id b then c\<lparr>ta_status := st'\<rparr> else c)" using c' by (auto simp: put_tab_iff)
    show ?thesis
    proof (cases "ta_id c = ta_id b")
      case True
      then have "c' = b\<lparr>ta_status := st'\<rparr>" using b' c by auto
      then show ?thesis
        using put_session_mem [OF s(1), of st] s(2) new hotel unfolding backed_def by (intro bexI [of _ "s\<lparr>se_status := st\<rparr>"]) auto
    next
      case False
      then have "c' = c" and ne: "ta_session c \<noteq> ta_session b" using b'' c c'(2) by auto
      then show ?thesis
        using floor_wf_backed [OF wf c(1)] c'(2) put_session_other [of _ S "ta_session b" st] unfolding backed_def by metis
    qed
  qed
  moreover have "se_status t' = ''open'' \<or> (\<exists>c' \<in> set (put_tab (ta_id b) st' B). ta_status c' \<noteq> ''void'' \<and> ta_session c' = se_id t')"
    if "t' \<in> set (put_session (ta_session b) st S)" for t'
  proof (cases "se_id t' = ta_session b")
    case True
    then show ?thesis using put_tab_mem [OF b(1), of st'] st' by fastforce
  next
    case False
    with that have "t' \<in> set S" by (auto simp: put_session_iff split: if_splits)
    then have "se_status t' = ''open'' \<or> (\<exists>c \<in> set B. ta_status c \<noteq> ''void'' \<and> ta_session c = se_id t')"
      using floor_wf_billed [OF wf] by blast
    then show ?thesis using False put_tab_other [of _ B "ta_id b" st'] b' by metis
  qed
  moreover have "one_seating (put_session (ta_session b) st S)" by (rule one_seating_put [OF one(1)]) (use s(3) s' in blast)
  moreover have "one_tab (put_tab (ta_id b) st' B)" by (rule one_tab_put [OF one(2)]) (use b' b(2) in blast)
  ultimately show ?thesis using S B unfolding floor_wf_def by simp
qed

lemma floor_wf_sit:
  assumes wf: "floor_wf (S, B)" and s: "se_status s = ''open''"
    "list_all (\<lambda>x. se_id x \<noteq> se_id s \<and> \<not> (seated (se_status x) \<and> se_table x = se_table s)) S"
  shows "floor_wf (S @ [s], B)"
proof -
  have "one_seating S" and S: "\<forall>x \<in> set S. se_id x \<noteq> se_id s \<and> \<not> (seated (se_status x) \<and> se_table x = se_table s)"
    using wf s(2) by (simp_all add: floor_wf_def list_all_iff)
  then have "one_seating (S @ [s])" by (intro one_seatingI) (auto dest: one_seatingD)
  moreover have "backed (S @ [s]) b" if "backed S b" for b using that unfolding backed_def by auto
  ultimately show ?thesis using wf s(1) S unfolding floor_wf_def by auto
qed

lemma floor_wf_present:
  assumes wf: "floor_wf (S, B)" and s: "s \<in> set S" "ta_hotel b = se_hotel s"
    and b: "ta_session b = se_id s" "ta_status b = ''open''"
    "list_all (\<lambda>x. ta_id x \<noteq> ta_id b \<and> (ta_session x = se_id s \<longrightarrow> ta_status x = ''void'')) B"
  shows "floor_wf (put_session (se_id s) ''billed'' S, B @ [b])"
proof -
  have S: "distinct (map se_id S)" and one: "one_seating S" using wf by (simp_all add: floor_wf_def)
  have s': "t = s" if "t \<in> set S" "se_id t = se_id s" for t using distinct_key [OF S, of t s] s that by simp
  have "se_status s = ''open''" using floor_wf_billed [OF wf s(1)] b(3) by (auto simp: list_all_iff)
  then have "one_seating (put_session (se_id s) ''billed'' S)"
    using s' by (intro one_seating_put [OF one]) auto
  moreover have "one_tab B" and B: "\<forall>x \<in> set B. ta_id x \<noteq> ta_id b \<and> (ta_session x = se_id s \<longrightarrow> ta_status x = ''void'')"
    using wf b(3) by (simp_all add: floor_wf_def list_all_iff)
  moreover have "one_tab (B @ [b])" by (rule one_tab_append [OF \<open>one_tab B\<close>]) (use B b(1) in auto)
  moreover have "backed (put_session (se_id s) ''billed'' S) b"
    using put_session_mem [OF s(1), of "''billed''"] s(2) b(1,2) unfolding backed_def
    by (intro bexI [of _ "s\<lparr>se_status := ''billed''\<rparr>"]) simp_all
  moreover have "backed (put_session (se_id s) ''billed'' S) c" if c: "c \<in> set B" "ta_status c \<noteq> ''void''" for c
  proof -
    have "ta_session c \<noteq> se_id s" using c b(3) by (auto simp: list_all_iff)
    with floor_wf_backed [OF wf c] show ?thesis
      using put_session_other [of _ S "se_id s" "''billed''"] unfolding backed_def by metis
  qed
  moreover have "se_status t = ''open'' \<or> (\<exists>c \<in> set (B @ [b]). ta_status c \<noteq> ''void'' \<and> ta_session c = se_id t)"
    if "t \<in> set (put_session (se_id s) ''billed'' S)" for t
    using that floor_wf_billed [OF wf, of t] b by (auto simp: put_session_iff split: if_splits)
  ultimately show ?thesis using wf unfolding floor_wf_def by auto
qed

text \<open>The session a bill that is not void is for.\<close>

lemma backed_session:
  assumes "floor_wf (S, B)" "b \<in> set B" "ta_status b \<noteq> ''void''"
  obtains s where "s \<in> set S" "se_id s = ta_session b" "agree (ta_status b) (se_status s)"
  using floor_wf_backed [OF assms] that unfolding backed_def by blast

lemma billed_tab:
  assumes "floor_wf (S, B)" "s \<in> set S" "se_status s \<noteq> ''open''"
  obtains b where "b \<in> set B" "ta_status b \<noteq> ''void''" "ta_session b = se_id s" "agree (ta_status b) (se_status s)"
proof -
  obtain b where b: "b \<in> set B" "ta_status b \<noteq> ''void''" "ta_session b = se_id s" using floor_wf_billed [OF assms(1,2)] assms(3) by blast
  moreover obtain t where "t \<in> set S" "se_id t = ta_session b" "agree (ta_status b) (se_status t)" by (rule backed_session [OF assms(1) b(1,2)])
  moreover have "distinct (map se_id S)" using assms(1) by (simp add: floor_wf_def)
  ultimately show ?thesis using that assms(2) distinct_key by metis
qed

lemma floor_move_wf:
  assumes "floor_move h f f'" "floor_wf f"
  shows "floor_wf f'"
proof -
  have ids: "distinct (map se_id S)" "distinct (map ta_id B)" if "floor_wf (S, B)" for S B using that by (simp_all add: floor_wf_def)
  have session_only: "floor_wf (put_session (se_id s) st S, B)"
    if wf: "floor_wf (S, B)" and s: "s \<in> set S" "se_status s \<noteq> ''open''" "seated st \<longrightarrow> seated (se_status s)"
      and new: "\<And>bs. agree bs (se_status s) \<Longrightarrow> agree bs st" for S B s st
  proof -
    obtain b where "b \<in> set B" "ta_status b \<noteq> ''void''" "ta_session b = se_id s" "agree (ta_status b) (se_status s)"
      by (rule billed_tab [OF wf s(1,2)])
    then show ?thesis using floor_wf_update [OF wf, of b s st "ta_status b"] s new put_tab_same [OF ids(2) [OF wf]] by simp
  qed
  have tab_only: "floor_wf (S, put_tab (ta_id b) st B)"
    if wf: "floor_wf (S, B)" and b: "b \<in> set B" "ta_status b \<noteq> ''void''" and new: "\<And>ss. agree (ta_status b) ss \<Longrightarrow> agree st ss" for S B b st
  proof -
    obtain s where "s \<in> set S" "se_id s = ta_session b" "agree (ta_status b) (se_status s)" by (rule backed_session [OF wf b])
    moreover from this have "put_session (ta_session b) (se_status s) S = S" using put_session_same [OF ids(1) [OF wf], of s] by simp
    ultimately show ?thesis using floor_wf_update [OF wf b, of s "se_status s" st] new by simp
  qed
  have both: "floor_wf (put_session (ta_session b) st' S, put_tab (ta_id b) st B)"
    if wf: "floor_wf (S, B)" and b: "b \<in> set B" "ta_status b \<noteq> ''void''" and "\<not> seated st'" "agree st st'" for S B b st st'
    by (rule backed_session [OF wf b]) (use floor_wf_update [OF wf b] that(4,5) in blast)
  from assms show ?thesis
  proof (induction rule: floor_move.induct)
    case (sit s S B) then show ?case using floor_wf_sit by blast
  next
    case (reopen s S B) then show ?case by (intro session_only) (auto simp: agree_def)
  next
    case (present s S b B) then show ?case using floor_wf_present by auto
  next
    case (lock b B S) then show ?case by (intro tab_only) (auto simp: agree_def)
  next
    case (pay_part b B S) then show ?case by (intro tab_only) auto
  next
    case (settle b B S) then show ?case by (intro both) (auto simp: agree_def)
  next
    case (leave s S B) then show ?case by (intro session_only) (auto simp: agree_def)
  next
    case (undo b B S) then show ?case by (intro both) (auto simp: agree_def)
  qed
qed

text \<open>The floor of a history: each request of a tenant is a sequence of moves of that tenant.\<close>

lemma pos_history_floor:
  assumes "pos_history H A T d d'" "floor_wf (floor_of d)"
  shows "(\<lambda>f f'. \<exists>h \<in> T. floor_move h f f')\<^sup>*\<^sup>* (floor_of d) (floor_of d') \<and> floor_wf (floor_of d')"
  using assms(1)
proof (rule pos_history_moves)
  fix h d1 d2
  assume "h \<in> T" and 1: "(\<lambda>f f'. \<exists>h \<in> T. floor_move h f f')\<^sup>*\<^sup>* (floor_of d) (floor_of d1) \<and> floor_wf (floor_of d1)"
    and "pos_move H A h d1 d2"
  then consider "floor_of d2 = floor_of d1" | "floor_move h (floor_of d1) (floor_of d2)" using pos_move_on_floor by blast
  then show "(\<lambda>f f'. \<exists>h \<in> T. floor_move h f f')\<^sup>*\<^sup>* (floor_of d) (floor_of d2) \<and> floor_wf (floor_of d2)"
  proof cases
    case 2
    with \<open>h \<in> T\<close> have "\<exists>h \<in> T. floor_move h (floor_of d1) (floor_of d2)" ..
    show ?thesis
    proof
      show "(\<lambda>f f'. \<exists>h \<in> T. floor_move h f f')\<^sup>*\<^sup>* (floor_of d) (floor_of d2)"
        by (rule rtranclp.rtrancl_into_rtrancl [OF conjunct1 [OF 1] \<open>\<exists>h \<in> T. floor_move h (floor_of d1) (floor_of d2)\<close>])
      show "floor_wf (floor_of d2)" by (rule floor_move_wf [OF 2 conjunct2 [OF 1]])
    qed
  qed (use 1 in simp)
qed (simp add: assms(2))
lemma pos_history_serving:
  "list_all A rs \<Longrightarrow> pos_history H A {pos_hotel H c} (w_db w) (w_db (fold (\<lambda>r w. snd (run_state (serve_pos H c r) w)) rs w))"
proof (induction rs rule: rev_induct)
  case (snoc r rs)
  let ?w = "fold (\<lambda>r w. snd (run_state (serve_pos H c r) w)) rs w"
  have "pos_step H A (pos_hotel H c) (w_db ?w) (w_db (snd (run_state (serve_pos H c r) ?w)))"
    by (rule pos_step.request [OF _ refl prod.collapse [symmetric]]) (use snoc.prems in simp)
  with snoc show ?case by (auto intro: pos_history.step)
qed (simp add: pos_history.start)

text \<open>A table whose bill is on it, and the requests a cashier may then make.\<close>

definition evening_table :: Table where
  "evening_table = \<lparr>tb_id = 5, tb_hotel = 7, tb_outlet = None, tb_number = ''T5'', tb_section = None,
     tb_seats = 4, tb_status = ''billed'', tb_x = None, tb_y = None, tb_active = True\<rparr>"

definition evening_session :: DiningSession where
  "evening_session = \<lparr>ds_id = 60, ds_hotel = 7, ds_number = ''DIN-1'', ds_table = 5, ds_outlet = None, ds_covers = 2,
     ds_guest_name = None, ds_customer_type = ''walk_in'', ds_stay = None, ds_customer = None, ds_opened = 0, ds_status = ''billed''\<rparr>"

definition evening_ticket :: KOT where
  "evening_ticket = \<lparr>kt_id = 62, kt_hotel = 7, kt_session = 60, kt_number = ''KOT-1'', kt_round = 1, kt_status = ''sent''\<rparr>"

definition evening_db :: db where
  "evening_db = empty_db\<lparr>tables := [evening_table], sessions := [evening_session], kots := [evening_ticket], bills := [split_bill]\<rparr>"

definition after_evening :: "pos_request list \<Rightarrow> db" where
  "after_evening rs = w_db (fold (\<lambda>r w. snd (run_state (serve_pos pos_handler pos_ctx r) w)) rs (start evening_db 0))"

lemma pos_hotel_sample: "pos_hotel pos_handler pos_ctx = 7"
  by code_simp

lemma after_evening_allowed: "list_all A rs \<Longrightarrow> pos_history pos_handler A {7} evening_db (after_evening rs)"
  unfolding after_evening_def using pos_history_serving [of A rs pos_handler pos_ctx "start evening_db 0"] by (simp add: pos_hotel_sample)

lemma after_evening_history: "pos_history pos_handler (\<lambda>_. True) {7} evening_db (after_evening rs)"
  by (rule after_evening_allowed) (simp add: list_all_iff)

text \<open>C4: Refinement. Whatever requests the restaurants of the tenants in \<open>T\<close> send, in any order and
  with any faults, what happens on the floor is a run of the machine \<open>floor_move\<close>: a session opens only
  on a free table, gets one bill, is settled only by a payment of a finalized bill, and closed only when
  settled. The run keeps the invariant of the floor: a table is seated once, a session is billed once, an
  unpaid bill belongs to a seated session, a paid bill to a settled or closed one, a refunded bill to a
  refunded one, and a session past ordering has a bill.\<close>

theorem restaurant_refines_floor:
  assumes "pos_history H A T d d'" "floor_wf (floor_of d)"
  shows "(\<lambda>f f'. \<exists>h \<in> T. floor_move h f f')\<^sup>*\<^sup>* (floor_of d) (floor_of d') \<and> floor_wf (floor_of d')"
  by (rule pos_history_floor [OF assms])

text \<open>The bill of table 5 is finalized.\<close>

theorem restaurant_refines_floor_witness:
  "pos_history pos_handler (\<lambda>_. True) {7} evening_db (after_evening [Pos_FinalizeBill ''70'']) \<and>
   (\<lambda>f f'. \<exists>h \<in> {7}. floor_move h f f')\<^sup>*\<^sup>* (floor_of evening_db) (floor_of (after_evening [Pos_FinalizeBill ''70''])) \<and>
   floor_wf (floor_of (after_evening [Pos_FinalizeBill ''70''])) \<and>
   map ta_status (snd (floor_of (after_evening [Pos_FinalizeBill ''70'']))) = [''finalized'']"
proof -
  have wf: "floor_wf (floor_of evening_db)" by code_simp
  have "map ta_status (snd (floor_of (after_evening [Pos_FinalizeBill ''70'']))) = [''finalized'']" by code_simp
  with restaurant_refines_floor [OF after_evening_history wf] after_evening_history show ?thesis by blast
qed



subsection \<open>The kitchen\<close>

text \<open>What a move does to the tickets: nothing, a new draft, or one allowed step of one ticket.\<close>

definition put_ticket :: "uuid \<Rightarrow> string \<Rightarrow> KOT list \<Rightarrow> KOT list" where
  "put_ticket i st = upd_where (\<lambda>k. kt_id k = i) (\<lambda>k. k\<lparr>kt_status := st\<rparr>)"

lemma kots_still:
  "sql_insert_table t d = Inr (t', d') \<Longrightarrow> kots d' = kots d"
  "sql_update_table H i h kvs d = Inr (r, d') \<Longrightarrow> kots d' = kots d"
  "sql_clean_table i h d = Inr (n, d') \<Longrightarrow> kots d' = kots d"
  "sql_insert_session s d = Inr (j, d') \<Longrightarrow> kots d' = kots d"
  "sql_session_status i st d = Inr (u, d') \<Longrightarrow> kots d' = kots d"
  "sql_insert_bpayment p d = Inr (u, d') \<Longrightarrow> kots d' = kots d"
  "sql_insert_bill b d = Inr (b', d') \<Longrightarrow> kots d' = kots d"
  "sql_bill_totals b d = Inr (u, d') \<Longrightarrow> kots d' = kots d"
  "sql_edit_bill i b d = Inr (ob, d') \<Longrightarrow> kots d' = kots d"
  "sql_finalize_bill i h d = Inr (n, d') \<Longrightarrow> kots d' = kots d"
  "sql_bill_paid b d = Inr (u, d') \<Longrightarrow> kots d' = kots d"
  "new_items h kot d d' \<Longrightarrow> kots d' = kots d"
  "kots (sql_table_status i st d) = kots d" "kots (sql_bill_status i st d) = kots d" "kots (sql_bill_customer i c d) = kots d"
  "kots (sql_items_status i st d) = kots d" "kots (sql_void_item item reason user d) = kots d"
  by (auto simp: sql_insert_table_def sql_update_table_def sql_clean_table_def sql_insert_session_def sql_session_status_def
      sql_insert_bpayment_def sql_insert_bill_def sql_bill_totals_def sql_edit_bill_def sql_finalize_bill_def sql_bill_paid_def
      new_items_def sql_table_status_def sql_bill_status_def sql_bill_customer_def sql_items_status_def sql_void_item_def Let_def
      split: if_splits option.splits)

lemma pos_move_kitchen:
  assumes "pos_move H A h d d'" "distinct (map kt_id (kots d))"
  shows "kots d' = kots d \<or>
    (\<exists>k. kots d' = kots d @ [k] \<and> kt_id k \<notin> kt_id ` set (kots d) \<and> kt_status k = ''draft'') \<or>
    (\<exists>k \<in> set (kots d). \<exists>st. kt_hotel k = h \<and> canTransition kotTransitions (kt_status k) st \<and> kots d' = put_ticket (kt_id k) st (kots d))"
  using assms(1)
proof cases
  case (order i s k j d1 d2)
  then have "kots d' = kots d1" using kots_still(5,12) by (metis (no_types))
  moreover have "kots d1 = kots d @ [k]" using order(6) by (simp add: sql_insert_kot_def split: if_splits) auto
  moreover have "\<not> list_ex (\<lambda>x. kt_id x = kt_id k \<or> kt_hotel x = kt_hotel k \<and> kt_number x = kt_number k) (kots d)"
    using order(6) by (simp add: sql_insert_kot_def split: if_splits)
  then have "kt_id k \<notin> kt_id ` set (kots d)" unfolding list_ex_iff by (metis imageE)
  ultimately show ?thesis using order(5) by auto
next
  case (send i n)
  let ?p = "\<lambda>k. kt_id k = i \<and> kt_hotel k = h \<and> kt_status k = ''draft''"
  have d': "kots d' = upd_where ?p (\<lambda>k. k\<lparr>kt_status := ''sent''\<rparr>) (kots d)" using send by (auto simp: sql_send_kot_def Let_def)
  show ?thesis
  proof (cases "\<exists>k \<in> set (kots d). ?p k")
    case True
    then obtain k where k: "k \<in> set (kots d)" "?p k" by blast
    have "kots d' = put_ticket (kt_id k) ''sent'' (kots d)"
      unfolding d' put_ticket_def using k distinct_key [OF assms(2)] by (intro upd_where_cong) auto
    moreover have "canTransition kotTransitions (kt_status k) ''sent''" using k(2) by (simp add: canTransition_def kotTransitions_def)
    ultimately show ?thesis using k by blast
  qed (simp add: d' upd_where_none)
next
  case (kitchen i k st)
  have "k \<in> set (kots d)" "kt_id k = i" "kt_hotel k = h" using kitchen(1) by (auto simp: find_kot_def dest: find_SomeD)
  moreover have "kots d' = put_ticket i st (kots d)" using kitchen(3) by (simp add: kots_still sql_kot_status_def put_ticket_def)
  ultimately show ?thesis using kitchen(2) by blast
next
  case (pay ip req i b p d1 d2 d3)
  then have "kots d' = kots d3" using kots_still(5) by (metis (no_types))
  then show ?thesis using kots_still(11) [OF pay(10)] frame_simps(3) [OF pay(9)] kots_still(6) [OF pay(8)] by simp
next
  case (bill i s j number rate currency b' d1 d2)
  then show ?thesis using kots_still(5,7,13) by metis
next
  case (refund i b d1)
  have "kots d' = kots d1" using kots_still(5) [OF refund(4)] by (simp add: kots_still(14))
  then show ?thesis using refund(3) by simp
qed (auto simp: kots_still)

text \<open>Where a ticket of a later database started: at its status in the first one, or as a new draft.\<close>

definition ticket_from :: "db \<Rightarrow> KOT \<Rightarrow> string \<Rightarrow> bool" where
  "ticket_from d k st \<longleftrightarrow>
     (\<exists>k0 \<in> set (kots d). kt_id k0 = kt_id k \<and> kt_hotel k0 = kt_hotel k \<and> kt_session k0 = kt_session k \<and> kt_status k0 = st) \<or>
     kt_id k \<notin> kt_id ` set (kots d) \<and> st = ''draft''"

lemma ticket_from_status: "ticket_from d (k\<lparr>kt_status := st'\<rparr>) st = ticket_from d k st"
  by (simp add: ticket_from_def)

definition cooked :: "db \<Rightarrow> db \<Rightarrow> bool" where
  "cooked d d' \<longleftrightarrow> distinct (map kt_id (kots d')) \<and> kt_id ` set (kots d) \<subseteq> kt_id ` set (kots d') \<and>
     (\<forall>k \<in> set (kots d'). \<exists>st. ticket_from d k st \<and> (canTransition kotTransitions)\<^sup>*\<^sup>* st (kt_status k))"

lemma cooked_move:
  assumes c: "cooked d d1" and m: "pos_move H A h d1 d2"
  shows "cooked d d2"
proof -
  let ?from = "\<lambda>k. \<exists>st. ticket_from d k st \<and> (canTransition kotTransitions)\<^sup>*\<^sup>* st (kt_status k)"
  have dist: "distinct (map kt_id (kots d1))" and old: "\<And>k. k \<in> set (kots d1) \<Longrightarrow> ?from k"
    and sub: "kt_id ` set (kots d) \<subseteq> kt_id ` set (kots d1)" using c by (auto simp: cooked_def)
  consider "kots d2 = kots d1"
    | k where "kots d2 = kots d1 @ [k]" "kt_id k \<notin> kt_id ` set (kots d1)" "kt_status k = ''draft''"
    | k st where "k \<in> set (kots d1)" "canTransition kotTransitions (kt_status k) st" "kots d2 = put_ticket (kt_id k) st (kots d1)"
    using pos_move_kitchen [OF m dist] by blast
  then show ?thesis
  proof cases
    case 1
    then show ?thesis using c by (simp add: cooked_def)
  next
    case 2
    then have "ticket_from d k ''draft''" using sub by (auto simp: ticket_from_def)
    then have "?from k" using 2(3) by auto
    with 2 old dist sub show ?thesis unfolding cooked_def by auto
  next
    case 3
    have ids: "map kt_id (kots d2) = map kt_id (kots d1)" unfolding 3(3) put_ticket_def by (simp add: map_upd_where)
    have "?from x" if "x \<in> set (kots d2)" for x
    proof -
      from that obtain y where y: "y \<in> set (kots d1)" "x = (if kt_id y = kt_id k then y\<lparr>kt_status := st\<rparr> else y)"
        unfolding 3(3) put_ticket_def set_upd_where by blast
      show ?thesis
      proof (cases "kt_id y = kt_id k")
        case True
        then have "y = k" using distinct_key [OF dist] y(1) 3(1) by blast
        moreover obtain s0 where "ticket_from d k s0" "(canTransition kotTransitions)\<^sup>*\<^sup>* s0 (kt_status k)" using old [OF 3(1)] by blast
        moreover from this(2) have "(canTransition kotTransitions)\<^sup>*\<^sup>* s0 st" using 3(2) by simp
        ultimately show ?thesis using y(2) ticket_from_status by (intro exI [of _ s0]) simp
      qed (use y old in simp)
    qed
    then show ?thesis using dist sub ids unfolding cooked_def by (simp flip: set_map)
  qed
qed

text \<open>C12: The kitchen's state machine. Over any history of requests, no ticket disappears, and the status of
  every ticket is reached from where it started (its status in the first database, or \<^verbatim>\<open>draft\<close> for
  a new ticket of the same session) by transitions of the table \<^verbatim>\<open>kotTransitions\<close>; a ticket that
  was served or cancelled keeps that status.\<close>

theorem tickets_follow_transitions:
  assumes "pos_history H A T d d'" "distinct (map kt_id (kots d))"
  shows "kt_id ` set (kots d) \<subseteq> kt_id ` set (kots d') \<and>
    (\<forall>k \<in> set (kots d'). \<exists>st. ticket_from d k st \<and> (canTransition kotTransitions)\<^sup>*\<^sup>* st (kt_status k)) \<and>
    (\<forall>k \<in> set (kots d). \<forall>k' \<in> set (kots d'). kt_id k' = kt_id k \<and> kt_status k \<in> {''served'', ''cancelled''} \<longrightarrow> kt_status k' = kt_status k)"
proof -
  have "cooked d d" using assms(2) by (auto simp: cooked_def ticket_from_def)
  then have c: "cooked d d'" by (rule pos_history_moves [OF assms(1)]) (rule cooked_move)
  moreover have "kt_status k' = kt_status k"
    if k: "k \<in> set (kots d)" "k' \<in> set (kots d')" "kt_id k' = kt_id k" "kt_status k \<in> {''served'', ''cancelled''}" for k k'
  proof -
    obtain st where st: "ticket_from d k' st" "(canTransition kotTransitions)\<^sup>*\<^sup>* st (kt_status k')"
      using c k(2) by (auto simp: cooked_def)
    have "st = kt_status k" using st(1) k distinct_key [OF assms(2)] by (auto simp: ticket_from_def)
    moreover have "\<not> canTransition kotTransitions (kt_status k) x" for x
      using k(4) by (auto simp: canTransition_def kotTransitions_def)
    ultimately show ?thesis using st(2) by (metis converse_rtranclpE)
  qed
  ultimately show ?thesis unfolding cooked_def by blast
qed

theorem tickets_follow_transitions_witness:
  "pos_history pos_handler (\<lambda>_. True) {7} evening_db (after_evening [Pos_KOTStatus ''62'' (Some ''preparing''), Pos_KOTStatus ''62'' (Some ''ready'')]) \<and>
   map kt_status (kots (after_evening [Pos_KOTStatus ''62'' (Some ''preparing''), Pos_KOTStatus ''62'' (Some ''ready'')])) = [''ready''] \<and>
   62 \<in> kt_id ` set (kots (after_evening [Pos_KOTStatus ''62'' (Some ''preparing''), Pos_KOTStatus ''62'' (Some ''ready'')]))"
proof -
  let ?rs = "[Pos_KOTStatus ''62'' (Some ''preparing''), Pos_KOTStatus ''62'' (Some ''ready'')]"
  have d: "distinct (map kt_id (kots evening_db))" by code_simp
  have "62 \<in> kt_id ` set (kots evening_db)" by (simp add: evening_db_def evening_ticket_def)
  then have "62 \<in> kt_id ` set (kots (after_evening ?rs))"
    using tickets_follow_transitions [OF after_evening_history d, of ?rs] by blast
  moreover have "map kt_status (kots (after_evening ?rs)) = [''ready'']" by code_simp
  ultimately show ?thesis using after_evening_history by blast
qed

text \<open>How far a ticket is from the end of its life.\<close>

definition kot_rank :: "string \<Rightarrow> nat" where
  "kot_rank st = (if st = ''draft'' then 5 else if st = ''sent'' then 4 else if st = ''acknowledged'' then 3
     else if st = ''preparing'' then 2 else if st = ''ready'' then 1 else 0)"

lemma kot_rank_decreases: "canTransition kotTransitions a b \<Longrightarrow> kot_rank b < kot_rank a"
  by (auto simp: canTransition_def kotTransitions_def kot_rank_def split: if_splits)

lemma kot_rank_relpow: "(canTransition kotTransitions ^^ n) a b \<Longrightarrow> n + kot_rank b \<le> kot_rank a"
  by (induction n arbitrary: b) (fastforce dest: kot_rank_decreases)+


end
