(* ===== verification/Tenants.thy ===== *)
theory Tenants
  imports Service
begin

text \<open>
  Isolation of the restaurants of different tenants. Many statements of \<^verbatim>\<open>pos_dinein_handler.go\<close>
  name a row by its identifier alone, after a read that checked the tenant of another row. That is
  safe because identifiers are unique and a row has the tenant of the row it refers to (\<open>owned\<close>), which
  every request keeps.
\<close>

subsection \<open>Owners\<close>

definition keys where
  "keys d = (map (\<lambda>t. (tb_id t, tb_hotel t)) (tables d), map (\<lambda>s. (ds_id s, ds_hotel s, ds_table s)) (sessions d),
     map (\<lambda>k. (kt_id k, kt_hotel k, kt_session k)) (kots d), map (\<lambda>x. (ki_id x, ki_hotel x, ki_kot x)) (kitems d),
     map (\<lambda>b. (bl_id b, bl_hotel b, bl_session b)) (bills d), map (\<lambda>s. (sp_hotel s, sp_bill s)) (splits d))"

definition refers :: "(uuid \<times> uuid \<times> uuid) list \<Rightarrow> (uuid \<times> uuid) set \<Rightarrow> bool" where
  "refers rows owners \<longleftrightarrow> distinct (map fst rows) \<and> (\<forall>(i, h, parent) \<in> set rows. (parent, h) \<in> owners)"

definition ids :: "(uuid \<times> uuid \<times> uuid) list \<Rightarrow> (uuid \<times> uuid) set" where
  "ids rows = set (map (\<lambda>(i, h, parent). (i, h)) rows)"

definition owned :: "db \<Rightarrow> bool" where
  "owned d \<longleftrightarrow> (case keys d of (T, S, K, I, B, P) \<Rightarrow>
     distinct (map fst T) \<and> refers S (set T) \<and> refers K (ids S) \<and> refers I (ids K) \<and> refers B (ids S) \<and>
     (\<forall>(h, b) \<in> set P. (b, h) \<in> ids B))"

lemma refers_snoc: "refers rows owners \<Longrightarrow> i \<notin> fst ` set rows \<Longrightarrow> (p, h) \<in> owners \<Longrightarrow> refers (rows @ [(i, h, p)]) owners"
  by (auto simp: refers_def)

lemma refers_mono: "refers rows owners \<Longrightarrow> owners \<subseteq> owners' \<Longrightarrow> refers rows owners'"
  by (auto simp: refers_def)

lemma ids_snoc [simp]: "ids (rows @ [(i, h, p)]) = insert (i, h) (ids rows)"
  by (auto simp: ids_def)

lemma owned_keys: "keys d' = keys d \<Longrightarrow> owned d' = owned d"
  by (simp add: owned_def)

lemma ids_one_hotel:
  assumes "distinct (map fst rows)" "(i, h) \<in> ids rows" "(i, h') \<in> ids rows"
  shows "h = h'"
  using assms distinct_key [of fst rows] by (fastforce simp: ids_def)

text \<open>The one row with an identifier, and what it refers to, belong to the tenant that was checked.\<close>

lemma owned_table: "owned d \<Longrightarrow> t \<in> set (tables d) \<Longrightarrow> t' \<in> set (tables d) \<Longrightarrow> tb_id t' = tb_id t \<Longrightarrow> tb_hotel t' = tb_hotel t"
  by (auto simp: owned_def keys_def comp_def dest: distinct_key)

lemma owned_rows:
  assumes "owned d"
  shows "distinct (map ds_id (sessions d))" "distinct (map kt_id (kots d))" "distinct (map ki_id (kitems d))" "distinct (map bl_id (bills d))"
  using assms by (simp_all add: owned_def keys_def refers_def comp_def)

lemma owned_session_table:
  assumes "owned d" "s \<in> set (sessions d)" "t \<in> set (tables d)" "tb_id t = ds_table s"
  shows "tb_hotel t = ds_hotel s"
proof -
  have "(ds_table s, ds_hotel s) \<in> (\<lambda>t. (tb_id t, tb_hotel t)) ` set (tables d)"
    using assms(1,2) by (auto simp: owned_def keys_def refers_def)
  then obtain t' where "t' \<in> set (tables d)" "tb_id t' = ds_table s" "tb_hotel t' = ds_hotel s" by auto
  then show ?thesis using owned_table [OF assms(1), of t' t] assms(3,4) by simp
qed

lemma owned_bill_session:
  assumes "owned d" "b \<in> set (bills d)" "s \<in> set (sessions d)" "ds_id s = bl_session b"
  shows "ds_hotel s = bl_hotel b"
proof -
  have "(bl_session b, bl_hotel b) \<in> ids (map (\<lambda>s. (ds_id s, ds_hotel s, ds_table s)) (sessions d))"
    using assms(1,2) by (auto simp: owned_def keys_def refers_def)
  then obtain s' where "s' \<in> set (sessions d)" "ds_id s' = bl_session b" "ds_hotel s' = bl_hotel b" by (auto simp: ids_def)
  then show ?thesis using distinct_key [OF owned_rows(1) [OF assms(1)], of s' s] assms(3,4) by simp
qed

lemma owned_item_kot:
  assumes "owned d" "x \<in> set (kitems d)" "k \<in> set (kots d)" "kt_id k = ki_kot x"
  shows "kt_hotel k = ki_hotel x"
proof -
  have "(ki_kot x, ki_hotel x) \<in> ids (map (\<lambda>k. (kt_id k, kt_hotel k, kt_session k)) (kots d))"
    using assms(1,2) by (auto simp: owned_def keys_def refers_def)
  then obtain k' where "k' \<in> set (kots d)" "kt_id k' = ki_kot x" "kt_hotel k' = ki_hotel x" by (auto simp: ids_def)
  then show ?thesis using distinct_key [OF owned_rows(2) [OF assms(1)], of k' k] assms(3,4) by simp
qed

lemma owned_kot_session:
  assumes "owned d" "k \<in> set (kots d)" "s \<in> set (sessions d)" "ds_id s = kt_session k"
  shows "ds_hotel s = kt_hotel k"
proof -
  have "(kt_session k, kt_hotel k) \<in> ids (map (\<lambda>s. (ds_id s, ds_hotel s, ds_table s)) (sessions d))"
    using assms(1,2) by (auto simp: owned_def keys_def refers_def)
  then obtain s' where "s' \<in> set (sessions d)" "ds_id s' = kt_session k" "ds_hotel s' = kt_hotel k" by (auto simp: ids_def)
  then show ?thesis using distinct_key [OF owned_rows(1) [OF assms(1)], of s' s] assms(3,4) by simp
qed

lemma owned_split_bill:
  assumes "owned d" "s \<in> set (splits d)" "b \<in> set (bills d)" "bl_id b = sp_bill s"
  shows "sp_hotel s = bl_hotel b"
proof -
  have "(sp_bill s, sp_hotel s) \<in> ids (map (\<lambda>b. (bl_id b, bl_hotel b, bl_session b)) (bills d))"
    using assms(1,2) by (auto simp: owned_def keys_def)
  then obtain b' where "b' \<in> set (bills d)" "bl_id b' = sp_bill s" "bl_hotel b' = sp_hotel s" by (auto simp: ids_def)
  then show ?thesis using distinct_key [OF owned_rows(4) [OF assms(1)], of b' b] assms(3,4) by simp
qed

subsection \<open>Statements and owners\<close>

text \<open>\<open>inside h d d'\<close>: a write of tenant \<open>h\<close> that keeps every key and every row of other tenants.\<close>

definition inside :: "uuid \<Rightarrow> db \<Rightarrow> db \<Rightarrow> bool" where
  "inside h d d' \<longleftrightarrow> others h d' = others h d \<and> keys d' = keys d \<and> guests d' = guests d \<and> customers d' = customers d"

lemma inside_refl [simp]: "inside h d d"
  by (simp add: inside_def)

lemma inside_trans [trans]: "inside h d d1 \<Longrightarrow> inside h d1 d2 \<Longrightarrow> inside h d d2"
  by (simp add: inside_def)

lemma filter_upd_where_owned:
  assumes "\<And>x. x \<in> set xs \<Longrightarrow> p x \<Longrightarrow> key x = h" "\<And>x. p x \<Longrightarrow> key (f x) = key x"
  shows "filter (\<lambda>x. key x \<noteq> h) (upd_where p f xs) = filter (\<lambda>x. key x \<noteq> h) xs"
  using assms by (induction xs) (auto simp: upd_where_def)

lemma inside_tables:
  assumes "\<And>t. t \<in> set (tables d) \<Longrightarrow> p t \<Longrightarrow> tb_hotel t = h"
    "\<And>t. t \<in> set (tables d) \<Longrightarrow> p t \<Longrightarrow> tb_id (f t) = tb_id t \<and> tb_hotel (f t) = tb_hotel t"
  shows "inside h d (d\<lparr>tables := upd_where p f (tables d)\<rparr>)"
proof -
  let ?g = "\<lambda>t. if t \<in> set (tables d) then f t else t"
  have e: "upd_where p f (tables d) = upd_where p ?g (tables d)" by (rule upd_where_cong) auto
  have "others h (d\<lparr>tables := upd_where p ?g (tables d)\<rparr>) = others h d"
    by (intro others_upd filter_upd_where_owned) (use assms in auto)
  then show ?thesis unfolding inside_def keys_def e by (simp add: map_upd_where assms(2))
qed

lemma inside_sessions:
  assumes "\<And>s. s \<in> set (sessions d) \<Longrightarrow> p s \<Longrightarrow> ds_hotel s = h"
    "\<And>s. (ds_id (f s), ds_hotel (f s), ds_table (f s)) = (ds_id s, ds_hotel s, ds_table s)"
  shows "inside h d (d\<lparr>sessions := upd_where p f (sessions d)\<rparr>)"
  using assms unfolding inside_def keys_def by (auto intro!: others_upd filter_upd_where_owned simp: map_upd_where)

lemma inside_kots:
  assumes "\<And>k. k \<in> set (kots d) \<Longrightarrow> p k \<Longrightarrow> kt_hotel k = h"
    "\<And>k. (kt_id (f k), kt_hotel (f k), kt_session (f k)) = (kt_id k, kt_hotel k, kt_session k)"
  shows "inside h d (d\<lparr>kots := upd_where p f (kots d)\<rparr>)"
  using assms unfolding inside_def keys_def by (auto intro!: others_upd filter_upd_where_owned simp: map_upd_where)

lemma inside_kitems:
  assumes "\<And>x. x \<in> set (kitems d) \<Longrightarrow> p x \<Longrightarrow> ki_hotel x = h"
    "\<And>x. (ki_id (f x), ki_hotel (f x), ki_kot (f x)) = (ki_id x, ki_hotel x, ki_kot x)"
  shows "inside h d (d\<lparr>kitems := upd_where p f (kitems d)\<rparr>)"
  using assms unfolding inside_def keys_def by (auto intro!: others_upd filter_upd_where_owned simp: map_upd_where)

lemma inside_bills:
  assumes "\<And>b. b \<in> set (bills d) \<Longrightarrow> p b \<Longrightarrow> bl_hotel b = h"
    "\<And>b. (bl_id (f b), bl_hotel (f b), bl_session (f b)) = (bl_id b, bl_hotel b, bl_session b)"
  shows "inside h d (d\<lparr>bills := upd_where p f (bills d)\<rparr>)"
  using assms unfolding inside_def keys_def by (auto intro!: others_upd filter_upd_where_owned simp: map_upd_where)

lemma inside_table_status:
  "(\<And>t. t \<in> set (tables d) \<Longrightarrow> tb_id t = i \<Longrightarrow> tb_hotel t = h) \<Longrightarrow> inside h d (sql_table_status i st d)"
  unfolding sql_table_status_def by (rule inside_tables) auto

lemma inside_session_status:
  "sql_session_status i st d = Inr (u, d') \<Longrightarrow> (\<And>s. s \<in> set (sessions d) \<Longrightarrow> ds_id s = i \<Longrightarrow> ds_hotel s = h) \<Longrightarrow> inside h d d'"
  by (auto simp: sql_session_status_def intro!: inside_sessions split: if_splits)

lemma inside_kitchen:
  assumes "\<And>k. k \<in> set (kots d) \<Longrightarrow> kt_id k = i \<Longrightarrow> kt_hotel k = h" "\<And>x. x \<in> set (kitems d) \<Longrightarrow> ki_kot x = i \<Longrightarrow> ki_hotel x = h"
  shows "inside h d (sql_kot_status i st d)" "inside h d (sql_items_status i st (sql_kot_status i st d))"
proof -
  show 1: "inside h d (sql_kot_status i st d)" unfolding sql_kot_status_def by (rule inside_kots) (auto simp: assms)
  also have "inside h (sql_kot_status i st d) (sql_items_status i st (sql_kot_status i st d))"
    unfolding sql_items_status_def by (rule inside_kitems) (auto simp: sql_kot_status_def assms)
  finally show "inside h d (sql_items_status i st (sql_kot_status i st d))" .
qed

lemma inside_void: "(\<And>x. x \<in> set (kitems d) \<Longrightarrow> ki_id x = i \<Longrightarrow> ki_hotel x = h) \<Longrightarrow> inside h d (sql_void_item i reason user d)"
  unfolding sql_void_item_def by (rule inside_kitems) auto

lemma inside_bill_writes:
  assumes "\<And>b. b \<in> set (bills d) \<Longrightarrow> bl_id b = i \<Longrightarrow> bl_hotel b = h"
  shows "bl_id b = i \<Longrightarrow> sql_bill_totals b d = Inr (u, d') \<Longrightarrow> inside h d d'"
    "sql_edit_bill i b d = Inr (r, d') \<Longrightarrow> inside h d d'"
    "bl_id b = i \<Longrightarrow> sql_bill_paid b d = Inr (u, d') \<Longrightarrow> inside h d d'"
    "inside h d (sql_bill_status i st d)" "inside h d (sql_bill_customer i c d)"
  unfolding sql_bill_status_def sql_bill_customer_def using assms
  by (auto simp: sql_bill_totals_def sql_edit_bill_def sql_bill_paid_def Let_def intro!: inside_bills split: if_splits)

lemma inside_scoped:
  "sql_clean_table i h d = Inr (n, d') \<Longrightarrow> inside h d d'"
  "sql_send_kot i h d = Inr (n, d') \<Longrightarrow> inside h d d'"
  "sql_finalize_bill i h d = Inr (n, d') \<Longrightarrow> inside h d d'"
  by (auto simp: sql_clean_table_def sql_send_kot_def sql_finalize_bill_def Let_def
      intro!: inside_tables inside_kots inside_bills)

lemma inside_bpayment: "sql_insert_bpayment p d = Inr (u, d') \<Longrightarrow> bp_hotel p = h \<Longrightarrow> inside h d d'"
  unfolding inside_def keys_def by (auto simp: sql_insert_bpayment_def intro!: others_upd split: if_splits)

text \<open>The columns \<^verbatim>\<open>UpdateTable\<close> may set do not include the identifier and the tenant.\<close>

definition sets_columns :: "POSHandler \<Rightarrow> bool" where
  "sets_columns H \<longleftrightarrow> (\<forall>k \<in> set table_columns. \<forall>v t t'. ph_set H k v t = Some t' \<longrightarrow> tb_id t' = tb_id t \<and> tb_hotel t' = tb_hotel t)"

lemma set_columns_keys:
  "sets_columns H \<Longrightarrow> list_all (\<lambda>kv. fst kv \<in> set table_columns) kvs \<Longrightarrow> set_columns H kvs t = Some t' \<Longrightarrow>
   tb_id t' = tb_id t \<and> tb_hotel t' = tb_hotel t"
proof (induction H kvs t rule: set_columns.induct)
  case (2 H k v kvs t)
  then show ?case unfolding sets_columns_def by (fastforce split: option.splits)
qed simp

lemma inside_update_table:
  assumes "sets_columns H" "list_all (\<lambda>kv. fst kv \<in> set table_columns) kvs" "owned d" "sql_update_table H i h kvs d = Inr (r, d')"
  shows "inside h d d'"
proof (cases "find (\<lambda>t. tb_id t = i \<and> tb_hotel t = h) (tables d)")
  case None
  then show ?thesis using assms(4) by (simp add: sql_update_table_def)
next
  case (Some t)
  then have t: "tb_id t = i" "tb_hotel t = h" by (auto dest: find_SomeD)
  obtain t' where t': "set_columns H kvs t = Some t'"
    and d': "d' = d\<lparr>tables := upd_where (\<lambda>x. tb_id x = i \<and> tb_hotel x = h) (\<lambda>_. t') (tables d)\<rparr>"
    using assms(4) Some by (auto simp: sql_update_table_def split: option.splits if_splits)
  show ?thesis unfolding d' by (rule inside_tables) (use set_columns_keys [OF assms(1,2) t'] t in auto)
qed
subsection \<open>Moves stay with their tenant\<close>

definition secluded :: "uuid \<Rightarrow> db \<Rightarrow> db \<Rightarrow> bool" where
  "secluded h X d \<longleftrightarrow> owned d \<and> tenant_frame h X d"

lemma secluded_inside: "secluded h X d \<Longrightarrow> inside h d d' \<Longrightarrow> secluded h X d'"
  unfolding secluded_def inside_def using owned_keys [of d' d] tenant_frame_upd [of h d' d X] by simp

lemma secluded_frame: "secluded h X d \<Longrightarrow> frame h d d' \<Longrightarrow> secluded h X d'"
  unfolding secluded_def frame_def restaurant_def using owned_keys [of d' d] by (auto simp: keys_def)

lemma found_session:
  assumes "find_session i h d = Some s"
  shows "s \<in> set (sessions d)" "ds_id s = i" "ds_hotel s = h"
    "owned d \<Longrightarrow> x \<in> set (sessions d) \<Longrightarrow> ds_id x = i \<Longrightarrow> ds_hotel x = h"
proof -
  show s: "s \<in> set (sessions d)" "ds_id s = i" "ds_hotel s = h" using assms by (auto simp: find_session_def dest: find_SomeD)
  show "ds_hotel x = h" if "owned d" "x \<in> set (sessions d)" "ds_id x = i"
    using distinct_key [OF owned_rows(1) [OF that(1)], of x s] s that by simp
qed

lemma found_bill:
  assumes "find_bill i h d = Some b"
  shows "b \<in> set (bills d)" "bl_id b = i" "bl_hotel b = h"
    "owned d \<Longrightarrow> x \<in> set (bills d) \<Longrightarrow> bl_id x = i \<Longrightarrow> bl_hotel x = h"
proof -
  show b: "b \<in> set (bills d)" "bl_id b = i" "bl_hotel b = h" using assms by (auto simp: find_bill_def dest: find_SomeD)
  show "bl_hotel x = h" if "owned d" "x \<in> set (bills d)" "bl_id x = i"
    using distinct_key [OF owned_rows(4) [OF that(1)], of x b] b that by simp
qed

lemma found_item:
  assumes "find_item item kot h d = Some (session, st)" "owned d"
  shows "x \<in> set (kitems d) \<Longrightarrow> ki_id x = item \<Longrightarrow> ki_hotel x = h"
    "b \<in> set (bills d) \<Longrightarrow> bl_session b = session \<Longrightarrow> bl_hotel b = h"
proof -
  obtain y k where y: "find (\<lambda>x. ki_id x = item \<and> ki_kot x = kot \<and> ki_hotel x = h) (kitems d) = Some y"
    and k: "find (\<lambda>k. kt_id k = ki_kot y) (kots d) = Some k" "kt_session k = session"
    using assms(1) by (auto simp: find_item_def split: option.splits)
  have yd: "y \<in> set (kitems d)" "ki_id y = item" "ki_hotel y = h" using y by (auto dest: find_SomeD)
  have kd: "k \<in> set (kots d)" "kt_id k = ki_kot y" using k(1) by (auto dest: find_SomeD)
  show "ki_hotel x = h" if "x \<in> set (kitems d)" "ki_id x = item"
    using distinct_key [OF owned_rows(3) [OF assms(2)], of x y] yd that by simp
  have kh: "kt_hotel k = h" using owned_item_kot [OF assms(2) yd(1) kd] yd(3) by simp
  show "bl_hotel b = h" if b: "b \<in> set (bills d)" "bl_session b = session"
  proof -
    have "(kt_session k, kt_hotel k) \<in> ids (map (\<lambda>s. (ds_id s, ds_hotel s, ds_table s)) (sessions d))"
      using assms(2) kd(1) by (auto simp: owned_def keys_def refers_def)
    then obtain s where s: "s \<in> set (sessions d)" "ds_id s = session" "ds_hotel s = h" using kh k(2) by (auto simp: ids_def)
    then show ?thesis using owned_bill_session [OF assms(2) b(1) s(1)] b(2) by simp
  qed
qed

text \<open>The moves that add rows.\<close>

lemma secluded_new_table:
  assumes "secluded h X d" "tb_hotel t = h" "sql_insert_table t d = Inr (t', d')"
  shows "secluded h X d'"
proof -
  have d': "d' = d\<lparr>tables := tables d @ [t]\<rparr>" and "\<forall>x \<in> set (tables d). tb_id x \<noteq> tb_id t"
    using assms(3) by (auto simp: sql_insert_table_def list_ex_iff split: if_splits)
  then have new: "tb_id t \<notin> tb_id ` set (tables d)" by (metis imageE)
  have "owned d'" using assms(1) new unfolding secluded_def owned_def keys_def d' by (auto elim!: refers_mono simp: image_image)
  moreover have "others h d' = others h d" unfolding d' by (intro others_upd) (simp add: assms(2))
  ultimately show ?thesis using assms(1) tenant_frame_upd [of h d' d X] unfolding secluded_def d' by simp
qed

lemma secluded_insert_session:
  assumes "secluded h X d" "ds_hotel s = h" "sql_insert_session s d = Inr (j, d')" "find_table i h d = Some t" "ds_table s = tb_id t"
  shows "secluded h X d'"
proof -
  have d': "d' = d\<lparr>sessions := sessions d @ [s]\<rparr>" and "\<forall>x \<in> set (sessions d). ds_id x \<noteq> ds_id s"
    using assms(3) by (auto simp: sql_insert_session_def list_ex_iff split: if_splits)
  then have new: "ds_id s \<notin> ds_id ` set (sessions d)" by (metis imageE)
  have "t \<in> set (tables d)" "tb_hotel t = h" using assms(4) by (auto simp: find_table_def dest: find_SomeD)
  then have "(ds_table s, ds_hotel s) \<in> (\<lambda>t. (tb_id t, tb_hotel t)) ` set (tables d)" using assms(2,5) by force
  then have "owned d'" using assms(1) new unfolding secluded_def owned_def keys_def d'
    by (auto intro!: refers_snoc elim!: refers_mono simp: image_image)
  moreover have "others h d' = others h d" unfolding d' by (intro others_upd) (simp add: assms(2))
  ultimately show ?thesis using assms(1) tenant_frame_upd [of h d' d X] unfolding secluded_def d' by simp
qed

lemma secluded_insert_kot:
  assumes "secluded h X d" "kt_hotel k = h" "find_session (kt_session k) h d = Some s" "sql_insert_kot k d = Inr (j, d')"
  shows "secluded h X d'" "(kt_id k, h) \<in> ids (map (\<lambda>k. (kt_id k, kt_hotel k, kt_session k)) (kots d'))"
proof -
  have d': "d' = d\<lparr>kots := kots d @ [k]\<rparr>" and "\<forall>x \<in> set (kots d). kt_id x \<noteq> kt_id k"
    using assms(4) by (auto simp: sql_insert_kot_def list_ex_iff split: if_splits)
  then have new: "kt_id k \<notin> kt_id ` set (kots d)" by (metis imageE)
  have "(kt_session k, kt_hotel k) \<in> ids (map (\<lambda>s. (ds_id s, ds_hotel s, ds_table s)) (sessions d))"
    using found_session(1-3) [OF assms(3)] assms(2) by (force simp: ids_def)
  then have "owned d'" using assms(1) new unfolding secluded_def owned_def keys_def d'
    by (auto intro!: refers_snoc elim!: refers_mono simp: image_image)
  moreover have "others h d' = others h d" unfolding d' by (intro others_upd) (simp add: assms(2))
  ultimately show "secluded h X d'" using assms(1) tenant_frame_upd [of h d' d X] unfolding secluded_def d' by simp
  show "(kt_id k, h) \<in> ids (map (\<lambda>k. (kt_id k, kt_hotel k, kt_session k)) (kots d'))" unfolding d' using assms(2) by simp
qed

lemma secluded_new_items:
  assumes "secluded h X d" "new_items h kot d d'" "(kot, h) \<in> ids (map (\<lambda>k. (kt_id k, kt_hotel k, kt_session k)) (kots d))"
  shows "secluded h X d'"
proof -
  obtain xs where d': "d' = d\<lparr>kitems := kitems d @ xs\<rparr>" and xs: "\<forall>x \<in> set xs. ki_hotel x = h \<and> ki_kot x = kot"
    and dist: "distinct (map ki_id (kitems d)) \<longrightarrow> distinct (map ki_id (kitems d'))"
    using assms(2) by (auto simp: new_items_def list_all_iff)
  have "owned d" using assms(1) by (simp add: secluded_def)
  then have I: "distinct (map ki_id (kitems d'))" using dist owned_rows(3) by blast
  then have "owned d'" using \<open>owned d\<close> xs assms(3) unfolding owned_def keys_def d' by (auto simp: refers_def comp_def)
  moreover have "others h d' = others h d" unfolding d' by (intro others_upd) (simp add: xs filter_empty_conv)
  ultimately show ?thesis using assms(1) tenant_frame_upd [of h d' d X] unfolding secluded_def d' by simp
qed

lemma secluded_insert_bill:
  assumes "secluded h X d" "bl_hotel b = h" "find_session (bl_session b) h d = Some s" "sql_insert_bill b d = Inr (b', d')"
  shows "secluded h X d'"
proof -
  have d': "d' = d\<lparr>bills := bills d @ [b']\<rparr>" and c: "bl_id b' = bl_id b" "bl_hotel b' = h" "bl_session b' = bl_session b"
    and "\<forall>x \<in> set (bills d). bl_id x \<noteq> bl_id b"
    using assms(2,4) by (auto simp: sql_insert_bill_def list_ex_iff Let_def split: if_splits)
  then have new: "bl_id b \<notin> bl_id ` set (bills d)" by (metis imageE)
  have "(bl_session b, h) \<in> ids (map (\<lambda>s. (ds_id s, ds_hotel s, ds_table s)) (sessions d))"
    using found_session(1-3) [OF assms(3)] by (force simp: ids_def)
  then have "owned d'" using assms(1) new c unfolding secluded_def owned_def keys_def d'
    by (auto intro!: refers_snoc simp: image_image)
  moreover have "others h d' = others h d" unfolding d' by (intro others_upd) (simp add: c)
  ultimately show ?thesis using assms(1) tenant_frame_upd [of h d' d X] unfolding secluded_def d' by simp
qed

lemma secluded_splits:
  assumes "secluded h X d" "find_bill i h d = Some b" "list_all (\<lambda>s. sp_hotel s = h \<and> sp_bill s = i) new"
  shows "secluded h X (d\<lparr>splits := filter (\<lambda>s. sp_bill s \<noteq> i) (splits d) @ new\<rparr>)"
proof -
  let ?d = "d\<lparr>splits := filter (\<lambda>s. sp_bill s \<noteq> i) (splits d) @ new\<rparr>"
  have o: "owned d" using assms(1) by (simp add: secluded_def)
  have "(i, h) \<in> ids (map (\<lambda>b. (bl_id b, bl_hotel b, bl_session b)) (bills d))"
    using found_bill(1-3) [OF assms(2)] by (force simp: ids_def)
  then have "owned ?d" using o assms(3) unfolding owned_def keys_def by (auto simp: list_all_iff)
  moreover have "sp_hotel s = h" if "s \<in> set (splits d)" "sp_bill s = i" for s
    using owned_split_bill [OF o that(1) found_bill(1) [OF assms(2)]] found_bill(2,3) [OF assms(2)] that(2) by simp
  then have "filter (\<lambda>s. sp_hotel s \<noteq> h) (filter (\<lambda>s. sp_bill s \<noteq> i) (splits d)) = filter (\<lambda>s. sp_hotel s \<noteq> h) (splits d)"
    unfolding filter_filter by (intro filter_cong) auto
  then have "others h ?d = others h d" using assms(3) by (intro others_upd) (simp add: filter_empty_conv list_all_iff)
  ultimately show ?thesis using assms(1) tenant_frame_upd [of h ?d d X] unfolding secluded_def by simp
qed
lemma inside_bill_of_session:
  assumes "owned d" "find_item item kot h d = Some (session, st)" "bill_of_session session d = Some b" "bl_id b' = bl_id b"
    "sql_bill_totals b' (sql_void_item item reason user d) = Inr (u, d')"
  shows "inside h d d'"
proof -
  have b: "b \<in> set (bills d)" "bl_session b = session" using assms(3) by (auto simp: bill_of_session_def dest: find_SomeD)
  have "inside h d (sql_void_item item reason user d)" by (rule inside_void) (rule found_item(1) [OF assms(2,1)])
  also have "inside h (sql_void_item item reason user d) d'"
  proof (rule inside_bill_writes(1) [OF _ assms(4,5)])
    fix x assume "x \<in> set (bills (sql_void_item item reason user d))" "bl_id x = bl_id b"
    then have "x = b" using distinct_key [OF owned_rows(4) [OF assms(1)], of x b] b(1) by (simp add: sql_void_item_def)
    then show "bl_hotel x = h" using found_item(2) [OF assms(2,1) b] by simp
  qed
  finally show ?thesis .
qed

lemma inside_pay:
  assumes "owned d" "find_bill i h d = Some b" "bp_hotel p = h" "sql_insert_bpayment p d = Inr ((), d1)" "frame h d1 d2" "secluded h X d"
    "sql_bill_paid (paid_bill b a) d2 = Inr ((), d3)"
    "if paid then sql_session_status (bl_session b) ''settled'' d3 = Inr ((), d') else d' = d3"
  shows "secluded h X d'"
proof -
  have 2: "secluded h X d2"
    by (rule secluded_frame [OF secluded_inside [OF assms(6) inside_bpayment [OF assms(4,3)]] assms(5)])
  have same: "bills d2 = bills d" "sessions d2 = sessions d"
    using assms(4,5) by (auto simp: sql_insert_bpayment_def split: if_splits)
  have 3: "inside h d2 d3"
  proof (rule inside_bill_writes(3) [OF _ _ assms(7)])
    show "bl_id (paid_bill b a) = i" using found_bill(2) [OF assms(2)] by simp
    show "bl_hotel x = h" if "x \<in> set (bills d2)" "bl_id x = i" for x using found_bill(4) [OF assms(2,1)] that same by simp
  qed
  have "sessions d3 = sessions d2" using assms(7) by (auto simp: sql_bill_paid_def split: if_splits)
  then have "inside h d3 d'" if paid
    using assms(8) that owned_bill_session [OF assms(1) found_bill(1) [OF assms(2)]] found_bill(3) [OF assms(2)] same
    by (intro inside_session_status [of "bl_session b" "''settled''" _ "()"]) auto
  then show ?thesis using secluded_inside [OF secluded_inside [OF 2 3]] secluded_inside [OF 2 3] assms(8) by (cases paid) auto
qed

lemma pos_move_secluded:
  assumes "sets_columns H" "pos_move H A h d d'" "secluded h X d"
  shows "secluded h X d'"
proof -
  have o: "owned d" using assms(3) by (simp add: secluded_def)
  note here = secluded_inside [OF assms(3)]
  from assms(2) show ?thesis
  proof cases
    case (books) then show ?thesis by (rule secluded_frame [OF assms(3)])
  next
    case (new_table t t') then show ?thesis by (rule secluded_new_table [OF assms(3)])
  next
    case (set_table kvs i t') then show ?thesis by (intro here inside_update_table [OF assms(1) _ o])
  next
    case (clean_table i n) then show ?thesis by (intro here inside_scoped)
  next
    case (seat i t s j d1)
    have t: "t \<in> set (tables d)" "tb_hotel t = h" using seat(2) by (auto simp: find_table_def dest: find_SomeD)
    have "tables d1 = tables d" using seat(6) by (auto simp: sql_insert_session_def split: if_splits)
    then have "inside h d1 d'" unfolding seat(1) using owned_table [OF o t(1)] t(2) by (intro inside_table_status) auto
    then show ?thesis by (rule secluded_inside [OF secluded_insert_session [OF assms(3) seat(3,6,2,4)]])
  next
    case (close i s d1)
    have "inside h d d1" by (rule inside_session_status [OF close(4)]) (rule found_session(4) [OF close(2) o])
    also have "tables d1 = tables d" using close(4) by (auto simp: sql_session_status_def split: if_splits)
    then have "inside h d1 d'" unfolding close(1)
      using owned_session_table [OF o found_session(1) [OF close(2)]] found_session(3) [OF close(2)] by (intro inside_table_status) auto
    finally show ?thesis by (rule here)
  next
    case (order i s k j d1 d2)
    have k: "find_session (kt_session k) h d = Some s" using order(1,4) by simp
    have 2: "secluded h X d2"
      by (rule secluded_new_items [OF secluded_insert_kot(1) [OF assms(3) order(3) k order(6)] order(7) secluded_insert_kot(2) [OF assms(3) order(3) k order(6)]])
    have "sessions d2 = sessions d" using order(6,7) by (auto simp: sql_insert_kot_def new_items_def split: if_splits)
    then have "inside h d2 d'" if "ds_status s = ''billed''"
      using order(8) that found_session(4) [OF order(1) o] by (intro inside_session_status [of i "''open''" _ "()"]) auto
    then show ?thesis using order(8) secluded_inside [OF 2] 2 by (cases "ds_status s = ''billed''") auto
  next
    case (send i n) then show ?thesis by (intro here inside_scoped)
  next
    case (kitchen i k st)
    have k: "k \<in> set (kots d)" "kt_id k = i" "kt_hotel k = h" using kitchen(1) by (auto simp: find_kot_def dest: find_SomeD)
    have ks: "kt_hotel x = h" if "x \<in> set (kots d)" "kt_id x = i" for x
      using distinct_key [OF owned_rows(2) [OF o], of x k] k that by simp
    have its: "ki_hotel x = h" if "x \<in> set (kitems d)" "ki_kot x = i" for x using owned_item_kot [OF o that(1) k(1)] k(2,3) that(2) by simp
    show ?thesis unfolding kitchen(3) using inside_kitchen [OF ks its] by (intro here) simp
  next
    case (void_item item kot session st reason user)
    show ?thesis unfolding void_item(1) by (rule here, rule inside_void) (rule found_item(1) [OF void_item(2) o])
  next
    case (void_billed item kot session st b d1 reason user)
    show ?thesis by (rule here, rule inside_bill_of_session [OF o void_billed(1,3) _ void_billed(6) [unfolded void_billed(5)]]) simp
  next
    case (bill i s j number rate currency b' d1 d2)
    note s = found_session [OF bill(2)]
    let ?b = "new_bill j h number s (cents (subtotal_cents i d)) rate currency"
    have 1: "secluded h X d1" by (rule secluded_insert_bill [OF assms(3) _ _ bill(7)]) (use s(2) bill(2) in simp_all)
    have same: "sessions d1 = sessions d" "tables d1 = tables d" using bill(7) by (auto simp: sql_insert_bill_def Let_def split: if_splits)
    have "inside h d1 d2" by (rule inside_session_status [OF bill(8)]) (use same s(4) [OF o] in simp)
    also have "tables d2 = tables d" using bill(8) same(2) by (auto simp: sql_session_status_def split: if_splits)
    then have "inside h d2 d'" unfolding bill(1) using owned_session_table [OF o s(1)] s(3) by (intro inside_table_status) auto
    finally show ?thesis by (rule secluded_inside [OF 1])
  next
    case (edit ip req i b u) then show ?thesis by (intro here inside_bill_writes(2) [of d i] found_bill(4) [OF _ o])
  next
    case (finalize i n) then show ?thesis by (intro here inside_scoped)
  next
    case (pay ip req i b p d1 d2 d3) then show ?thesis by (intro inside_pay [OF o pay(2,5,8,9) assms(3) pay(10,11)])
  next
    case (stamp i customer)
    then obtain b where b: "b \<in> set (bills d)" "bl_id b = i" "bl_hotel b = h" by blast
    have "bl_hotel x = h" if "x \<in> set (bills d)" "bl_id x = i" for x using distinct_key [OF owned_rows(4) [OF o], of x b] b that by simp
    then show ?thesis unfolding stamp(1) by (intro here inside_bill_writes(5))
  next
    case (refund i b d1)
    have 1: "secluded h X d1" by (rule secluded_frame [OF assms(3) refund(3)])
    have "inside h d1 (sql_bill_status i ''refunded'' d1)"
      by (rule inside_bill_writes(4)) (use found_bill(4) [OF refund(1) o] frame_simps(5) [OF refund(3)] in simp)
    also have "inside h (sql_bill_status i ''refunded'' d1) d'"
      by (rule inside_session_status [OF refund(4)])
         (use owned_bill_session [OF o found_bill(1) [OF refund(1)]] found_bill(3) [OF refund(1)] frame_simps(2) [OF refund(3)] in \<open>simp add: sql_bill_status_def\<close>)
    finally show ?thesis by (rule secluded_inside [OF 1])
  next
    case (split i b new) then show ?thesis using secluded_splits [OF assms(3)] by simp
  qed
qed
text \<open>C6: Restaurants of different tenants are isolated. The requests of tenant \<open>h\<close> leave every row of every
  other tenant as it is, in every table of the database, although most updates name a row by its
  identifier alone; and they keep the ownership of rows on which this rests: unique identifiers, and
  sessions, tickets, items, bills and splits of the tenant of the row they refer to.\<close>

theorem restaurant_isolation:
  assumes "pos_history H A {h} d d'" "sets_columns H" "owned d"
    "distinct (map gu_id (guests d))" "distinct (map cu_id (customers d))"
  shows "others h d' = others h d \<and> owned d'"
proof -
  have "secluded h (others h d) d" using assms(3-5) by (simp add: secluded_def tenant_frame_def)
  then have "secluded h (others h d) d'"
    by (rule pos_history_moves [OF assms(1)]) (use pos_move_secluded [OF assms(2)] in blast)
  then show ?thesis by (simp add: secluded_def tenant_frame_def)
qed

text \<open>Two restaurants, of hotel 7 and of hotel 8.\<close>

definition two_restaurants :: db where
  "two_restaurants = evening_db\<lparr>tables := [evening_table, evening_table\<lparr>tb_id := 6, tb_hotel := 8\<rparr>]\<rparr>"

theorem restaurant_isolation_witness:
  "let d' = w_db (snd (run_state (serve_pos pos_handler pos_ctx (Pos_FinalizeBill ''70'')) (start two_restaurants 0)))
   in others 7 d' = others 7 two_restaurants \<and> owned d' \<and> map bl_status (bills d') = [''finalized''] \<and>
      map tb_id (tables (others 7 two_restaurants)) = [6]"
proof -
  let ?r = "run_state (serve_pos pos_handler pos_ctx (Pos_FinalizeBill ''70'')) (start two_restaurants 0)"
  have "pos_step pos_handler (\<lambda>_. True) 7 two_restaurants (w_db (snd ?r))"
    using pos_step.request [OF TrueI pos_hotel_sample, of "Pos_FinalizeBill ''70''" "start two_restaurants 0"] by (metis prod.collapse start_simps(1))
  then have h: "pos_history pos_handler (\<lambda>_. True) {7} two_restaurants (w_db (snd ?r))" by (auto intro: pos_history.intros)
  have "sets_columns pos_handler" by (simp add: sets_columns_def pos_handler_def)
  moreover have "owned two_restaurants" by code_simp
  moreover have "guests two_restaurants = []" "customers two_restaurants = []"
    by (simp_all add: two_restaurants_def evening_db_def empty_db_def)
  moreover have "map bl_status (bills (w_db (snd ?r))) = [''finalized'']" "map tb_id (tables (others 7 two_restaurants)) = [6]" by code_simp+
  ultimately show ?thesis using restaurant_isolation [OF h] by (simp add: Let_def)
qed
end
