(* ===== verification/Tills.thy ===== *)
theory Tills
  imports Service
begin

text \<open>
  The money on a restaurant bill. Whatever cashiers do with discounts, taxes, tips, voids and
  payments, as long as the amounts they enter are whole cents, every bill adds up to the cent: its
  total is the subtotal less the discount plus tax, tip and rounding, what is due is the total less
  what was paid, and what was paid is the sum of the payments on record. The handlers compute in
  binary floating point; the lemmas show that the rounding they do hides every error of it.
\<close>

subsection \<open>Amounts a column holds\<close>

text \<open>\<^verbatim>\<open>NUMERIC(12,2)\<close> rounds to the nearest cent.\<close>

definition numeric_close :: "db \<Rightarrow> bool" where
  "numeric_close d \<longleftrightarrow> (\<forall>v. \<bar>db_num d v - v\<bar> \<le> 1 / 100)"

abbreviation small :: "int \<Rightarrow> bool" where
  "small k \<equiv> \<bar>k\<bar> \<le> 2 * 10 ^ 12"

definition small_cents :: "rat \<Rightarrow> bool" where
  "small_cents v \<longleftrightarrow> (\<exists>k. small k \<and> v = cents k)"

lemma small_centsE: "small_cents v \<Longrightarrow> (\<And>k. small k \<Longrightarrow> v = cents k \<Longrightarrow> P) \<Longrightarrow> P"
  by (auto simp: small_cents_def)

lemma small_cents_to_cents: "small_cents v \<Longrightarrow> cents (to_cents v) = v \<and> small (to_cents v)"
  by (auto simp: small_cents_def)

lemma small_cents_0 [simp]: "small_cents 0"
  unfolding small_cents_def by (rule exI [of _ 0]) simp

lemma cents_large: "2 * 10 ^ 12 < k \<Longrightarrow> 10000000001 < cents k"
proof -
  assume "2 * 10 ^ 12 < k"
  then have "cents (2 * 10 ^ 12) \<le> cents k" by (intro cents_mono) simp
  moreover have "near (cents (2 * 10 ^ 12)) (2 * 10 ^ 12) (1 / 8000)" by (rule near_cents) simp
  ultimately show ?thesis by (simp add: near_def abs_if split: if_splits)
qed

lemma cents_neg: "cents (- k) = - cents k"
  by (simp add: cents_def fl64_neg)

lemma cents_small: "\<bar>cents k\<bar> \<le> 10000000001 \<Longrightarrow> small k"
  using cents_large [of k] cents_large [of "- k"] by (force simp: cents_neg)

lemma cents_eq_small:
  assumes "small s" "cents k = cents s"
  shows "k = s"
proof (rule linorder_cases [of k s])
  assume "k < s"
  then have "cents k \<le> cents (s - 1)" by (intro cents_mono) simp
  moreover have "cents (s - 1) < cents s" using assms(1) by (subst cents_less_iff) auto
  ultimately show ?thesis using assms(2) by simp
next
  assume "s < k"
  then have "cents (s + 1) \<le> cents k" by (intro cents_mono) simp
  moreover have "cents s < cents (s + 1)" using assms(1) by (subst cents_less_iff) auto
  ultimately show ?thesis using assms(2) by simp
qed

text \<open>A column that accepts an amount of cents holds it unchanged.\<close>

lemma num12_small:
  assumes "numeric_close d" "num12 d vs" "cents k \<in> set vs"
  shows "small k"
proof -
  have "\<bar>db_num d (cents k)\<bar> < 10000000000" using assms(2,3) by (auto simp: num12_def list_all_iff)
  moreover have "\<bar>db_num d (cents k) - cents k\<bar> \<le> 1 / 100" using assms(1) by (simp add: numeric_close_def)
  ultimately show ?thesis by (intro cents_small) linarith
qed

lemma numeric_small: "numeric_exact d \<Longrightarrow> small k \<Longrightarrow> db_num d (cents k) = cents k"
  by (simp add: numeric_exact_def)

lemma round2_is_cents: "\<exists>k. round2 v = cents k"
  using round2_eq_cents by blast

subsection \<open>The totals of a bill\<close>

text \<open>The inputs of a bill in whole cents.\<close>

definition cent_inputs :: "Bill \<Rightarrow> bool" where
  "cent_inputs b \<longleftrightarrow> (\<exists>k. bl_subtotal b = cents k) \<and> (\<exists>k. bl_disc_value b = cents k) \<and> (\<exists>k. bl_tip_value b = cents k)"

lemma bill_discount_cents: "cent_inputs b \<Longrightarrow> \<exists>k. bill_discount b = cents k"
  using round2_is_cents cents_0 [symmetric] unfolding bill_discount_def cent_inputs_def Let_def by metis

lemma bill_tip_cents: "cent_inputs b \<Longrightarrow> \<exists>k. bill_tip x b = cents k"
  using round2_is_cents cents_0 [symmetric] unfolding bill_tip_def cent_inputs_def by metis

lemma bill_discount_le: "bill_discount b \<le> bl_subtotal b"
  by (simp add: bill_discount_def Let_def)

definition adds_up :: "Bill \<Rightarrow> bool" where
  "adds_up b \<longleftrightarrow> list_all small_cents [bl_subtotal b, bl_disc_amount b, bl_tax b, bl_tip b, bl_rounding b, bl_total b] \<and>
     to_cents (bl_total b) = to_cents (bl_subtotal b) - to_cents (bl_disc_amount b) + to_cents (bl_tax b) + to_cents (bl_tip b) + to_cents (bl_rounding b) \<and>
     bl_disc_amount b \<le> bl_subtotal b"

lemma round2_total:
  assumes "small s" "small d" "small t" "small p" "small r"
  shows "round2 (fadd (fadd (fadd (fsub (cents s) (cents d)) (cents t)) (cents p)) (cents r)) = cents (s - d + t + p + r)"
proof -
  have n: "near (cents k) k (1 / 8000)" if "small k" for k using that by (intro near_cents) simp
  have "near (fsub (cents s) (cents d)) (s - d) (3 / 4000)"
    by (rule near_weaken [OF near_fsub [OF n n]]) (use assms in auto)
  then have "near (fadd (fsub (cents s) (cents d)) (cents t)) (s - d + t) (11 / 8000)"
    by (rule near_weaken [OF near_fadd [OF _ n]]) (use assms in auto)
  then have "near (fadd (fadd (fsub (cents s) (cents d)) (cents t)) (cents p)) (s - d + t + p) (16 / 8000)"
    by (rule near_weaken [OF near_fadd [OF _ n]]) (use assms in auto)
  then have "near (fadd (fadd (fadd (fsub (cents s) (cents d)) (cents t)) (cents p)) (cents r)) (s - d + t + p + r) (21 / 8000)"
    by (rule near_weaken [OF near_fadd [OF _ n]]) (use assms in auto)
  then show ?thesis by (rule round2_near) (use assms in auto)
qed

lemma computeTotals_adds_up:
  assumes "cent_inputs b" "small_cents (bl_rounding b)" "small_cents (bl_paid b)" "b' = computeTotals b"
    and "\<And>k. cents k \<in> {bl_subtotal b', bl_disc_amount b', bl_tax b', bl_tip b', bl_total b', bl_due b'} \<Longrightarrow> small k"
  shows "adds_up b' \<and> small_cents (bl_due b') \<and> to_cents (bl_due b') = to_cents (bl_total b') - to_cents (bl_paid b')"
proof -
  obtain s where s: "bl_subtotal b = cents s" using assms(1) by (auto simp: cent_inputs_def)
  obtain d where d: "bill_discount b = cents d" using bill_discount_cents [OF assms(1)] by blast
  let ?taxable = "fsub (cents s) (cents d)"
  obtain t where t: "round2 (fdiv (fmul ?taxable (bl_tax_rate b)) 100) = cents t" using round2_is_cents by blast
  obtain p where p: "bill_tip ?taxable b = cents p" using bill_tip_cents [OF assms(1)] by blast
  obtain r where r: "small r" "bl_rounding b = cents r" using assms(2) by (auto elim: small_centsE)
  obtain q where q: "small q" "bl_paid b = cents q" using assms(3) by (auto elim: small_centsE)
  have b': "bl_subtotal b' = cents s" "bl_disc_amount b' = cents d" "bl_tax b' = cents t" "bl_tip b' = cents p" "bl_rounding b' = cents r"
    "bl_paid b' = cents q"
    "bl_total b' = round2 (fadd (fadd (fadd ?taxable (cents t)) (cents p)) (cents r))" "bl_due b' = round2 (fsub (bl_total b') (cents q))"
    unfolding assms(4) computeTotals_def by (simp_all add: Let_def s d t p r q)
  have sm: "small s" "small d" "small t" "small p" using assms(5) b'(1-4) by auto
  have tot: "bl_total b' = cents (s - d + t + p + r)" unfolding b'(7) by (rule round2_total [OF sm r(1)])
  have smt: "small (s - d + t + p + r)" by (rule assms(5)) (simp add: tot)
  have due: "bl_due b' = cents (s - d + t + p + r - q)" unfolding b'(8) tot by (rule round2_fsub_cents) (use smt q(1) in simp_all)
  have smd: "small (s - d + t + p + r - q)" by (rule assms(5)) (simp add: due)
  have "cents d \<le> cents s" using bill_discount_le [of b] d s by simp
  moreover have sc: "small_cents (cents k)" if "small k" for k using that by (auto simp: small_cents_def)
  moreover have tc: "to_cents (cents k) = k" if "small k" for k using that by (intro to_cents_cents) simp
  ultimately show ?thesis unfolding adds_up_def tot due b'(1-6) list.pred_inject
    by (simp only: sc [OF sm(1)] sc [OF sm(2)] sc [OF sm(3)] sc [OF sm(4)] sc [OF r(1)] sc [OF smt] sc [OF smd]
        tc [OF sm(1)] tc [OF sm(2)] tc [OF sm(3)] tc [OF sm(4)] tc [OF r(1)] tc [OF smt] tc [OF smd] tc [OF q(1)] list.pred_inject simp_thms)
qed

subsection \<open>The invariant of the tills\<close>

definition paid_cents :: "BillPayment list \<Rightarrow> uuid \<Rightarrow> int" where
  "paid_cents ps i = sum_list (map (\<lambda>p. to_cents (bp_amount p)) (filter (\<lambda>p. bp_bill p = i) ps))"

definition till :: "BillPayment list \<Rightarrow> Bill \<Rightarrow> bool" where
  "till ps b \<longleftrightarrow> adds_up b \<and> list_all small_cents [bl_paid b, bl_disc_value b, bl_tip_value b] \<and>
     (bl_status b \<in> {''open'', ''finalized'', ''partially_paid''} \<longrightarrow>
        small_cents (bl_due b) \<and> to_cents (bl_due b) = to_cents (bl_total b) - to_cents (bl_paid b)) \<and>
     (bl_status b \<in> {''open'', ''finalized''} \<longrightarrow> bl_paid b = 0) \<and>
     (bl_status b = ''partially_paid'' \<longrightarrow> 0 < bl_due b) \<and>
     (bl_status b = ''paid'' \<longrightarrow> bl_due b = 0 \<and> bl_total b \<le> bl_paid b) \<and>
     to_cents (bl_paid b) = paid_cents ps (bl_id b)"

definition tills :: "db \<Rightarrow> bool" where
  "tills d \<longleftrightarrow> numeric_exact d \<and> numeric_close d \<and> distinct (map bl_id (bills d)) \<and>
     (\<forall>p \<in> set (bpayments d). bp_bill p \<in> bl_id ` set (bills d)) \<and> (\<forall>b \<in> set (bills d). till (bpayments d) b)"

definition money where
  "money d = (bills d, bpayments d, db_num d)"

lemma tills_money: "money d' = money d \<Longrightarrow> tills d' = tills d"
  by (simp add: money_def tills_def numeric_exact_def numeric_close_def)

lemma adds_up_paid [simp]: "adds_up (b\<lparr>bl_paid := q, bl_due := u, bl_status := st\<rparr>) = adds_up b"
  by (simp add: adds_up_def)

lemma till_payments: "paid_cents ps' (bl_id b) = paid_cents ps (bl_id b) \<Longrightarrow> till ps' b = till ps b"
  by (simp only: till_def)

lemma till_cong:
  assumes "till ps b" "paid_cents ps' (bl_id b) = paid_cents ps (bl_id b)"
    "b' = b\<lparr>bl_customer := c\<rparr> \<or> bl_status b = ''open'' \<and> b' = b\<lparr>bl_status := ''finalized''\<rparr> \<or> b' = b\<lparr>bl_status := ''refunded''\<rparr>"
  shows "till ps' b'"
  using assms(3) by (elim disjE) (use assms(1,2) in \<open>auto simp: till_def adds_up_def\<close>)

text \<open>Replacing the one bill with an identifier.\<close>

lemma tills_put:
  assumes "tills d" "b \<in> set (bills d)" "bills d' = upd_where p f (bills d)"
    "\<And>x. x \<in> set (bills d) \<Longrightarrow> p x \<longleftrightarrow> bl_id x = bl_id b" "\<And>x. bl_id (f x) = bl_id x"
    "till (bpayments d') (f b)" "db_num d' = db_num d"
    "\<And>x. x \<in> set (bills d) \<Longrightarrow> bl_id x \<noteq> bl_id b \<Longrightarrow> paid_cents (bpayments d') (bl_id x) = paid_cents (bpayments d) (bl_id x)"
    "\<And>p. p \<in> set (bpayments d') \<Longrightarrow> p \<in> set (bpayments d) \<or> bp_bill p = bl_id b"
  shows "tills d'"
proof -
  have dist: "distinct (map bl_id (bills d))" using assms(1) by (simp add: tills_def)
  have ids: "map bl_id (bills d') = map bl_id (bills d)" unfolding assms(3) by (simp add: map_upd_where assms(5))
  have "till (bpayments d') y" if "y \<in> set (bills d')" for y
  proof -
    from that obtain x where x: "x \<in> set (bills d)" "y = (if p x then f x else x)" unfolding assms(3) set_upd_where by blast
    show ?thesis
    proof (cases "bl_id x = bl_id b")
      case True
      then have "x = b" using distinct_key [OF dist x(1) assms(2)] by blast
      with x(2) assms(4) [OF x(1)] assms(6) True show ?thesis by simp
    next
      case False
      then have "y = x" using x(2) assms(4) [OF x(1)] by simp
      moreover have "till (bpayments d) x" using assms(1) x(1) by (simp add: tills_def)
      ultimately show ?thesis using till_payments [OF assms(8) [OF x(1) False]] by simp
    qed
  qed
  moreover have "bl_id ` set (bills d') = bl_id ` set (bills d)" using ids by (metis set_map)
  moreover have "bp_bill p \<in> bl_id ` set (bills d)" if "p \<in> set (bpayments d')" for p
    using assms(9) [OF that] assms(1,2) by (auto simp: tills_def)
  ultimately show ?thesis
    using assms(1,7) ids dist by (simp add: tills_def numeric_exact_def numeric_close_def)
qed

lemma tillsD:
  assumes "tills d"
  shows "numeric_exact d" "numeric_close d" "distinct (map bl_id (bills d))" "b \<in> set (bills d) \<Longrightarrow> till (bpayments d) b"
  using assms by (simp_all add: tills_def)

lemma bl_eqs: "tills d \<Longrightarrow> b \<in> set (bills d) \<Longrightarrow> x \<in> set (bills d) \<Longrightarrow> bl_id x = bl_id b \<Longrightarrow> x = b"
  using distinct_key [OF tillsD(3)] by blast

subsection \<open>Writes to a bill\<close>

lemma money_still:
  "frame h d d' \<Longrightarrow> money d' = money d"
  "sql_insert_table t d = Inr (t', d') \<Longrightarrow> money d' = money d"
  "sql_update_table H i h kvs d = Inr (r, d') \<Longrightarrow> money d' = money d"
  "sql_clean_table i h d = Inr (n, d') \<Longrightarrow> money d' = money d"
  "sql_insert_session s d = Inr (j, d') \<Longrightarrow> money d' = money d"
  "sql_session_status i st d = Inr (u, d') \<Longrightarrow> money d' = money d"
  "sql_insert_kot k d = Inr (j, d') \<Longrightarrow> money d' = money d"
  "sql_send_kot i h d = Inr (n, d') \<Longrightarrow> money d' = money d"
  "new_items h kot d d' \<Longrightarrow> money d' = money d"
  "money (sql_table_status i st d) = money d" "money (sql_items_status i st d) = money d" "money (sql_kot_status i st d) = money d"
  "money (sql_void_item item reason user d) = money d" "money (d\<lparr>splits := S\<rparr>) = money d"
  by (auto simp: money_def sql_insert_table_def sql_update_table_def sql_clean_table_def sql_insert_session_def sql_session_status_def
      sql_insert_kot_def sql_send_kot_def new_items_def sql_table_status_def sql_items_status_def sql_kot_status_def sql_void_item_def Let_def
      split: if_splits option.splits)

text \<open>What is stored of a bill whose totals were computed.\<close>

lemma stored_totals:
  assumes "numeric_exact d" "numeric_close d" "num12 d vs"
    "\<And>k. cents k \<in> {bl_subtotal b, bl_disc_amount b, bl_tax b, bl_tip b, bl_total b, bl_due b} \<Longrightarrow> cents k \<in> set vs \<or> small k"
    "cent_inputs b0" "small_cents (bl_rounding b0)" "small_cents (bl_paid b0)" "b = computeTotals b0"
  shows "adds_up b" "small_cents (bl_due b)" "to_cents (bl_due b) = to_cents (bl_total b) - to_cents (bl_paid b)"
  using computeTotals_adds_up [OF assms(5-8)] assms(4) num12_small [OF assms(2,3)] by blast+

lemma numeric_small_cents: "numeric_exact d \<Longrightarrow> small_cents v \<Longrightarrow> db_num d v = v"
  by (auto simp: small_cents_def numeric_small)

lemma adds_up_stored: "numeric_exact d \<Longrightarrow> adds_up b \<Longrightarrow>
    db_num d (bl_subtotal b) = bl_subtotal b \<and> db_num d (bl_disc_amount b) = bl_disc_amount b \<and> db_num d (bl_tax b) = bl_tax b \<and>
    db_num d (bl_tip b) = bl_tip b \<and> db_num d (bl_rounding b) = bl_rounding b \<and> db_num d (bl_total b) = bl_total b"
  by (simp add: adds_up_def numeric_small_cents)

lemma till_small:
  assumes "till ps b"
  shows "small_cents (bl_disc_value b)" "small_cents (bl_tip_value b)" "small_cents (bl_rounding b)" "small_cents (bl_subtotal b)"
    "small_cents (bl_paid b)" "small_cents (bl_total b)" "adds_up b"
  using assms by (simp_all add: till_def adds_up_def)

lemma till_inputs: "till ps b \<Longrightarrow> cent_inputs b \<and> small_cents (bl_rounding b) \<and> small_cents (bl_paid b)"
  using till_small [of ps b] unfolding cent_inputs_def small_cents_def by blast

lemma tills_void:
  assumes "tills d" "money d1 = money d" "b \<in> set (bills d)" "bl_status b = ''open''"
    "sql_bill_totals (computeTotals (b\<lparr>bl_subtotal := round2 v\<rparr>)) d1 = Inr ((), d')"
  shows "tills d'"
proof -
  let ?c = "computeTotals (b\<lparr>bl_subtotal := round2 v\<rparr>)"
  note t = tillsD(1-3) [OF assms(1)] and tb = tillsD(4) [OF assms(1,3)]
  have m: "bills d1 = bills d" "bpayments d1 = bpayments d" "db_num d1 = db_num d" using assms(2) by (simp_all add: money_def)
  have x: "numeric_exact d1" "numeric_close d1" using t m by (simp_all add: numeric_exact_def numeric_close_def)
  have n: "num12 d1 [bl_subtotal ?c, bl_disc_amount ?c, bl_tax ?c, bl_tip ?c, bl_total ?c, bl_due ?c]"
    using assms(5) by (auto simp: sql_bill_totals_def split: if_splits)
  note i = till_inputs [OF tb]
  have ci: "cent_inputs (b\<lparr>bl_subtotal := round2 v\<rparr>)" using i round2_is_cents [of v] by (simp add: cent_inputs_def)
  note s = stored_totals [OF x n _ ci _ _ refl]
  have s': "adds_up ?c" "small_cents (bl_due ?c)" "to_cents (bl_due ?c) = to_cents (bl_total ?c) - to_cents (bl_paid ?c)"
    by (rule s; use i in auto)+
  let ?f = "\<lambda>x. x\<lparr>bl_subtotal := bl_subtotal ?c, bl_disc_amount := bl_disc_amount ?c, bl_tax := bl_tax ?c, bl_tip := bl_tip ?c,
      bl_total := bl_total ?c, bl_due := bl_due ?c\<rparr>"
  have d': "bills d' = upd_where (\<lambda>x. bl_id x = bl_id b) ?f (bills d)" "bpayments d' = bpayments d" "db_num d' = db_num d"
    using assms(5) n adds_up_stored [OF x(1) s'(1)] numeric_small_cents [OF x(1) s'(2)] m by (auto simp: sql_bill_totals_def)
  have "bl_rounding ?c = bl_rounding b" by (simp add: computeTotals_def Let_def)
  then have "till (bpayments d) (?f b)" using tb s' assms(4) by (auto simp: till_def adds_up_def)
  then show ?thesis by (intro tills_put [OF assms(1,3) d'(1)]) (auto simp: d')
qed

text \<open>Requests whose amounts are whole cents.\<close>

primrec cent_request :: "pos_request \<Rightarrow> bool" where
  "cent_request (Pos_UpdateBill i body) = (case body of None \<Rightarrow> True | Some req \<Rightarrow>
     list_all (\<lambda>v. case v of None \<Rightarrow> True | Some x \<Rightarrow> whole_cents x) [ub_disc_value req, ub_tip_value req, ub_rounding req])"
| "cent_request (Pos_Pay i body) = (case body of None \<Rightarrow> True | Some req \<Rightarrow> whole_cents (br_amount req))"
| "cent_request (Pos_ListTables a b) = True" | "cent_request (Pos_CreateTable b1) = True" | "cent_request (Pos_UpdateTable i b2) = True"
| "cent_request (Pos_CleanTable i) = True" | "cent_request (Pos_ListSessions a) = True" | "cent_request (Pos_OpenSession i b3) = True"
| "cent_request (Pos_GetSession i) = True" | "cent_request (Pos_CloseSession i) = True" | "cent_request (Pos_CreateKOT i b4) = True"
| "cent_request (Pos_SendKOT i) = True" | "cent_request (Pos_KOTStatus i b5) = True" | "cent_request (Pos_VoidItem i j b6) = True"
| "cent_request (Pos_GenerateBill i) = True" | "cent_request (Pos_FinalizeBill i) = True" | "cent_request (Pos_Refund i) = True"
| "cent_request (Pos_Receipt i) = True" | "cent_request (Pos_GetSplits i) = True" | "cent_request (Pos_SetSplits i b7) = True"

lemma computeTotals_inputs [simp]:
  "bl_disc_value (computeTotals b) = bl_disc_value b" "bl_tip_value (computeTotals b) = bl_tip_value b"
  "bl_rounding (computeTotals b) = bl_rounding b" "bl_disc_type (computeTotals b) = bl_disc_type b"
  "bl_tip_type (computeTotals b) = bl_tip_type b" "bl_tax_rate (computeTotals b) = bl_tax_rate b"
  by (simp_all add: computeTotals_def Let_def)

lemma edited_bill_keys [simp]:
  "bl_subtotal (edited_bill req b) = bl_subtotal b" "bl_paid (edited_bill req b) = bl_paid b" "bl_id (edited_bill req b) = bl_id b"
  by (simp_all add: edited_bill_def)

lemma edited_cents:
  assumes "cent_request (Pos_UpdateBill ip (Some req))" "till ps b" "e = edited_bill req b"
  shows "\<exists>k. bl_disc_value e = cents k" "\<exists>k. bl_tip_value e = cents k" "\<exists>k. bl_rounding e = cents k" "cent_inputs e"
proof -
  have o: "\<exists>k. bl_disc_value b = cents k" "\<exists>k. bl_tip_value b = cents k" "\<exists>k. bl_rounding b = cents k" "\<exists>k. bl_subtotal b = cents k"
    using till_small [OF assms(2)] unfolding small_cents_def by blast+
  show e: "\<exists>k. bl_disc_value e = cents k" "\<exists>k. bl_tip_value e = cents k" "\<exists>k. bl_rounding e = cents k"
    using assms(1) o unfolding assms(3) by (auto simp: edited_bill_def or_else_def whole_cents_def split: option.splits)
  show "cent_inputs e" using e o(4) by (simp add: cent_inputs_def assms(3))
qed

lemma tills_edit:
  assumes "tills d" "cent_request (Pos_UpdateBill ip (Some req))" "b \<in> set (bills d)" "bl_status b = ''open''"
    "sql_edit_bill (bl_id b) (computeTotals (edited_bill req b)) d = Inr (u, d')"
  shows "tills d'"
proof -
  let ?e = "edited_bill req b" let ?c = "computeTotals ?e"
  note x = tillsD(1,2) [OF assms(1)] and tb = tillsD(4) [OF assms(1,3)]
  note i = till_inputs [OF tb] and e = edited_cents [OF assms(2) tb refl]
  have n: "num12 d [bl_disc_value ?c, bl_disc_amount ?c, bl_tax ?c, bl_tip_value ?c, bl_tip ?c, bl_rounding ?c, bl_total ?c, bl_due ?c]"
    using assms(5) by (auto simp: sql_edit_bill_def split: if_splits)
  obtain kd kt kr where k: "bl_disc_value ?e = cents kd" "bl_tip_value ?e = cents kt" "bl_rounding ?e = cents kr" using e(1-3) by blast
  have sm: "small kd" "small kt" "small kr" by (rule num12_small [OF x(2) n]; simp add: k)+
  have sc: "small_cents (bl_disc_value ?e)" "small_cents (bl_tip_value ?e)" "small_cents (bl_rounding ?e)"
    using k sm by (auto simp: small_cents_def)
  have sub: "small k" if "cents k = bl_subtotal b" for k
  proof -
    obtain s where "small s" "bl_subtotal b = cents s" using till_small(4) [OF tb] by (rule small_centsE)
    then show ?thesis using cents_eq_small [of s k] that by simp
  qed
  have s: "adds_up ?c" "small_cents (bl_due ?c)" "to_cents (bl_due ?c) = to_cents (bl_total ?c) - to_cents (bl_paid ?c)"
    by (rule stored_totals [OF x n _ e(4) sc(3) _ refl]; use i sub in auto)+
  let ?f = "\<lambda>x. x\<lparr>bl_disc_type := bl_disc_type ?c, bl_disc_value := bl_disc_value ?e, bl_disc_amount := bl_disc_amount ?c,
      bl_tax_rate := db_num d (bl_tax_rate ?c), bl_tax := bl_tax ?c, bl_tip_type := bl_tip_type ?c, bl_tip_value := bl_tip_value ?e,
      bl_tip := bl_tip ?c, bl_rounding := bl_rounding ?e, bl_total := bl_total ?c, bl_due := bl_due ?c\<rparr>"
  have d': "bills d' = upd_where (\<lambda>x. bl_id x = bl_id b) ?f (bills d)" "bpayments d' = bpayments d" "db_num d' = db_num d"
    using assms(5) n adds_up_stored [OF x(1) s(1)] numeric_small_cents [OF x(1) s(2)] numeric_small_cents [OF x(1) sc(1)]
      numeric_small_cents [OF x(1) sc(2)] by (auto simp: sql_edit_bill_def Let_def)
  have "till (bpayments d) (?f b)" using tb s sc assms(4) by (auto simp: till_def adds_up_def)
  then show ?thesis by (intro tills_put [OF assms(1,3) d'(1)]) (auto simp: d')
qed

lemma tills_bill:
  assumes "tills d" "sql_insert_bill (new_bill j h number s v rate currency) d = Inr (b', d')"
  shows "tills d'"
proof -
  let ?c = "new_bill j h number s v rate currency"
  note x = tillsD(1,2) [OF assms(1)]
  have n: "num12 d [bl_subtotal ?c, bl_tax ?c, bl_total ?c, bl_due ?c]" and fresh: "\<forall>y \<in> set (bills d). bl_id y \<noteq> bl_id ?c"
    and b': "b' = ?c\<lparr>bl_subtotal := db_num d (bl_subtotal ?c), bl_tax_rate := db_num d (bl_tax_rate ?c), bl_tax := db_num d (bl_tax ?c),
       bl_total := db_num d (bl_total ?c), bl_due := db_num d (bl_due ?c)\<rparr>" and d': "d' = d\<lparr>bills := bills d @ [b']\<rparr>"
    using assms(2) by (auto simp: sql_insert_bill_def Let_def list_ex_iff split: if_splits)
  let ?b0 = "\<lparr>bl_id = j, bl_hotel = h, bl_session = ds_id s, bl_outlet = ds_outlet s, bl_number = number,
      bl_status = ''open'', bl_subtotal = round2 v, bl_disc_type = None, bl_disc_value = 0,
      bl_disc_amount = 0, bl_tax_rate = rate, bl_tax = 0, bl_tip_type = None, bl_tip_value = 0, bl_tip = 0,
      bl_rounding = 0, bl_total = 0, bl_paid = 0, bl_due = 0, bl_currency = currency, bl_customer = None\<rparr>"
  have c: "?c = computeTotals ?b0" by (simp add: new_bill_def)
  have "\<exists>k. (0::rat) = cents k" by (rule exI [of _ 0]) simp
  then have ci: "cent_inputs ?b0" using round2_is_cents [of v] unfolding cent_inputs_def by simp
  have zero: "bl_tip ?c = 0" "bl_paid ?c = 0" "bl_disc_value ?c = 0" "bl_tip_value ?c = 0" "bl_status ?c = ''open''" "bl_id ?c = j"
    unfolding c by (simp_all add: computeTotals_def Let_def bill_tip_def)
  have disc: "bl_disc_amount ?c = 0 \<or> bl_disc_amount ?c = bl_subtotal ?c" unfolding c by (simp add: computeTotals_def Let_def bill_discount_def)
  have small0: "small k" if "cents k = 0" for k using cents_eq_small [of 0 k] that by simp
  have s: "adds_up ?c" "small_cents (bl_due ?c)" "to_cents (bl_due ?c) = to_cents (bl_total ?c) - to_cents (bl_paid ?c)"
    by (rule stored_totals [OF x n _ ci _ _ c]; use zero disc small0 in auto)+
  have "paid_cents (bpayments d) j = 0"
  proof -
    have "bp_bill p \<noteq> j" if "p \<in> set (bpayments d)" for p
    proof -
      have "bp_bill p \<in> bl_id ` set (bills d)" using assms(1) that by (simp add: tills_def)
      with fresh zero(6) show ?thesis by auto
    qed
    then have "filter (\<lambda>p. bp_bill p = j) (bpayments d) = []" by (simp add: filter_empty_conv)
    then show ?thesis by (simp add: paid_cents_def)
  qed
  then have "till (bpayments d) b'"
    using s zero adds_up_stored [OF x(1) s(1)] numeric_small_cents [OF x(1) s(2)] unfolding b' by (auto simp: till_def adds_up_def)
  then show ?thesis using assms(1) fresh zero(6) b' unfolding tills_def d' numeric_exact_def numeric_close_def by auto
qed

lemma paid_cents_snoc: "paid_cents (ps @ [p]) i = paid_cents ps i + (if bp_bill p = i then to_cents (bp_amount p) else 0)"
  by (simp add: paid_cents_def)

lemma tills_pay:
  assumes "tills d" "b \<in> set (bills d)" "bl_status b = ''finalized'' \<or> bl_status b = ''partially_paid''" "whole_cents a" "0 < a"
    "bp_bill p = bl_id b" "bp_amount p = a" "sql_insert_bpayment p d = Inr ((), d1)" "money d2 = money d1"
    "sql_bill_paid (paid_bill b a) d2 = Inr ((), d3)" "money d' = money d3"
  shows "tills d'"
proof -
  let ?c = "paid_bill b a"
  note x = tillsD(1,2) [OF assms(1)] and tb = tillsD(4) [OF assms(1,2)]
  obtain ka where ka: "cent_range ka" "a = cents ka" using assms(4) by (auto simp: whole_cents_def)
  obtain q t where q: "small q" "bl_paid b = cents q" and t: "small t" "bl_total b = cents t"
    using till_small(5,6) [OF tb] by (auto elim!: small_centsE)
  have m2: "bills d2 = bills d" "db_num d2 = db_num d"
    "bpayments d2 = bpayments d @ [p\<lparr>bp_amount := cents ka, bp_tendered := map_option (db_num d) (bp_tendered p), bp_change := db_num d (bp_change p)\<rparr>]"
    using assms(7,8,9) ka x(1) by (auto simp: money_def sql_insert_bpayment_def numeric_exact_def split: if_splits)
  have paid: "round2 (fadd (bl_paid b) a) = cents (q + ka)" unfolding q ka by (rule round2_fadd_cents) (use q ka in auto)
  have cp: "bl_paid ?c = cents (q + ka)" by (simp add: paid_bill_def Let_def paid)
  have n: "num12 d2 [bl_paid ?c, bl_due ?c]" using assms(10) by (auto simp: sql_bill_paid_def split: if_splits)
  have x2: "numeric_exact d2" "numeric_close d2" using x m2 by (simp_all add: numeric_exact_def numeric_close_def)
  have sp: "small (q + ka)" by (rule num12_small [OF x2(2) n]) (simp add: cp)
  have due: "round2 (fsub (bl_total b) (cents (q + ka))) = cents (t - (q + ka))" unfolding t by (rule round2_fsub_cents) (use t sp in auto)
  have c: "?c = (if t - (q + ka) \<le> 0 then b\<lparr>bl_paid := cents (q + ka), bl_due := 0, bl_status := ''paid''\<rparr>
      else b\<lparr>bl_paid := cents (q + ka), bl_due := cents (t - (q + ka)), bl_status := ''partially_paid''\<rparr>)"
    using cents_le_iff [of "t - (q + ka)" 0] t(1) sp unfolding paid_bill_def Let_def paid due by auto
  have smd: "small (t - (q + ka))" if "\<not> t - (q + ka) \<le> 0" by (rule num12_small [OF x2(2) n]) (use that in \<open>simp add: c\<close>)
  let ?f = "\<lambda>x. x\<lparr>bl_paid := bl_paid ?c, bl_due := bl_due ?c, bl_status := bl_status ?c\<rparr>"
  have st: "db_num d2 (bl_paid ?c) = bl_paid ?c" "db_num d2 (bl_due ?c) = bl_due ?c"
    using numeric_small [OF x2(1)] sp smd numeric_small [OF x2(1), of 0] by (auto simp: c)
  have d': "bills d' = upd_where (\<lambda>x. bl_id x = bl_id b) ?f (bills d)" "bpayments d' = bpayments d2" "db_num d' = db_num d"
    using assms(10,11) n st m2 by (auto simp: sql_bill_paid_def money_def)
  have sc: "small_cents (cents k)" if "small k" for k using that by (auto simp: small_cents_def)
  have tc: "to_cents (cents k) = k" if "cent_range k" for k using that by simp
  have pc: "paid_cents (bpayments d') (bl_id b) = q + ka"
    using tb q ka unfolding d'(2) m2(3) paid_cents_snoc by (simp add: till_def assms(6))
  have "till (bpayments d') (?f b)"
  proof (cases "t - (q + ka) \<le> 0")
    case True
    have "cents t \<le> cents (q + ka)" by (rule cents_mono) (use True in simp)
    then show ?thesis using till_small [OF tb] pc sc [OF sp] tc [of "q + ka"] sp True t(2) by (simp add: till_def c)
  next
    case False
    have "0 < cents (t - (q + ka))" using cents_less_iff [of 0 "t - (q + ka)"] smd [OF False] False by simp
    then show ?thesis
      using till_small [OF tb] pc sc [OF sp] tc [of "q + ka"] sp False t sc [OF smd [OF False]] smd [OF False]
      by (simp add: till_def c)
  qed
  then show ?thesis
    by (intro tills_put [OF assms(1,2) d'(1)]) (auto simp: d' m2(3) paid_cents_snoc assms(6))
qed

lemma tills_status:
  assumes "tills d" "money d1 = money d" "d' = sql_bill_status i ''refunded'' d1" "b \<in> set (bills d)" "bl_id b = i"
  shows "tills d'"
proof -
  have d': "bills d' = upd_where (\<lambda>x. bl_id x = bl_id b) (\<lambda>x. x\<lparr>bl_status := ''refunded''\<rparr>) (bills d)" "bpayments d' = bpayments d" "db_num d' = db_num d"
    using assms(2,3,5) by (auto simp: sql_bill_status_def money_def)
  have "till (bpayments d) (b\<lparr>bl_status := ''refunded''\<rparr>)" using till_cong [OF tillsD(4) [OF assms(1,4)] refl] by blast
  then show ?thesis by (intro tills_put [OF assms(1,4) d'(1)]) (auto simp: d')
qed

lemma tills_stamp:
  assumes "tills d" "b \<in> set (bills d)" "bl_id b = i"
  shows "tills (sql_bill_customer i c d)"
proof (rule tills_put [OF assms(1,2)])
  show "bills (sql_bill_customer i c d) = upd_where (\<lambda>x. bl_id x = i) (\<lambda>x. x\<lparr>bl_customer := Some c\<rparr>) (bills d)"
    by (simp add: sql_bill_customer_def)
  show "till (bpayments (sql_bill_customer i c d)) (b\<lparr>bl_customer := Some c\<rparr>)"
    using till_cong [OF tillsD(4) [OF assms(1,2)] refl, of "b\<lparr>bl_customer := Some c\<rparr>" "Some c"] by (simp add: sql_bill_customer_def)
qed (use assms(3) in \<open>auto simp: sql_bill_customer_def\<close>)

lemma tills_finalize:
  assumes "tills d" "sql_finalize_bill i h d = Inr (n, d')"
  shows "tills d'"
proof -
  let ?p = "\<lambda>b. bl_id b = i \<and> bl_hotel b = h \<and> bl_status b = ''open''"
  have d': "bills d' = upd_where ?p (\<lambda>b. b\<lparr>bl_status := ''finalized''\<rparr>) (bills d)" "bpayments d' = bpayments d" "db_num d' = db_num d"
    using assms(2) by (auto simp: sql_finalize_bill_def Let_def)
  show ?thesis
  proof (cases "\<exists>b \<in> set (bills d). ?p b")
    case True
    then obtain b where b: "b \<in> set (bills d)" "?p b" by blast
    have "till (bpayments d') (b\<lparr>bl_status := ''finalized''\<rparr>)"
      using till_cong [OF tillsD(4) [OF assms(1) b(1)] refl] b(2) unfolding d' by blast
    moreover have "?p x \<longleftrightarrow> bl_id x = bl_id b" if "x \<in> set (bills d)" for x using bl_eqs [OF assms(1) b(1) that] b(2) by auto
    ultimately show ?thesis by (intro tills_put [OF assms(1) b(1) d'(1)]) (auto simp: d')
  next
    case False
    then have "money d' = money d" using d' by (simp add: money_def upd_where_none)
    then show ?thesis using tills_money assms(1) by blast
  qed
qed

lemma pos_move_tills:
  assumes "pos_move H cent_request h d d'" "tills d"
  shows "tills d'"
  using assms(1)
proof cases
  case (void_billed item kot session st b d1 reason user)
  have "b \<in> set (bills d)" using void_billed(3) by (auto simp: bill_of_session_def dest: find_SomeD)
  then show ?thesis using tills_void [OF assms(2) _ _ void_billed(4,6)] void_billed(5) by (simp add: money_still)
next
  case (bill i s j number rate currency b' d1 d2)
  have "money d' = money d1" using bill(1) money_still(6) [OF bill(8)] by (simp add: money_still)
  then show ?thesis using tills_bill [OF assms(2) bill(7)] tills_money by blast
next
  case (edit ip req i b u)
  have "b \<in> set (bills d)" "bl_id b = i" using edit(2) by (auto simp: find_bill_def dest: find_SomeD)
  then show ?thesis using tills_edit [OF assms(2) edit(1)] edit(3,6) by blast
next
  case (finalize i n)
  then show ?thesis by (rule tills_finalize [OF assms(2)])
next
  case (pay ip req i b p d1 d2 d3)
  have b: "b \<in> set (bills d)" "bl_id b = i" using pay(2) by (auto simp: find_bill_def dest: find_SomeD)
  have st: "bl_status b = ''finalized'' \<or> bl_status b = ''partially_paid''" using pay(3) by (auto simp: payment_refusal_def split: if_splits)
  have "money d' = money d3" using pay(11) money_still(6) by (auto split: if_splits)
  then show ?thesis
    using tills_pay [OF assms(2) b(1) st _ pay(4) _ pay(7,8) money_still(1) [OF pay(9)] pay(10)] pay(1,6) b(2) by simp
next
  case (stamp i customer)
  then show ?thesis using tills_stamp [OF assms(2)] by blast
next
  case (refund i b d1)
  have b: "b \<in> set (bills d)" "bl_id b = i" using refund(1) by (auto simp: find_bill_def dest: find_SomeD)
  then show ?thesis
    using tills_status [OF assms(2) money_still(1) [OF refund(3)] refl b] tills_money [OF money_still(6) [OF refund(4)]] by blast
next
  case (order i s k j d1 d2)
  have "money d2 = money d" using money_still(7) [OF order(6)] money_still(9) [OF order(7)] by simp
  then have "money d' = money d" using order(8) money_still(6) by (auto split: if_splits)
  then show ?thesis using tills_money assms(2) by blast
next
  case (close i s d1)
  then have "money d' = money d" using money_still(6) [OF close(4)] by (simp add: money_still)
  then show ?thesis using tills_money assms(2) by blast
next
  case (seat i t s j d1)
  then have "money d' = money d" using money_still(5) [OF seat(6)] by (simp add: money_still)
  then show ?thesis using tills_money assms(2) by blast
qed (auto simp: money_still intro!: tills_money [THEN iffD2, OF _ assms(2)])

text \<open>C5: Every bill adds up. Over any history of requests whose amounts are whole cents, with any faults, every
  bill satisfies, in cents: total = subtotal - discount + tax + tip + rounding, the discount is at most
  the subtotal, an unpaid bill has due = total - paid and nothing paid before it is finalized, a partly paid bill
  has something due, a paid bill nothing, with at least the total paid; and what is paid is the sum of
  the recorded payments of the bill. The amounts are doubles, rounded by \<^verbatim>\<open>round2\<close> and stored with two
  decimals.\<close>

theorem bills_add_up:
  assumes "pos_history H cent_request T d d'" "tills d"
  shows "\<forall>b \<in> set (bills d').
     to_cents (bl_total b) = to_cents (bl_subtotal b) - to_cents (bl_disc_amount b) + to_cents (bl_tax b) + to_cents (bl_tip b) + to_cents (bl_rounding b) \<and>
     bl_disc_amount b \<le> bl_subtotal b \<and>
     (bl_status b \<in> {''open'', ''finalized'', ''partially_paid''} \<longrightarrow> to_cents (bl_due b) = to_cents (bl_total b) - to_cents (bl_paid b)) \<and>
     (bl_status b \<in> {''open'', ''finalized''} \<longrightarrow> bl_paid b = 0) \<and>
     (bl_status b = ''partially_paid'' \<longrightarrow> 0 < bl_due b) \<and>
     (bl_status b = ''paid'' \<longrightarrow> bl_due b = 0 \<and> bl_total b \<le> bl_paid b) \<and>
     to_cents (bl_paid b) = paid_cents (bpayments d') (bl_id b)"
proof -
  have "tills d'" by (rule pos_history_moves [where R = tills, OF assms]) (rule pos_move_tills)
  then have "till (bpayments d') b" if "b \<in> set (bills d')" for b using that by (rule tillsD(4))
  then show ?thesis unfolding till_def adds_up_def by blast
qed

text \<open>Ten off the bill of table 5, which then is 90.00.\<close>

definition ten_off :: updateBillRequest where
  "ten_off = \<lparr>ub_disc_type = Some ''flat'', ub_disc_value = Some (cents 1000), ub_tax_rate = None, ub_tip_type = None,
     ub_tip_value = None, ub_rounding = None\<rparr>"

lemma tills_evening: "tills evening_db"
proof -
  have "small_cents (cents 10000)" unfolding small_cents_def by (rule exI [of _ 10000]) simp
  then show ?thesis
    by (simp add: tills_def evening_db_def empty_db_def split_bill_def till_def adds_up_def numeric_exact_def numeric_close_def paid_cents_def)
qed

theorem bills_add_up_witness:
  "\<exists>b. bills (after_evening [Pos_UpdateBill ''70'' (Some ten_off)]) = [b] \<and> to_cents (bl_disc_amount b) = 1000 \<and>
     to_cents (bl_total b) = to_cents (bl_subtotal b) - 1000 + to_cents (bl_tax b) + to_cents (bl_tip b) + to_cents (bl_rounding b) \<and>
     to_cents (bl_due b) = to_cents (bl_total b) - to_cents (bl_paid b)"
proof -
  let ?d = "after_evening [Pos_UpdateBill ''70'' (Some ten_off)]"
  have h: "pos_history pos_handler cent_request {7} evening_db ?d" by (rule after_evening_allowed) (simp add: ten_off_def)
  have "map (\<lambda>b. (to_cents (bl_disc_amount b), bl_status b)) (bills ?d) = [(1000, ''open'')]" by code_simp
  then obtain b where "bills ?d = [b]" "to_cents (bl_disc_amount b) = 1000" "bl_status b = ''open''" by auto
  then show ?thesis using bills_add_up [OF h tills_evening] by simp
qed
end
