(* ===== verification/Gates.thy ===== *)
theory Gates
  imports Auth
begin

text \<open>
  What a tenant may use: the plan catalogue (\<^verbatim>\<open>plan_catalog.go\<close>), the plan gate
  (\<^verbatim>\<open>plan_gate.go\<close>), the module registry (\<^verbatim>\<open>module_handler.go\<close>), the configurable matrix of
  plans and features (\<^verbatim>\<open>plan_features_handler.go\<close>), the matrix of roles and features
  (\<^verbatim>\<open>feature_matrix.go\<close>, \<^verbatim>\<open>feature_matrix_handler.go\<close>), the rate limiter
  (\<^verbatim>\<open>rate_limit.go\<close>) and the checks of the generic table API (\<^verbatim>\<open>compat_handler.go\<close>).

  The state is a record of the registry tables, the two per-tenant caches of the gates, the counters
  in Redis and the clock, in nanoseconds. Every statement may fail: \<open>g_faults\<close> says which do.
  A Go map is an association list with distinct keys, or a partial function.
\<close>

subsection \<open>Plan catalogue\<close>

definition normalizePlanTier :: "string \<Rightarrow> string" where
  "normalizePlanTier plan =
     (let p = ToLower (TrimSpace plan) in
      if p = ''starter'' \<or> p = ''basic'' then ''basic''
      else if p = ''growth'' \<or> p = ''pro'' then ''pro''
      else if p = ''enterprise'' \<or> p = ''premium'' then ''premium''
      else ''basic'')"

record planTierSpec =
  pt_tier :: string
  pt_name :: string
  pt_description :: string
  pt_max_rooms :: "int option"
  pt_max_users :: "int option"
  pt_max_properties :: "int option"
  pt_roles :: "string list"
  pt_ai_addon :: bool
  pt_ai_text :: bool
  pt_ai_voice :: bool
  pt_ai_booking :: bool
  pt_db :: string

definition allOperationalRoles :: "string list" where
  "allOperationalRoles = [''hotel_admin'', ''property_manager'', ''receptionist'', ''housekeeping'', ''maintenance'',
     ''food_manager'', ''kitchen_manager'', ''waiter'', ''guest'']"

definition planTierSpecs :: "planTierSpec list" where
  "planTierSpecs = [
     \<lparr>pt_tier = ''basic'', pt_name = ''Basic'',
      pt_description = ''Starter hotel operations with limited rooms, users, and core roles.'',
      pt_max_rooms = Some 50, pt_max_users = Some 10, pt_max_properties = Some 1,
      pt_roles = [''hotel_admin'', ''receptionist'', ''housekeeping'', ''maintenance'', ''guest''],
      pt_ai_addon = False, pt_ai_text = False, pt_ai_voice = False, pt_ai_booking = False, pt_db = ''tenant_isolated''\<rparr>,
     \<lparr>pt_tier = ''pro'', pt_name = ''Pro'',
      pt_description = ''More rooms, staff seats, department portals, and AI text assistance.'',
      pt_max_rooms = Some 200, pt_max_users = Some 50, pt_max_properties = Some 3,
      pt_roles = allOperationalRoles,
      pt_ai_addon = True, pt_ai_text = True, pt_ai_voice = False, pt_ai_booking = False, pt_db = ''tenant_isolated''\<rparr>,
     \<lparr>pt_tier = ''premium'', pt_name = ''Premium'',
      pt_description = ''Unlimited hotel group scale with AI voice agent and AI-assisted bookings.'',
      pt_max_rooms = None, pt_max_users = None, pt_max_properties = None,
      pt_roles = allOperationalRoles,
      pt_ai_addon = True, pt_ai_text = True, pt_ai_voice = True, pt_ai_booking = True, pt_db = ''tenant_dedicated_db_ready''\<rparr>]"

definition planTierByID :: "string \<Rightarrow> planTierSpec" where
  "planTierByID plan =
     (case find (\<lambda>s. pt_tier s = normalizePlanTier plan) planTierSpecs of
        Some s \<Rightarrow> s | None \<Rightarrow> hd planTierSpecs)"

definition planRank :: "string \<Rightarrow> int" where
  "planRank plan =
     (let p = normalizePlanTier plan in if p = ''premium'' then 2 else if p = ''pro'' then 1 else 0)"

text \<open>\<^verbatim>\<open>deriveTenantDBName\<close>, and the same name in the settings of a new tenant.\<close>

definition trim_char :: "char \<Rightarrow> string \<Rightarrow> string" where
  "trim_char c s = rev (dropWhile (\<lambda>x. x = c) (rev (dropWhile (\<lambda>x. x = c) s)))"

definition deriveTenantDBName :: "string \<Rightarrow> string" where
  "deriveTenantDBName slug =
     (let db = trim_char (CHR ''_'') (map (\<lambda>c. if c = CHR ''-'' then CHR ''_'' else c) (ToLower (TrimSpace slug)))
      in (if db = [] then ''hotelops_tenant'' else db) @ ''_hotelops'')"

record planSettings =
  ps_max_rooms :: "int option"
  ps_max_users :: "int option"
  ps_max_properties :: "int option"
  ps_allowed_roles :: "string list"
  ps_ai_addon :: bool
  ps_ai_text_concierge :: bool
  ps_ai_voice_agent :: bool
  ps_ai_voice_booking :: bool
  ps_database_strategy :: string
  ps_database_name :: string
  ps_billing_plan_locked :: bool

definition settingsForPlanTier :: "string \<Rightarrow> string \<Rightarrow> planSettings" where
  "settingsForPlanTier plan slug =
     (let spec = planTierByID plan in
      \<lparr>ps_max_rooms = pt_max_rooms spec, ps_max_users = pt_max_users spec, ps_max_properties = pt_max_properties spec,
       ps_allowed_roles = pt_roles spec, ps_ai_addon = pt_ai_addon spec, ps_ai_text_concierge = pt_ai_text spec,
       ps_ai_voice_agent = pt_ai_voice spec, ps_ai_voice_booking = pt_ai_booking spec,
       ps_database_strategy = pt_db spec, ps_database_name = deriveTenantDBName slug, ps_billing_plan_locked = False\<rparr>)"

subsection \<open>Modules\<close>

record moduleDef =
  md_key :: string
  md_label :: string
  md_group :: string

abbreviation module where
  "module k l g \<equiv> \<lparr>md_key = k, md_label = l, md_group = g\<rparr>"

definition moduleRegistry :: "moduleDef list" where
  "moduleRegistry = [
     module ''dashboard'' ''Dashboard'' ''Operations'',
     module ''front_desk'' ''Front Desk'' ''Operations'',
     module ''reservations'' ''Reservations'' ''Operations'',
     module ''guests'' ''Guests'' ''Operations'',
     module ''housekeeping'' ''Housekeeping'' ''Operations'',
     module ''crm'' ''CRM & Loyalty'' ''Guest'',
     module ''pos'' ''POS & Restaurant'' ''F&B'',
     module ''restaurant'' ''Restaurant Mgmt'' ''F&B'',
     module ''menu_management'' ''Menu Management'' ''F&B'',
     module ''billing'' ''Billing'' ''Finance'',
     module ''revenue'' ''Revenue'' ''Finance'',
     module ''reports'' ''Reports'' ''Finance'',
     module ''inventory'' ''Inventory'' ''Supply'',
     module ''procurement'' ''Procurement'' ''Supply'',
     module ''maintenance'' ''Maintenance'' ''Supply'',
     module ''channel_manager'' ''Channel Manager'' ''Distribution'',
     module ''booking_engine'' ''Booking Engine'' ''Distribution'',
     module ''properties'' ''Properties'' ''Admin'',
     module ''users'' ''Users & Roles'' ''Admin'',
     module ''night_audit'' ''Night Audit'' ''Admin'',
     module ''admin'' ''Admin Panel'' ''Admin'',
     module ''accounting'' ''Accounting'' ''Operations'']"

abbreviation known_modules :: "string set" where
  "known_modules \<equiv> set (map md_key moduleRegistry)"

definition effectiveModules :: "(string \<rightharpoonup> bool) \<Rightarrow> string \<rightharpoonup> bool" where
  "effectiveModules stored = (\<lambda>k. if k \<in> known_modules then Some (case stored k of None \<Rightarrow> True | Some v \<Rightarrow> v) else None)"

definition moduleMinRank :: "string \<Rightarrow> int" where
  "moduleMinRank m = (if m \<in> {''revenue'', ''channel_manager'', ''procurement'', ''night_audit''} then 1 else 0)"

definition planFeatureDefault :: "string \<Rightarrow> string \<Rightarrow> bool" where
  "planFeatureDefault plan feature \<longleftrightarrow> moduleMinRank feature \<le> planRank plan"

definition included :: "string \<Rightarrow> (string \<rightharpoonup> bool) \<Rightarrow> string \<Rightarrow> bool" where
  "included plan overrides m = (case overrides m of None \<Rightarrow> planFeatureDefault plan m | Some v \<Rightarrow> v)"

definition effectivePlanFeatures :: "string \<Rightarrow> (string \<rightharpoonup> bool) \<Rightarrow> string \<rightharpoonup> bool" where
  "effectivePlanFeatures plan overrides = (\<lambda>k. if k \<in> known_modules then Some (included plan overrides k) else None)"

definition planAwareModules :: "(string \<rightharpoonup> bool) \<Rightarrow> string \<Rightarrow> (string \<rightharpoonup> bool) \<Rightarrow> string \<rightharpoonup> bool" where
  "planAwareModules stored plan overrides =
     foldl (\<lambda>eff m. if included plan overrides (md_key m) then eff else eff(md_key m \<mapsto> False)) (effectiveModules stored) moduleRegistry"

text \<open>\<^verbatim>\<open>json.Unmarshal\<close> of the \<^verbatim>\<open>modules\<close> column into a \<^verbatim>\<open>map[string]bool\<close>, its error ignored: a
  value that is not a boolean leaves the key with the zero value.\<close>

definition unmarshal_bools :: "json \<Rightarrow> string \<rightharpoonup> bool" where
  "unmarshal_bools j = (case j of JObj fs \<Rightarrow> map_option (\<lambda>v. as_bool (Some v)) \<circ> map_of fs | _ \<Rightarrow> Map.empty)"

subsection \<open>Paths\<close>

record featureRule =
  fr_module :: string
  fr_min_rank :: int

definition featureRules :: "(string \<times> featureRule) list" where
  "featureRules = map (\<lambda>(p, m, n). (p, \<lparr>fr_module = m, fr_min_rank = n\<rparr>)) [
     (''/revenue'', ''revenue'', 1),
     (''/channel'', ''channel_manager'', 1),
     (''/procurement'', ''procurement'', 1),
     (''/night-audit'', ''night_audit'', 1),
     (''/pos'', ''pos'', 0),
     (''/email'', [], 2),
     (''/sms'', [], 2),
     (''/accounting'', ''accounting'', 2),
     (''/dashboard'', ''dashboard'', 0),
     (''/rooms'', ''front_desk'', 0),
     (''/reservations'', ''reservations'', 0),
     (''/housekeeping'', ''housekeeping'', 0),
     (''/crm'', ''crm'', 0),
     (''/billing'', ''billing'', 0),
     (''/booking'', ''booking_engine'', 0),
     (''/maintenance'', ''maintenance'', 0)]"

definition governs :: "string \<Rightarrow> string \<Rightarrow> bool" where
  "governs prefix p \<longleftrightarrow> p = prefix \<or> HasPrefix p (prefix @ ''/'')"

text \<open>The loop over the map, whose order Go leaves open: \<open>rules\<close> is the order of this run.\<close>

definition best_prefix :: "(string \<times> featureRule) list \<Rightarrow> string \<Rightarrow> string" where
  "best_prefix rules p = foldl (\<lambda>best r. if governs (fst r) p \<and> length best < length (fst r) then fst r else best) [] rules"

definition ruleForPath :: "string \<Rightarrow> featureRule option" where
  "ruleForPath path = map_of featureRules (best_prefix featureRules (TrimPrefix path ''/api''))"

subsection \<open>State\<close>

record hotel_row =
  hr_id :: uuid
  hr_plan :: string
  hr_modules :: json

record planConf =
  pc_rank :: int
  pc_plan :: string
  pc_modules :: "string \<rightharpoonup> bool"
  pc_features :: "string \<rightharpoonup> bool"
  pc_exp :: int

record featureConf =
  fc_deny :: "string \<Rightarrow> string \<Rightarrow> bool"
  fc_exp :: int

record gworld =
  g_hotels :: "hotel_row list"
  g_plan_features :: "(string \<times> string \<times> bool) list"
  g_permissions :: "(uuid \<times> string \<times> string \<times> bool) list"
  g_plan :: "uuid \<rightharpoonup> planConf"
  g_feature :: "uuid \<rightharpoonup> featureConf"
  g_redis :: "string \<rightharpoonup> int \<times> int"
  g_jobs :: "uuid list"
  g_now :: int
  g_faults :: "bool list"

type_synonym 'a gate = "(gworld, 'a) state"

definition g_fault :: "bool gate" where
  "g_fault = State (\<lambda>w. case g_faults w of [] \<Rightarrow> (False, w) | b # bs \<Rightarrow> (b, w\<lparr>g_faults := bs\<rparr>))"

definition g_query :: "(gworld \<Rightarrow> 'a) \<Rightarrow> 'a option gate" where
  "g_query f = do { bad \<leftarrow> g_fault; w \<leftarrow> State_Monad.get; State_Monad.return (if bad then None else Some (f w)) }"

definition second :: int where "second = 1000000000"

definition planConfTTL :: int where "planConfTTL = 30 * second"

subsection \<open>The plan gate\<close>

definition plan_overrides :: "string \<Rightarrow> gworld \<Rightarrow> string \<rightharpoonup> bool" where
  "plan_overrides plan w = map_of (map snd (filter (\<lambda>r. fst r = plan) (g_plan_features w)))"

definition loadPlanFeatureOverrides :: "string \<Rightarrow> (string \<rightharpoonup> bool) gate" where
  "loadPlanFeatureOverrides plan = do {
     r \<leftarrow> g_query (plan_overrides plan);
     State_Monad.return (case r of None \<Rightarrow> Map.empty | Some m \<Rightarrow> m)
   }"

definition find_hotel :: "uuid \<Rightarrow> gworld \<Rightarrow> hotel_row option" where
  "find_hotel h w = find (\<lambda>r. hr_id r = h) (g_hotels w)"

definition load_plan :: "uuid \<Rightarrow> planConf option gate" where
  "load_plan h = do {
     r \<leftarrow> g_query (find_hotel h);
     case r of
       None \<Rightarrow> State_Monad.return None
     | Some None \<Rightarrow> State_Monad.return None
     | Some (Some row) \<Rightarrow> do {
         features \<leftarrow> loadPlanFeatureOverrides (normalizePlanTier (hr_plan row));
         w \<leftarrow> State_Monad.get;
         let c = \<lparr>pc_rank = planRank (hr_plan row), pc_plan = normalizePlanTier (hr_plan row),
                  pc_modules = effectiveModules (unmarshal_bools (hr_modules row)), pc_features = features,
                  pc_exp = g_now w + planConfTTL\<rparr>;
         State_Monad.set (w\<lparr>g_plan := (g_plan w)(h \<mapsto> c)\<rparr>);
         State_Monad.return (Some c)
       }
   }"

definition planGate_confFor :: "uuid \<Rightarrow> planConf option gate" where
  "planGate_confFor h = do {
     w \<leftarrow> State_Monad.get;
     case g_plan w h of
       Some c \<Rightarrow> if g_now w < pc_exp c then State_Monad.return (Some c) else load_plan h
     | None \<Rightarrow> load_plan h
   }"

definition planGate_invalidate :: "uuid \<Rightarrow> unit gate" where
  "planGate_invalidate h = State_Monad.update (\<lambda>w. w\<lparr>g_plan := (g_plan w)(h := None)\<rparr>)"

text \<open>The check of a module that the gate and the table API share: \<open>masked\<close> says whether the mask of
  the tenant counts.\<close>

definition module_check :: "bool \<Rightarrow> string \<Rightarrow> planConf \<Rightarrow> guard" where
  "module_check masked m conf =
     (if \<not> included (pc_plan conf) (pc_features conf) m
      then Refuse 403 ''this feature is not included in your plan; please upgrade your subscription''
      else if masked \<and> pc_modules conf m = Some False
      then Refuse 403 ''this module is disabled for your account''
      else Pass)"

definition planGate_handler :: "lib \<Rightarrow> string \<Rightarrow> ctx \<Rightarrow> guard gate" where
  "planGate_handler L secret c =
     (case ruleForPath (c_path c) of
        None \<Rightarrow> State_Monad.return Pass
      | Some rule \<Rightarrow>
          if isPlatformAdmin L secret c then State_Monad.return Pass
          else do {
            r \<leftarrow> planGate_confFor (tenantHotelID L c);
            State_Monad.return (case r of
              None \<Rightarrow> Pass
            | Some conf \<Rightarrow>
                if fr_module rule = []
                then (if pc_rank conf < fr_min_rank rule
                      then Refuse 403 ''this feature requires a higher plan tier; please upgrade your subscription''
                      else Pass)
                else module_check True (fr_module rule) conf)
          })"

subsection \<open>The feature-matrix gate\<close>

definition denied :: "uuid \<Rightarrow> gworld \<Rightarrow> string \<Rightarrow> string \<Rightarrow> bool" where
  "denied h w role feature = list_ex (\<lambda>(h', r, f, enabled). h' = h \<and> r = role \<and> f = feature \<and> \<not> enabled) (g_permissions w)"

definition featureGate_confFor :: "uuid \<Rightarrow> featureConf option gate" where
  "featureGate_confFor h = do {
     w \<leftarrow> State_Monad.get;
     let load = do {
       r \<leftarrow> g_query (denied h);
       case r of
         None \<Rightarrow> State_Monad.return None
       | Some deny \<Rightarrow> do {
           w' \<leftarrow> State_Monad.get;
           let c = \<lparr>fc_deny = deny, fc_exp = g_now w' + planConfTTL\<rparr>;
           State_Monad.set (w'\<lparr>g_feature := (g_feature w')(h \<mapsto> c)\<rparr>);
           State_Monad.return (Some c)
         }
     };
     case g_feature w h of
       Some c \<Rightarrow> if g_now w < fc_exp c then State_Monad.return (Some c) else load
     | None \<Rightarrow> load
   }"

definition featureGate_invalidate :: "uuid \<Rightarrow> unit gate" where
  "featureGate_invalidate h = State_Monad.update (\<lambda>w. w\<lparr>g_feature := (g_feature w)(h := None)\<rparr>)"

text \<open>The roles a token names, and whether any of them is allowed a feature.\<close>

definition named_roles :: "claims \<Rightarrow> string list" where
  "named_roles cl = (case raw_roles cl of None \<Rightarrow> [] | Some rs \<Rightarrow> filter (\<lambda>r. r \<noteq> []) (map (\<lambda>r. as_string (Some r)) rs))"

definition role_check :: "string list \<Rightarrow> string \<Rightarrow> featureConf \<Rightarrow> guard" where
  "role_check roles feature conf =
     (if list_ex (\<lambda>role. \<not> fc_deny conf role feature) roles then Pass
      else Refuse 403 ''this feature is not enabled for your role'')"

definition featureGate_handler :: "lib \<Rightarrow> string \<Rightarrow> ctx \<Rightarrow> guard gate" where
  "featureGate_handler L secret c =
     (case ruleForPath (c_path c) of
        None \<Rightarrow> State_Monad.return Pass
      | Some rule \<Rightarrow>
          if fr_module rule = [] then State_Monad.return Pass
          else case jwtClaimsFromRequest L secret c of
            None \<Rightarrow> State_Monad.return Pass
          | Some cl \<Rightarrow>
              if isPlatformAdmin L secret c then State_Monad.return Pass
              else if named_roles cl = [] then State_Monad.return Pass
              else do {
                r \<leftarrow> featureGate_confFor (tenantHotelID L c);
                State_Monad.return (case r of None \<Rightarrow> Pass | Some conf \<Rightarrow> role_check (named_roles cl) (fr_module rule) conf)
              })"

subsection \<open>The rate limiter\<close>

text \<open>The script of \<^verbatim>\<open>IncrementWithTTL\<close> on Redis: a key past its expiry counts as absent, the first
  increment sets the expiry. The clock of Redis is the one of the server, in milliseconds.\<close>

definition g_millis :: "gworld \<Rightarrow> int" where
  "g_millis w = g_now w div 1000000"

definition IncrementWithTTL :: "string \<Rightarrow> int \<Rightarrow> int option gate" where
  "IncrementWithTTL key ttl = do {
     bad \<leftarrow> g_fault;
     if bad then State_Monad.return None
     else do {
       w \<leftarrow> State_Monad.get;
       let (v, exp) = (case g_redis w key of
         Some (n, e) \<Rightarrow> if g_millis w < e then (n + 1, e) else (1, g_millis w + ttl div 1000000)
       | None \<Rightarrow> (1, g_millis w + ttl div 1000000));
       State_Monad.set (w\<lparr>g_redis := (g_redis w)(key \<mapsto> (v, exp))\<rparr>);
       State_Monad.return (Some v)
     }
   }"

definition TenantKey :: "string \<Rightarrow> string \<Rightarrow> string" where
  "TenantKey h suffix = ''t:'' @ h @ '':'' @ suffix"

definition planMinuteQuota :: "int \<rightharpoonup> int" where
  "planMinuteQuota = [0 \<mapsto> 300, 1 \<mapsto> 1200, 2 \<mapsto> 6000]"

definition rateWindow :: int where "rateWindow = 60 * second"

record rate_headers =
  rl_limit :: int
  rl_remaining :: int

text \<open>\<open>str\<close> is \<^verbatim>\<open>uuid.UUID.String\<close>.\<close>

definition minute_key :: "(uuid \<Rightarrow> string) \<Rightarrow> uuid \<Rightarrow> int \<Rightarrow> string" where
  "minute_key str h now = TenantKey (str h) (''ratelimit:'' @ show_int (now div second div 60))"

definition tenant_limit :: "planConf option \<Rightarrow> int" where
  "tenant_limit conf = (case conf of None \<Rightarrow> 300 | Some c \<Rightarrow> (case planMinuteQuota (pc_rank c) of None \<Rightarrow> 300 | Some q \<Rightarrow> q))"

definition clientRateLimit :: "lib \<Rightarrow> (uuid \<Rightarrow> string) \<Rightarrow> string \<Rightarrow> ctx \<Rightarrow> (guard \<times> rate_headers option) gate" where
  "clientRateLimit L str secret c =
     (if (case jwtClaimsFromRequest L secret c of None \<Rightarrow> False | Some cl \<Rightarrow> as_bool (map_of cl ''platform_admin''))
      then State_Monad.return (Pass, None)
      else do {
        let h = tenantHotelID L c;
        conf \<leftarrow> planGate_confFor h;
        w \<leftarrow> State_Monad.get;
        let limit = tenant_limit conf;
        r \<leftarrow> IncrementWithTTL (minute_key str h (g_now w)) rateWindow;
        State_Monad.return (case r of
          None \<Rightarrow> (Pass, None)
        | Some count \<Rightarrow>
            (if limit < count
             then Refuse 429 ''client request quota exceeded for this minute; please slow down or upgrade your plan'' else Pass,
             Some \<lparr>rl_limit = limit, rl_remaining = max 0 (limit - count)\<rparr>))
      })"

subsection \<open>The generic table API\<close>

definition compatWriteModule :: "string \<rightharpoonup> string" where
  "compatWriteModule = map_of [
     (''rooms'', ''front_desk''), (''guest_stays'', ''front_desk''), (''complaints'', ''crm''),
     (''menu_categories'', ''menu_management''), (''menu_items'', ''menu_management''),
     (''menu_item_customizations'', ''menu_management''), (''inventory_items'', ''inventory''),
     (''orders'', ''pos''), (''order_items'', ''pos''), (''payments'', ''billing''), (''payment_settings'', ''billing''),
     (''housekeeping_assignments'', ''housekeeping''), (''work_orders'', ''maintenance'')]"

definition enforceCompatWrite :: "lib \<Rightarrow> string \<Rightarrow> ctx \<Rightarrow> string \<Rightarrow> guard gate" where
  "enforceCompatWrite L secret c table =
     (case compatWriteModule table of
        None \<Rightarrow> State_Monad.return Pass
      | Some m \<Rightarrow>
          (case jwtClaimsFromRequest L secret c of
             None \<Rightarrow> State_Monad.return Pass
           | Some cl \<Rightarrow>
               if isPlatformAdmin L secret c then State_Monad.return Pass
               else do {
                 let h = hotelID L secret c;
                 r \<leftarrow> planGate_confFor h;
                 case (case r of None \<Rightarrow> Pass | Some conf \<Rightarrow> module_check True m conf) of
                   Refuse n msg \<Rightarrow> State_Monad.return (Refuse n msg)
                 | Pass \<Rightarrow>
                     if named_roles cl = [] then State_Monad.return Pass
                     else do {
                       rf \<leftarrow> featureGate_confFor h;
                       State_Monad.return (case rf of None \<Rightarrow> Pass | Some conf \<Rightarrow> role_check (named_roles cl) m conf)
                     }
               }))"

definition enforceCompatRead :: "lib \<Rightarrow> string \<Rightarrow> ctx \<Rightarrow> string \<Rightarrow> guard gate" where
  "enforceCompatRead L secret c table =
     (case compatWriteModule table of
        None \<Rightarrow> State_Monad.return Pass
      | Some m \<Rightarrow>
          (case jwtClaimsFromRequest L secret c of
             None \<Rightarrow> State_Monad.return Pass
           | Some cl \<Rightarrow>
               if isPlatformAdmin L secret c then State_Monad.return Pass
               else do {
                 r \<leftarrow> planGate_confFor (hotelID L secret c);
                 State_Monad.return (case r of None \<Rightarrow> Pass | Some conf \<Rightarrow> module_check False m conf)
               }))"

subsection \<open>The gates in the order of the router\<close>

definition staff_gates :: "lib \<Rightarrow> (uuid \<Rightarrow> string) \<Rightarrow> string \<Rightarrow> ctx \<Rightarrow> guard gate" where
  "staff_gates L str secret c0 =
     (case authGate L secret c0 of
        Inl g \<Rightarrow> State_Monad.return g
      | Inr c \<Rightarrow> do {
          rl \<leftarrow> clientRateLimit L str secret c;
          case fst rl of
            Refuse n msg \<Rightarrow> State_Monad.return (Refuse n msg)
          | Pass \<Rightarrow> do {
              pg \<leftarrow> planGate_handler L secret c;
              case pg of
                Refuse n msg \<Rightarrow> State_Monad.return (Refuse n msg)
              | Pass \<Rightarrow> featureGate_handler L secret c
            }
        })"

subsection \<open>Modules and matrices\<close>

datatype 'a answer = Answer 'a | Error nat string

definition g_guarded :: "guard \<Rightarrow> 'a answer gate \<Rightarrow> 'a answer gate" where
  "g_guarded g m = (case g of Pass \<Rightarrow> m | Refuse n msg \<Rightarrow> State_Monad.return (Error n msg))"

definition requirePlatformAdmin :: "lib \<Rightarrow> string \<Rightarrow> ctx \<Rightarrow> guard" where
  "requirePlatformAdmin L secret c =
     (case jwtClaimsFromRequest L secret c of
        None \<Rightarrow> Refuse 401 ''platform admin token is required''
      | Some cl \<Rightarrow>
          if as_bool (map_of cl ''platform_admin'') then Pass
          else case raw_roles cl of
            None \<Rightarrow> Refuse 403 ''platform admin role is required''
          | Some rs \<Rightarrow> if list_ex (\<lambda>r. as_string (Some r) = ''platform_admin'') rs then Pass
                       else Refuse 403 ''platform admin role is required'')"

definition requireTenant :: "uuid \<Rightarrow> 'a answer gate \<Rightarrow> 'a answer gate" where
  "requireTenant i m = do {
     r \<leftarrow> g_query (\<lambda>w. find_hotel i w \<noteq> None);
     case r of
       None \<Rightarrow> State_Monad.return (Error 500 ''failed to look up tenant'')
     | Some exists \<Rightarrow> if \<not> exists then State_Monad.return (Error 404 ''tenant not found'') else m
   }"

definition currentHotelID :: "lib \<Rightarrow> string \<Rightarrow> ctx \<Rightarrow> uuid" where
  "currentHotelID L secret c =
     (case jwtClaimsFromRequest L secret c of
        None \<Rightarrow> tenantHotelID L c
      | Some cl \<Rightarrow>
          (let raw = TrimSpace (as_string (map_of cl ''hotel_id''))
           in if raw = [] then tenantHotelID L c
              else case lib_uuid L raw of None \<Rightarrow> tenantHotelID L c | Some u \<Rightarrow> u))"

definition loadTenantModules :: "uuid \<Rightarrow> (string \<rightharpoonup> bool) option gate" where
  "loadTenantModules h = do {
     r \<leftarrow> g_query (find_hotel h);
     State_Monad.return (case r of Some (Some row) \<Rightarrow> Some (unmarshal_bools (hr_modules row)) | _ \<Rightarrow> None)
   }"

definition tenantPlan :: "uuid \<Rightarrow> string gate" where
  "tenantPlan h = do {
     r \<leftarrow> g_query (find_hotel h);
     State_Monad.return (case r of Some (Some row) \<Rightarrow> normalizePlanTier (hr_plan row) | _ \<Rightarrow> ''premium'')
   }"

definition TenantModules :: "lib \<Rightarrow> string \<Rightarrow> ctx \<Rightarrow> (string \<rightharpoonup> bool) answer gate" where
  "TenantModules L secret c = g_guarded (requireAuthenticatedRequest L secret c) (do {
     let h = currentHotelID L secret c;
     r \<leftarrow> loadTenantModules h;
     case r of
       None \<Rightarrow> State_Monad.return (Error 500 ''failed to load modules'')
     | Some stored \<Rightarrow> do {
         plan \<leftarrow> tenantPlan h;
         overrides \<leftarrow> loadPlanFeatureOverrides plan;
         State_Monad.return (Answer (planAwareModules stored plan overrides))
       }
   })"

definition g_param :: "lib \<Rightarrow> string \<Rightarrow> (uuid \<Rightarrow> 'a answer gate) \<Rightarrow> 'a answer gate" where
  "g_param L raw k = (case lib_uuid L raw of None \<Rightarrow> State_Monad.return (Error 400 ''invalid tenant id'') | Some i \<Rightarrow> k i)"

definition g_body :: "'r option \<Rightarrow> ('r \<Rightarrow> 'a answer gate) \<Rightarrow> 'a answer gate" where
  "g_body body k = (case body of None \<Rightarrow> State_Monad.return (Error 400 ''invalid request body'') | Some r \<Rightarrow> k r)"

definition PlatformTenantModules :: "lib \<Rightarrow> string \<Rightarrow> ctx \<Rightarrow> string \<Rightarrow> ((string \<rightharpoonup> bool) \<times> (string \<rightharpoonup> bool)) answer gate" where
  "PlatformTenantModules L secret c idp = g_guarded (requirePlatformAdmin L secret c) (g_param L idp (\<lambda>i. do {
     r \<leftarrow> loadTenantModules i;
     State_Monad.return (case r of None \<Rightarrow> Error 404 ''tenant not found''
       | Some stored \<Rightarrow> Answer (effectiveModules stored, stored))
   }))"

text \<open>\<^verbatim>\<open>go h.saveConfigSnapshot(id)\<close>: the snapshot of the tenant's configuration, taken in the
  background, is a job that has been started.\<close>

definition start_snapshot :: "uuid \<Rightarrow> unit gate" where
  "start_snapshot i = State_Monad.update (\<lambda>w. w\<lparr>g_jobs := g_jobs w @ [i]\<rparr>)"

text \<open>The body is a map, so its keys are distinct; \<open>json.Marshal\<close> of what is kept is the new column.\<close>

definition UpdatePlatformTenantModules ::
    "lib \<Rightarrow> string \<Rightarrow> ctx \<Rightarrow> string \<Rightarrow> (string \<times> bool) list option \<Rightarrow> ((string \<rightharpoonup> bool) \<times> (string \<rightharpoonup> bool)) answer gate" where
  "UpdatePlatformTenantModules L secret c idp body = g_guarded (requirePlatformAdmin L secret c) (g_param L idp (\<lambda>i. g_body body (\<lambda>modules. do {
     let clean = filter (\<lambda>kv. fst kv \<in> known_modules) modules;
     bad \<leftarrow> g_fault;
     if bad then State_Monad.return (Error 500 ''failed to update modules'')
     else do {
       State_Monad.update (\<lambda>w. w\<lparr>g_hotels := map (\<lambda>r. if hr_id r = i
         then r\<lparr>hr_modules := JObj (map (\<lambda>(k, v). (k, JBool v)) clean)\<rparr> else r) (g_hotels w)\<rparr>);
       _ \<leftarrow> start_snapshot i;
       State_Monad.return (Answer (effectiveModules (map_of clean), map_of clean))
     }
   })))"

text \<open>A transaction on the registry: the tables are restored when its body or the commit fails.\<close>

definition g_tx :: "nat \<times> string \<Rightarrow> nat \<times> string \<Rightarrow> bool gate \<Rightarrow> 'a answer gate \<Rightarrow> 'a answer gate" where
  "g_tx fail_body fail_commit body k = do {
     bad \<leftarrow> g_fault;
     if bad then State_Monad.return (Error (fst fail_body) (snd fail_body))
     else do {
       w0 \<leftarrow> State_Monad.get;
       ok \<leftarrow> body;
       let undo = State_Monad.update (\<lambda>w. w\<lparr>g_plan_features := g_plan_features w0, g_permissions := g_permissions w0\<rparr>);
       if \<not> ok then do { undo; State_Monad.return (Error (fst fail_body) (snd fail_body)) }
       else do {
         bad' \<leftarrow> g_fault;
         if bad' then do { undo; State_Monad.return (Error (fst fail_commit) (snd fail_commit)) } else k
       }
     }
   }"

definition g_exec :: "(gworld \<Rightarrow> gworld) \<Rightarrow> bool gate" where
  "g_exec f = do {
     bad \<leftarrow> g_fault;
     if bad then State_Monad.return False else do { State_Monad.update f; State_Monad.return True }
   }"

primrec all_ok :: "bool gate list \<Rightarrow> bool gate" where
  "all_ok [] = State_Monad.return True"
| "all_ok (m # ms) = do { ok \<leftarrow> m; if ok then all_ok ms else State_Monad.return False }"

definition planTierOrder :: "string list" where
  "planTierOrder = [''basic'', ''pro'', ''premium'']"

fun plan_matrix :: "string list \<Rightarrow> (string \<times> (string \<rightharpoonup> bool)) list gate" where
  "plan_matrix [] = State_Monad.return []"
| "plan_matrix (p # ps) = do {
     o' \<leftarrow> loadPlanFeatureOverrides p;
     rest \<leftarrow> plan_matrix ps;
     State_Monad.return ((p, effectivePlanFeatures p o') # rest)
   }"

definition PlatformPlanFeatures :: "lib \<Rightarrow> string \<Rightarrow> ctx \<Rightarrow> (string \<times> (string \<rightharpoonup> bool)) list answer gate" where
  "PlatformPlanFeatures L secret c = g_guarded (requirePlatformAdmin L secret c) (do {
     m \<leftarrow> plan_matrix planTierOrder;
     State_Monad.return (Answer m)
   })"

definition upsert_feature :: "string \<Rightarrow> string \<Rightarrow> bool \<Rightarrow> gworld \<Rightarrow> gworld" where
  "upsert_feature plan feature enabled w = w\<lparr>g_plan_features :=
     (if list_ex (\<lambda>r. fst r = plan \<and> fst (snd r) = feature) (g_plan_features w)
      then map (\<lambda>r. if fst r = plan \<and> fst (snd r) = feature then (plan, feature, enabled) else r) (g_plan_features w)
      else g_plan_features w @ [(plan, feature, enabled)])\<rparr>"

type_synonym matrix = "(string \<times> (string \<times> bool) list) list"

definition matrix_cells :: "string set \<Rightarrow> matrix \<Rightarrow> (string \<times> string \<times> bool) list" where
  "matrix_cells rows m = concat (map (\<lambda>(r, fs). map (\<lambda>(f, v). (r, f, v)) (filter (\<lambda>fv. fst fv \<in> known_modules) fs))
     (filter (\<lambda>rf. fst rf \<in> rows) m))"

definition UpdatePlatformPlanFeatures :: "lib \<Rightarrow> string \<Rightarrow> ctx \<Rightarrow> matrix option \<Rightarrow> (string \<times> (string \<rightharpoonup> bool)) list answer gate" where
  "UpdatePlatformPlanFeatures L secret c body = g_guarded (requirePlatformAdmin L secret c) (g_body body (\<lambda>m.
     g_tx (500, ''failed to update plan features'') (500, ''failed to commit plan features'')
       (all_ok (map (\<lambda>(plan, feature, enabled). g_exec (upsert_feature plan feature enabled)) (matrix_cells (set planTierOrder) m)))
       (do { x \<leftarrow> plan_matrix planTierOrder; State_Monad.return (Answer x) })))"

definition effectiveMatrix :: "(string \<Rightarrow> string \<Rightarrow> bool) \<Rightarrow> string \<Rightarrow> string \<rightharpoonup> bool" where
  "effectiveMatrix deny = (\<lambda>role feature.
     if role \<in> set allOperationalRoles \<and> feature \<in> known_modules then Some (\<not> deny role feature) else None)"

definition PlatformTenantFeatureMatrix :: "lib \<Rightarrow> string \<Rightarrow> ctx \<Rightarrow> string \<Rightarrow> (string \<Rightarrow> string \<rightharpoonup> bool) answer gate" where
  "PlatformTenantFeatureMatrix L secret c idp = g_guarded (requirePlatformAdmin L secret c) (g_param L idp (\<lambda>i. requireTenant i (do {
     r \<leftarrow> g_query (denied i);
     State_Monad.return (case r of None \<Rightarrow> Error 500 ''failed to load feature matrix'' | Some deny \<Rightarrow> Answer (effectiveMatrix deny))
   })))"

definition set_permission :: "uuid \<Rightarrow> string \<Rightarrow> string \<Rightarrow> bool \<Rightarrow> gworld \<Rightarrow> gworld" where
  "set_permission h role feature enabled w =
     (let rest = filter (\<lambda>(h', r, f, _). \<not> (h' = h \<and> r = role \<and> f = feature)) (g_permissions w)
      in w\<lparr>g_permissions := if enabled then rest else rest @ [(h, role, feature, False)]\<rparr>)"

definition UpdatePlatformTenantFeatureMatrix ::
    "lib \<Rightarrow> string \<Rightarrow> ctx \<Rightarrow> string \<Rightarrow> matrix option \<Rightarrow> (string \<Rightarrow> string \<rightharpoonup> bool) answer gate" where
  "UpdatePlatformTenantFeatureMatrix L secret c idp body = g_guarded (requirePlatformAdmin L secret c) (g_param L idp (\<lambda>i.
     requireTenant i (g_body body (\<lambda>m.
       g_tx (500, ''failed to update feature matrix'') (500, ''failed to update feature matrix'')
         (all_ok (map (\<lambda>(role, feature, enabled). g_exec (set_permission i role feature enabled)) (matrix_cells (set allOperationalRoles) m)))
         (do {
            _ \<leftarrow> featureGate_invalidate i;
            r \<leftarrow> g_query (denied i);
            case r of
              None \<Rightarrow> State_Monad.return (Error 500 ''failed to reload feature matrix'')
            | Some deny \<Rightarrow> do { _ \<leftarrow> start_snapshot i; State_Monad.return (Answer (effectiveMatrix deny)) }
          })))))"

end
