(* ===== verification/Plans.thy ===== *)
theory Plans
  imports Gates "HOL-Library.Multiset"
begin

text \<open>
  What the plan gate guarantees: the rule of a path does not depend on the order in which Go walks a map,
  and the modules a portal shows are those the gate lets through. The caches of the gates over time are in
  \<open>Caches\<close>, the matrix of roles in \<open>Matrix\<close>, the rate limiter in \<open>Quota\<close>.
\<close>

subsection \<open>Rules of paths\<close>

lemma governs_take: "governs prefix p \<Longrightarrow> take (length prefix) p = prefix"
  by (auto simp: governs_def HasPrefix_iff)

definition longest :: "(string \<times> featureRule) list \<Rightarrow> string \<Rightarrow> nat" where
  "longest rules p = Max (insert 0 ((\<lambda>r. length (fst r)) ` {r \<in> set rules. governs (fst r) p}))"

lemma longest_Nil [simp]: "longest [] p = 0"
  by (simp add: longest_def)

lemma longest_snoc: "longest (rules @ [r]) p = (if governs (fst r) p then max (length (fst r)) (longest rules p) else longest rules p)"
proof -
  have "{x \<in> set (rules @ [r]). governs (fst x) p} =
      (if governs (fst r) p then insert r {x \<in> set rules. governs (fst x) p} else {x \<in> set rules. governs (fst x) p})"
    by auto
  moreover have "Max (insert 0 (insert a S)) = max a (Max (insert 0 S))" if "finite S" for a :: nat and S
  proof -
    have "Max (insert a (insert 0 S)) = max a (Max (insert 0 S))" using that by (simp add: Max_insert)
    then show ?thesis by (metis insert_commute)
  qed
  moreover have "finite ((\<lambda>r. length (fst r)) ` {x \<in> set rules. governs (fst x) p})" by simp
  ultimately show ?thesis unfolding longest_def by (cases "governs (fst r) p") (simp_all only: if_True if_False image_insert)
qed

lemma best_prefix_take: "best_prefix rules p = take (longest rules p) p \<and> length (best_prefix rules p) = longest rules p"
proof (induction rules rule: rev_induct)
  case Nil
  show ?case by (simp add: best_prefix_def)
next
  case (snoc r rules)
  have step: "best_prefix (rules @ [r]) p = (if governs (fst r) p \<and> length (best_prefix rules p) < length (fst r) then fst r else best_prefix rules p)"
    by (simp add: best_prefix_def)
  show ?case
    using snoc.IH governs_take [of "fst r" p] unfolding step longest_snoc by (auto simp: max_def)
qed

lemma best_prefix_perm: "mset rules = mset rules' \<Longrightarrow> best_prefix rules p = best_prefix rules' p"
  using best_prefix_take by (simp add: longest_def mset_eq_setD [of rules rules'])

lemma distinct_featureRules: "distinct (map fst featureRules)"
  by code_simp

lemma featureRules_nonempty: "p \<in> fst ` set featureRules \<Longrightarrow> p \<noteq> []"
  by (auto simp: featureRules_def)

lemma best_prefix_rule:
  assumes "(p, r) \<in> set rules" "governs p q" "p \<noteq> []"
  shows "\<exists>p' r'. (p', r') \<in> set rules \<and> governs p' q \<and> best_prefix rules q = p' \<and> (\<forall>x \<in> set rules. governs (fst x) q \<longrightarrow> length (fst x) \<le> length p')"
proof -
  let ?G = "{r \<in> set rules. governs (fst r) q}"
  let ?L = "(\<lambda>r. length (fst r)) ` ?G"
  have fin: "finite ?L" and ne: "?L \<noteq> {}" using assms(1,2) by auto
  have M: "Max ?L \<in> ?L" by (rule Max_in [OF fin ne])
  then obtain x where x: "x \<in> set rules" "governs (fst x) q" "length (fst x) = Max ?L" by auto
  have "longest rules q = Max ?L" unfolding longest_def using fin ne by (simp add: Max_insert)
  then have "best_prefix rules q = fst x" using best_prefix_take [of rules q] governs_take [OF x(2)] x(3) by simp
  moreover have "length (fst y) \<le> length (fst x)" if "y \<in> set rules" "governs (fst y) q" for y
    using that fin x(3) by (simp add: Max_ge)
  ultimately show ?thesis using x(1,2) by (intro exI [of _ "fst x"] exI [of _ "snd x"]) auto
qed



subsection \<open>Reading the gates\<close>

lemma run_g_fault: "g_faults w = [] \<Longrightarrow> run_state g_fault w = (False, w)"
  by (simp add: g_fault_def)

lemma run_g_query: "g_faults w = [] \<Longrightarrow> run_state (g_query f) w = (Some (f w), w)"
  by (simp add: g_query_def run_state_bind run_g_fault)

lemma run_loadPlanFeatureOverrides: "g_faults w = [] \<Longrightarrow> run_state (loadPlanFeatureOverrides p) w = (plan_overrides p w, w)"
  by (simp add: loadPlanFeatureOverrides_def run_state_bind run_g_query)

lemmas gate_runs = run_g_fault run_g_query run_loadPlanFeatureOverrides run_state_bind

text \<open>What the tables say of a tenant, and the decision a gate without a cache would take on them.\<close>

definition derived_plan :: "hotel_row \<Rightarrow> (string \<rightharpoonup> bool) \<Rightarrow> int \<Rightarrow> planConf" where
  "derived_plan row features now = \<lparr>pc_rank = planRank (hr_plan row), pc_plan = normalizePlanTier (hr_plan row),
     pc_modules = effectiveModules (unmarshal_bools (hr_modules row)), pc_features = features, pc_exp = now + planConfTTL\<rparr>"

definition plan_decision :: "featureRule \<Rightarrow> planConf \<Rightarrow> guard" where
  "plan_decision rule conf =
     (if fr_module rule = []
      then (if pc_rank conf < fr_min_rank rule
            then Refuse 403 ''this feature requires a higher plan tier; please upgrade your subscription'' else Pass)
      else module_check True (fr_module rule) conf)"

definition plan_verdict :: "lib \<Rightarrow> string \<Rightarrow> ctx \<Rightarrow> gworld \<Rightarrow> guard" where
  "plan_verdict L secret c w =
     (case ruleForPath (c_path c) of
        None \<Rightarrow> Pass
      | Some rule \<Rightarrow>
          if isPlatformAdmin L secret c then Pass
          else case find_hotel (tenantHotelID L c) w of
            None \<Rightarrow> Pass
          | Some row \<Rightarrow> plan_decision rule (derived_plan row (plan_overrides (normalizePlanTier (hr_plan row)) w) 0))"

lemma plan_decision_exp: "plan_decision rule (derived_plan row f t) = plan_decision rule (derived_plan row f t')"
  by (simp add: plan_decision_def derived_plan_def module_check_def)

lemma run_load_plan:
  assumes "g_faults w = []"
  shows "run_state (load_plan h) w =
    (case find_hotel h w of
       None \<Rightarrow> (None, w)
     | Some row \<Rightarrow> (let c = derived_plan row (plan_overrides (normalizePlanTier (hr_plan row)) w) (g_now w)
                    in (Some c, w\<lparr>g_plan := (g_plan w)(h \<mapsto> c)\<rparr>)))"
  using assms by (simp add: load_plan_def gate_runs derived_plan_def Let_def split: option.splits)

lemma planGate_handler_conf:
  "fst (run_state (planGate_handler L secret c) w) =
     (case ruleForPath (c_path c) of
        None \<Rightarrow> Pass
      | Some rule \<Rightarrow>
          if isPlatformAdmin L secret c then Pass
          else case fst (run_state (planGate_confFor (tenantHotelID L c)) w) of
            None \<Rightarrow> Pass | Some conf \<Rightarrow> plan_decision rule conf)"
  by (simp add: planGate_handler_def plan_decision_def run_state_bind split: option.splits prod.splits)

subsection \<open>The modules a portal shows\<close>

lemma planAwareModules_foldl:
  "foldl (\<lambda>eff m. if included plan ov (md_key m) then eff else eff(md_key m \<mapsto> False)) eff ms k =
     (if k \<in> set (map md_key ms) \<and> \<not> included plan ov k then Some False else eff k)"
  by (induction ms arbitrary: eff) auto

lemma planAwareModules_apply:
  "planAwareModules stored plan ov k =
     (if k \<in> known_modules then Some (included plan ov k \<and> stored k \<noteq> Some False) else None)"
  unfolding planAwareModules_def planAwareModules_foldl by (auto simp: effectiveModules_def split: option.splits)

lemma module_check_Pass:
  "module_check True m conf = Pass \<longleftrightarrow> included (pc_plan conf) (pc_features conf) m \<and> pc_modules conf m \<noteq> Some False"
  by (simp add: module_check_def)

lemma featureRules_known: "(p, r) \<in> set featureRules \<Longrightarrow> fr_module r \<noteq> [] \<Longrightarrow> fr_module r \<in> known_modules"
proof -
  have "list_all (\<lambda>x. fr_module (snd x) = [] \<or> fr_module (snd x) \<in> known_modules) featureRules" by code_simp
  then show "(p, r) \<in> set featureRules \<Longrightarrow> fr_module r \<noteq> [] \<Longrightarrow> fr_module r \<in> known_modules"
    by (auto simp: list_all_iff)
qed

lemma ruleForPath_known: "ruleForPath path = Some r \<Longrightarrow> fr_module r \<noteq> [] \<Longrightarrow> fr_module r \<in> known_modules"
  unfolding ruleForPath_def using map_of_SomeD featureRules_known by metis

lemma authGate_tenant:
  assumes "authGate L secret c0 = Inr c"
  shows "requireAuthenticatedRequest L secret c = Pass" "currentHotelID L secret c = tenantHotelID L c"
proof -
  obtain cl where cl: "jwtClaimsFromRequest L secret c0 = Some cl" "jwtClaimsFromRequest L secret c = Some cl"
    and c: "TrimSpace (as_string (map_of cl ''hotel_id'')) \<noteq> [] \<Longrightarrow> map_of (c_locals c) ''hotel_id'' = Some (as_string (map_of cl ''hotel_id''))"
    using assms by (auto simp: authGate_def map_of_set_local split: option.splits)
  show "requireAuthenticatedRequest L secret c = Pass" using cl by (simp add: requireAuthenticatedRequest_def)
  show "currentHotelID L secret c = tenantHotelID L c"
    using cl c by (auto simp: currentHotelID_def tenantHotelID_def Let_def split: option.splits)
qed

text \<open>C34: What the portal shows is what the gate lets through: on a registry that answers, the map of
  modules the portal asks for says that a module is on exactly when the requests under the module's
  paths pass the plan gate.\<close>

theorem nav_matches_gate:
  assumes "authGate L secret c0 = Inr c" "\<not> isPlatformAdmin L secret c"
    and "g_faults w = []" "g_plan w (tenantHotelID L c) = None" "find_hotel (tenantHotelID L c) w \<noteq> None"
    and "ruleForPath (c_path c) = Some rule" "fr_module rule \<noteq> []"
  shows "\<exists>shown. run_state (TenantModules L secret c) w = (Answer shown, w) \<and>
    shown (fr_module rule) = Some (fst (run_state (planGate_handler L secret c) w) = Pass)"
proof -
  obtain row where row: "find_hotel (tenantHotelID L c) w = Some row" using assms(5) by auto
  let ?ov = "plan_overrides (normalizePlanTier (hr_plan row)) w"
  let ?stored = "unmarshal_bools (hr_modules row)"
  have conf: "fst (run_state (planGate_confFor (tenantHotelID L c)) w) = Some (derived_plan row ?ov (g_now w))"
    using assms(3,4) row by (simp add: planGate_confFor_def run_state_bind run_load_plan Let_def)
  have shown: "run_state (TenantModules L secret c) w = (Answer (planAwareModules ?stored (normalizePlanTier (hr_plan row)) ?ov), w)"
    using assms(3) authGate_tenant [OF assms(1)] row
    by (simp add: TenantModules_def g_guarded_def loadTenantModules_def tenantPlan_def gate_runs Let_def)
  have known: "fr_module rule \<in> known_modules" using ruleForPath_known assms(6,7) by blast
  then have "planAwareModules ?stored (normalizePlanTier (hr_plan row)) ?ov (fr_module rule) =
      Some (plan_decision rule (derived_plan row ?ov (g_now w)) = Pass)"
    using assms(7) unfolding planAwareModules_apply plan_decision_def
    by (auto simp: module_check_Pass derived_plan_def effectiveModules_def split: option.splits)
  then show ?thesis using shown conf assms(2,6) by (simp add: planGate_handler_conf)
qed
text \<open>A registry with a hotel on the basic plan, and a request of its receptionist.\<close>

definition gate_lib :: lib where
  "gate_lib = \<lparr>lib_jwt = \<lambda>s t. if t = ''tok'' then Some [(''hotel_id'', JStr ''7''), (''roles'', JArr [JStr ''receptionist''])]
       else if t = ''root'' then Some [(''platform_admin'', JBool True)] else None,
     lib_uuid = \<lambda>s. if list_all is_digit s \<and> s \<noteq> [] then Some (digits_val s) else None\<rparr>"

definition gate_ctx :: "string \<Rightarrow> ctx" where
  "gate_ctx path = \<lparr>c_authorization = ''Bearer tok'', c_cookie = [], c_branch_header = [], c_path = path,
     c_locals = [(''hotel_id'', ''7'')]\<rparr>"

definition root_ctx :: ctx where
  "root_ctx = \<lparr>c_authorization = ''Bearer root'', c_cookie = [], c_branch_header = [], c_path = ''/api/platform'', c_locals = []\<rparr>"

definition basic_world :: gworld where
  "basic_world = \<lparr>g_hotels = [\<lparr>hr_id = 7, hr_plan = ''Starter'', hr_modules = JObj [(''crm'', JBool False)]\<rparr>],
     g_plan_features = [], g_permissions = [], g_plan = Map.empty, g_feature = Map.empty, g_redis = Map.empty, g_jobs = [],
     g_now = 0, g_faults = []\<rparr>"

theorem nav_matches_gate_witness:
  "\<exists>c shown. authGate gate_lib ''secret'' (gate_ctx ''/api/revenue/today'') = Inr c \<and>
     run_state (TenantModules gate_lib ''secret'' c) basic_world = (Answer shown, basic_world) \<and>
     shown ''revenue'' = Some (fst (run_state (planGate_handler gate_lib ''secret'' c) basic_world) = Pass) \<and>
     fst (run_state (planGate_handler gate_lib ''secret'' c) basic_world) \<noteq> Pass"
proof -
  let ?c = "projr (authGate gate_lib ''secret'' (gate_ctx ''/api/revenue/today''))"
  have c: "authGate gate_lib ''secret'' (gate_ctx ''/api/revenue/today'') = Inr ?c"
    "\<not> isPlatformAdmin gate_lib ''secret'' ?c" "tenantHotelID gate_lib ?c = 7"
    "ruleForPath (c_path ?c) = Some \<lparr>fr_module = ''revenue'', fr_min_rank = 1\<rparr>"
    "fst (run_state (planGate_handler gate_lib ''secret'' ?c) basic_world) \<noteq> Pass" by code_simp+
  have w: "g_faults basic_world = []" "g_plan basic_world 7 = None" "find_hotel 7 basic_world \<noteq> None"
    by (simp_all add: basic_world_def find_hotel_def)
  show ?thesis
    using nav_matches_gate [of gate_lib "''secret''" "gate_ctx ''/api/revenue/today''" ?c basic_world "\<lparr>fr_module = ''revenue'', fr_min_rank = 1\<rparr>"] c w
    by auto
qed
end
