(* ===== verification/Caches.thy ===== *)
theory Caches
  imports Plans
begin

text \<open>
  The two per-tenant caches of the gates over time. A run of the server is a sequence of registries, one
  step per request or change of the registry, the latest first. Both caches keep what they read for
  thirty seconds: a locale states that contract once and is interpreted for the plan gate and for the
  feature-matrix gate.
\<close>

subsection \<open>What a request does to the registry and the caches\<close>

definition plan_loaded :: "uuid \<Rightarrow> gworld \<Rightarrow> planConf \<Rightarrow> bool" where
  "plan_loaded h w c \<longleftrightarrow> (\<exists>row f. find_hotel h w = Some row \<and> c = derived_plan row f (g_now w) \<and>
     (f = plan_overrides (normalizePlanTier (hr_plan row)) w \<or> g_faults w \<noteq> []))"

definition feature_loaded :: "uuid \<Rightarrow> gworld \<Rightarrow> featureConf \<Rightarrow> bool" where
  "feature_loaded h w c \<longleftrightarrow> c = \<lparr>fc_deny = denied h w, fc_exp = g_now w + planConfTTL\<rparr>"

definition same_registry :: "gworld \<Rightarrow> gworld \<Rightarrow> bool" where
  "same_registry w w' \<longleftrightarrow> g_hotels w' = g_hotels w \<and> g_plan_features w' = g_plan_features w \<and>
     g_permissions w' = g_permissions w \<and> g_now w' = g_now w \<and> (g_faults w = [] \<longrightarrow> g_faults w' = [])"

lemma same_registry_refl [simp]: "same_registry w w"
  by (simp add: same_registry_def)

lemma same_registry_trans: "same_registry w w1 \<Longrightarrow> same_registry w1 w2 \<Longrightarrow> same_registry w w2"
  by (auto simp: same_registry_def)

lemma same_registry_tables:
  assumes "same_registry w w'"
  shows "find_hotel h w' = find_hotel h w" "plan_overrides p w' = plan_overrides p w" "denied h w' = denied h w" "g_now w' = g_now w"
  using assms by (auto simp: same_registry_def find_hotel_def plan_overrides_def denied_def fun_eq_iff)

lemma plan_loaded_back: "same_registry w w' \<Longrightarrow> plan_loaded h w' c \<Longrightarrow> plan_loaded h w c"
  by (auto simp: plan_loaded_def same_registry_tables) (auto simp: same_registry_def)

lemma feature_loaded_back: "same_registry w w' \<Longrightarrow> feature_loaded h w' c \<Longrightarrow> feature_loaded h w c"
  by (simp add: feature_loaded_def same_registry_tables)

definition caches_from :: "gworld \<Rightarrow> gworld \<Rightarrow> bool" where
  "caches_from w w' \<longleftrightarrow>
     (\<forall>h c. g_plan w' h = Some c \<longrightarrow> g_plan w h = Some c \<or> plan_loaded h w c) \<and>
     (\<forall>h c. g_feature w' h = Some c \<longrightarrow> g_feature w h = Some c \<or> feature_loaded h w c)"

lemma caches_from_refl [simp]: "caches_from w w"
  by (simp add: caches_from_def)

lemma caches_from_trans:
  "same_registry w w1 \<Longrightarrow> caches_from w w1 \<Longrightarrow> caches_from w1 w2 \<Longrightarrow> caches_from w w2"
  unfolding caches_from_def using plan_loaded_back [of w w1] feature_loaded_back [of w w1] by blast

text \<open>A computation that only reads the registry, and fills the caches from it.\<close>

definition reads :: "'a gate \<Rightarrow> bool" where
  "reads m \<longleftrightarrow> (\<forall>w. same_registry w (snd (run_state m w)) \<and> caches_from w (snd (run_state m w)))"

named_theorems reads_intros \<open>rules for computations that only read the registry\<close>

lemma reads_return [reads_intros]: "reads (State_Monad.return x)"
  by (simp add: reads_def)

lemma reads_get [reads_intros]: "reads State_Monad.get"
  by (simp add: reads_def)

lemma reads_bind [reads_intros]:
  assumes "reads m" "\<And>x. reads (f x)"
  shows "reads (State_Monad.bind m f)"
proof -
  have "same_registry w (snd (run_state (State_Monad.bind m f) w)) \<and> caches_from w (snd (run_state (State_Monad.bind m f) w))" for w
  proof -
    obtain x w1 where m: "run_state m w = (x, w1)" by fastforce
    have a: "same_registry w w1" "caches_from w w1" using assms(1) [unfolded reads_def, THEN spec, of w] m by simp_all
    have b: "same_registry w1 (snd (run_state (f x) w1))" "caches_from w1 (snd (run_state (f x) w1))"
      using assms(2) [of x, unfolded reads_def] by blast+
    show ?thesis using same_registry_trans [OF a(1) b(1)] caches_from_trans [OF a b(2)] by (simp add: run_state_bind m)
  qed
  then show ?thesis by (simp add: reads_def)
qed

lemma reads_option [reads_intros]: "reads a \<Longrightarrow> (\<And>x. reads (f x)) \<Longrightarrow> reads (case x of None \<Rightarrow> a | Some x \<Rightarrow> f x)"
  by (simp split: option.splits)

lemma reads_guard [reads_intros]: "reads a \<Longrightarrow> (\<And>n m. reads (f n m)) \<Longrightarrow> reads (case x of Pass \<Rightarrow> a | Refuse n m \<Rightarrow> f n m)"
  by (simp split: guard.splits)

lemma reads_sum [reads_intros]: "(\<And>x. reads (f x)) \<Longrightarrow> (\<And>x. reads (g x)) \<Longrightarrow> reads (case x of Inl x \<Rightarrow> f x | Inr x \<Rightarrow> g x)"
  by (simp split: sum.splits)

lemma reads_if [reads_intros]: "reads a \<Longrightarrow> reads b \<Longrightarrow> reads (if p then a else b)"
  by simp

lemma reads_let [reads_intros]: "(\<And>x. reads (f x)) \<Longrightarrow> reads (let x = e in f x)"
  by simp

text \<open>The next statement fails.\<close>

definition struck :: "gworld \<Rightarrow> bool" where
  "struck w \<longleftrightarrow> g_faults w \<noteq> [] \<and> hd (g_faults w)"

abbreviation tick_fault :: "gworld \<Rightarrow> gworld" where
  "tick_fault w \<equiv> w\<lparr>g_faults := tl (g_faults w)\<rparr>"

lemma run_fault: "run_state g_fault w = (struck w, tick_fault w)"
  by (cases "g_faults w") (simp_all add: g_fault_def struck_def)

lemma run_query_any: "run_state (g_query f) w = (if struck w then None else Some (f (tick_fault w)), tick_fault w)"
  by (simp add: g_query_def run_state_bind run_fault)

lemma run_overrides_any:
  "run_state (loadPlanFeatureOverrides p) w = (if struck w then Map.empty else plan_overrides p w, tick_fault w)"
  by (simp add: loadPlanFeatureOverrides_def run_state_bind run_query_any plan_overrides_def)

lemma tick_fault_registry: "same_registry w (tick_fault w)" "caches_from w (tick_fault w)"
  by (simp_all add: same_registry_def caches_from_def)

lemma reads_query [reads_intros]: "reads (g_query f)"
  by (simp add: reads_def run_query_any tick_fault_registry)

lemma reads_overrides [reads_intros]: "reads (loadPlanFeatureOverrides p)"
  by (simp add: reads_def run_overrides_any tick_fault_registry)

lemma find_hotel_fault [simp]: "find_hotel h (w\<lparr>g_faults := fs\<rparr>) = find_hotel h w"
  by (simp add: find_hotel_def)

lemma denied_fault [simp]: "denied h (w\<lparr>g_faults := fs\<rparr>) = denied h w"
  by (simp add: denied_def fun_eq_iff)

lemma plan_overrides_fault [simp]: "plan_overrides p (w\<lparr>g_faults := fs\<rparr>) = plan_overrides p w"
  by (simp add: plan_overrides_def)

lemma load_plan_any:
  "run_state (load_plan h) w =
     (case (if struck w then None else find_hotel h w) of
        None \<Rightarrow> (None, tick_fault w)
      | Some row \<Rightarrow>
          (let c = derived_plan row (if struck (tick_fault w) then Map.empty else plan_overrides (normalizePlanTier (hr_plan row)) w) (g_now w)
           in (Some c, (tick_fault (tick_fault w))\<lparr>g_plan := (g_plan w)(h \<mapsto> c)\<rparr>)))"
  by (simp add: load_plan_def run_state_bind run_query_any run_overrides_any derived_plan_def Let_def split: option.splits)

lemma struck_tick: "struck (tick_fault w) \<Longrightarrow> g_faults w \<noteq> []"
  by (auto simp: struck_def)

lemma load_plan_loaded: "fst (run_state (load_plan h) w) = Some c \<Longrightarrow> plan_loaded h w c"
  using struck_tick [of w] by (auto simp: load_plan_any plan_loaded_def Let_def split: option.splits if_splits)

lemma reads_load_plan [reads_intros]: "reads (load_plan h)"
proof -
  have "same_registry w (snd (run_state (load_plan h) w)) \<and> caches_from w (snd (run_state (load_plan h) w))" for w
  proof (cases "fst (run_state (load_plan h) w)")
    case None
    then have "snd (run_state (load_plan h) w) = tick_fault w" by (auto simp: load_plan_any Let_def split: option.splits if_splits)
    then show ?thesis by (simp add: tick_fault_registry)
  next
    case (Some c)
    then have "snd (run_state (load_plan h) w) = (tick_fault (tick_fault w))\<lparr>g_plan := (g_plan w)(h \<mapsto> c)\<rparr>"
      by (auto simp: load_plan_any Let_def split: option.splits if_splits)
    with load_plan_loaded [OF Some] show ?thesis by (simp add: same_registry_def caches_from_def)
  qed
  then show ?thesis by (simp add: reads_def)
qed

lemma reads_planGate_confFor [reads_intros]: "reads (planGate_confFor h)"
  unfolding planGate_confFor_def by (intro reads_intros)

definition load_features :: "uuid \<Rightarrow> featureConf option gate" where
  "load_features h = do {
     r \<leftarrow> g_query (denied h);
     case r of
       None \<Rightarrow> State_Monad.return None
     | Some deny \<Rightarrow> do {
         w' \<leftarrow> State_Monad.get;
         let c = \<lparr>fc_deny = deny, fc_exp = g_now w' + planConfTTL\<rparr>;
         State_Monad.set (w'\<lparr>g_feature := (g_feature w')(h \<mapsto> c)\<rparr>);
         State_Monad.return (Some c)
       }
   }"

lemma featureGate_confFor_load:
  "featureGate_confFor h = do {
     w \<leftarrow> State_Monad.get;
     case g_feature w h of
       Some c \<Rightarrow> if g_now w < fc_exp c then State_Monad.return (Some c) else load_features h
     | None \<Rightarrow> load_features h
   }"
  unfolding featureGate_confFor_def load_features_def Let_def ..

lemma load_features_any:
  "run_state (load_features h) w =
     (if struck w then (None, tick_fault w)
      else (let c = \<lparr>fc_deny = denied h w, fc_exp = g_now w + planConfTTL\<rparr>
            in (Some c, (tick_fault w)\<lparr>g_feature := (g_feature w)(h \<mapsto> c)\<rparr>)))"
  by (simp add: load_features_def run_state_bind run_query_any Let_def)

lemma reads_load_features [reads_intros]: "reads (load_features h)"
  by (auto simp: reads_def load_features_any Let_def same_registry_def caches_from_def feature_loaded_def)

lemma reads_featureGate_confFor [reads_intros]: "reads (featureGate_confFor h)"
  unfolding featureGate_confFor_load by (intro reads_intros)

lemma reads_increment [reads_intros]: "reads (IncrementWithTTL k t)"
  by (auto simp: reads_def IncrementWithTTL_def run_fault run_state_bind same_registry_def caches_from_def Let_def split: option.splits prod.splits if_splits)

lemma reads_staff_gates: "reads (staff_gates L str secret c)"
  unfolding staff_gates_def clientRateLimit_def planGate_handler_def featureGate_handler_def by (intro reads_intros)

lemma reads_compat: "reads (enforceCompatWrite L secret c t)" "reads (enforceCompatRead L secret c t)"
  unfolding enforceCompatWrite_def enforceCompatRead_def by (intro reads_intros)+

lemma reads_TenantModules: "reads (TenantModules L secret c)"
  unfolding TenantModules_def g_guarded_def loadTenantModules_def tenantPlan_def by (intro reads_intros)

text \<open>A computation that may write the registry and drop entries of the caches, but fills none.\<close>

definition tame :: "'a gate \<Rightarrow> bool" where
  "tame m \<longleftrightarrow> (\<forall>w. g_now (snd (run_state m w)) = g_now w \<and>
     g_plan (snd (run_state m w)) \<subseteq>\<^sub>m g_plan w \<and> g_feature (snd (run_state m w)) \<subseteq>\<^sub>m g_feature w)"

named_theorems tame_intros \<open>rules for computations that fill no cache\<close>

lemma tame_return [tame_intros]: "tame (State_Monad.return x)"
  by (simp add: tame_def)

lemma tame_get [tame_intros]: "tame State_Monad.get"
  by (simp add: tame_def)

lemma tame_bind [tame_intros]:
  assumes "tame m" "\<And>x. tame (f x)"
  shows "tame (State_Monad.bind m f)"
proof -
  have "g_now (snd (run_state (f x) w1)) = g_now w \<and>
     g_plan (snd (run_state (f x) w1)) \<subseteq>\<^sub>m g_plan w \<and> g_feature (snd (run_state (f x) w1)) \<subseteq>\<^sub>m g_feature w"
    if m: "run_state m w = (x, w1)" for x w w1
  proof -
    have a: "g_now w1 = g_now w" "g_plan w1 \<subseteq>\<^sub>m g_plan w" "g_feature w1 \<subseteq>\<^sub>m g_feature w"
      using assms(1) [unfolded tame_def, THEN spec, of w] m by simp_all
    have b: "g_now (snd (run_state (f x) w1)) = g_now w1" "g_plan (snd (run_state (f x) w1)) \<subseteq>\<^sub>m g_plan w1"
      "g_feature (snd (run_state (f x) w1)) \<subseteq>\<^sub>m g_feature w1"
      using assms(2) [of x, unfolded tame_def] by blast+
    show ?thesis using a(1) b(1) map_le_trans [OF b(2) a(2)] map_le_trans [OF b(3) a(3)] by simp
  qed
  then show ?thesis by (simp add: tame_def run_state_bind split: prod.splits)
qed

lemma run_update: "run_state (State_Monad.update f) w = ((), f w)"
  by (simp add: State_Monad.update_def run_state_bind)

lemma tame_update [tame_intros]:
  "(\<And>w. g_now (f w) = g_now w) \<Longrightarrow> (\<And>w. g_plan (f w) = g_plan w) \<Longrightarrow> (\<And>w. g_feature (f w) = g_feature w) \<Longrightarrow> tame (State_Monad.update f)"
  by (simp add: tame_def run_update)

lemma tame_option [tame_intros]: "tame a \<Longrightarrow> (\<And>x. tame (f x)) \<Longrightarrow> tame (case x of None \<Rightarrow> a | Some x \<Rightarrow> f x)"
  by (simp split: option.splits)

lemma tame_guarded [tame_intros]: "tame m \<Longrightarrow> tame (g_guarded g m)"
  by (simp add: g_guarded_def tame_return split: guard.splits)

lemma tame_if [tame_intros]: "tame a \<Longrightarrow> tame b \<Longrightarrow> tame (if p then a else b)"
  by simp

lemma tame_let [tame_intros]: "(\<And>x. tame (f x)) \<Longrightarrow> tame (let x = e in f x)"
  by simp

lemma tame_fault [tame_intros]: "tame g_fault"
  by (simp add: tame_def run_fault)

lemma tame_query [tame_intros]: "tame (g_query f)"
  by (simp add: tame_def run_query_any)

lemma tame_overrides [tame_intros]: "tame (loadPlanFeatureOverrides p)"
  by (simp add: tame_def run_overrides_any)

lemma tame_all_ok: "(\<And>m. m \<in> set ms \<Longrightarrow> tame m) \<Longrightarrow> tame (all_ok ms)"
  by (induction ms) (auto intro!: tame_intros)

lemma tame_plan_matrix [tame_intros]: "tame (plan_matrix ps)"
  by (induction ps) (auto intro!: tame_intros)

lemma tame_tx [tame_intros]: "tame m \<Longrightarrow> tame k \<Longrightarrow> tame (g_tx a b m k)"
  unfolding g_tx_def Let_def by (intro tame_intros) simp_all

lemma tame_snapshot [tame_intros]: "tame (start_snapshot i)"
  unfolding start_snapshot_def by (intro tame_intros) simp_all

lemma tame_feature_invalidate [tame_intros]: "tame (featureGate_invalidate i)"
  by (simp add: tame_def featureGate_invalidate_def run_update map_le_def)

lemma tame_exec_feature [tame_intros]: "tame (g_exec (upsert_feature p f e))"
  unfolding g_exec_def by (intro tame_intros) (simp_all add: upsert_feature_def)

lemma tame_exec_permission [tame_intros]: "tame (g_exec (set_permission i r f e))"
  unfolding g_exec_def by (intro tame_intros) (simp_all add: set_permission_def Let_def)

lemma tame_modules: "tame (UpdatePlatformTenantModules L secret c idp body)"
  unfolding UpdatePlatformTenantModules_def g_param_def g_body_def by (intro tame_intros) simp_all

lemma tame_features: "tame (UpdatePlatformPlanFeatures L secret c body)"
  unfolding UpdatePlatformPlanFeatures_def g_body_def by (intro tame_intros tame_all_ok) (auto intro: tame_intros)

lemma tame_matrix: "tame (UpdatePlatformTenantFeatureMatrix L secret c idp body)"
  unfolding UpdatePlatformTenantFeatureMatrix_def requireTenant_def g_param_def g_body_def
  by (intro tame_intros tame_all_ok) (auto intro: tame_intros)

lemma tame_caches: "tame m \<Longrightarrow> caches_from w (snd (run_state m w)) \<and> g_now w \<le> g_now (snd (run_state m w))"
  unfolding tame_def caches_from_def map_le_def by (metis domI order_refl)

subsection \<open>Runs\<close>

text \<open>A step is a request that passes the gates, one of the administrator's changes, another change of the
  registry (a tenant created, put on another plan or removed), or the passing of time. Statements fail as
  they please, and Redis may lose its counters.\<close>

inductive gate_step :: "gworld \<Rightarrow> gworld \<Rightarrow> bool" where
  staff: "gate_step w (snd (run_state (staff_gates L str secret c) w))"
| compat_write: "gate_step w (snd (run_state (enforceCompatWrite L secret c t) w))"
| compat_read: "gate_step w (snd (run_state (enforceCompatRead L secret c t) w))"
| portal: "gate_step w (snd (run_state (TenantModules L secret c) w))"
| modules: "gate_step w (snd (run_state (UpdatePlatformTenantModules L secret c idp mods) w))"
| features: "gate_step w (snd (run_state (UpdatePlatformPlanFeatures L secret c body) w))"
| matrix: "gate_step w (snd (run_state (UpdatePlatformTenantFeatureMatrix L secret c idp body) w))"
| registry: "gate_step w (w\<lparr>g_hotels := hs\<rparr>)"
| time: "g_now w \<le> t \<Longrightarrow> gate_step w (w\<lparr>g_now := t\<rparr>)"
| outage: "gate_step w (w\<lparr>g_faults := fs, g_redis := counters\<rparr>)"

lemma gate_step_caches: "gate_step w w' \<Longrightarrow> caches_from w w' \<and> g_now w \<le> g_now w'"
proof (induction rule: gate_step.induct)
  case (staff w L str secret c)
  then show ?case using reads_staff_gates [of L str secret c] by (simp add: reads_def same_registry_def)
next
  case (compat_write w L secret c t)
  then show ?case using reads_compat(1) [of L secret c t] by (simp add: reads_def same_registry_def)
next
  case (compat_read w L secret c t)
  then show ?case using reads_compat(2) [of L secret c t] by (simp add: reads_def same_registry_def)
next
  case (portal w L secret c)
  then show ?case using reads_TenantModules [of L secret c] by (simp add: reads_def same_registry_def)
next
  case (modules w L secret c idp mods)
  then show ?case using tame_modules [of L secret c idp mods] by (rule tame_caches)
next
  case (features w L secret c body)
  then show ?case using tame_features [of L secret c body] by (rule tame_caches)
next
  case (matrix w L secret c idp body)
  then show ?case using tame_matrix [of L secret c idp body] by (rule tame_caches)
qed (simp_all add: caches_from_def)
text \<open>The registries of a run, the latest first; a server starts with empty caches.\<close>

inductive gate_run :: "gworld list \<Rightarrow> bool" where
  boot: "g_plan w = Map.empty \<Longrightarrow> g_feature w = Map.empty \<Longrightarrow> gate_run [w]"
| step: "gate_run (w # ws) \<Longrightarrow> gate_step w w' \<Longrightarrow> gate_run (w' # w # ws)"

inductive_cases gate_run_NilE: "gate_run []"

subsection \<open>A cache with a lifetime\<close>

text \<open>What the gates rely on: an entry is either old or has just been loaded, an entry loaded lives for
  \<^const>\<open>planConfTTL\<close>, and what is served is a live entry or has just been loaded.\<close>

locale ttl_cache =
  fixes entry :: "gworld \<Rightarrow> uuid \<Rightarrow> 'c option"
    and expiry :: "'c \<Rightarrow> int"
    and loaded :: "uuid \<Rightarrow> gworld \<Rightarrow> 'c \<Rightarrow> bool"
    and confFor :: "uuid \<Rightarrow> 'c option gate"
  assumes cold: "g_plan w = Map.empty \<Longrightarrow> g_feature w = Map.empty \<Longrightarrow> entry w h = None"
    and kept: "gate_step w w' \<Longrightarrow> entry w' h = Some c \<Longrightarrow> entry w h = Some c \<or> loaded h w c"
    and lifetime: "loaded h w c \<Longrightarrow> expiry c = g_now w + planConfTTL"
    and served: "fst (run_state (confFor h) w) = Some c \<Longrightarrow> entry w h = Some c \<and> g_now w < expiry c \<or> loaded h w c"
begin

lemma entry_origin: "gate_run ws \<Longrightarrow> ws = w # us \<Longrightarrow> entry w h = Some c \<Longrightarrow> \<exists>v \<in> set ws. loaded h v c"
proof (induction arbitrary: w us rule: gate_run.induct)
  case (boot v)
  then show ?case using cold by auto
next
  case (step v vs v')
  then have "entry v h = Some c \<or> loaded h v c" using kept by blast
  then show ?case using step.IH by auto
qed

lemma served_fresh:
  assumes "gate_run (w # ws)" "fst (run_state (confFor h) w) = Some c"
  shows "\<exists>v \<in> set (w # ws). loaded h v c \<and> g_now w < g_now v + planConfTTL"
proof -
  have "0 < planConfTTL" by (simp add: planConfTTL_def second_def)
  from served [OF assms(2)] show ?thesis
  proof
    assume live: "entry w h = Some c \<and> g_now w < expiry c"
    then obtain v where "v \<in> set (w # ws)" "loaded h v c" using entry_origin [OF assms(1) refl] by blast
    then show ?thesis using live lifetime [of h v c] by auto
  next
    assume "loaded h w c"
    then show ?thesis using \<open>0 < planConfTTL\<close> by auto
  qed
qed

end

lemma planGate_served:
  "fst (run_state (planGate_confFor h) w) = Some c \<Longrightarrow> g_plan w h = Some c \<and> g_now w < pc_exp c \<or> plan_loaded h w c"
  using load_plan_loaded [of h w c] by (auto simp: planGate_confFor_def run_state_bind split: option.splits if_splits)

lemma featureGate_served:
  "fst (run_state (featureGate_confFor h) w) = Some c \<Longrightarrow> g_feature w h = Some c \<and> g_now w < fc_exp c \<or> feature_loaded h w c"
  by (auto simp: featureGate_confFor_load load_features_any feature_loaded_def run_state_bind Let_def split: option.splits if_splits)

lemma caches_fromD:
  assumes "gate_step w w'"
  shows "g_plan w' h = Some c \<Longrightarrow> g_plan w h = Some c \<or> plan_loaded h w c"
    and "g_feature w' h = Some d \<Longrightarrow> g_feature w h = Some d \<or> feature_loaded h w d"
  using gate_step_caches [OF assms] unfolding caches_from_def by blast+

interpretation plans: ttl_cache g_plan pc_exp plan_loaded planGate_confFor
proof (unfold_locales, goal_cases)
  case (2 w w' h c)
  then show ?case by (rule caches_fromD(1))
next
  case 4
  then show ?case by (rule planGate_served)
qed (auto simp: plan_loaded_def derived_plan_def)

interpretation permissions: ttl_cache g_feature fc_exp feature_loaded featureGate_confFor
proof (unfold_locales, goal_cases)
  case (2 w w' h c)
  then show ?case by (rule caches_fromD(2))
next
  case 4
  then show ?case by (rule featureGate_served)
qed (auto simp: feature_loaded_def)

subsection \<open>Changes take effect\<close>

text \<open>The registry of a tenant has been quiet, and answered, for the lifetime of the caches.\<close>

definition quiet :: "uuid \<Rightarrow> gworld list \<Rightarrow> gworld \<Rightarrow> bool" where
  "quiet h vs w \<longleftrightarrow> (\<forall>v \<in> set vs. g_now w < g_now v + planConfTTL \<longrightarrow> g_faults v = [] \<and>
     find_hotel h v = find_hotel h w \<and> (\<forall>p. plan_overrides p v = plan_overrides p w) \<and> denied h v = denied h w)"

definition role_verdict :: "lib \<Rightarrow> string \<Rightarrow> ctx \<Rightarrow> gworld \<Rightarrow> guard" where
  "role_verdict L secret c w =
     (case (ruleForPath (c_path c), jwtClaimsFromRequest L secret c) of
        (Some rule, Some cl) \<Rightarrow>
          if fr_module rule = [] \<or> isPlatformAdmin L secret c \<or> named_roles cl = [] then Pass
          else role_check (named_roles cl) (fr_module rule) \<lparr>fc_deny = denied (tenantHotelID L c) w, fc_exp = 0\<rparr>
      | _ \<Rightarrow> Pass)"

lemma planGate_confFor_None:
  "fst (run_state (planGate_confFor h) w) = None \<Longrightarrow> g_faults w = [] \<Longrightarrow> find_hotel h w = None"
  by (auto simp: planGate_confFor_def run_state_bind load_plan_any struck_def Let_def split: option.splits if_splits)

lemma featureGate_confFor_None: "fst (run_state (featureGate_confFor h) w) = None \<Longrightarrow> g_faults w \<noteq> []"
  by (auto simp: featureGate_confFor_load run_state_bind load_features_any struck_def Let_def split: option.splits if_splits)



lemma plan_gate_settles:
  assumes run: "gate_run (w # ws)" and q: "quiet (tenantHotelID L c) (w # ws) w"
  shows "fst (run_state (planGate_handler L secret c) w) = plan_verdict L secret c w"
proof -
  let ?h = "tenantHotelID L c"
  have now: "g_now w < g_now w + planConfTTL" by (simp add: planConfTTL_def second_def)
  have "(case fst (run_state (planGate_confFor ?h) w) of None \<Rightarrow> Pass | Some conf \<Rightarrow> plan_decision rule conf) =
      (case find_hotel ?h w of None \<Rightarrow> Pass
       | Some row \<Rightarrow> plan_decision rule (derived_plan row (plan_overrides (normalizePlanTier (hr_plan row)) w) 0))" for rule
  proof (cases "fst (run_state (planGate_confFor ?h) w)")
    case None
    then have "find_hotel ?h w = None" using planGate_confFor_None q now by (simp add: quiet_def)
    then show ?thesis using None by simp
  next
    case (Some conf)
    obtain v where v: "v \<in> set (w # ws)" "plan_loaded ?h v conf" "g_now w < g_now v + planConfTTL"
      using plans.served_fresh [OF run Some] by blast
    then have "g_faults v = []" "find_hotel ?h v = find_hotel ?h w" "\<And>p. plan_overrides p v = plan_overrides p w"
      using q unfolding quiet_def by blast+
    then obtain row where "find_hotel ?h w = Some row" "conf = derived_plan row (plan_overrides (normalizePlanTier (hr_plan row)) w) (g_now v)"
      using v(2) unfolding plan_loaded_def by auto
    then show ?thesis using Some plan_decision_exp by simp
  qed
  then show ?thesis by (simp add: planGate_handler_conf plan_verdict_def split: option.splits)
qed

lemma role_gate_settles:
  assumes run: "gate_run (w # ws)" and q: "quiet (tenantHotelID L c) (w # ws) w"
  shows "fst (run_state (featureGate_handler L secret c) w) = role_verdict L secret c w"
proof -
  let ?h = "tenantHotelID L c"
  have now: "g_now w < g_now w + planConfTTL" by (simp add: planConfTTL_def second_def)
  have "(case fst (run_state (featureGate_confFor ?h) w) of None \<Rightarrow> Pass | Some conf \<Rightarrow> role_check rs f conf) =
      role_check rs f \<lparr>fc_deny = denied ?h w, fc_exp = 0\<rparr>" for rs f
  proof (cases "fst (run_state (featureGate_confFor ?h) w)")
    case None
    then show ?thesis using featureGate_confFor_None q now by (auto simp: quiet_def)
  next
    case (Some conf)
    obtain v where v: "v \<in> set (w # ws)" "feature_loaded ?h v conf" "g_now w < g_now v + planConfTTL"
      using permissions.served_fresh [OF run Some] by blast
    then have "denied ?h v = denied ?h w" using q unfolding quiet_def by blast
    then have "fc_deny conf = denied ?h w" using v(2) by (simp add: feature_loaded_def)
    then show ?thesis using Some by (simp add: role_check_def)
  qed
  then show ?thesis
    by (simp add: featureGate_handler_def role_verdict_def case_prod_beta split: option.splits)
qed

text \<open>C31: A change of the registry takes effect: in every run of the server, once the plan, the modules and
  the permissions of a tenant have been the same for thirty seconds, and the registry has answered, both
  gates decide as if they read the registry at every request, whatever their caches held before.\<close>

theorem changes_take_effect:
  assumes "gate_run (w # ws)" "quiet (tenantHotelID L c) (w # ws) w"
  shows "fst (run_state (planGate_handler L secret c) w) = plan_verdict L secret c w \<and>
    fst (run_state (featureGate_handler L secret c) w) = role_verdict L secret c w"
  using plan_gate_settles [OF assms] role_gate_settles [OF assms] by simp
definition upgraded :: "gworld \<Rightarrow> gworld" where
  "upgraded w = w\<lparr>g_hotels := [\<lparr>hr_id = 7, hr_plan = ''premium'', hr_modules = JObj []\<rparr>]\<rparr>"

theorem changes_take_effect_witness:
  "let c = gate_ctx ''/api/revenue/today'';
       w1 = snd (run_state (enforceCompatRead gate_lib ''secret'' c ''rooms'') basic_world);
       w2 = upgraded w1; w3 = w2\<lparr>g_now := 31 * second\<rparr> in
   gate_run [w3, w2, w1, basic_world] \<and> quiet 7 [w3, w2, w1, basic_world] w3 \<and>
   fst (run_state (planGate_handler gate_lib ''secret'' c) w2) \<noteq> Pass \<and>
   fst (run_state (planGate_handler gate_lib ''secret'' c) w3) = Pass"
proof -
  define c where "c = gate_ctx ''/api/revenue/today''"
  define w1 where "w1 = snd (run_state (enforceCompatRead gate_lib ''secret'' c ''rooms'') basic_world)"
  define w2 where "w2 = upgraded w1"
  define w3 where "w3 = w2\<lparr>g_now := 31 * second\<rparr>"
  have boot: "gate_run [basic_world]" by (rule gate_run.boot) (simp_all add: basic_world_def)
  have s1: "gate_step basic_world w1" unfolding w1_def by (rule gate_step.compat_read)
  have s2: "gate_step w1 w2" unfolding w2_def upgraded_def by (rule gate_step.registry)
  have now: "g_now w2 = 0" "g_now w1 = 0" "g_now basic_world = 0" "g_faults w3 = []" unfolding w3_def w2_def w1_def c_def by code_simp+
  then have s3: "gate_step w2 w3" unfolding w3_def by (intro gate_step.time) (simp add: second_def)
  have run: "gate_run [w3, w2, w1, basic_world]" by (intro gate_run.step boot s1 s2 s3)
  have t: "tenantHotelID gate_lib c = 7" unfolding c_def by code_simp
  have q: "quiet 7 [w3, w2, w1, basic_world] w3" using now by (simp add: quiet_def w3_def planConfTTL_def second_def)
  have "plan_verdict gate_lib ''secret'' c w3 = Pass" unfolding w3_def w2_def w1_def c_def by code_simp
  then have "fst (run_state (planGate_handler gate_lib ''secret'' c) w3) = Pass"
    using changes_take_effect [OF run, of gate_lib c "''secret''"] q t by simp
  moreover have "fst (run_state (planGate_handler gate_lib ''secret'' c) w2) \<noteq> Pass" unfolding w2_def w1_def c_def by code_simp
  ultimately show ?thesis using run q unfolding Let_def w3_def w2_def w1_def c_def by simp
qed
end
