(* ===== verification/Matrix.thy ===== *)
theory Matrix
  imports Caches
begin

text \<open>
  The matrix of roles and features: what an administrator saves is what the matrix then shows and what the
  gate enforces at the next request, for that tenant and for no other.
\<close>

subsection \<open>Saving cells\<close>

lemma denied_set_permission:
  "denied h (set_permission i r f e w) = (\<lambda>r' f'. if h = i \<and> r' = r \<and> f' = f then \<not> e else denied h w r' f')"
  by (auto simp: denied_def set_permission_def Let_def list_ex_iff fun_eq_iff split: if_splits)

lemma denied_feature [simp]: "denied h (w\<lparr>g_feature := fc\<rparr>) = denied h w"
  by (simp add: denied_def fun_eq_iff)

definition cell_keys :: "(string \<times> string \<times> bool) list \<Rightarrow> ((string \<times> string) \<times> bool) list" where
  "cell_keys xs = map (\<lambda>(r, f, e). ((r, f), e)) xs"

lemma save_cells:
  assumes "run_state (all_ok (map (\<lambda>(r, f, e). g_exec (set_permission i r f e)) xs)) w = (True, w')"
  shows "denied h w' = (\<lambda>r f. case map_of (rev (cell_keys xs)) (r, f) of
      Some e \<Rightarrow> if h = i then \<not> e else denied h w r f | None \<Rightarrow> denied h w r f) \<and>
    g_feature w' = g_feature w"
  using assms
proof (induction xs arbitrary: w)
  case Nil
  then show ?case by (simp add: cell_keys_def)
next
  case (Cons x xs)
  obtain r f e where x: "x = (r, f, e)" by (cases x)
  let ?w1 = "set_permission i r f e (tick_fault w)"
  from Cons.prems have rest: "run_state (all_ok (map (\<lambda>(r, f, e). g_exec (set_permission i r f e)) xs)) ?w1 = (True, w')"
    by (auto simp: x g_exec_def run_fault run_update split: if_splits)
  have w1: "denied h ?w1 = (\<lambda>r' f'. if h = i \<and> r' = r \<and> f' = f then \<not> e else denied h w r' f')" "g_feature ?w1 = g_feature w"
    by (simp_all add: denied_set_permission) (simp add: set_permission_def Let_def)
  show ?case
    using Cons.IH [OF rest] unfolding w1
    by (auto simp: x cell_keys_def map_add_def fun_eq_iff split: option.splits)
qed

lemma g_tx_answer:
  assumes "run_state (g_tx a b body k) w = (Answer x, w')"
  obtains w2 where "run_state body (tick_fault w) = (True, w2)" "run_state k (tick_fault w2) = (Answer x, w')"
  using assms by (auto simp: g_tx_def run_fault run_update Let_def split: if_splits prod.splits)

subsection \<open>Cells of a body\<close>

lemma distinct_row: "distinct (map fst fs) \<Longrightarrow> distinct (map fst (cell_keys (map (\<lambda>(f, v). (r, f, v)) (filter P fs))))"
  by (induction fs) (force simp: cell_keys_def)+

lemma cell_keys_append: "cell_keys (xs @ ys) = cell_keys xs @ cell_keys ys"
  by (simp add: cell_keys_def)

lemma matrix_cells_Cons:
  "matrix_cells R ((r, fs) # m) = (if r \<in> R then map (\<lambda>(f, v). (r, f, v)) (filter (\<lambda>fv. fst fv \<in> known_modules) fs) else []) @ matrix_cells R m"
  by (simp add: matrix_cells_def)

lemma matrix_cells_rows: "(r, f, e) \<in> set (matrix_cells R m) \<Longrightarrow> r \<in> fst ` set m"
  by (force simp: matrix_cells_def)

lemma distinct_cells:
  "distinct (map fst m) \<Longrightarrow> (\<And>r fs. (r, fs) \<in> set m \<Longrightarrow> distinct (map fst fs)) \<Longrightarrow> distinct (map fst (cell_keys (matrix_cells R m)))"
proof (induction m)
  case Nil
  then show ?case by (simp add: matrix_cells_def cell_keys_def)
next
  case (Cons x m)
  obtain r fs where x: "x = (r, fs)" by (cases x)
  have d: "distinct (map fst fs)" and IH: "distinct (map fst (cell_keys (matrix_cells R m)))" and r: "r \<notin> fst ` set m"
    using Cons by (auto simp: x)
  let ?row = "map (\<lambda>(f, v). (r, f, v)) (filter (\<lambda>fv. fst fv \<in> known_modules) fs)"
  have "set (map fst (cell_keys ?row)) \<inter> set (map fst (cell_keys (matrix_cells R m))) = {}"
    using r matrix_cells_rows [of r _ _ R m] by (auto simp: cell_keys_def)
  with IH distinct_row [OF d] show ?case
    unfolding x matrix_cells_Cons cell_keys_append map_append distinct_append
    by (cases "r \<in> R") (simp_all only: if_True if_False simp_thms cell_keys_def list.map distinct.simps list.set Int_empty_left)
qed

lemma map_of_cells:
  assumes "distinct (map fst (cell_keys xs))"
  shows "map_of (rev (cell_keys xs)) (r, f) = Some e \<longleftrightarrow> (r, f, e) \<in> set xs"
proof -
  have "map_of (rev (cell_keys xs)) (r, f) = Some e \<longleftrightarrow> ((r, f), e) \<in> set (rev (cell_keys xs))"
    using assms by (intro map_of_eq_Some_iff) (simp add: rev_map [symmetric])
  then show ?thesis by (force simp: cell_keys_def)
qed

lemma matrix_cells_known: "(r, f, e) \<in> set (matrix_cells (set allOperationalRoles) m) \<Longrightarrow> r \<in> set allOperationalRoles \<and> f \<in> known_modules"
  by (auto simp: matrix_cells_def)
subsection \<open>The round trip\<close>

lemma matrix_saved:
  assumes "run_state (UpdatePlatformTenantFeatureMatrix L secret c idp (Some m)) w = (Answer shown, w')"
  shows "\<exists>i. lib_uuid L idp = Some i \<and> requirePlatformAdmin L secret c = Pass \<and>
    shown = effectiveMatrix (denied i w') \<and> g_feature w' = (g_feature w)(i := None) \<and>
    (\<forall>h. denied h w' = (\<lambda>r f. case map_of (rev (cell_keys (matrix_cells (set allOperationalRoles) m))) (r, f) of
      Some e \<Rightarrow> if h = i then \<not> e else denied h w r f | None \<Rightarrow> denied h w r f))"
proof -
  obtain i where i: "lib_uuid L idp = Some i" "requirePlatformAdmin L secret c = Pass"
    using assms by (auto simp: UpdatePlatformTenantFeatureMatrix_def g_guarded_def g_param_def split: guard.splits option.splits)
  let ?w = "tick_fault w"
  let ?k = "do {
      _ \<leftarrow> featureGate_invalidate i;
      r \<leftarrow> g_query (denied i);
      case r of
        None \<Rightarrow> State_Monad.return (Error 500 ''failed to reload feature matrix'')
      | Some deny \<Rightarrow> do { _ \<leftarrow> start_snapshot i; State_Monad.return (Answer (effectiveMatrix deny)) } }"
  from assms i have "run_state (g_tx (500, ''failed to update feature matrix'') (500, ''failed to update feature matrix'')
      (all_ok (map (\<lambda>(r, f, e). g_exec (set_permission i r f e)) (matrix_cells (set allOperationalRoles) m))) ?k) ?w = (Answer shown, w')"
    by (simp add: UpdatePlatformTenantFeatureMatrix_def g_guarded_def g_param_def requireTenant_def g_body_def run_query_any split: if_splits)
  then obtain w2 where w2: "run_state (all_ok (map (\<lambda>(r, f, e). g_exec (set_permission i r f e)) (matrix_cells (set allOperationalRoles) m))) (tick_fault ?w) = (True, w2)"
    and k: "run_state ?k (tick_fault w2) = (Answer shown, w')" by (rule g_tx_answer)
  from k have w': "shown = effectiveMatrix (denied i w2)" "g_feature w' = (g_feature w2)(i := None)" "g_permissions w' = g_permissions w2"
    by (auto simp: featureGate_invalidate_def start_snapshot_def run_update run_query_any split: if_splits)
  then have "denied h w' = denied h w2" for h by (simp add: denied_def fun_eq_iff)
  then show ?thesis using i w' save_cells [OF w2, unfolded denied_fault] by simp
qed

lemma role_gate_empty_cache:
  assumes "g_feature w (tenantHotelID L c) = None" "g_faults w = []"
  shows "fst (run_state (featureGate_handler L secret c) w) = role_verdict L secret c w"
  using assms
  by (simp add: featureGate_handler_def featureGate_confFor_load load_features_any role_verdict_def struck_def Let_def role_check_def split: option.splits)

text \<open>C32: What an administrator saves is what holds: when saving a matrix succeeds, whatever statements
  failed on the way, the answer shows every cell as it was sent and every other cell as it was, the next
  requests of the tenant are decided by exactly that matrix, and no other tenant's permissions move.\<close>

theorem matrix_reads_back:
  assumes "run_state (UpdatePlatformTenantFeatureMatrix L secret c idp (Some m)) w = (Answer shown, w')"
    and "distinct (map fst m)" "\<forall>row \<in> set m. distinct (map fst (snd row))"
    and "lib_uuid L idp = Some i"
  shows "(\<forall>role feature enabled. (role, feature, enabled) \<in> set (matrix_cells (set allOperationalRoles) m) \<longrightarrow> shown role feature = Some enabled) \<and>
    (\<forall>role \<in> set allOperationalRoles. \<forall>feature \<in> known_modules.
      (\<forall>e. (role, feature, e) \<notin> set (matrix_cells (set allOperationalRoles) m)) \<longrightarrow> shown role feature = Some (\<not> denied i w role feature)) \<and>
    (\<forall>role \<in> set allOperationalRoles. \<forall>feature \<in> known_modules. shown role feature = Some (\<not> denied i w' role feature)) \<and>
    (g_faults w' = [] \<longrightarrow> (\<forall>c'. tenantHotelID L c' = i \<longrightarrow> fst (run_state (featureGate_handler L secret c') w') = role_verdict L secret c' w')) \<and>
    (\<forall>h. h \<noteq> i \<longrightarrow> denied h w' = denied h w)"
proof -
  let ?cells = "matrix_cells (set allOperationalRoles) m"
  have s: "shown = effectiveMatrix (denied i w')" "g_feature w' = (g_feature w)(i := None)"
    and d: "denied h w' = (\<lambda>r f. case map_of (rev (cell_keys ?cells)) (r, f) of
      Some e \<Rightarrow> if h = i then \<not> e else denied h w r f | None \<Rightarrow> denied h w r f)" for h
    using matrix_saved [OF assms(1)] assms(4) by auto
  have dist: "distinct (map fst (cell_keys ?cells))" using assms(2,3) by (intro distinct_cells) auto
  note cell = map_of_cells [OF dist]
  have sent: "shown role feature = Some enabled" if x: "(role, feature, enabled) \<in> set ?cells" for role feature enabled
  proof -
    have "denied i w' role feature = (\<not> enabled)" using cell [of role feature enabled] x by (simp add: d)
    then show ?thesis using matrix_cells_known [OF x] by (simp add: s(1) effectiveMatrix_def)
  qed
  have kept: "shown role feature = Some (\<not> denied i w role feature)"
    if "role \<in> set allOperationalRoles" "feature \<in> known_modules" "\<forall>e. (role, feature, e) \<notin> set ?cells" for role feature
  proof -
    have "map_of (rev (cell_keys ?cells)) (role, feature) = None" using that(3) cell [of role feature] by (cases "map_of (rev (cell_keys ?cells)) (role, feature)") auto
    then show ?thesis using that by (simp add: s(1) d effectiveMatrix_def)
  qed
  have "denied h w' = denied h w" if "h \<noteq> i" for h using that by (simp add: d fun_eq_iff split: option.splits)
  then show ?thesis using sent kept s role_gate_empty_cache by (simp add: effectiveMatrix_def)
qed

theorem matrix_reads_back_witness:
  "let m = [(''receptionist'', [(''billing'', False), (''crm'', True)])]; c = gate_ctx ''/api/billing/invoices'' in
   \<exists>shown w'. run_state (UpdatePlatformTenantFeatureMatrix gate_lib ''secret'' root_ctx ''7'' (Some m)) basic_world = (Answer shown, w') \<and>
     shown ''receptionist'' ''billing'' = Some False \<and> shown ''waiter'' ''billing'' = Some True \<and>
     fst (run_state (featureGate_handler gate_lib ''secret'' c) w') = Refuse 403 ''this feature is not enabled for your role''"
proof -
  define m :: matrix where "m = [(''receptionist'', [(''billing'', False), (''crm'', True)])]"
  define c where "c = gate_ctx ''/api/billing/invoices''"
  let ?r = "run_state (UpdatePlatformTenantFeatureMatrix gate_lib ''secret'' root_ctx ''7'' (Some m)) basic_world"
  have ok: "(case fst ?r of Answer _ \<Rightarrow> True | Error _ _ \<Rightarrow> False) \<and> g_faults (snd ?r) = []" unfolding m_def by code_simp
  then obtain shown w' where r: "?r = (Answer shown, w')" "g_faults w' = []" by (cases ?r) (auto split: answer.splits)
  have lib: "lib_uuid gate_lib ''7'' = Some 7" "tenantHotelID gate_lib c = 7" unfolding c_def by code_simp+
  have cells: "matrix_cells (set allOperationalRoles) m = [(''receptionist'', ''billing'', False), (''receptionist'', ''crm'', True)]"
    unfolding m_def by code_simp
  have "denied 7 basic_world ''waiter'' ''billing'' = False" by code_simp
  moreover have "''waiter'' \<in> set allOperationalRoles" "''billing'' \<in> known_modules" by code_simp+
  moreover have "role_verdict gate_lib ''secret'' c (snd ?r) = Refuse 403 ''this feature is not enabled for your role''"
    unfolding m_def c_def by code_simp
  ultimately show ?thesis
    using matrix_reads_back [OF r(1) _ _ lib(1)] r cells lib(2)
    unfolding Let_def m_def [symmetric] c_def [symmetric] by (auto simp: m_def)
qed
end
