(* ===== verification/Quota.thy ===== *)
theory Quota
  imports Caches
begin

text \<open>
  The rate limiter over the requests of one minute: every tenant gets exactly its quota, however the
  requests of the tenants interleave. The counters are in Redis, keyed by the tenant and the minute;
  the string of an identifier is a parameter, of which the proofs use that it is injective and has no colon.
\<close>

subsection \<open>Requests of a minute\<close>

definition exempt :: "lib \<Rightarrow> string \<Rightarrow> ctx \<Rightarrow> bool" where
  "exempt L secret c = (case jwtClaimsFromRequest L secret c of None \<Rightarrow> False | Some cl \<Rightarrow> as_bool (map_of cl ''platform_admin''))"

definition counts_for :: "lib \<Rightarrow> string \<Rightarrow> uuid \<Rightarrow> int \<times> ctx \<Rightarrow> bool" where
  "counts_for L secret h r \<longleftrightarrow> \<not> exempt L secret (snd r) \<and> tenantHotelID L (snd r) = h"

fun metered :: "lib \<Rightarrow> (uuid \<Rightarrow> string) \<Rightarrow> string \<Rightarrow> (int \<times> ctx) list \<Rightarrow> gworld \<Rightarrow> guard list" where
  "metered L str secret [] w = []"
| "metered L str secret ((t, c) # rs) w =
     (let r = run_state (clientRateLimit L str secret c) (w\<lparr>g_now := t\<rparr>) in fst (fst r) # metered L str secret rs (snd r))"

definition rank_quota :: "int \<Rightarrow> int" where
  "rank_quota n = (case planMinuteQuota n of None \<Rightarrow> 300 | Some q \<Rightarrow> q)"

definition hotel_quota :: "gworld \<Rightarrow> uuid \<Rightarrow> int" where
  "hotel_quota w h = (case find_hotel h w of None \<Rightarrow> 300 | Some row \<Rightarrow> rank_quota (planRank (hr_plan row)))"

text \<open>The cache of the gate agrees with the registry on the plans.\<close>

definition plans_agree :: "gworld \<Rightarrow> bool" where
  "plans_agree w \<longleftrightarrow> (\<forall>h c. g_plan w h = Some c \<longrightarrow> (\<exists>row. find_hotel h w = Some row \<and> pc_rank c = planRank (hr_plan row)))"

definition minute :: "int \<Rightarrow> int" where
  "minute t = t div second div 60"

abbreviation uuid_strings :: "(uuid \<Rightarrow> string) \<Rightarrow> bool" where
  "uuid_strings str \<equiv> inj str \<and> (\<forall>h. CHR '':'' \<notin> set (str h))"

lemma append_sep: "x \<notin> set a \<Longrightarrow> x \<notin> set b \<Longrightarrow> a @ x # c = b @ x # d \<Longrightarrow> a = b"
proof (induction a arbitrary: b)
  case Nil
  then show ?case by (cases b) auto
next
  case (Cons y a)
  then show ?case by (cases b) auto
qed

lemma minute_key_eq: "uuid_strings str \<Longrightarrow> minute_key str h t = minute_key str h' t \<longleftrightarrow> h = h'"
  by (auto simp: minute_key_def TenantKey_def dest: append_sep injD)

lemma minute_key_same: "minute t = minute t' \<Longrightarrow> minute_key str h t = minute_key str h t'"
  by (simp add: minute_key_def minute_def)

lemma minute_bounds: "minute t = k \<Longrightarrow> k * 60000 \<le> t div 1000000 \<and> t div 1000000 < k * 60000 + 60000"
  by (auto simp: minute_def second_def)

subsection \<open>One request\<close>

lemma confFor_quota:
  assumes "g_faults w = []" "plans_agree w"
  obtains r w' where "run_state (planGate_confFor h) w = (r, w')" "tenant_limit r = hotel_quota w h"
    "g_faults w' = []" "plans_agree w'" "g_redis w' = g_redis w" "g_now w' = g_now w" "g_hotels w' = g_hotels w"
proof (cases "\<exists>c. g_plan w h = Some c \<and> g_now w < pc_exp c")
  case True
  then obtain c where c: "g_plan w h = Some c" "g_now w < pc_exp c" by blast
  then have "run_state (planGate_confFor h) w = (Some c, w)" by (simp add: planGate_confFor_def)
  moreover obtain row where "find_hotel h w = Some row" "pc_rank c = planRank (hr_plan row)"
    using c(1) assms(2) unfolding plans_agree_def by blast
  then have "tenant_limit (Some c) = hotel_quota w h" by (simp add: tenant_limit_def hotel_quota_def rank_quota_def)
  ultimately show ?thesis using that assms by blast
next
  case False
  then have run: "run_state (planGate_confFor h) w = run_state (load_plan h) w"
    by (auto simp: planGate_confFor_def split: option.splits)
  show ?thesis
  proof (cases "find_hotel h w")
    case None
    then show ?thesis using that [of None w] run assms by (simp add: run_load_plan tenant_limit_def hotel_quota_def)
  next
    case (Some row)
    let ?c = "derived_plan row (plan_overrides (normalizePlanTier (hr_plan row)) w) (g_now w)"
    have "run_state (planGate_confFor h) w = (Some ?c, w\<lparr>g_plan := (g_plan w)(h \<mapsto> ?c)\<rparr>)"
      using run Some assms(1) by (simp add: run_load_plan Let_def)
    moreover have "plans_agree (w\<lparr>g_plan := (g_plan w)(h \<mapsto> ?c)\<rparr>)"
      using assms(2) Some by (auto simp: plans_agree_def find_hotel_def derived_plan_def)
    ultimately show ?thesis
      using that [of "Some ?c"] assms(1) Some by (simp add: tenant_limit_def hotel_quota_def rank_quota_def derived_plan_def)
  qed
qed

text \<open>The counters of minute \<open>k\<close> hold \<open>n\<close> requests per tenant and outlive the minute.\<close>

definition counting :: "(uuid \<Rightarrow> string) \<Rightarrow> int \<Rightarrow> (uuid \<Rightarrow> nat) \<Rightarrow> gworld \<Rightarrow> bool" where
  "counting str k n w \<longleftrightarrow> (\<forall>h t. minute t = k \<longrightarrow>
     (if n h = 0 then g_redis w (minute_key str h t) = None
      else \<exists>e. g_redis w (minute_key str h t) = Some (int (n h), e) \<and> k * 60000 + 60000 \<le> e))"

lemma increment_counts:
  assumes "g_faults w = []" "counting str k n w" "minute (g_now w) = k" "uuid_strings str"
  shows "\<exists>w'. run_state (IncrementWithTTL (minute_key str h (g_now w)) rateWindow) w = (Some (int (Suc (n h))), w') \<and>
    counting str k (n(h := Suc (n h))) w' \<and> g_faults w' = [] \<and> g_plan w' = g_plan w \<and> g_hotels w' = g_hotels w"
proof -
  let ?key = "minute_key str h (g_now w)"
  note b = minute_bounds [OF assms(3)]
  have zero: "n h = 0 \<Longrightarrow> g_redis w ?key = None"
    and more: "n h \<noteq> 0 \<Longrightarrow> \<exists>e. g_redis w ?key = Some (int (n h), e) \<and> k * 60000 + 60000 \<le> e"
    using assms(2,3) unfolding counting_def by metis+
  have "\<exists>e. k * 60000 + 60000 \<le> e \<and>
    run_state (IncrementWithTTL ?key rateWindow) w = (Some (int (Suc (n h))), w\<lparr>g_redis := (g_redis w)(?key \<mapsto> (int (Suc (n h)), e))\<rparr>)"
  proof (cases "n h = 0")
    case True
    then show ?thesis using assms(1) b zero
      by (intro exI [of _ "g_now w div 1000000 + 60000"]) (simp add: IncrementWithTTL_def run_g_fault g_millis_def rateWindow_def second_def)
  next
    case False
    then obtain e where "g_redis w ?key = Some (int (n h), e)" "k * 60000 + 60000 \<le> e" using more by blast
    then show ?thesis using assms(1) b
      by (intro exI [of _ e]) (simp add: IncrementWithTTL_def run_g_fault g_millis_def add.commute)
  qed
  then obtain e where e: "k * 60000 + 60000 \<le> e"
    "run_state (IncrementWithTTL ?key rateWindow) w = (Some (int (Suc (n h))), w\<lparr>g_redis := (g_redis w)(?key \<mapsto> (int (Suc (n h)), e))\<rparr>)"
    by blast
  have "counting str k (n(h := Suc (n h))) (w\<lparr>g_redis := (g_redis w)(?key \<mapsto> (int (Suc (n h)), e))\<rparr>)"
    unfolding counting_def
  proof (intro allI impI)
    fix h' t assume t: "minute t = k"
    then have key: "minute_key str h' t = minute_key str h' (g_now w)" using assms(3) minute_key_same by metis
    show "if (n(h := Suc (n h))) h' = 0 then g_redis (w\<lparr>g_redis := (g_redis w)(?key \<mapsto> (int (Suc (n h)), e))\<rparr>) (minute_key str h' t) = None
        else \<exists>e'. g_redis (w\<lparr>g_redis := (g_redis w)(?key \<mapsto> (int (Suc (n h)), e))\<rparr>) (minute_key str h' t) = Some (int ((n(h := Suc (n h))) h'), e') \<and> k * 60000 + 60000 \<le> e'"
    proof (cases "h' = h")
      case True
      then show ?thesis using e(1) key by simp
    next
      case False
      then have "minute_key str h' t \<noteq> ?key" using key minute_key_eq [OF assms(4)] by simp
      then show ?thesis using False assms(2) t unfolding counting_def by simp
    qed
  qed
  then show ?thesis using e(2) assms(1) by auto
qed
lemma one_request:
  assumes w: "g_faults w = []" "plans_agree w" "counting str k n w" "minute (g_now w) = k" "uuid_strings str"
    and c: "\<not> exempt L secret c" "tenantHotelID L c = h"
  shows "\<exists>x w'. run_state (clientRateLimit L str secret c) w = (x, w') \<and>
    (fst x = Pass \<longleftrightarrow> int (Suc (n h)) \<le> hotel_quota w h) \<and> g_faults w' = [] \<and> plans_agree w' \<and>
    counting str k (n(h := Suc (n h))) w' \<and> g_hotels w' = g_hotels w"
proof -
  obtain r w1 where r: "run_state (planGate_confFor h) w = (r, w1)" "tenant_limit r = hotel_quota w h"
    "g_faults w1 = []" "plans_agree w1" "g_redis w1 = g_redis w" "g_now w1 = g_now w" "g_hotels w1 = g_hotels w"
    using confFor_quota [OF w(1,2)] by metis
  have "counting str k n w1" using w(3) r(5) by (simp add: counting_def)
  then obtain w2 where w2: "run_state (IncrementWithTTL (minute_key str h (g_now w1)) rateWindow) w1 = (Some (int (Suc (n h))), w2)"
    "counting str k (n(h := Suc (n h))) w2" "g_faults w2 = []" "g_plan w2 = g_plan w1" "g_hotels w2 = g_hotels w1"
    using increment_counts [OF r(3) _ _ w(5)] w(4) r(6) by metis
  have "plans_agree w2" using r(4) w2(4,5) by (simp add: plans_agree_def find_hotel_def)
  moreover have "run_state (clientRateLimit L str secret c) w =
      ((if hotel_quota w h < int (Suc (n h)) then Refuse 429 ''client request quota exceeded for this minute; please slow down or upgrade your plan'' else Pass,
        Some \<lparr>rl_limit = hotel_quota w h, rl_remaining = max 0 (hotel_quota w h - int (Suc (n h)))\<rparr>), w2)"
    using c r(1,2) w2(1) unfolding clientRateLimit_def exempt_def [symmetric] by (simp add: Let_def)
  ultimately show ?thesis using w2 r(7) by auto
qed

lemma run_exempt: "exempt L secret c \<Longrightarrow> run_state (clientRateLimit L str secret c) w = ((Pass, None), w)"
  unfolding clientRateLimit_def exempt_def [symmetric] by simp

lemma hotel_quota_hotels: "g_hotels w' = g_hotels w \<Longrightarrow> hotel_quota w' = hotel_quota w"
  by (simp add: hotel_quota_def find_hotel_def fun_eq_iff)

lemma metered_passes:
  assumes "uuid_strings str" "\<forall>r \<in> set rs. minute (fst r) = k"
    and "g_faults w = []" "plans_agree w" "counting str k n w"
  shows "length (filter (\<lambda>x. counts_for L secret h (fst x) \<and> snd x = Pass) (zip rs (metered L str secret rs w))) =
    min (length (filter (counts_for L secret h) rs)) (nat (hotel_quota w h) - n h)"
  using assms(2-)
proof (induction rs arbitrary: w n)
  case Nil
  then show ?case by simp
next
  case (Cons r rs)
  obtain t c where r: "r = (t, c)" by (cases r)
  let ?w = "w\<lparr>g_now := t\<rparr>"
  have w: "g_faults ?w = []" "plans_agree ?w" "counting str k n ?w" "minute (g_now ?w) = k"
    using Cons.prems by (auto simp: r plans_agree_def find_hotel_def counting_def)
  have q: "hotel_quota ?w = hotel_quota w" by (rule hotel_quota_hotels) simp
  have rs: "\<forall>r \<in> set rs. minute (fst r) = k" using Cons.prems(1) by simp
  show ?case
  proof (cases "exempt L secret c")
    case True
    then show ?thesis using Cons.IH [OF rs w(1-3)] q by (simp add: r run_exempt counts_for_def)
  next
    case False
    let ?g = "tenantHotelID L c"
    obtain x w' where x: "run_state (clientRateLimit L str secret c) ?w = (x, w')"
      "fst x = Pass \<longleftrightarrow> int (Suc (n ?g)) \<le> hotel_quota w ?g" "g_faults w' = []" "plans_agree w'"
      "counting str k (n(?g := Suc (n ?g))) w'" "g_hotels w' = g_hotels ?w"
      using one_request [OF w assms(1) False refl] unfolding q by metis
    have q': "hotel_quota w' = hotel_quota w" using hotel_quota_hotels [OF x(6)] q by simp
    show ?thesis using Cons.IH [OF rs x(3-5)] x(1,2) False q' by (auto simp: r counts_for_def)
  qed
qed

text \<open>C33: Within a minute every tenant gets exactly its quota: of the requests of a tenant, however they
  interleave with those of others, as many pass the limiter as the plan of the tenant allows per minute and
  all of them if they are fewer; no other tenant's requests count against it.\<close>

theorem quota_per_minute:
  assumes "inj str \<and> (\<forall>h. CHR '':'' \<notin> set (str h))" "\<forall>r \<in> set rs. minute (fst r) = k"
    and "g_faults w = []" "g_plan w = Map.empty" "g_redis w = Map.empty"
  shows "length (filter (\<lambda>x. counts_for L secret h (fst x) \<and> snd x = Pass) (zip rs (metered L str secret rs w))) =
    min (length (filter (counts_for L secret h) rs)) (nat (hotel_quota w h)) \<and> hotel_quota w h \<in> {300, 1200, 6000}"
proof -
  have "counting str k (\<lambda>_. 0) w" "plans_agree w" using assms(4,5) by (simp_all add: counting_def plans_agree_def)
  moreover have "hotel_quota w h \<in> {300, 1200, 6000}"
    by (auto simp: hotel_quota_def rank_quota_def planMinuteQuota_def planRank_def Let_def split: option.splits)
  ultimately show ?thesis using metered_passes [OF assms(1-3)] by simp
qed

theorem quota_per_minute_witness:
  "let c = gate_ctx ''/api/rooms''; rs = replicate 301 (5, c) in
   length (filter (\<lambda>x. counts_for gate_lib ''secret'' 7 (fst x) \<and> snd x = Pass) (zip rs (metered gate_lib show_nat ''secret'' rs basic_world))) = 300"
proof -
  let ?c = "gate_ctx ''/api/rooms''"
  have colon: "digit_val (CHR '':'') = 10" by code_simp
  have char: "CHR '':'' \<noteq> char_of (48 + d)" if "d < 10" for d :: nat
    using digit_val_char [OF that] that colon by auto
  have digits: "CHR '':'' \<notin> set (show_nat n)" for n
    by (induction n rule: show_nat.induct) (subst show_nat.simps, simp add: char)
  have "inj show_nat" by (metis injI digits_val_show_nat)
  moreover have "\<forall>r \<in> set (replicate 301 (5 :: int, ?c)). minute (fst r) = 0" by (simp add: minute_def second_def)
  moreover have "counts_for gate_lib ''secret'' 7 (5, ?c)" by code_simp
  moreover have "hotel_quota basic_world 7 = 300" by code_simp
  moreover have "g_faults basic_world = []" "g_plan basic_world = Map.empty" "g_redis basic_world = Map.empty" by (simp_all add: basic_world_def)
  ultimately show ?thesis
    using quota_per_minute [of show_nat "replicate 301 (5, ?c)" 0 basic_world gate_lib "''secret''" 7] digits by (simp add: Let_def)
qed
end
