(* ===== verification/Accounting.thy ===== *)
theory Accounting
  imports Ledger Auth "HOL-Library.Product_Lexorder" "HOL-Library.List_Lexorder"
begin

text \<open>
  The accounting module, \<^verbatim>\<open>internal/handler/accounting_handler.go\<close>: sales invoices, credit and debit
  notes, vendor payments, purchase orders, goods receipts, journal entries and the trial balance.
  Its documents are tables of their own, held beside the \<open>world\<close> of the other handlers, where the ledger,
  the accounts, the customers, the clock and the faults are. An invoice raised when a booking is settled is a
  row of \<open>of_invoices\<close> like any other. The messages of the database driver, which the module answers with, are
  not part of the model.
\<close>

subsection \<open>Tables\<close>

record document =
  d_id :: uuid
  d_hotel :: uuid
  d_number :: string
  d_date :: time
  d_status :: string

record invoice = document +
  iv_customer :: "uuid option"
  iv_due :: "time option"
  iv_reference :: "string option"
  iv_subtotal :: rat
  iv_discount :: rat
  iv_tax :: rat
  iv_total :: rat
  iv_notes :: "string option"

record invoice_line =
  vl_id :: uuid
  vl_invoice :: uuid
  vl_hotel :: uuid
  vl_account :: "uuid option"
  vl_description :: string
  vl_quantity :: rat
  vl_price :: rat
  vl_discount :: rat
  vl_rate :: rat
  vl_tax :: rat
  vl_total :: rat

record credit_note = document +
  cn_invoice :: "uuid option"
  cn_reason :: "string option"
  cn_subtotal :: rat
  cn_tax :: rat
  cn_total :: rat

record credit_note_line =
  cl_id :: uuid
  cl_note :: uuid
  cl_hotel :: uuid
  cl_account :: "uuid option"
  cl_invoice_line :: "uuid option"
  cl_description :: string
  cl_quantity :: rat
  cl_price :: rat
  cl_tax :: rat
  cl_total :: rat

record debit_note = document +
  dn_vendor :: "uuid option"
  dn_reason :: "string option"
  dn_subtotal :: rat
  dn_tax :: rat
  dn_total :: rat

record vendor_payment =
  vp_id :: uuid
  vp_hotel :: uuid
  vp_vendor :: "uuid option"
  vp_number :: string
  vp_date :: time
  vp_amount :: rat
  vp_method :: string
  vp_reference :: "string option"
  vp_notes :: "string option"

record purchase_order = document +
  po_vendor :: "uuid option"
  po_expected :: "time option"
  po_subtotal :: rat
  po_tax :: rat
  po_total :: rat
  po_notes :: "string option"

record goods_receipt = document +
  gr_order :: "uuid option"
  gr_vendor_ref :: "string option"
  gr_notes :: "string option"

record receipt_line =
  rl_id :: uuid
  rl_grn :: uuid
  rl_hotel :: uuid
  rl_description :: string
  rl_ordered :: rat
  rl_received :: rat
  rl_accepted :: rat
  rl_rejected :: rat
  rl_price :: rat
  rl_total :: rat

record office =
  of_world :: world
  of_slugs :: "(uuid \<times> string) list"
  of_vendors :: "uuid list"
  of_invoices :: "invoice list"
  of_lines :: "invoice_line list"
  of_notes :: "credit_note list"
  of_note_lines :: "credit_note_line list"
  of_debits :: "debit_note list"
  of_vpayments :: "vendor_payment list"
  of_orders :: "purchase_order list"
  of_receipts :: "goods_receipt list"
  of_receipt_lines :: "receipt_line list"

type_synonym 'a desk = "(office, 'a) state"

subsection \<open>Statements and transactions\<close>

definition at_world :: "'a go \<Rightarrow> 'a desk" where
  "at_world m = State (\<lambda>s. case run_state m (of_world s) of (x, w) \<Rightarrow> (x, s\<lparr>of_world := w\<rparr>))"

definition of_stmt :: "(office \<Rightarrow> goerr + 'a \<times> office) \<Rightarrow> (goerr + 'a) desk" where
  "of_stmt f = State (\<lambda>s.
     if w_tx (of_world s) = TxFailed then (Inl TxAborted, s)
     else case next_fault (of_world s) of (bad, w) \<Rightarrow>
       if bad then (Inl DbFault, s\<lparr>of_world := fail_tx w\<rparr>)
       else case f (s\<lparr>of_world := w\<rparr>) of
           Inl e \<Rightarrow> (Inl e, s\<lparr>of_world := fail_tx w\<rparr>)
         | Inr (a, s') \<Rightarrow> (Inr a, s'))"

definition of_query :: "(office \<Rightarrow> 'a) \<Rightarrow> (goerr + 'a) desk" where
  "of_query f = of_stmt (\<lambda>s. Inr (f s, s))"

text \<open>\<open>of_tx\<close> begins a transaction, answers from inside it on an error, which undoes it, and commits.\<close>

definition undo_tx :: "office \<Rightarrow> world \<Rightarrow> office" where
  "undo_tx s w = s\<lparr>of_world := w\<lparr>w_db := w_db (of_world s), w_tx := NoTx\<rparr>\<rparr>"

definition of_tx :: "('r response + 'b) desk \<Rightarrow> ('b \<Rightarrow> 'r response desk) \<Rightarrow> 'r response desk" where
  "of_tx m k = State (\<lambda>s.
     case next_fault (of_world s) of (bad, w1) \<Rightarrow>
       if bad then (Fail 500 [], s\<lparr>of_world := w1\<rparr>)
       else case run_state m (s\<lparr>of_world := w1\<lparr>w_tx := TxOpen\<rparr>\<rparr>) of
           (Inl answer, s2) \<Rightarrow> (answer, undo_tx s (of_world s2))
         | (Inr b, s2) \<Rightarrow>
             (case next_fault (of_world s2) of (bad', w3) \<Rightarrow>
                if bad' \<or> w_tx w3 = TxFailed then (Fail 500 [], undo_tx s w3)
                else run_state (k b) (s2\<lparr>of_world := w3\<lparr>w_tx := NoTx\<rparr>\<rparr>)))"

definition of_try :: "(goerr + 'a) desk \<Rightarrow> ('a \<Rightarrow> ('r response + 'b) desk) \<Rightarrow> ('r response + 'b) desk" where
  "of_try m k = do { r \<leftarrow> m; case r of Inl _ \<Rightarrow> State_Monad.return (Inl (Fail 500 [])) | Inr a \<Rightarrow> k a }"

definition of_or :: "nat \<Rightarrow> string \<Rightarrow> (goerr + 'a) desk \<Rightarrow> ('a \<Rightarrow> 'r response desk) \<Rightarrow> 'r response desk" where
  "of_or n msg m k = do { r \<leftarrow> m; case r of Inl _ \<Rightarrow> State_Monad.return (Fail n msg) | Inr a \<Rightarrow> k a }"

text \<open>A row the statement has to find: none, or an identifier that is no UUID, is an error.\<close>

definition of_row :: "uuid option \<Rightarrow> (uuid \<Rightarrow> office \<Rightarrow> ('a \<times> office) option) \<Rightarrow> (goerr + 'a) desk" where
  "of_row i f = (case i of
     None \<Rightarrow> of_stmt (\<lambda>s. Inl (ErrMsg ''invalid uuid''))
   | Some i \<Rightarrow> do {
       r \<leftarrow> of_stmt (\<lambda>s. Inr (case f i s of None \<Rightarrow> (None, s) | Some (a, s') \<Rightarrow> (Some a, s')));
       State_Monad.return (case r of Inl e \<Rightarrow> Inl e | Inr None \<Rightarrow> Inl NoRows | Inr (Some a) \<Rightarrow> Inr a)
     })"

abbreviation of_num :: "office \<Rightarrow> rat \<Rightarrow> rat" where
  "of_num s \<equiv> db_num (w_db (of_world s))"

abbreviation of_fail :: "nat \<Rightarrow> string \<Rightarrow> 'r response desk" where
  "of_fail n msg \<equiv> State_Monad.return (Fail n msg)"

record AccountingHandler =
  ah_lib :: lib
  ah_secret :: string

abbreviation books_hotel :: "AccountingHandler \<Rightarrow> ctx \<Rightarrow> uuid" where
  "books_hotel H c \<equiv> hotelID (ah_lib H) (ah_secret H) c"

definition parsed_uuid :: "AccountingHandler \<Rightarrow> string \<Rightarrow> uuid" where
  "parsed_uuid H raw = (case lib_uuid (ah_lib H) raw of None \<Rightarrow> uuid_Nil | Some u \<Rightarrow> u)"

definition nullableUUID :: "uuid \<Rightarrow> uuid option" where
  "nullableUUID u = (if u = uuid_Nil then None else Some u)"

text \<open>A date of the request, and today when there is none or it does not parse.\<close>

definition date_or :: "time \<Rightarrow> string \<Rightarrow> time" where
  "date_or now raw = (if raw = [] then now else case parse_date raw of None \<Rightarrow> now | Some t \<Rightarrow> t)"

definition date_opt :: "string \<Rightarrow> time option" where
  "date_opt raw = (if raw = [] then None else parse_date raw)"

text \<open>The number of a new document: the slug of the hotel, empty when it cannot be read, and the clock.\<close>

definition document_number :: "string \<Rightarrow> uuid \<Rightarrow> string desk" where
  "document_number prefix h = do {
     r \<leftarrow> of_query (\<lambda>s. map_of (of_slugs s) h);
     ms \<leftarrow> at_world time_UnixMilli;
     State_Monad.return (prefix @ ''-'' @ (case r of Inr (Some slug) \<Rightarrow> slug | _ \<Rightarrow> []) @ ''-'' @ show_int ms)
   }"

definition fk_ok :: "uuid option \<Rightarrow> uuid list \<Rightarrow> bool" where
  "fk_ok r ids \<longleftrightarrow> (case r of None \<Rightarrow> True | Some i \<Rightarrow> i \<in> set ids)"

abbreviation account_ids :: "office \<Rightarrow> uuid list" where
  "account_ids s \<equiv> map ac_id (accounts (w_db (of_world s)))"

text \<open>The unique keys every table of documents has.\<close>

definition taken :: "('a document_scheme) list \<Rightarrow> 'a document_scheme \<Rightarrow> bool" where
  "taken xs x \<longleftrightarrow> list_ex (\<lambda>y. d_id y = d_id x \<or> d_hotel y = d_hotel x \<and> d_number y = d_number x) xs"

definition is_draft :: "uuid \<Rightarrow> uuid \<Rightarrow> 'a document_scheme \<Rightarrow> bool" where
  "is_draft h i x \<longleftrightarrow> d_id x = i \<and> d_hotel x = h \<and> d_status x = ''draft''"

definition mark :: "string \<Rightarrow> 'a document_scheme \<Rightarrow> 'a document_scheme" where
  "mark st x = x\<lparr>d_status := st\<rparr>"

subsection \<open>Sales invoices\<close>

record salesInvoiceLineReq =
  sl_account :: string
  sl_description :: string
  sl_quantity :: rat
  sl_price :: rat
  sl_discount :: rat
  sl_rate :: rat

record salesInvoiceReq =
  si_customer :: string
  si_date :: string
  si_due :: string
  si_reference :: string
  si_notes :: string
  si_lines :: "salesInvoiceLineReq list"

text \<open>One line of the loop: quantity (one when it is zero), amounts before and after discount, tax.\<close>

record line =
  ln_account :: uuid
  ln_desc :: string
  ln_qty :: rat
  ln_price :: rat
  ln_discount :: rat
  ln_rate :: rat
  ln_tax :: rat
  ln_total :: rat

definition quantity_or_1 :: "rat \<Rightarrow> rat" where
  "quantity_or_1 q = (if q = 0 then 1 else q)"

definition gross :: "salesInvoiceLineReq \<Rightarrow> rat" where
  "gross l = fmul (quantity_or_1 (sl_quantity l)) (sl_price l)"

definition invoice_line_of :: "AccountingHandler \<Rightarrow> salesInvoiceLineReq \<Rightarrow> line" where
  "invoice_line_of H l =
     (let after = fsub (gross l) (sl_discount l); tax = fdiv (fmul after (sl_rate l)) 100
      in \<lparr>ln_account = parsed_uuid H (sl_account l), ln_desc = sl_description l,
          ln_qty = quantity_or_1 (sl_quantity l), ln_price = sl_price l, ln_discount = sl_discount l,
          ln_rate = sl_rate l, ln_tax = tax, ln_total = fadd after tax\<rparr>)"

record totals =
  t_subtotal :: rat
  t_discount :: rat
  t_tax :: rat
  t_total :: rat

definition invoice_totals :: "AccountingHandler \<Rightarrow> salesInvoiceLineReq list \<Rightarrow> totals" where
  "invoice_totals H ls =
     (let sub = foldl (\<lambda>a l. fadd a (gross l)) 0 ls;
          disc = foldl (\<lambda>a l. fadd a (sl_discount l)) 0 ls;
          tax = foldl (\<lambda>a l. fadd a (ln_tax (invoice_line_of H l))) 0 ls
      in \<lparr>t_subtotal = sub, t_discount = disc, t_tax = tax, t_total = fadd (fsub sub disc) tax\<rparr>)"

definition sql_insert_sales_invoice :: "invoice \<Rightarrow> office \<Rightarrow> goerr + unit \<times> office" where
  "sql_insert_sales_invoice v s =
     (if taken (of_invoices s) v then Inl UniqueViolation
      else if \<not> fk_ok (iv_customer v) (map cu_id (customers (w_db (of_world s)))) then Inl ForeignKeyViolation
      else Inr ((), s\<lparr>of_invoices := of_invoices s @
        [v\<lparr>iv_subtotal := of_num s (iv_subtotal v), iv_discount := of_num s (iv_discount v),
           iv_tax := of_num s (iv_tax v), iv_total := of_num s (iv_total v)\<rparr>]\<rparr>))"

definition sql_insert_invoice_line :: "invoice_line \<Rightarrow> office \<Rightarrow> goerr + unit \<times> office" where
  "sql_insert_invoice_line l s =
     (if list_ex (\<lambda>x. vl_id x = vl_id l) (of_lines s) then Inl UniqueViolation
      else if vl_invoice l \<notin> set (map d_id (of_invoices s)) \<or> \<not> fk_ok (vl_account l) (account_ids s) then Inl ForeignKeyViolation
      else Inr ((), s\<lparr>of_lines := of_lines s @
        [l\<lparr>vl_quantity := of_num s (vl_quantity l), vl_price := of_num s (vl_price l), vl_discount := of_num s (vl_discount l),
           vl_rate := of_num s (vl_rate l), vl_tax := of_num s (vl_tax l), vl_total := of_num s (vl_total l)\<rparr>]\<rparr>))"

fun insert_invoice_lines :: "uuid \<Rightarrow> uuid \<Rightarrow> line list \<Rightarrow> ('r response + unit) desk" where
  "insert_invoice_lines h iid [] = State_Monad.return (Inr ())"
| "insert_invoice_lines h iid (l # ls) = do {
     i \<leftarrow> at_world uuid_New;
     of_try (of_stmt (sql_insert_invoice_line \<lparr>vl_id = i, vl_invoice = iid, vl_hotel = h, vl_account = Some (ln_account l),
         vl_description = ln_desc l, vl_quantity = ln_qty l, vl_price = ln_price l, vl_discount = ln_discount l,
         vl_rate = ln_rate l, vl_tax = ln_tax l, vl_total = ln_total l\<rparr>))
       (\<lambda>_. insert_invoice_lines h iid ls)
   }"

definition CreateSalesInvoice :: "AccountingHandler \<Rightarrow> ctx \<Rightarrow> salesInvoiceReq option \<Rightarrow> (uuid \<times> string \<times> rat) response desk" where
  "CreateSalesInvoice H c body =
     (case body of
        None \<Rightarrow> of_fail 400 ''invalid request''
      | Some req \<Rightarrow>
          if si_lines req = [] then of_fail 422 ''at least one line is required''
          else do {
            let h = books_hotel H c;
            number \<leftarrow> document_number ''INV'' h;
            now \<leftarrow> at_world time_Now;
            let t = invoice_totals H (si_lines req);
            of_tx (do {
                iid \<leftarrow> at_world uuid_New;
                of_try (of_stmt (sql_insert_sales_invoice \<lparr>d_id = iid, d_hotel = h, d_number = number,
                    d_date = date_or now (si_date req), d_status = ''draft'',
                    iv_customer = nullableUUID (parsed_uuid H (si_customer req)), iv_due = date_opt (si_due req),
                    iv_reference = strPtr (si_reference req), iv_subtotal = t_subtotal t, iv_discount = t_discount t,
                    iv_tax = t_tax t, iv_total = t_total t, iv_notes = strPtr (si_notes req)\<rparr>))
                  (\<lambda>_. do {
                     r \<leftarrow> insert_invoice_lines h iid (map (invoice_line_of H) (si_lines req));
                     State_Monad.return (case r of Inl a \<Rightarrow> Inl a | Inr _ \<Rightarrow> Inr iid)
                   })
              })
              (\<lambda>iid. State_Monad.return (Created (iid, number, t_total t)))
          })"

definition find_doc :: "uuid \<Rightarrow> uuid \<Rightarrow> ('a document_scheme) list \<Rightarrow> 'a document_scheme option" where
  "find_doc h i xs = find (\<lambda>x. d_id x = i \<and> d_hotel x = h) xs"

definition GetSalesInvoice :: "AccountingHandler \<Rightarrow> ctx \<Rightarrow> string \<Rightarrow> (invoice \<times> invoice_line list) response desk" where
  "GetSalesInvoice H c idp =
     (let i = lib_uuid (ah_lib H) idp in
      of_or 404 ''invoice not found'' (of_row i (\<lambda>i s. map_option (\<lambda>v. (v, s)) (find_doc (books_hotel H c) i (of_invoices s))))
        (\<lambda>v. of_or 500 [] (of_query (\<lambda>s. filter (\<lambda>l. vl_invoice l = d_id v) (of_lines s)))
           (\<lambda>ls. State_Monad.return (OK (v, ls)))))"

text \<open>The transaction of \<^verbatim>\<open>UpdateSalesInvoice\<close>: its \<^verbatim>\<open>UPDATE\<close> is guarded by the status, the replacement of the
  lines is not.\<close>

definition sql_edit_invoice :: "AccountingHandler \<Rightarrow> uuid \<Rightarrow> uuid \<Rightarrow> salesInvoiceReq \<Rightarrow> totals \<Rightarrow> office \<Rightarrow> office" where
  "sql_edit_invoice H h i req t s = s\<lparr>of_invoices := upd_where (is_draft h i) (\<lambda>v. v\<lparr>
     iv_customer := (case nullableUUID (parsed_uuid H (si_customer req)) of None \<Rightarrow> iv_customer v | Some u \<Rightarrow> Some u),
     d_date := (case date_opt (si_date req) of None \<Rightarrow> d_date v | Some d \<Rightarrow> d),
     iv_due := date_opt (si_due req), iv_reference := strPtr (si_reference req), iv_notes := strPtr (si_notes req),
     iv_subtotal := of_num s (t_subtotal t), iv_discount := of_num s (t_discount t), iv_tax := of_num s (t_tax t),
     iv_total := of_num s (t_total t)\<rparr>) (of_invoices s)\<rparr>"

definition edit_fk :: "AccountingHandler \<Rightarrow> uuid \<Rightarrow> uuid \<Rightarrow> salesInvoiceReq \<Rightarrow> office \<Rightarrow> bool" where
  "edit_fk H h i req s \<longleftrightarrow> list_ex (is_draft h i) (of_invoices s) \<longrightarrow>
     fk_ok (nullableUUID (parsed_uuid H (si_customer req))) (map cu_id (customers (w_db (of_world s))))"

definition update_invoice_tx :: "AccountingHandler \<Rightarrow> uuid \<Rightarrow> uuid \<Rightarrow> salesInvoiceReq \<Rightarrow> ('r response + unit) desk" where
  "update_invoice_tx H h i req =
     of_try (of_stmt (\<lambda>s. if edit_fk H h i req s then Inr ((), sql_edit_invoice H h i req (invoice_totals H (si_lines req)) s)
         else Inl ForeignKeyViolation))
       (\<lambda>_. of_try (of_stmt (\<lambda>s. Inr ((), s\<lparr>of_lines := filter (\<lambda>l. \<not> (vl_invoice l = i \<and> vl_hotel l = h)) (of_lines s)\<rparr>)))
          (\<lambda>_. insert_invoice_lines h i (map (invoice_line_of H) (si_lines req))))"

definition UpdateSalesInvoice :: "AccountingHandler \<Rightarrow> ctx \<Rightarrow> string \<Rightarrow> salesInvoiceReq option \<Rightarrow> rat response desk" where
  "UpdateSalesInvoice H c idp body =
     (case body of
        None \<Rightarrow> of_fail 400 ''invalid request''
      | Some req \<Rightarrow>
          if si_lines req = [] then of_fail 422 ''at least one line is required''
          else
            (let h = books_hotel H c in
             of_or 404 ''invoice not found'' (of_row (lib_uuid (ah_lib H) idp) (\<lambda>i s. map_option (\<lambda>v. (v, s)) (find_doc h i (of_invoices s))))
               (\<lambda>v. if d_status v \<noteq> ''draft'' then of_fail 409 ''only a draft invoice can be edited - cancel it or raise a credit note''
                    else of_tx (update_invoice_tx H h (d_id v) req)
                      (\<lambda>_. State_Monad.return (OK (t_total (invoice_totals H (si_lines req))))))))"

text \<open>\<^verbatim>\<open>UPDATE ... SET status = 'posted' WHERE ... AND status = 'draft' RETURNING ...\<close>\<close>

definition post_invoice_row :: "uuid \<Rightarrow> uuid \<Rightarrow> office \<Rightarrow> (invoice \<times> office) option" where
  "post_invoice_row h i s = map_option (\<lambda>v. (v, s\<lparr>of_invoices := upd_where (is_draft h i) (mark ''posted'') (of_invoices s)\<rparr>))
     (find (is_draft h i) (of_invoices s))"

text \<open>An error of the posting is ignored; \<open>None\<close> is an answer without a journal entry.\<close>

definition journal_of :: "goerr + uuid \<Rightarrow> uuid option" where
  "journal_of r = (case r of Inl _ \<Rightarrow> None | Inr u \<Rightarrow> nullableUUID u)"

definition PostSalesInvoice :: "AccountingHandler \<Rightarrow> ctx \<Rightarrow> string \<Rightarrow> uuid option response desk" where
  "PostSalesInvoice H c idp =
     (let h = books_hotel H c in
      of_or 400 ''invoice not found or already posted/cancelled'' (of_row (lib_uuid (ah_lib H) idp) (post_invoice_row h))
        (\<lambda>v. do {
           r \<leftarrow> at_world (postARInvoice h (iv_tax v) (iv_total v) (''INV '' @ d_number v) (''Sales invoice '' @ d_number v));
           State_Monad.return (OK (journal_of r))
         }))"

definition CancelSalesInvoice :: "AccountingHandler \<Rightarrow> ctx \<Rightarrow> string \<Rightarrow> uuid option response desk" where
  "CancelSalesInvoice H c idp =
     (let h = books_hotel H c in
      of_or 404 ''invoice not found'' (of_row (lib_uuid (ah_lib H) idp) (\<lambda>i s. map_option (\<lambda>v. (v, s)) (find_doc h i (of_invoices s))))
        (\<lambda>v. if d_status v \<noteq> ''draft'' \<and> d_status v \<noteq> ''posted'' then of_fail 400 ''invoice already cancelled''
             else of_or 500 [] (of_stmt (\<lambda>s. Inr ((), s\<lparr>of_invoices := upd_where (\<lambda>x. d_id x = d_id v \<and> d_hotel x = h) (mark ''cancelled'') (of_invoices s)\<rparr>)))
               (\<lambda>_. if d_status v = ''posted'' then do {
                   r \<leftarrow> at_world (reverseJournalsByReference h (''INV '' @ d_number v) (''Cancellation - invoice '' @ d_number v));
                   State_Monad.return (OK (journal_of r))
                 } else State_Monad.return (OK None))))"
subsection \<open>Credit notes\<close>

text \<open>The lines of a credit note raised from an invoice are one \<^verbatim>\<open>INSERT ... SELECT\<close>, their identifiers issued by
  the database.\<close>

definition copy_lines :: "uuid \<Rightarrow> uuid \<Rightarrow> office \<Rightarrow> office" where
  "copy_lines note iid s =
     (let w = of_world s; ls = filter (\<lambda>l. vl_invoice l = iid) (of_lines s);
          ids = map (w_ids w) [w_next w ..< w_next w + length ls]
      in s\<lparr>of_world := w\<lparr>w_next := w_next w + length ls\<rparr>,
           of_note_lines := of_note_lines s @ map (\<lambda>(i, l). \<lparr>cl_id = i, cl_note = note, cl_hotel = vl_hotel l, cl_account = vl_account l,
             cl_invoice_line = Some (vl_id l), cl_description = vl_description l, cl_quantity = vl_quantity l,
             cl_price = vl_price l, cl_tax = vl_tax l, cl_total = vl_total l\<rparr>) (zip ids ls)\<rparr>)"

definition sql_insert_note :: "credit_note \<Rightarrow> office \<Rightarrow> goerr + unit \<times> office" where
  "sql_insert_note n s =
     (if taken (of_notes s) n then Inl UniqueViolation
      else if \<not> fk_ok (cn_invoice n) (map d_id (of_invoices s)) then Inl ForeignKeyViolation
      else Inr ((), s\<lparr>of_notes := of_notes s @ [n]\<rparr>))"

definition note_from_invoice :: "uuid \<Rightarrow> uuid \<Rightarrow> uuid \<Rightarrow> string \<Rightarrow> time \<Rightarrow> office \<Rightarrow> goerr + unit \<times> office" where
  "note_from_invoice note h iid number today s =
     (case find (\<lambda>v. d_id v = iid) (of_invoices s) of
        None \<Rightarrow> Inr ((), s)
      | Some v \<Rightarrow> sql_insert_note \<lparr>d_id = note, d_hotel = h, d_number = number, d_date = today, d_status = ''draft'',
          cn_invoice = Some iid, cn_reason = Some (''Credit against '' @ d_number v), cn_subtotal = iv_subtotal v,
          cn_tax = iv_tax v, cn_total = iv_total v\<rparr> s)"

definition CreateCreditNoteFromInvoice :: "AccountingHandler \<Rightarrow> ctx \<Rightarrow> string \<Rightarrow> (uuid \<times> string) response desk" where
  "CreateCreditNoteFromInvoice H c idp =
     (let h = books_hotel H c in
      of_or 404 ''invoice not found'' (of_row (lib_uuid (ah_lib H) idp) (\<lambda>i s. map_option (\<lambda>v. (v, s)) (find_doc h i (of_invoices s))))
        (\<lambda>v. if d_status v \<noteq> ''posted'' then of_fail 400 ''credit note can only be created from a posted invoice''
             else do {
               r \<leftarrow> of_query (\<lambda>s. length (filter (\<lambda>n. cn_invoice n = Some (d_id v)) (of_notes s)));
               let number = ''CN-'' @ d_number v @ ''-'' @ show_nat ((case r of Inl _ \<Rightarrow> 0 | Inr k \<Rightarrow> k) + 1);
               now \<leftarrow> at_world time_Now;
               of_tx (do {
                   nid \<leftarrow> at_world uuid_New;
                   of_try (of_stmt (note_from_invoice nid h (d_id v) number now))
                     (\<lambda>_. of_try (of_stmt (\<lambda>s. Inr ((), copy_lines nid (d_id v) s))) (\<lambda>_. State_Monad.return (Inr nid)))
                 })
                 (\<lambda>nid. State_Monad.return (Created (nid, number)))
             }))"

record creditNoteLineReq =
  cq_account :: string
  cq_invoice_line :: string
  cq_description :: string
  cq_quantity :: rat
  cq_price :: rat

record creditNoteReq =
  cr_invoice :: string
  cr_date :: string
  cr_reason :: string
  cr_lines :: "creditNoteLineReq list"

definition sql_insert_note_line :: "credit_note_line \<Rightarrow> office \<Rightarrow> goerr + unit \<times> office" where
  "sql_insert_note_line l s =
     (if list_ex (\<lambda>x. cl_id x = cl_id l) (of_note_lines s) then Inl UniqueViolation
      else if cl_note l \<notin> set (map d_id (of_notes s)) \<or> \<not> fk_ok (cl_account l) (account_ids s) \<or>
        \<not> fk_ok (cl_invoice_line l) (map vl_id (of_lines s)) then Inl ForeignKeyViolation
      else Inr ((), s\<lparr>of_note_lines := of_note_lines s @
        [l\<lparr>cl_quantity := of_num s (cl_quantity l), cl_price := of_num s (cl_price l), cl_total := of_num s (cl_total l)\<rparr>]\<rparr>))"

definition note_line_total :: "creditNoteLineReq \<Rightarrow> rat" where
  "note_line_total l = fmul (quantity_or_1 (cq_quantity l)) (cq_price l)"

fun insert_note_lines :: "AccountingHandler \<Rightarrow> uuid \<Rightarrow> uuid \<Rightarrow> creditNoteLineReq list \<Rightarrow> ('r response + unit) desk" where
  "insert_note_lines H h note [] = State_Monad.return (Inr ())"
| "insert_note_lines H h note (l # ls) = do {
     i \<leftarrow> at_world uuid_New;
     of_try (of_stmt (sql_insert_note_line \<lparr>cl_id = i, cl_note = note, cl_hotel = h,
         cl_account = nullableUUID (parsed_uuid H (cq_account l)), cl_invoice_line = nullableUUID (parsed_uuid H (cq_invoice_line l)),
         cl_description = cq_description l, cl_quantity = quantity_or_1 (cq_quantity l), cl_price = cq_price l, cl_tax = 0,
         cl_total = note_line_total l\<rparr>))
       (\<lambda>_. insert_note_lines H h note ls)
   }"

definition sql_note_totals :: "uuid \<Rightarrow> rat \<Rightarrow> office \<Rightarrow> office" where
  "sql_note_totals note tot s = s\<lparr>of_notes := upd_where (\<lambda>n. d_id n = note)
     (\<lambda>n. n\<lparr>cn_subtotal := of_num s tot, cn_tax := of_num s 0, cn_total := of_num s tot\<rparr>) (of_notes s)\<rparr>"

definition CreateCreditNote :: "AccountingHandler \<Rightarrow> ctx \<Rightarrow> creditNoteReq option \<Rightarrow> (uuid \<times> string) response desk" where
  "CreateCreditNote H c body =
     (case body of
        None \<Rightarrow> of_fail 400 ''invalid request''
      | Some req \<Rightarrow>
          if cr_lines req = [] \<and> cr_reason req = [] then of_fail 422 ''lines or reason required''
          else do {
            let h = books_hotel H c;
            number \<leftarrow> document_number ''CN'' h;
            now \<leftarrow> at_world time_Now;
            of_tx (do {
                nid \<leftarrow> at_world uuid_New;
                of_try (of_stmt (sql_insert_note \<lparr>d_id = nid, d_hotel = h, d_number = number, d_date = date_or now (cr_date req),
                    d_status = ''draft'', cn_invoice = (if cr_invoice req = [] then None else lib_uuid (ah_lib H) (cr_invoice req)),
                    cn_reason = strPtr (cr_reason req), cn_subtotal = 0, cn_tax = 0, cn_total = 0\<rparr>))
                  (\<lambda>_. do {
                     r \<leftarrow> insert_note_lines H h nid (cr_lines req);
                     case r of
                       Inl a \<Rightarrow> State_Monad.return (Inl a)
                     | Inr _ \<Rightarrow> of_try (of_stmt (\<lambda>s. Inr ((), sql_note_totals nid (foldl (\<lambda>a l. fadd a (note_line_total l)) 0 (cr_lines req)) s)))
                         (\<lambda>_. State_Monad.return (Inr nid))
                   })
              })
              (\<lambda>nid. State_Monad.return (Created (nid, number)))
          })"

definition post_note_row :: "uuid \<Rightarrow> uuid \<Rightarrow> office \<Rightarrow> (credit_note \<times> office) option" where
  "post_note_row h i s = map_option (\<lambda>n. (n, s\<lparr>of_notes := upd_where (is_draft h i) (mark ''posted'') (of_notes s)\<rparr>))
     (find (is_draft h i) (of_notes s))"

definition PostCreditNote :: "AccountingHandler \<Rightarrow> ctx \<Rightarrow> string \<Rightarrow> uuid option response desk" where
  "PostCreditNote H c idp =
     (let h = books_hotel H c in
      of_or 400 ''credit note not found or already posted'' (of_row (lib_uuid (ah_lib H) idp) (post_note_row h))
        (\<lambda>n. do {
           r \<leftarrow> at_world (postCreditNoteReversal h (cn_tax n) (cn_total n) (''CN '' @ d_number n) (''Credit note '' @ d_number n));
           State_Monad.return (OK (journal_of r))
         }))"

subsection \<open>Debit notes and vendor payments\<close>

record debitNoteReq =
  dr_vendor :: string
  dr_date :: string
  dr_reason :: string
  dr_subtotal :: rat
  dr_tax :: rat
  dr_total :: rat

definition sql_insert_debit :: "debit_note \<Rightarrow> office \<Rightarrow> goerr + unit \<times> office" where
  "sql_insert_debit n s =
     (if taken (of_debits s) n then Inl UniqueViolation
      else if \<not> fk_ok (dn_vendor n) (of_vendors s) then Inl ForeignKeyViolation
      else Inr ((), s\<lparr>of_debits := of_debits s @
        [n\<lparr>dn_subtotal := of_num s (dn_subtotal n), dn_tax := of_num s (dn_tax n), dn_total := of_num s (dn_total n)\<rparr>]\<rparr>))"

definition CreateDebitNote :: "AccountingHandler \<Rightarrow> ctx \<Rightarrow> debitNoteReq option \<Rightarrow> (uuid \<times> string) response desk" where
  "CreateDebitNote H c body =
     (case body of
        None \<Rightarrow> of_fail 400 ''invalid request''
      | Some req \<Rightarrow>
          if dr_reason req = [] \<and> dr_total req = 0 then of_fail 422 ''reason or total required''
          else do {
            let h = books_hotel H c;
            number \<leftarrow> document_number ''DN'' h;
            now \<leftarrow> at_world time_Now;
            i \<leftarrow> at_world uuid_New;
            of_or 500 [] (of_stmt (sql_insert_debit \<lparr>d_id = i, d_hotel = h, d_number = number, d_date = date_or now (dr_date req),
                d_status = ''draft'', dn_vendor = nullableUUID (parsed_uuid H (dr_vendor req)), dn_reason = strPtr (dr_reason req),
                dn_subtotal = dr_subtotal req, dn_tax = dr_tax req, dn_total = dr_total req\<rparr>))
              (\<lambda>_. State_Monad.return (Created (i, number)))
          })"

definition post_debit_row :: "uuid \<Rightarrow> uuid \<Rightarrow> office \<Rightarrow> (debit_note \<times> office) option" where
  "post_debit_row h i s = map_option (\<lambda>n. (n, s\<lparr>of_debits := upd_where (is_draft h i) (mark ''posted'') (of_debits s)\<rparr>))
     (find (is_draft h i) (of_debits s))"

definition PostDebitNote :: "AccountingHandler \<Rightarrow> ctx \<Rightarrow> string \<Rightarrow> uuid option response desk" where
  "PostDebitNote H c idp =
     (let h = books_hotel H c in
      of_or 400 ''debit note not found or already posted'' (of_row (lib_uuid (ah_lib H) idp) (post_debit_row h))
        (\<lambda>n. do {
           r \<leftarrow> at_world (postVendorDebitNote h (dn_total n) (''DN '' @ d_number n) (''Debit note '' @ d_number n));
           State_Monad.return (OK (journal_of r))
         }))"

record vendorPaymentReq =
  vr_vendor :: string
  vr_date :: string
  vr_amount :: rat
  vr_method :: string
  vr_reference :: string
  vr_notes :: string

definition sql_insert_vpayment :: "vendor_payment \<Rightarrow> office \<Rightarrow> goerr + unit \<times> office" where
  "sql_insert_vpayment p s =
     (if list_ex (\<lambda>x. vp_id x = vp_id p \<or> vp_hotel x = vp_hotel p \<and> vp_number x = vp_number p) (of_vpayments s) then Inl UniqueViolation
      else if \<not> fk_ok (vp_vendor p) (of_vendors s) then Inl ForeignKeyViolation
      else Inr ((), s\<lparr>of_vpayments := of_vpayments s @ [p\<lparr>vp_amount := of_num s (vp_amount p)\<rparr>]\<rparr>))"

definition CreateVendorPayment :: "AccountingHandler \<Rightarrow> ctx \<Rightarrow> vendorPaymentReq option \<Rightarrow> (uuid \<times> string \<times> uuid option) response desk" where
  "CreateVendorPayment H c body =
     (case body of
        None \<Rightarrow> of_fail 400 ''invalid request''
      | Some req \<Rightarrow>
          if vr_amount req \<le> 0 then of_fail 422 ''amount must be positive''
          else do {
            let h = books_hotel H c;
            let payMethod = (if vr_method req = [] then ''cash'' else vr_method req);
            number \<leftarrow> document_number ''VP'' h;
            now \<leftarrow> at_world time_Now;
            i \<leftarrow> at_world uuid_New;
            of_or 500 [] (of_stmt (sql_insert_vpayment \<lparr>vp_id = i, vp_hotel = h, vp_vendor = nullableUUID (parsed_uuid H (vr_vendor req)),
                vp_number = number, vp_date = date_or now (vr_date req), vp_amount = vr_amount req, vp_method = payMethod,
                vp_reference = strPtr (vr_reference req), vp_notes = strPtr (vr_notes req)\<rparr>))
              (\<lambda>_. do {
                 r \<leftarrow> at_world (postAPSettlement h payMethod (vr_amount req) (''VP '' @ number) (''Vendor payment '' @ number));
                 State_Monad.return (Created (i, number, journal_of r))
               })
          })"
subsection \<open>Purchase orders and goods receipts\<close>

record poLineReq =
  pq_description :: string
  pq_quantity :: rat
  pq_price :: rat

record poReq =
  pr_vendor :: string
  pr_date :: string
  pr_expected :: string
  pr_notes :: string
  pr_lines :: "poLineReq list"

definition sql_insert_order :: "purchase_order \<Rightarrow> office \<Rightarrow> goerr + unit \<times> office" where
  "sql_insert_order p s =
     (if taken (of_orders s) p then Inl UniqueViolation
      else if \<not> fk_ok (po_vendor p) (of_vendors s) then Inl ForeignKeyViolation
      else Inr ((), s\<lparr>of_orders := of_orders s @ [p]\<rparr>))"

text \<open>The lines of receipts reference \<^verbatim>\<open>accounting_grn\<close>, also those a purchase order writes.\<close>

definition sql_insert_receipt_line :: "receipt_line \<Rightarrow> office \<Rightarrow> goerr + unit \<times> office" where
  "sql_insert_receipt_line l s =
     (if list_ex (\<lambda>x. rl_id x = rl_id l) (of_receipt_lines s) then Inl UniqueViolation
      else if rl_grn l \<notin> set (map d_id (of_receipts s)) then Inl ForeignKeyViolation
      else Inr ((), s\<lparr>of_receipt_lines := of_receipt_lines s @
        [l\<lparr>rl_ordered := of_num s (rl_ordered l), rl_received := of_num s (rl_received l), rl_accepted := of_num s (rl_accepted l),
           rl_rejected := of_num s (rl_rejected l), rl_price := of_num s (rl_price l), rl_total := of_num s (rl_total l)\<rparr>]\<rparr>))"

definition po_line_total :: "poLineReq \<Rightarrow> rat" where
  "po_line_total l = fmul (quantity_or_1 (pq_quantity l)) (pq_price l)"

fun insert_po_lines :: "uuid \<Rightarrow> uuid \<Rightarrow> poLineReq list \<Rightarrow> ('r response + unit) desk" where
  "insert_po_lines h po [] = State_Monad.return (Inr ())"
| "insert_po_lines h po (l # ls) = do {
     i \<leftarrow> at_world uuid_New;
     of_try (of_stmt (sql_insert_receipt_line \<lparr>rl_id = i, rl_grn = po, rl_hotel = h, rl_description = pq_description l,
         rl_ordered = quantity_or_1 (pq_quantity l), rl_received = 0, rl_accepted = 0, rl_rejected = 0,
         rl_price = pq_price l, rl_total = po_line_total l\<rparr>))
       (\<lambda>_. insert_po_lines h po ls)
   }"

definition CreatePurchaseOrder :: "AccountingHandler \<Rightarrow> ctx \<Rightarrow> poReq option \<Rightarrow> (uuid \<times> string) response desk" where
  "CreatePurchaseOrder H c body =
     (case body of
        None \<Rightarrow> of_fail 400 ''invalid request''
      | Some req \<Rightarrow>
          if pr_lines req = [] then of_fail 422 ''at least one line is required''
          else do {
            let h = books_hotel H c;
            number \<leftarrow> document_number ''PO'' h;
            now \<leftarrow> at_world time_Now;
            po \<leftarrow> at_world uuid_New;
            of_tx (of_try (of_stmt (sql_insert_order \<lparr>d_id = po, d_hotel = h, d_number = number, d_date = date_or now (pr_date req),
                d_status = ''draft'', po_vendor = nullableUUID (parsed_uuid H (pr_vendor req)), po_expected = date_opt (pr_expected req),
                po_subtotal = 0, po_tax = 0, po_total = 0, po_notes = strPtr (pr_notes req)\<rparr>))
              (\<lambda>_. do {
                 r \<leftarrow> insert_po_lines h po (pr_lines req);
                 case r of
                   Inl a \<Rightarrow> State_Monad.return (Inl a)
                 | Inr _ \<Rightarrow> of_try (of_stmt (\<lambda>s. Inr ((), s\<lparr>of_orders := upd_where (\<lambda>p. d_id p = po)
                       (let tot = foldl (\<lambda>a l. fadd a (po_line_total l)) 0 (pr_lines req)
                        in (\<lambda>p. p\<lparr>po_subtotal := of_num s tot, po_total := of_num s tot\<rparr>)) (of_orders s)\<rparr>)))
                     (\<lambda>_. State_Monad.return (Inr ()))
               }))
              (\<lambda>_. State_Monad.return (Created (po, number)))
          })"

definition ApprovePurchaseOrder :: "AccountingHandler \<Rightarrow> ctx \<Rightarrow> string \<Rightarrow> unit response desk" where
  "ApprovePurchaseOrder H c idp =
     (case lib_uuid (ah_lib H) idp of
        None \<Rightarrow> of_or 500 [] (of_stmt (\<lambda>s. Inl (ErrMsg ''invalid uuid''))) (\<lambda>x. State_Monad.return (OK x))
      | Some i \<Rightarrow>
          (let p = is_draft (books_hotel H c) i in
           of_or 500 [] (of_stmt (\<lambda>s. Inr (affected p (of_orders s), s\<lparr>of_orders := upd_where p (mark ''approved'') (of_orders s)\<rparr>)))
             (\<lambda>n. if n = 0 then of_fail 400 ''PO not found or not in draft'' else State_Monad.return (OK ()))))"

record grnLineReq =
  gq_description :: string
  gq_ordered :: rat
  gq_received :: rat
  gq_accepted :: rat
  gq_rejected :: rat
  gq_price :: rat

record grnReq =
  gn_order :: string
  gn_date :: string
  gn_vendor_ref :: string
  gn_notes :: string
  gn_lines :: "grnLineReq list"

definition sql_insert_receipt :: "goods_receipt \<Rightarrow> office \<Rightarrow> goerr + unit \<times> office" where
  "sql_insert_receipt g s =
     (if taken (of_receipts s) g then Inl UniqueViolation
      else if \<not> fk_ok (gr_order g) (map d_id (of_orders s)) then Inl ForeignKeyViolation
      else Inr ((), s\<lparr>of_receipts := of_receipts s @ [g]\<rparr>))"

fun insert_receipt_lines :: "uuid \<Rightarrow> uuid \<Rightarrow> grnLineReq list \<Rightarrow> ('r response + unit) desk" where
  "insert_receipt_lines h g [] = State_Monad.return (Inr ())"
| "insert_receipt_lines h g (l # ls) = do {
     i \<leftarrow> at_world uuid_New;
     of_try (of_stmt (sql_insert_receipt_line \<lparr>rl_id = i, rl_grn = g, rl_hotel = h, rl_description = gq_description l,
         rl_ordered = gq_ordered l, rl_received = gq_received l, rl_accepted = gq_accepted l, rl_rejected = gq_rejected l,
         rl_price = gq_price l, rl_total = fmul (gq_accepted l) (gq_price l)\<rparr>))
       (\<lambda>_. insert_receipt_lines h g ls)
   }"

definition CreateGRN :: "AccountingHandler \<Rightarrow> ctx \<Rightarrow> grnReq option \<Rightarrow> (uuid \<times> string) response desk" where
  "CreateGRN H c body =
     (case body of
        None \<Rightarrow> of_fail 400 ''invalid request''
      | Some req \<Rightarrow>
          if gn_lines req = [] then of_fail 422 ''at least one line is required''
          else do {
            let h = books_hotel H c;
            let po = parsed_uuid H (gn_order req);
            number \<leftarrow> document_number ''GRN'' h;
            now \<leftarrow> at_world time_Now;
            of_tx (do {
                g \<leftarrow> at_world uuid_New;
                of_try (of_stmt (sql_insert_receipt \<lparr>d_id = g, d_hotel = h, d_number = number, d_date = date_or now (gn_date req),
                    d_status = ''draft'', gr_order = nullableUUID po, gr_vendor_ref = strPtr (gn_vendor_ref req),
                    gr_notes = strPtr (gn_notes req)\<rparr>))
                  (\<lambda>_. do {
                     r \<leftarrow> insert_receipt_lines h g (gn_lines req);
                     State_Monad.return (case r of Inl a \<Rightarrow> Inl a | Inr _ \<Rightarrow> Inr g)
                   })
              })
              (\<lambda>g. do {
                 _ \<leftarrow> of_stmt (\<lambda>s. Inr ((), s\<lparr>of_orders := upd_where (\<lambda>p. d_id p = po \<and> d_hotel p = h \<and> d_status p = ''approved'')
                   (mark ''received'') (of_orders s)\<rparr>));
                 State_Monad.return (Created (g, number))
               })
          })"

definition post_receipt_row :: "uuid \<Rightarrow> uuid \<Rightarrow> office \<Rightarrow> (goods_receipt \<times> office) option" where
  "post_receipt_row h i s = map_option (\<lambda>g. (g, s\<lparr>of_receipts := upd_where (is_draft h i) (mark ''posted'') (of_receipts s)\<rparr>))
     (find (is_draft h i) (of_receipts s))"

text \<open>The database adds the two-decimal totals exactly; an error gives zero.\<close>

definition receipt_value :: "uuid \<Rightarrow> uuid \<Rightarrow> office \<Rightarrow> rat" where
  "receipt_value h g s = cents (sum_list (map (\<lambda>l. to_cents (rl_total l)) (filter (\<lambda>l. rl_grn l = g \<and> rl_hotel l = h) (of_receipt_lines s))))"

definition PostGRN :: "AccountingHandler \<Rightarrow> ctx \<Rightarrow> string \<Rightarrow> uuid option response desk" where
  "PostGRN H c idp =
     (let h = books_hotel H c in
      of_or 400 ''GRN not found or already posted'' (of_row (lib_uuid (ah_lib H) idp) (post_receipt_row h))
        (\<lambda>g. do {
           a \<leftarrow> of_query (receipt_value h (d_id g));
           r \<leftarrow> at_world (postGoodsReceipt h (case a of Inl _ \<Rightarrow> 0 | Inr v \<Rightarrow> v) (''GRN '' @ d_number g) (''Goods receipt '' @ d_number g));
           State_Monad.return (OK (journal_of r))
         }))"

subsection \<open>Journal entries and the trial balance\<close>

record journalLineReq =
  jq_account :: string
  jq_debit :: rat
  jq_credit :: rat
  jq_memo :: string

record journalEntryReq =
  jr_date :: string
  jr_description :: string
  jr_reference :: string
  jr_lines :: "journalLineReq list"

definition total_debit :: "journalLineReq list \<Rightarrow> rat" where
  "total_debit ls = foldl (\<lambda>a l. fadd a (jq_debit l)) 0 ls"

definition total_credit :: "journalLineReq list \<Rightarrow> rat" where
  "total_credit ls = foldl (\<lambda>a l. fadd a (jq_credit l)) 0 ls"

text \<open>The line of an entry: the foreign key asks for an account, of whatever tenant.\<close>

definition sql_insert_manual_line :: "JournalRow \<Rightarrow> db \<Rightarrow> goerr + unit \<times> db" where
  "sql_insert_manual_line l d = (if jl_account l \<notin> set (map ac_id (accounts d)) then Inl ForeignKeyViolation else sql_insert_jline l d)"

fun insert_manual_lines :: "AccountingHandler \<Rightarrow> uuid \<Rightarrow> uuid \<Rightarrow> journalLineReq list \<Rightarrow> (goerr + unit) go" where
  "insert_manual_lines H h entry [] = State_Monad.return (Inr ())"
| "insert_manual_lines H h entry (l # ls) = do {
     i \<leftarrow> uuid_New;
     r \<leftarrow> stmt (sql_insert_manual_line \<lparr>jl_id = i, jl_entry = entry, jl_hotel = h, jl_account = parsed_uuid H (jq_account l),
            jl_debit = jq_debit l, jl_credit = jq_credit l, jl_memo = jq_memo l\<rparr>);
     case r of Inl e \<Rightarrow> State_Monad.return (Inl e) | Inr _ \<Rightarrow> insert_manual_lines H h entry ls
   }"

text \<open>A manual entry has no voucher number.\<close>

definition manual_entry :: "AccountingHandler \<Rightarrow> uuid \<Rightarrow> journalEntryReq \<Rightarrow> (goerr + uuid) go" where
  "manual_entry H h req = do {
     entry \<leftarrow> uuid_New;
     r \<leftarrow> stmt (sql_insert_entry \<lparr>je_id = entry, je_hotel = h, je_description = jr_description req, je_reference = jr_reference req,
            je_voucher_no = None, je_voucher_type = []\<rparr>);
     case r of
       Inl e \<Rightarrow> State_Monad.return (Inl e)
     | Inr _ \<Rightarrow> do {
         rl \<leftarrow> insert_manual_lines H h entry (jr_lines req);
         State_Monad.return (case rl of Inl e \<Rightarrow> Inl e | Inr _ \<Rightarrow> Inr entry)
       }
   }"

definition CreateJournalEntry :: "AccountingHandler \<Rightarrow> ctx \<Rightarrow> journalEntryReq option \<Rightarrow> uuid response go" where
  "CreateJournalEntry H c body =
     (case body of
        None \<Rightarrow> fail 400 ''invalid request''
      | Some req \<Rightarrow>
          if jr_description req = [] \<or> jr_lines req = [] then fail 422 ''description and at least one line are required''
          else if total_debit (jr_lines req) \<noteq> total_credit (jr_lines req) then fail 422 ''total debits must equal total credits''
          else do {
            r \<leftarrow> with_tx (\<lambda>e. e) (\<lambda>e. e) (manual_entry H (books_hotel H c) req);
            case r of Inl _ \<Rightarrow> fail 500 [] | Inr i \<Rightarrow> State_Monad.return (Created i)
          })"

record tbRow =
  tr_code :: string
  tr_name :: string
  tr_type :: string
  tr_balance :: rat

text \<open>The database adds exactly; the balance read is the double nearest to the sum.\<close>

definition balance_of :: "uuid \<Rightarrow> Account \<Rightarrow> db \<Rightarrow> rat" where
  "balance_of h a d =
     (let ls = filter (\<lambda>l. jl_account l = ac_id a \<and> jl_hotel l = h) (jlines d)
      in cents (sum_list (map (\<lambda>l. to_cents (jl_debit l)) ls) - sum_list (map (\<lambda>l. to_cents (jl_credit l)) ls)))"

text \<open>Ordered by the display order and the code.\<close>

definition trial_rows :: "uuid \<Rightarrow> db \<Rightarrow> tbRow list" where
  "trial_rows h d = map (\<lambda>a. \<lparr>tr_code = ac_code a, tr_name = ac_name a, tr_type = ac_type a, tr_balance = balance_of h a d\<rparr>)
     (sort_key (\<lambda>a. (ac_order a, map (of_char :: char \<Rightarrow> nat) (ac_code a))) (filter (\<lambda>a. ac_hotel a = h) (accounts d)))"

definition TrialBalance :: "AccountingHandler \<Rightarrow> ctx \<Rightarrow> tbRow list response go" where
  "TrialBalance H c = do {
     r \<leftarrow> query (trial_rows (books_hotel H c));
     case r of Inl _ \<Rightarrow> fail 500 [] | Inr rows \<Rightarrow> State_Monad.return (OK rows)
   }"

subsection \<open>The routes\<close>

datatype books_request =
    Bk_CreateInvoice "salesInvoiceReq option"
  | Bk_GetInvoice string
  | Bk_UpdateInvoice string "salesInvoiceReq option"
  | Bk_PostInvoice string
  | Bk_CancelInvoice string
  | Bk_CreditFromInvoice string
  | Bk_CreateCredit "creditNoteReq option"
  | Bk_PostCredit string
  | Bk_CreateDebit "debitNoteReq option"
  | Bk_PostDebit string
  | Bk_CreateVendorPayment "vendorPaymentReq option"
  | Bk_CreateOrder "poReq option"
  | Bk_ApproveOrder string
  | Bk_CreateReceipt "grnReq option"
  | Bk_PostReceipt string
  | Bk_CreateJournal "journalEntryReq option"
  | Bk_TrialBalance

definition accepted :: "'a response desk \<Rightarrow> bool desk" where
  "accepted m = do { r \<leftarrow> m; State_Monad.return (case r of Resp _ _ \<Rightarrow> True | Fail _ _ \<Rightarrow> False) }"

definition serve_books :: "AccountingHandler \<Rightarrow> ctx \<Rightarrow> books_request \<Rightarrow> bool desk" where
  "serve_books H c r = (case r of
       Bk_CreateInvoice b \<Rightarrow> accepted (CreateSalesInvoice H c b)
     | Bk_GetInvoice i \<Rightarrow> accepted (GetSalesInvoice H c i)
     | Bk_UpdateInvoice i b \<Rightarrow> accepted (UpdateSalesInvoice H c i b)
     | Bk_PostInvoice i \<Rightarrow> accepted (PostSalesInvoice H c i)
     | Bk_CancelInvoice i \<Rightarrow> accepted (CancelSalesInvoice H c i)
     | Bk_CreditFromInvoice i \<Rightarrow> accepted (CreateCreditNoteFromInvoice H c i)
     | Bk_CreateCredit b \<Rightarrow> accepted (CreateCreditNote H c b)
     | Bk_PostCredit i \<Rightarrow> accepted (PostCreditNote H c i)
     | Bk_CreateDebit b \<Rightarrow> accepted (CreateDebitNote H c b)
     | Bk_PostDebit i \<Rightarrow> accepted (PostDebitNote H c i)
     | Bk_CreateVendorPayment b \<Rightarrow> accepted (CreateVendorPayment H c b)
     | Bk_CreateOrder b \<Rightarrow> accepted (CreatePurchaseOrder H c b)
     | Bk_ApproveOrder i \<Rightarrow> accepted (ApprovePurchaseOrder H c i)
     | Bk_CreateReceipt b \<Rightarrow> accepted (CreateGRN H c b)
     | Bk_PostReceipt i \<Rightarrow> accepted (PostGRN H c i)
     | Bk_CreateJournal b \<Rightarrow> accepted (at_world (CreateJournalEntry H c b))
     | Bk_TrialBalance \<Rightarrow> accepted (at_world (TrialBalance H c)))"
end
