(* ===== verification/BookKeeping.thy ===== *)
theory BookKeeping
  imports Accounting
begin

text \<open>
  What the accounting module guarantees of its documents over every history of requests: a document that was
  posted never changes again, except that a posted invoice may be cancelled, and it reaches the ledger once.
\<close>

subsection \<open>Triples over the office\<close>

definition hoare :: "(office \<Rightarrow> bool) \<Rightarrow> 'a desk \<Rightarrow> ('a \<Rightarrow> office \<Rightarrow> bool) \<Rightarrow> bool" where
  "hoare P m Q \<longleftrightarrow> (\<forall>s. P s \<longrightarrow> Q (fst (run_state m s)) (snd (run_state m s)))"

text \<open>A predicate on the documents does not read the rest of the server.\<close>

definition on_docs :: "(office \<Rightarrow> bool) \<Rightarrow> bool" where
  "on_docs P \<longleftrightarrow> (\<forall>s w. P (s\<lparr>of_world := w\<rparr>) = P s)"

definition if_ok :: "('a \<Rightarrow> office \<Rightarrow> bool) \<Rightarrow> 'e + 'a \<Rightarrow> office \<Rightarrow> bool" where
  "if_ok Q r s = (case r of Inl _ \<Rightarrow> True | Inr a \<Rightarrow> Q a s)"

lemma if_ok_simps [simp]: "if_ok Q (Inl e) s" "if_ok Q (Inr a) s = Q a s"
  by (simp_all add: if_ok_def)

lemma hoare_return: "(\<And>s. P s \<Longrightarrow> Q x s) \<Longrightarrow> hoare P (State_Monad.return x) Q"
  by (simp add: hoare_def)

lemma hoare_bind:
  assumes "hoare P m R" "\<And>x. hoare (R x) (f x) Q"
  shows "hoare P (State_Monad.bind m f) Q"
proof -
  have "Q (fst (run_state (f x) s1)) (snd (run_state (f x) s1))" if "P s" "run_state m s = (x, s1)" for s x s1
    using assms(1) [unfolded hoare_def, rule_format, OF that(1)] assms(2) [of x, unfolded hoare_def] that(2) by simp
  then show ?thesis by (simp add: hoare_def run_state_bind split: prod.splits)
qed

lemma hoare_world: "on_docs P \<Longrightarrow> hoare P (at_world m) (\<lambda>_. P)"
  by (simp add: hoare_def at_world_def on_docs_def split: prod.splits)

lemma hoare_conseq: "hoare P m Q \<Longrightarrow> (\<And>s. P' s \<Longrightarrow> P s) \<Longrightarrow> (\<And>x s. Q x s \<Longrightarrow> Q' x s) \<Longrightarrow> hoare P' m Q'"
  by (auto simp: hoare_def)

text \<open>After a statement: the state before when it failed, \<open>Q\<close> when it succeeded.\<close>

definition either :: "(office \<Rightarrow> bool) \<Rightarrow> ('a \<Rightarrow> office \<Rightarrow> bool) \<Rightarrow> 'e + 'a \<Rightarrow> office \<Rightarrow> bool" where
  "either P Q r s = (case r of Inl _ \<Rightarrow> P s | Inr a \<Rightarrow> Q a s)"

lemma either_simps [simp]: "either P Q (Inl e) = P" "either P Q (Inr a) = Q a"
  by (simp_all add: either_def fun_eq_iff)

lemma on_docsD: "on_docs P \<Longrightarrow> P (s\<lparr>of_world := w\<rparr>) \<longleftrightarrow> P s"
  by (simp add: on_docs_def)

lemma hoareD: "hoare P m Q \<Longrightarrow> P s \<Longrightarrow> run_state m s = (x, s') \<Longrightarrow> Q x s'"
  by (metis fst_conv hoare_def snd_conv)

lemma hoare_stmt:
  assumes "on_docs P" "\<And>s a s'. P s \<Longrightarrow> f s = Inr (a, s') \<Longrightarrow> Q a s'"
  shows "hoare P (of_stmt f) (either P Q)"
proof -
  have "P s \<Longrightarrow> f (s\<lparr>of_world := w\<rparr>) = Inr (a, s') \<Longrightarrow> Q a s'" for s w a s'
    using assms(2) [of "s\<lparr>of_world := w\<rparr>"] on_docsD [OF assms(1)] by blast
  then show ?thesis
    by (auto simp: hoare_def of_stmt_def on_docsD [OF assms(1)] split: prod.splits sum.splits)
qed

lemma either_const: "either P (\<lambda>_. P) = (\<lambda>_. P)"
  by (simp add: either_def fun_eq_iff split: sum.splits)

lemma either_if_ok: "either P Q r s \<Longrightarrow> if_ok Q r s"
  by (cases r) simp_all

lemma hoare_query:
  assumes "on_docs P"
  shows "hoare P (of_query f) (\<lambda>_. P)"
proof -
  have "hoare P (of_query f) (either P (\<lambda>_. P))" unfolding of_query_def by (rule hoare_stmt [OF assms]) auto
  then show ?thesis by (simp add: either_const)
qed

lemma hoare_try:
  assumes "hoare P m (if_ok Q)" "\<And>a. hoare (Q a) (k a) (if_ok R)"
  shows "hoare P (of_try m k) (if_ok R)"
  unfolding of_try_def
proof (rule hoare_bind [OF assms(1)])
  fix r :: "goerr + 'a"
  show "hoare (if_ok Q r) (case r of Inl _ \<Rightarrow> State_Monad.return (Inl (Fail 500 [])) | Inr a \<Rightarrow> k a) (if_ok R)"
    using assms(2) by (cases r) (simp_all add: hoare_return if_ok_def [abs_def])
qed

lemma hoare_try_stmt:
  assumes "on_docs P" "\<And>s a s'. P s \<Longrightarrow> f s = Inr (a, s') \<Longrightarrow> Q a s'" "\<And>a. hoare (Q a) (k a) (if_ok R)"
  shows "hoare P (of_try (of_stmt f) k) (if_ok R)"
proof (rule hoare_try [OF _ assms(3)])
  have "hoare P (of_stmt f) (either P Q)" using assms(1,2) by (rule hoare_stmt)
  then show "hoare P (of_stmt f) (if_ok Q)" by (rule hoare_conseq) (auto intro: either_if_ok)
qed

lemma hoare_or:
  assumes "hoare P m (either P Q)" "\<And>s. P s \<Longrightarrow> T s" "\<And>a. hoare (Q a) (k a) (\<lambda>_. T)"
  shows "hoare P (of_or n msg m k) (\<lambda>_. T)"
  unfolding of_or_def
proof (rule hoare_bind [OF assms(1)])
  fix r :: "goerr + 'a"
  show "hoare (either P Q r) (case r of Inl _ \<Rightarrow> of_fail n msg | Inr a \<Rightarrow> k a) (\<lambda>_. T)"
    using assms(2,3) by (cases r) (simp_all add: hoare_return)
qed

lemma hoare_tx:
  assumes "on_docs P" "on_docs T" "\<And>b. on_docs (S b)"
    and "hoare P m (if_ok S)" "\<And>s. P s \<Longrightarrow> T s" "\<And>b. hoare (S b) (k b) (\<lambda>_. T)"
  shows "hoare P (of_tx m k) (\<lambda>_. T)"
  unfolding hoare_def
proof (intro allI impI)
  fix s assume P: "P s"
  obtain bad w1 where f: "next_fault (of_world s) = (bad, w1)" by fastforce
  let ?s1 = "s\<lparr>of_world := w1\<lparr>w_tx := TxOpen\<rparr>\<rparr>"
  obtain r s2 where m: "run_state m ?s1 = (r, s2)" by fastforce
  obtain bad' w3 where f2: "next_fault (of_world s2) = (bad', w3)" by fastforce
  have T: "T (s\<lparr>of_world := w\<rparr>)" for w using P assms(2,5) by (simp add: on_docs_def)
  have "if_ok S r s2" using hoareD [OF assms(4) _ m] P on_docsD [OF assms(1)] by blast
  moreover have "T (snd (run_state (k b) (s2\<lparr>of_world := w\<rparr>)))" if "S b s2" for b w
    using assms(6) [of b] that on_docsD [OF assms(3), of b] by (simp add: hoare_def)
  ultimately show "T (snd (run_state (of_tx m k) s))"
    using T by (auto simp: of_tx_def f m f2 undo_tx_def split: sum.splits)
qed

lemma hoare_if: "(b \<Longrightarrow> hoare P m Q) \<Longrightarrow> (\<not> b \<Longrightarrow> hoare P n Q) \<Longrightarrow> hoare P (if b then m else n) Q"
  by simp

lemma hoare_option: "hoare P a Q \<Longrightarrow> (\<And>x. hoare P (f x) Q) \<Longrightarrow> hoare P (case x of None \<Rightarrow> a | Some x \<Rightarrow> f x) Q"
  by (cases x) simp_all

lemma hoare_accepted: "hoare P m (\<lambda>_. T) \<Longrightarrow> hoare P (accepted m) (\<lambda>_. T)"
  unfolding accepted_def by (rule hoare_bind) (auto intro: hoare_return)

lemma hoare_fail: "(\<And>s. P s \<Longrightarrow> T s) \<Longrightarrow> hoare P (of_fail n msg) (\<lambda>_. T)"
  by (simp add: hoare_return)

lemma hoare_row:
  assumes "on_docs P" "\<And>s i a s'. P s \<Longrightarrow> f i s = Some (a, s') \<Longrightarrow> Q a s'"
  shows "hoare P (of_row i f) (either P Q)"
proof (cases i)
  case None
  have "hoare P (of_stmt (\<lambda>s. Inl (ErrMsg ''invalid uuid''))) (either P Q)"
    by (rule hoare_stmt [OF assms(1)]) simp
  then show ?thesis by (simp add: of_row_def None)
next
  case (Some j)
  let ?f = "\<lambda>s. Inr (case f j s of None \<Rightarrow> (None, s) | Some (a, s') \<Rightarrow> (Some a, s'))"
  have "hoare P (of_stmt ?f) (either P (\<lambda>x s. case x of None \<Rightarrow> P s | Some a \<Rightarrow> Q a s))"
    using assms(2) [of _ j] by (intro hoare_stmt [OF assms(1)]) (auto split: option.splits)
  then show ?thesis unfolding of_row_def Some option.simps
    by (rule hoare_bind) (auto intro!: hoare_return simp: either_def split: sum.splits option.splits)
qed
subsection \<open>How a table of documents evolves\<close>

text \<open>Every row of \<open>xs\<close> has moved along \<open>R\<close>, in its place, and rows were appended.\<close>

definition grows :: "('a \<Rightarrow> 'a \<Rightarrow> bool) \<Rightarrow> 'a list \<Rightarrow> 'a list \<Rightarrow> bool" where
  "grows R xs ys \<longleftrightarrow> (\<exists>us zs. ys = us @ zs \<and> list_all2 R xs us)"

lemma grows_refl: "(\<And>x. R x x) \<Longrightarrow> grows R xs xs"
  unfolding grows_def by (intro exI [of _ xs] exI [of _ "[]"]) (simp add: list_all2_same)

lemma grows_append: "(\<And>x. R x x) \<Longrightarrow> grows R xs (xs @ zs)"
  unfolding grows_def by (intro exI [of _ xs] exI [of _ zs]) (simp add: list_all2_same)

lemma grows_upd: "(\<And>x. x \<in> set xs \<Longrightarrow> p x \<Longrightarrow> R x (f x)) \<Longrightarrow> (\<And>x. R x x) \<Longrightarrow> grows R xs (upd_where p f xs)"
  unfolding grows_def by (intro exI [of _ "upd_where p f xs"] exI [of _ "[]"]) (auto simp: upd_where_def list_all2_conv_all_nth)

lemma grows_trans:
  assumes "grows R xs ys" "grows R ys zs" "\<And>x y z. R x y \<Longrightarrow> R y z \<Longrightarrow> R x z"
  shows "grows R xs zs"
proof -
  obtain us more where ys: "ys = us @ more" "list_all2 R xs us" using assms(1) unfolding grows_def by blast
  obtain vs rest where zs: "zs = vs @ rest" "list_all2 R ys vs" using assms(2) unfolding grows_def by blast
  obtain v1 v2 where v: "vs = v1 @ v2" "list_all2 R us v1" using zs(2) unfolding ys(1) list_all2_append1 by blast
  have "list_all2 R xs v1" using list_all2_trans [OF assms(3) ys(2) v(2)] .
  then show ?thesis unfolding grows_def zs(1) v(1) append_assoc by blast
qed

lemma growsD:
  assumes "grows R xs ys" "x \<in> set xs"
  shows "\<exists>y \<in> set ys. R x y"
proof -
  obtain us zs where ys: "ys = us @ zs" "list_all2 R xs us" using assms(1) unfolding grows_def by blast
  obtain n where n: "n < length xs" "x = xs ! n" using assms(2) by (auto simp: in_set_conv_nth)
  then have "R x (us ! n)" "us ! n \<in> set us" using ys(2) by (auto simp: list_all2_conv_all_nth)
  then show ?thesis using ys(1) by auto
qed

definition next_status :: "string \<Rightarrow> string \<Rightarrow> bool" where
  "next_status a b \<longleftrightarrow> b = a \<or> a = ''draft'' \<and> b = ''posted'' \<or> (a = ''draft'' \<or> a = ''posted'') \<and> b = ''cancelled''"

text \<open>An invoice may be edited while it is a draft; afterwards only its status moves. The other documents end posted.\<close>

definition same_document :: "'a document_scheme \<Rightarrow> 'a document_scheme \<Rightarrow> bool" where
  "same_document x y \<longleftrightarrow> d_id y = d_id x \<and> d_hotel y = d_hotel x \<and> d_number y = d_number x"

definition invoice_next :: "invoice \<Rightarrow> invoice \<Rightarrow> bool" where
  "invoice_next x y \<longleftrightarrow> same_document x y \<and> next_status (d_status x) (d_status y) \<and>
     (d_status x \<noteq> ''draft'' \<longrightarrow> y = x\<lparr>d_status := d_status y\<rparr>)"

definition doc_next :: "'a document_scheme \<Rightarrow> 'a document_scheme \<Rightarrow> bool" where
  "doc_next x y \<longleftrightarrow> same_document x y \<and>
     (if d_status x = ''draft'' then d_status y = ''draft'' \<or> d_status y = ''posted'' else y = x)"

lemma invoice_next_refl [simp]: "invoice_next x x"
  by (simp add: invoice_next_def same_document_def next_status_def)

lemma doc_next_refl [simp]: "doc_next x x"
  by (simp add: doc_next_def same_document_def)

lemma next_status_trans: "next_status a b \<Longrightarrow> next_status b c \<Longrightarrow> next_status a c"
  by (auto simp: next_status_def)

lemma invoice_next_trans: "invoice_next x y \<Longrightarrow> invoice_next y z \<Longrightarrow> invoice_next x z"
proof -
  assume a: "invoice_next x y" "invoice_next y z"
  have "z = x\<lparr>d_status := d_status z\<rparr>" if x: "d_status x \<noteq> ''draft''"
  proof -
    have y: "y = x\<lparr>d_status := d_status y\<rparr>" "d_status y \<noteq> ''draft''"
      using a(1) x by (auto simp: invoice_next_def next_status_def)
    then have "z = y\<lparr>d_status := d_status z\<rparr>" using a(2) by (simp add: invoice_next_def)
    then show ?thesis using y(1) by (metis document.surjective document.update_convs(5))
  qed
  then show ?thesis using a next_status_trans by (auto simp: invoice_next_def same_document_def)
qed

lemma doc_next_trans: "doc_next x y \<Longrightarrow> doc_next y z \<Longrightarrow> doc_next x z"
  by (auto simp: doc_next_def same_document_def split: if_splits)

lemma grows_invoices: "grows invoice_next xs ys \<Longrightarrow> grows invoice_next ys zs \<Longrightarrow> grows invoice_next xs zs"
  by (rule grows_trans [where R = invoice_next]) (assumption, assumption, rule invoice_next_trans)

lemma grows_docs: "grows doc_next xs ys \<Longrightarrow> grows doc_next ys zs \<Longrightarrow> grows doc_next xs zs"
  by (rule grows_trans [where R = doc_next]) (assumption, assumption, rule doc_next_trans)

lemma doc_next_post: "is_draft h i x \<Longrightarrow> doc_next x (mark ''posted'' x)"
  by (simp add: doc_next_def same_document_def is_draft_def mark_def)

definition ids_unique :: "('a document_scheme) list \<Rightarrow> bool" where
  "ids_unique xs \<longleftrightarrow> distinct (map d_id xs)"

definition books_wf :: "office \<Rightarrow> bool" where
  "books_wf s \<longleftrightarrow> ids_unique (of_invoices s) \<and> ids_unique (of_notes s) \<and> ids_unique (of_debits s) \<and> ids_unique (of_receipts s)"

definition lines_of :: "uuid \<Rightarrow> office \<Rightarrow> invoice_line list" where
  "lines_of i s = filter (\<lambda>l. vl_invoice l = i) (of_lines s)"

definition evolves :: "office \<Rightarrow> office \<Rightarrow> bool" where
  "evolves s s' \<longleftrightarrow> books_wf s' \<and> grows invoice_next (of_invoices s) (of_invoices s') \<and>
     (\<forall>v \<in> set (of_invoices s). d_status v \<noteq> ''draft'' \<longrightarrow> lines_of (d_id v) s' = lines_of (d_id v) s) \<and>
     grows doc_next (of_notes s) (of_notes s') \<and> grows doc_next (of_debits s) (of_debits s') \<and>
     grows doc_next (of_receipts s) (of_receipts s')"

lemma evolves_refl: "books_wf s \<Longrightarrow> evolves s s"
  by (simp add: evolves_def grows_refl)

lemma evolves_trans:
  assumes "evolves a b" "evolves b c"
  shows "evolves a c"
proof -
  have "lines_of (d_id v) c = lines_of (d_id v) a" if v: "v \<in> set (of_invoices a)" "d_status v \<noteq> ''draft''" for v
  proof -
    obtain v' where v': "v' \<in> set (of_invoices b)" "invoice_next v v'"
      using growsD [OF _ v(1)] assms(1) unfolding evolves_def by blast
    then have "d_id v' = d_id v" "d_status v' \<noteq> ''draft''"
      using v(2) by (auto simp: invoice_next_def same_document_def next_status_def)
    then show ?thesis using v v'(1) assms unfolding evolves_def by metis
  qed
  moreover have "grows invoice_next (of_invoices a) (of_invoices c)" "grows doc_next (of_notes a) (of_notes c)"
    "grows doc_next (of_debits a) (of_debits c)" "grows doc_next (of_receipts a) (of_receipts c)"
    using assms grows_invoices grows_docs unfolding evolves_def by blast+
  ultimately show ?thesis using assms(2) by (simp add: evolves_def)
qed

lemma on_docs_evolves: "on_docs (evolves s0)"
  by (simp add: on_docs_def evolves_def books_wf_def lines_of_def)
subsection \<open>What the handlers do to the documents\<close>

definition same_docs :: "office \<Rightarrow> office \<Rightarrow> bool" where
  "same_docs s0 s \<longleftrightarrow> books_wf s0 \<and> of_invoices s = of_invoices s0 \<and> of_lines s = of_lines s0 \<and> of_notes s = of_notes s0 \<and>
     of_debits s = of_debits s0 \<and> of_receipts s = of_receipts s0"

lemma on_docs_same: "on_docs (same_docs s0)"
  by (simp add: on_docs_def same_docs_def)

lemma same_evolves: "same_docs s0 s \<Longrightarrow> evolves s0 s"
  by (simp add: same_docs_def evolves_def books_wf_def lines_of_def grows_refl)

lemma not_taken: "\<not> taken xs x \<Longrightarrow> d_id x \<notin> d_id ` set xs"
  by (auto simp: taken_def list_ex_iff)

lemma ids_unique_snoc: "ids_unique xs \<Longrightarrow> d_id y \<notin> d_id ` set xs \<Longrightarrow> ids_unique (xs @ [y])"
  by (simp add: ids_unique_def)

lemma ids_unique_upd: "(\<And>x. p x \<Longrightarrow> d_id (f x) = d_id x) \<Longrightarrow> ids_unique (upd_where p f xs) = ids_unique xs"
  unfolding ids_unique_def by (subst map_upd_where) auto

text \<open>While invoice \<open>i\<close>, a draft or new, is being written.\<close>

definition writing :: "uuid \<Rightarrow> office \<Rightarrow> office \<Rightarrow> bool" where
  "writing i s0 s \<longleftrightarrow> books_wf s0 \<and> ids_unique (of_invoices s) \<and> grows invoice_next (of_invoices s0) (of_invoices s) \<and>
     (\<forall>v \<in> set (of_invoices s0). d_id v = i \<longrightarrow> d_status v = ''draft'') \<and>
     filter (\<lambda>l. vl_invoice l \<noteq> i) (of_lines s) = filter (\<lambda>l. vl_invoice l \<noteq> i) (of_lines s0) \<and>
     of_notes s = of_notes s0 \<and> of_debits s = of_debits s0 \<and> of_receipts s = of_receipts s0"

lemma on_docs_writing: "on_docs (writing i s0)"
  by (simp add: on_docs_def writing_def)

lemma filter_other: "i \<noteq> j \<Longrightarrow> filter (\<lambda>l. vl_invoice l = j) ls = filter (\<lambda>l. vl_invoice l = j) (filter (\<lambda>l. vl_invoice l \<noteq> i) ls)"
  by (induction ls) auto

lemma writing_evolves:
  assumes "writing i s0 s"
  shows "evolves s0 s"
proof -
  have "lines_of (d_id v) s = lines_of (d_id v) s0" if "v \<in> set (of_invoices s0)" "d_status v \<noteq> ''draft''" for v
  proof -
    have "d_id v \<noteq> i" using that assms by (auto simp: writing_def)
    then show ?thesis
      using assms filter_other [of i "d_id v" "of_lines s"] filter_other [of i "d_id v" "of_lines s0"] by (simp add: writing_def lines_of_def)
  qed
  then show ?thesis using assms by (auto simp: evolves_def writing_def books_wf_def grows_refl)
qed

lemma insert_lines_writing: "hoare (writing i s0) (insert_invoice_lines h i ls) (if_ok (\<lambda>_. writing i s0))"
proof (induction ls)
  case Nil
  show ?case by (simp add: hoare_return)
next
  case (Cons l ls)
  show ?case unfolding insert_invoice_lines.simps
    by (rule hoare_bind [OF hoare_world [OF on_docs_writing]], rule hoare_try_stmt [OF on_docs_writing _ Cons.IH])
       (auto simp: sql_insert_invoice_line_def writing_def split: if_splits)
qed

lemma hoare_number: "on_docs P \<Longrightarrow> hoare P (document_number p h) (\<lambda>_. P)"
  unfolding document_number_def by (intro hoare_bind [OF hoare_query] hoare_bind [OF hoare_world] hoare_return)

lemmas start_rules = hoare_option hoare_if hoare_fail hoare_bind [OF hoare_number [OF on_docs_same]]
  hoare_bind [OF hoare_world [OF on_docs_same]]

lemma hoare_answer: "(\<And>s. P s \<Longrightarrow> T s) \<Longrightarrow> hoare P (State_Monad.return x) (\<lambda>_. T)"
  by (rule hoare_return)

lemma hoare_map_ok:
  assumes "hoare P m (if_ok (\<lambda>_. Q))"
  shows "hoare P (do { r \<leftarrow> m; State_Monad.return (case r of Inl a \<Rightarrow> Inl a | Inr _ \<Rightarrow> Inr b) }) (if_ok (\<lambda>_. Q))"
  by (rule hoare_bind [OF assms]) (auto intro!: hoare_return simp: if_ok_def split: sum.splits)

lemma new_invoice_writing:
  assumes "same_docs s0 s" "sql_insert_sales_invoice v s = Inr (a, s')"
  shows "writing (d_id v) s0 s'"
proof -
  have "d_id v \<notin> d_id ` set (of_invoices s0)"
    using assms not_taken [of "of_invoices s0" v] by (auto simp: sql_insert_sales_invoice_def same_docs_def split: if_splits)
  then have "\<forall>x \<in> set (of_invoices s0). d_id x \<noteq> d_id v" by (metis imageI)
  moreover from this have "ids_unique (of_invoices s0) \<Longrightarrow> d_id y = d_id v \<Longrightarrow> ids_unique (of_invoices s0 @ [y])" for y :: invoice
    by (intro ids_unique_snoc) auto
  ultimately show ?thesis
    using assms by (auto simp: sql_insert_sales_invoice_def same_docs_def writing_def books_wf_def grows_append split: if_splits)
qed

lemma evolves_tx:
  assumes "on_docs P" "hoare P m (if_ok (\<lambda>_. evolves s0))" "\<And>s. P s \<Longrightarrow> evolves s0 s" "\<And>b. hoare (evolves s0) (k b) (\<lambda>_. evolves s0)"
  shows "hoare P (of_tx m k) (\<lambda>_. evolves s0)"
  by (rule hoare_tx [OF assms(1) on_docs_evolves on_docs_evolves assms(2-4)])

lemma writing_ok:
  assumes "hoare (writing i s0) m (if_ok (\<lambda>_. writing i s0))"
  shows "hoare (writing i s0) m (if_ok (\<lambda>_. evolves s0))"
  using assms writing_evolves unfolding hoare_def if_ok_def by (auto split: sum.splits)

lemma insert_invoice_evolves:
  "d_id v = i \<Longrightarrow> hoare (same_docs s0) (of_try (of_stmt (sql_insert_sales_invoice v))
    (\<lambda>_. do { r \<leftarrow> insert_invoice_lines h i ls; State_Monad.return (case r of Inl a \<Rightarrow> Inl a | Inr _ \<Rightarrow> Inr i) }))
    (if_ok (\<lambda>_. evolves s0))"
  by (rule hoare_try_stmt [OF on_docs_same new_invoice_writing]) (auto intro!: hoare_map_ok writing_ok insert_lines_writing)

lemma CreateSalesInvoice_evolves: "hoare (same_docs s0) (CreateSalesInvoice H c body) (\<lambda>_. evolves s0)"
  unfolding CreateSalesInvoice_def Let_def
  by (intro start_rules evolves_tx hoare_answer insert_invoice_evolves on_docs_same) (auto intro: same_evolves)

lemma find_doc_D: "find_doc h i xs = Some v \<Longrightarrow> v \<in> set xs \<and> d_id v = i \<and> d_hotel v = h"
  unfolding find_doc_def find_Some_iff by auto

text \<open>The lookup of an invoice, with what the handler then knows of it.\<close>

definition looked_up :: "office \<Rightarrow> uuid \<Rightarrow> invoice \<Rightarrow> office \<Rightarrow> bool" where
  "looked_up s0 h v s \<longleftrightarrow> same_docs s0 s \<and> v \<in> set (of_invoices s0) \<and> d_hotel v = h"

lemma on_docs_looked: "on_docs (looked_up s0 h v)"
  by (simp add: on_docs_def looked_up_def same_docs_def)

lemma looked_evolves: "looked_up s0 h v s \<Longrightarrow> evolves s0 s"
  by (simp add: looked_up_def same_evolves)

lemma lookup_rule:
  assumes "\<And>v. hoare (looked_up s0 h v) (k v) (\<lambda>_. evolves s0)"
  shows "hoare (same_docs s0) (of_or n msg (of_row i (\<lambda>i s. map_option (\<lambda>v. (v, s)) (find_doc h i (of_invoices s)))) k) (\<lambda>_. evolves s0)"
proof (rule hoare_or [OF hoare_row [OF on_docs_same] same_evolves assms])
  fix s i a s' assume "same_docs s0 s" "map_option (\<lambda>v. (v, s)) (find_doc h i (of_invoices s)) = Some (a, s')"
  then show "looked_up s0 h a s'" by (auto simp: looked_up_def same_docs_def dest: find_doc_D)
qed

lemma unique_invoice: "ids_unique xs \<Longrightarrow> x \<in> set xs \<Longrightarrow> y \<in> set xs \<Longrightarrow> d_id x = d_id y \<Longrightarrow> x = y"
  unfolding ids_unique_def by (simp add: distinct_map inj_on_def)

lemma edit_writing:
  assumes "looked_up s0 h v s" "d_status v = ''draft''"
  shows "writing (d_id v) s0 (sql_edit_invoice H h (d_id v) req t s)"
proof -
  have s: "same_docs s0 s" and v: "v \<in> set (of_invoices s0)" using assms(1) by (auto simp: looked_up_def)
  have "d_status x = ''draft''" if "x \<in> set (of_invoices s0)" "d_id x = d_id v" for x
    using unique_invoice [OF _ that(1) v that(2)] s assms(2) by (simp add: same_docs_def books_wf_def)
  then show ?thesis
    using s by (auto simp: sql_edit_invoice_def writing_def same_docs_def books_wf_def ids_unique_upd is_draft_def
        invoice_next_def same_document_def next_status_def intro!: grows_upd)
qed

lemma filter_lines: "filter (\<lambda>l. (vl_invoice l = i \<longrightarrow> vl_hotel l \<noteq> h) \<and> vl_invoice l \<noteq> i) ls = filter (\<lambda>l. vl_invoice l \<noteq> i) ls"
  by (rule filter_cong) auto

lemma update_tx_evolves:
  assumes "d_status v = ''draft''"
  shows "hoare (looked_up s0 h v) (update_invoice_tx H h (d_id v) req) (if_ok (\<lambda>_. evolves s0))"
  unfolding update_invoice_tx_def
proof (rule hoare_try_stmt [OF on_docs_looked, where Q = "\<lambda>_. writing (d_id v) s0"])
  show "writing (d_id v) s0 s'" if "looked_up s0 h v s" "(if edit_fk H h (d_id v) req s
      then Inr ((), sql_edit_invoice H h (d_id v) req (invoice_totals H (si_lines req)) s) else Inl ForeignKeyViolation) = Inr (a, s')" for s a s'
    using that edit_writing [OF that(1) assms] by (auto split: if_splits)
  show "hoare (writing (d_id v) s0) (of_try (of_stmt (\<lambda>s. Inr ((), s\<lparr>of_lines := filter (\<lambda>l. \<not> (vl_invoice l = d_id v \<and> vl_hotel l = h)) (of_lines s)\<rparr>)))
      (\<lambda>_. insert_invoice_lines h (d_id v) (map (invoice_line_of H) (si_lines req)))) (if_ok (\<lambda>_. evolves s0))"
    by (rule hoare_try_stmt [OF on_docs_writing, where Q = "\<lambda>_. writing (d_id v) s0"])
       (auto simp: writing_def filter_lines intro!: writing_ok insert_lines_writing)
qed

lemma UpdateSalesInvoice_evolves: "hoare (same_docs s0) (UpdateSalesInvoice H c idp body) (\<lambda>_. evolves s0)"
  unfolding UpdateSalesInvoice_def Let_def
  by (intro start_rules lookup_rule evolves_tx update_tx_evolves hoare_answer on_docs_looked) (auto intro: same_evolves looked_evolves)

lemma upd_evolves:
  assumes "same_docs s0 s" "\<And>x. x \<in> set (of_invoices s0) \<Longrightarrow> p x \<Longrightarrow> invoice_next x (f x)"
  shows "evolves s0 (s\<lparr>of_invoices := upd_where p f (of_invoices s)\<rparr>)"
proof -
  have "map d_id (upd_where p f (of_invoices s0)) = map d_id (of_invoices s0)"
    using assms(2) by (auto simp: upd_where_def invoice_next_def same_document_def)
  then show ?thesis
    using assms by (auto simp: same_docs_def evolves_def books_wf_def ids_unique_def lines_of_def grows_refl intro!: grows_upd)
qed

lemma GetSalesInvoice_evolves: "hoare (same_docs s0) (GetSalesInvoice H c idp) (\<lambda>_. evolves s0)"
proof -
  have "hoare (looked_up s0 h v) (of_query f) (either (looked_up s0 h v) (\<lambda>_. looked_up s0 h v))" for h v and f :: "office \<Rightarrow> invoice_line list"
    using hoare_query [OF on_docs_looked] by (simp add: either_const)
  then show ?thesis unfolding GetSalesInvoice_def Let_def by (intro lookup_rule hoare_or looked_evolves hoare_answer)
qed

lemma CancelSalesInvoice_evolves: "hoare (same_docs s0) (CancelSalesInvoice H c idp) (\<lambda>_. evolves s0)"
  unfolding CancelSalesInvoice_def Let_def
proof (intro lookup_rule hoare_if hoare_fail looked_evolves)
  fix v :: invoice and f :: "unit \<Rightarrow> uuid option response desk"
  assume st: "\<not> (d_status v \<noteq> ''draft'' \<and> d_status v \<noteq> ''posted'')"
  let ?h = "books_hotel H c"
  have "hoare (looked_up s0 ?h v) (of_stmt (\<lambda>s. Inr ((), s\<lparr>of_invoices := upd_where (\<lambda>x. d_id x = d_id v \<and> d_hotel x = ?h) (mark ''cancelled'') (of_invoices s)\<rparr>)))
      (either (looked_up s0 ?h v) (\<lambda>_. evolves s0))"
  proof (rule hoare_stmt [OF on_docs_looked])
    fix s a s' assume l: "looked_up s0 ?h v s" and e: "Inr ((), s\<lparr>of_invoices := upd_where (\<lambda>x. d_id x = d_id v \<and> d_hotel x = ?h) (mark ''cancelled'') (of_invoices s)\<rparr>) = Inr (a, s')"
    have "invoice_next x (mark ''cancelled'' x)" if "x \<in> set (of_invoices s0)" "d_id x = d_id v" for x
    proof -
      have "x = v" using unique_invoice [OF _ that(1) _ that(2)] l by (simp add: looked_up_def same_docs_def books_wf_def)
      then show ?thesis using st by (auto simp: invoice_next_def same_document_def next_status_def mark_def)
    qed
    then have "evolves s0 (s\<lparr>of_invoices := upd_where (\<lambda>x. d_id x = d_id v \<and> d_hotel x = ?h) (mark ''cancelled'') (of_invoices s)\<rparr>)"
      using l by (intro upd_evolves) (auto simp: looked_up_def)
    with e show "evolves s0 s'" by simp
  qed
  then show "hoare (looked_up s0 ?h v) (of_or 500 [] (of_stmt (\<lambda>s. Inr ((), s\<lparr>of_invoices := upd_where (\<lambda>x. d_id x = d_id v \<and> d_hotel x = ?h) (mark ''cancelled'') (of_invoices s)\<rparr>)))
      (\<lambda>_. if d_status v = ''posted'' then do {
          r \<leftarrow> at_world (reverseJournalsByReference ?h (''INV '' @ d_number v) (''Cancellation - invoice '' @ d_number v));
          State_Monad.return (OK (journal_of r)) } else State_Monad.return (OK None))) (\<lambda>_. evolves s0)"
    by (rule hoare_or) (auto intro!: looked_evolves hoare_if hoare_bind [OF hoare_world [OF on_docs_evolves]] hoare_answer intro: looked_evolves)
qed

text \<open>Posting a document, and what the ledger does afterwards.\<close>

lemma post_rule:
  assumes "\<And>s i a s'. same_docs s0 s \<Longrightarrow> f i s = Some (a, s') \<Longrightarrow> evolves s0 s'"
    and "\<And>a. hoare (evolves s0) (k a) (\<lambda>_. evolves s0)"
  shows "hoare (same_docs s0) (of_or n msg (of_row i f) k) (\<lambda>_. evolves s0)"
  by (rule hoare_or [OF hoare_row [OF on_docs_same, where Q = "\<lambda>_. evolves s0", OF assms(1)] same_evolves assms(2)])

lemma ledger_rule: "hoare (evolves s0) (do { r \<leftarrow> at_world m; State_Monad.return (g r) }) (\<lambda>_. evolves s0)"
  by (intro hoare_bind [OF hoare_world [OF on_docs_evolves]] hoare_answer)

lemma grows_post: "grows doc_next xs (upd_where (is_draft h i) (mark ''posted'') xs)"
  by (rule grows_upd) (auto intro: doc_next_post)

lemma ids_unique_mark: "ids_unique (upd_where p (mark st) xs) = ids_unique xs"
  by (rule ids_unique_upd) (simp add: mark_def)

lemma posts_evolve:
  "hoare (same_docs s0) (PostSalesInvoice H c idp) (\<lambda>_. evolves s0)"
  "hoare (same_docs s0) (PostCreditNote H c idp) (\<lambda>_. evolves s0)"
  "hoare (same_docs s0) (PostDebitNote H c idp) (\<lambda>_. evolves s0)"
  "hoare (same_docs s0) (PostGRN H c idp) (\<lambda>_. evolves s0)"
proof -
  have "invoice_next x (mark ''posted'' x)" if "is_draft h i x" for x h i
    using that by (simp add: invoice_next_def same_document_def next_status_def is_draft_def mark_def)
  then have "evolves s0 s'" if "same_docs s0 s" "post_invoice_row h i s = Some (a, s')" for s h i a s'
    using that by (auto simp: post_invoice_row_def intro!: upd_evolves)
  then show "hoare (same_docs s0) (PostSalesInvoice H c idp) (\<lambda>_. evolves s0)"
    unfolding PostSalesInvoice_def Let_def by (intro post_rule ledger_rule)
  have "evolves s0 s'" if "same_docs s0 s" "post_note_row h i s = Some (a, s')" for s h i a s'
    using that by (auto simp: post_note_row_def same_docs_def evolves_def books_wf_def lines_of_def grows_refl grows_post ids_unique_mark)
  then show "hoare (same_docs s0) (PostCreditNote H c idp) (\<lambda>_. evolves s0)"
    unfolding PostCreditNote_def Let_def by (intro post_rule ledger_rule)
  have "evolves s0 s'" if "same_docs s0 s" "post_debit_row h i s = Some (a, s')" for s h i a s'
    using that by (auto simp: post_debit_row_def same_docs_def evolves_def books_wf_def lines_of_def grows_refl grows_post ids_unique_mark)
  then show "hoare (same_docs s0) (PostDebitNote H c idp) (\<lambda>_. evolves s0)"
    unfolding PostDebitNote_def Let_def by (intro post_rule ledger_rule)
  have "evolves s0 s'" if "same_docs s0 s" "post_receipt_row h i s = Some (a, s')" for s h i a s'
    using that by (auto simp: post_receipt_row_def same_docs_def evolves_def books_wf_def lines_of_def grows_refl grows_post ids_unique_mark)
  then show "hoare (same_docs s0) (PostGRN H c idp) (\<lambda>_. evolves s0)"
    unfolding PostGRN_def Let_def by (intro post_rule hoare_bind [OF hoare_query [OF on_docs_evolves]] ledger_rule)
qed

text \<open>While credit note \<open>i\<close>, which is new, is being written.\<close>

definition noting :: "uuid \<Rightarrow> office \<Rightarrow> office \<Rightarrow> bool" where
  "noting i s0 s \<longleftrightarrow> books_wf s0 \<and> of_invoices s = of_invoices s0 \<and> of_lines s = of_lines s0 \<and> of_debits s = of_debits s0 \<and>
     of_receipts s = of_receipts s0 \<and> i \<notin> d_id ` set (of_notes s0) \<and> (\<exists>n. of_notes s = of_notes s0 @ [n] \<and> d_id n = i)"

lemma on_docs_noting: "on_docs (noting i s0)"
  by (simp add: on_docs_def noting_def)

lemma noting_evolves: "noting i s0 s \<Longrightarrow> evolves s0 s"
  by (auto simp: noting_def evolves_def books_wf_def lines_of_def grows_refl intro!: grows_append ids_unique_snoc)

lemma noting_ok:
  assumes "hoare (noting i s0) m (if_ok (\<lambda>_. noting i s0))"
  shows "hoare (noting i s0) m (if_ok (\<lambda>_. evolves s0))"
  using assms noting_evolves unfolding hoare_def if_ok_def by (auto split: sum.splits)

lemma new_note_noting: "same_docs s0 s \<Longrightarrow> sql_insert_note n s = Inr (a, s') \<Longrightarrow> noting (d_id n) s0 s'"
  using not_taken [of "of_notes s" n] by (auto simp: sql_insert_note_def same_docs_def noting_def split: if_splits)

lemma note_lines_noting: "hoare (noting i s0) (insert_note_lines H h j ls) (if_ok (\<lambda>_. noting i s0))"
proof (induction ls)
  case Nil
  show ?case by (simp add: hoare_return)
next
  case (Cons l ls)
  show ?case unfolding insert_note_lines.simps
    by (rule hoare_bind [OF hoare_world [OF on_docs_noting]], rule hoare_try_stmt [OF on_docs_noting _ Cons.IH])
       (auto simp: sql_insert_note_line_def noting_def split: if_splits)
qed

lemma note_totals_noting: "noting i s0 s \<Longrightarrow> noting i s0 (sql_note_totals i t s)"
proof -
  assume n: "noting i s0 s"
  then have "i \<notin> d_id ` set (of_notes s0)" by (simp add: noting_def)
  then have "\<forall>x \<in> set (of_notes s0). d_id x \<noteq> i" by (metis imageI)
  then have "upd_where (\<lambda>n. d_id n = i) f (of_notes s0 @ [x]) = of_notes s0 @ [if d_id x = i then f x else x]" for f x
    using upd_where_none [of "of_notes s0" "\<lambda>n. d_id n = i" f] by (simp add: upd_where_def)
  then show ?thesis using n by (auto simp: noting_def sql_note_totals_def)
qed

lemma note_tail:
  "hoare (noting i s0) (do {
      r \<leftarrow> insert_note_lines H h i ls;
      case r of
        Inl a \<Rightarrow> State_Monad.return (Inl a)
      | Inr _ \<Rightarrow> of_try (of_stmt (\<lambda>s. Inr ((), sql_note_totals i t s))) (\<lambda>_. State_Monad.return (Inr i)) })
    (if_ok (\<lambda>_. noting i s0))"
proof (rule hoare_bind [OF note_lines_noting])
  fix r :: "'r response + unit"
  have "hoare (noting i s0) (of_try (of_stmt (\<lambda>s. Inr ((), sql_note_totals i t s))) (\<lambda>_. State_Monad.return (Inr i))) (if_ok (\<lambda>_. noting i s0))"
    by (rule hoare_try_stmt [OF on_docs_noting, where Q = "\<lambda>_. noting i s0"]) (auto intro: note_totals_noting hoare_return)
  then show "hoare (if_ok (\<lambda>_. noting i s0) r) (case r of
        Inl a \<Rightarrow> State_Monad.return (Inl a)
      | Inr _ \<Rightarrow> of_try (of_stmt (\<lambda>s. Inr ((), sql_note_totals i t s))) (\<lambda>_. State_Monad.return (Inr i))) (if_ok (\<lambda>_. noting i s0))"
    by (cases r) (simp_all add: hoare_return if_ok_def [abs_def])
qed

lemma insert_note_evolves:
  assumes "d_id n = i"
  shows "hoare (same_docs s0) (of_try (of_stmt (sql_insert_note n)) (\<lambda>_. do {
      r \<leftarrow> insert_note_lines H h i ls;
      case r of
        Inl a \<Rightarrow> State_Monad.return (Inl a)
      | Inr _ \<Rightarrow> of_try (of_stmt (\<lambda>s. Inr ((), sql_note_totals i t s))) (\<lambda>_. State_Monad.return (Inr i)) }))
    (if_ok (\<lambda>_. evolves s0))"
  by (rule hoare_try_stmt [OF on_docs_same new_note_noting]) (auto simp: assms intro!: noting_ok note_tail)

lemma CreateCreditNote_evolves: "hoare (same_docs s0) (CreateCreditNote H c body) (\<lambda>_. evolves s0)"
  unfolding CreateCreditNote_def Let_def
  by (intro start_rules evolves_tx hoare_answer insert_note_evolves on_docs_same) (auto intro: same_evolves)

lemma CreateCreditNoteFromInvoice_evolves: "hoare (same_docs s0) (CreateCreditNoteFromInvoice H c idp) (\<lambda>_. evolves s0)"
proof -
  have new: "evolves s0 s'" if "looked_up s0 h v s" "note_from_invoice i g j number now s = Inr (a, s')" for h v s i g j number now a s'
    using that same_evolves [of s0 s]
    by (auto simp: looked_up_def note_from_invoice_def dest: new_note_noting noting_evolves split: option.splits)
  have "evolves s0 s \<Longrightarrow> evolves s0 (copy_lines i j s)" for i j s
    by (simp add: copy_lines_def Let_def evolves_def books_wf_def lines_of_def)
  then have copy: "hoare (evolves s0) (of_try (of_stmt (\<lambda>s. Inr ((), copy_lines i j s))) (\<lambda>_. State_Monad.return (Inr i))) (if_ok (\<lambda>_. evolves s0))" for i j
    by (intro hoare_try_stmt [OF on_docs_evolves, where Q = "\<lambda>_. evolves s0"]) (auto intro: hoare_return)
  have body: "hoare (looked_up s0 h v) (of_try (of_stmt (note_from_invoice i g j number now))
      (\<lambda>_. of_try (of_stmt (\<lambda>s. Inr ((), copy_lines i j s))) (\<lambda>_. State_Monad.return (Inr i)))) (if_ok (\<lambda>_. evolves s0))" for h v i g j number now
    by (rule hoare_try_stmt [OF on_docs_looked new copy])
  show ?thesis
    unfolding CreateCreditNoteFromInvoice_def Let_def
    by (intro lookup_rule hoare_if hoare_fail hoare_bind [OF hoare_query [OF on_docs_looked]] hoare_bind [OF hoare_world [OF on_docs_looked]]
        evolves_tx on_docs_looked body hoare_answer) (auto intro: looked_evolves)
qed

lemma new_debit_evolves: "same_docs s0 s \<Longrightarrow> sql_insert_debit n s = Inr (a, s') \<Longrightarrow> evolves s0 s'"
  using not_taken [of "of_debits s" n]
  by (auto simp: sql_insert_debit_def same_docs_def evolves_def books_wf_def lines_of_def grows_refl intro!: grows_append ids_unique_snoc split: if_splits)

lemma new_receipt_evolves: "same_docs s0 s \<Longrightarrow> sql_insert_receipt g s = Inr (a, s') \<Longrightarrow> evolves s0 s'"
  using not_taken [of "of_receipts s" g]
  by (auto simp: sql_insert_receipt_def same_docs_def evolves_def books_wf_def lines_of_def grows_refl intro!: grows_append ids_unique_snoc split: if_splits)

lemma CreateDebitNote_evolves: "hoare (same_docs s0) (CreateDebitNote H c body) (\<lambda>_. evolves s0)"
  unfolding CreateDebitNote_def Let_def
  by (intro start_rules hoare_or [OF hoare_stmt [OF on_docs_same new_debit_evolves]] hoare_answer) (auto intro: same_evolves)

text \<open>Tables that are no documents.\<close>

lemma evolves_tables [simp]:
  "evolves s0 (s\<lparr>of_vpayments := x1\<rparr>) = evolves s0 s" "evolves s0 (s\<lparr>of_orders := x2\<rparr>) = evolves s0 s"
  "evolves s0 (s\<lparr>of_receipt_lines := x3\<rparr>) = evolves s0 s"
  by (simp_all add: evolves_def books_wf_def lines_of_def)

lemma CreateVendorPayment_evolves: "hoare (same_docs s0) (CreateVendorPayment H c body) (\<lambda>_. evolves s0)"
proof -
  have new: "evolves s0 s'" if "same_docs s0 s" "sql_insert_vpayment p s = Inr (a, s')" for p s a s'
    using that by (auto simp: sql_insert_vpayment_def same_evolves split: if_splits)
  show ?thesis
    unfolding CreateVendorPayment_def Let_def
    by (intro start_rules hoare_or [OF hoare_stmt [OF on_docs_same, where Q = "\<lambda>_. evolves s0", OF new]] ledger_rule) (auto intro: same_evolves)
qed

lemma receipt_line_evolves: "evolves s0 s \<Longrightarrow> sql_insert_receipt_line l s = Inr (a, s') \<Longrightarrow> evolves s0 s'"
  by (auto simp: sql_insert_receipt_line_def split: if_splits)

lemma po_lines_evolve: "hoare (evolves s0) (insert_po_lines h po ls) (if_ok (\<lambda>_. evolves s0))"
proof (induction ls)
  case Nil
  show ?case by (simp add: hoare_return)
next
  case (Cons l ls)
  show ?case unfolding insert_po_lines.simps
    by (intro hoare_bind [OF hoare_world [OF on_docs_evolves]] hoare_try_stmt [OF on_docs_evolves receipt_line_evolves Cons.IH])
qed

lemma receipt_lines_evolve: "hoare (evolves s0) (insert_receipt_lines h g ls) (if_ok (\<lambda>_. evolves s0))"
proof (induction ls)
  case Nil
  show ?case by (simp add: hoare_return)
next
  case (Cons l ls)
  show ?case unfolding insert_receipt_lines.simps
    by (intro hoare_bind [OF hoare_world [OF on_docs_evolves]] hoare_try_stmt [OF on_docs_evolves receipt_line_evolves Cons.IH])
qed

lemma CreateGRN_evolves: "hoare (same_docs s0) (CreateGRN H c body) (\<lambda>_. evolves s0)"
proof -
  have "hoare (evolves s0) (of_stmt (\<lambda>s. Inr ((), s\<lparr>of_orders := f (of_orders s)\<rparr>))) (either (evolves s0) (\<lambda>_. evolves s0))" for f
    by (rule hoare_stmt [OF on_docs_evolves]) auto
  then have upd: "hoare (evolves s0) (of_stmt (\<lambda>s. Inr ((), s\<lparr>of_orders := f (of_orders s)\<rparr>))) (\<lambda>_. evolves s0)" for f
    by (simp add: either_const)
  show ?thesis
    unfolding CreateGRN_def Let_def
    by (intro start_rules evolves_tx on_docs_same hoare_try_stmt [OF on_docs_same, where Q = "\<lambda>_. evolves s0", OF new_receipt_evolves] hoare_map_ok receipt_lines_evolve
        hoare_bind [OF upd] hoare_answer) (auto intro: same_evolves)
qed

lemma CreatePurchaseOrder_evolves: "hoare (same_docs s0) (CreatePurchaseOrder H c body) (\<lambda>_. evolves s0)"
proof -
  have new: "evolves s0 s'" if "same_docs s0 s" "sql_insert_order p s = Inr (a, s')" for p s a s'
    using that by (auto simp: sql_insert_order_def same_evolves split: if_splits)
  have "hoare (evolves s0) (of_try (of_stmt (\<lambda>s. Inr ((), s\<lparr>of_orders := f s\<rparr>))) (\<lambda>_. State_Monad.return (Inr ()))) (if_ok (\<lambda>_. evolves s0))" for f
    by (rule hoare_try_stmt [OF on_docs_evolves, where Q = "\<lambda>_. evolves s0"]) (auto intro: hoare_return)
  then have tail: "hoare (if_ok (\<lambda>_. evolves s0) r) (case r of Inl a \<Rightarrow> State_Monad.return (Inl a)
      | Inr _ \<Rightarrow> of_try (of_stmt (\<lambda>s. Inr ((), s\<lparr>of_orders := f s\<rparr>))) (\<lambda>_. State_Monad.return (Inr ()))) (if_ok (\<lambda>_. evolves s0))"
      for f and r :: "(uuid \<times> string) response + unit"
    by (cases r) (simp_all add: hoare_return if_ok_def [abs_def])
  show ?thesis
    unfolding CreatePurchaseOrder_def Let_def
    by (intro start_rules evolves_tx on_docs_same hoare_try_stmt [OF on_docs_same, where Q = "\<lambda>_. evolves s0", OF new] hoare_bind [OF po_lines_evolve] tail hoare_answer)
       (auto intro: same_evolves)
qed

lemma ApprovePurchaseOrder_evolves: "hoare (same_docs s0) (ApprovePurchaseOrder H c idp) (\<lambda>_. evolves s0)"
proof -
  have a: "hoare (same_docs s0) (of_stmt (\<lambda>s. Inr (g s, s\<lparr>of_orders := f s\<rparr>))) (either (same_docs s0) (\<lambda>_. evolves s0))" for f and g :: "office \<Rightarrow> nat"
    by (rule hoare_stmt [OF on_docs_same]) (auto simp: same_evolves)
  have b: "hoare (same_docs s0) (of_stmt (\<lambda>s. Inl e)) (either (same_docs s0) (\<lambda>_. evolves s0))" for e
    by (rule hoare_stmt [OF on_docs_same]) auto
  show ?thesis
    unfolding ApprovePurchaseOrder_def Let_def
    by (intro hoare_option hoare_or [OF b] hoare_or [OF a] hoare_if hoare_fail hoare_answer) (auto intro: same_evolves)
qed

theorem serve_books_evolves: "hoare (same_docs s0) (serve_books H c r) (\<lambda>_. evolves s0)"
proof -
  have w: "hoare (same_docs s0) (at_world m) (\<lambda>_. evolves s0)" for m :: "'a response go"
    by (rule hoare_conseq [OF hoare_world [OF on_docs_same]]) (auto intro: same_evolves)
  show ?thesis
    by (cases r)
       (simp_all add: serve_books_def hoare_accepted w CreateSalesInvoice_evolves GetSalesInvoice_evolves UpdateSalesInvoice_evolves
         posts_evolve CancelSalesInvoice_evolves CreateCreditNoteFromInvoice_evolves CreateCreditNote_evolves CreateDebitNote_evolves
         CreateVendorPayment_evolves CreatePurchaseOrder_evolves ApprovePurchaseOrder_evolves CreateGRN_evolves)
qed

subsection \<open>Histories\<close>

text \<open>A step is a request to the module, or anything else the server does, which leaves the documents alone.\<close>

inductive books_step :: "office \<Rightarrow> office \<Rightarrow> bool" where
  request: "books_step s (snd (run_state (serve_books H c r) s))"
| elsewhere: "books_step s (s\<lparr>of_world := w\<rparr>)"

abbreviation books_history :: "office \<Rightarrow> office \<Rightarrow> bool" where
  "books_history \<equiv> books_step\<^sup>*\<^sup>*"

lemma step_evolves:
  assumes "books_step s s'" "books_wf s"
  shows "evolves s s'"
  using assms(1)
proof cases
  case (request H c r)
  have "same_docs s s" using assms(2) by (simp add: same_docs_def)
  then show ?thesis using serve_books_evolves [of s H c r] request by (simp add: hoare_def)
next
  case (elsewhere w)
  then show ?thesis using evolves_refl [OF assms(2)] on_docsD [OF on_docs_evolves] by blast
qed

lemma history_evolves: "books_history s s' \<Longrightarrow> books_wf s \<Longrightarrow> evolves s s'"
proof (induction rule: rtranclp_induct)
  case base
  then show ?case by (rule evolves_refl)
next
  case (step a b)
  then have "evolves s a" by blast
  moreover from this have "books_wf a" by (simp add: evolves_def)
  ultimately show ?case using step_evolves [OF step(2)] evolves_trans by blast
qed

lemma grows_posted: "grows doc_next xs ys \<Longrightarrow> n \<in> set xs \<Longrightarrow> d_status n \<noteq> ''draft'' \<Longrightarrow> n \<in> set ys"
  using growsD [of doc_next xs ys n] by (auto simp: doc_next_def)

text \<open>C36: Posted documents are immutable: in every history of requests to the accounting module, an invoice that
  is no draft keeps its number, its parties, its dates and its amounts, and every one of its lines; all that can
  still happen is that a posted invoice is cancelled, and a cancelled one stays cancelled. A posted credit
  note, debit note or goods receipt does not change at all.\<close>

theorem posted_documents_immutable:
  assumes "books_history s s'" "books_wf s"
  shows "(\<forall>v \<in> set (of_invoices s). d_status v \<noteq> ''draft'' \<longrightarrow>
      (\<exists>st. v\<lparr>d_status := st\<rparr> \<in> set (of_invoices s') \<and> (st = d_status v \<or> d_status v = ''posted'' \<and> st = ''cancelled'')) \<and>
      lines_of (d_id v) s' = lines_of (d_id v) s) \<and>
    (\<forall>n \<in> set (of_notes s). d_status n \<noteq> ''draft'' \<longrightarrow> n \<in> set (of_notes s')) \<and>
    (\<forall>n \<in> set (of_debits s). d_status n \<noteq> ''draft'' \<longrightarrow> n \<in> set (of_debits s')) \<and>
    (\<forall>g \<in> set (of_receipts s). d_status g \<noteq> ''draft'' \<longrightarrow> g \<in> set (of_receipts s')) \<and> books_wf s'"
proof -
  have e: "evolves s s'" by (rule history_evolves [OF assms])
  have "\<exists>st. v\<lparr>d_status := st\<rparr> \<in> set (of_invoices s') \<and> (st = d_status v \<or> d_status v = ''posted'' \<and> st = ''cancelled'')"
    if v: "v \<in> set (of_invoices s)" "d_status v \<noteq> ''draft''" for v
  proof -
    obtain v' where v': "v' \<in> set (of_invoices s')" "invoice_next v v'" using e growsD [OF _ v(1)] unfolding evolves_def by blast
    then have "v' = v\<lparr>d_status := d_status v'\<rparr>" "next_status (d_status v) (d_status v')" using v(2) by (simp_all add: invoice_next_def)
    then show ?thesis using v'(1) v(2) by (intro exI [of _ "d_status v'"]) (auto simp: next_status_def)
  qed
  moreover have "\<forall>n \<in> set (of_notes s). d_status n \<noteq> ''draft'' \<longrightarrow> n \<in> set (of_notes s')"
    using e grows_posted [of "of_notes s" "of_notes s'"] unfolding evolves_def by blast
  moreover have "\<forall>n \<in> set (of_debits s). d_status n \<noteq> ''draft'' \<longrightarrow> n \<in> set (of_debits s')"
    using e grows_posted [of "of_debits s" "of_debits s'"] unfolding evolves_def by blast
  moreover have "\<forall>g \<in> set (of_receipts s). d_status g \<noteq> ''draft'' \<longrightarrow> g \<in> set (of_receipts s')"
    using e grows_posted [of "of_receipts s" "of_receipts s'"] unfolding evolves_def by blast
  ultimately show ?thesis using e unfolding evolves_def by blast
qed

subsection \<open>Documents reach the ledger once\<close>

lemma next_fault_w_db: "next_fault w = (b, w') \<Longrightarrow> w_db (fail_tx w') = w_db w \<and> w_db w' = w_db w"
  using next_fault_db by simp

definition only_world :: "'a desk \<Rightarrow> bool" where
  "only_world m \<longleftrightarrow> (\<forall>s. \<exists>w. snd (run_state m s) = s\<lparr>of_world := w\<rparr>)"

lemma only_world_at: "only_world (at_world m)"
  by (auto simp: only_world_def at_world_def split: prod.splits)

lemma only_world_return: "only_world (State_Monad.return x)"
  unfolding only_world_def by (metis office.surjective office.update_convs(1) run_state_return snd_conv)

lemma only_world_query: "only_world (of_query f)"
proof -
  have "\<exists>w. snd (run_state (of_query f) s) = s\<lparr>of_world := w\<rparr>" for s
  proof (cases "w_tx (of_world s) = TxFailed")
    case True
    then have "snd (run_state (of_query f) s) = s\<lparr>of_world := of_world s\<rparr>" by (simp add: of_query_def of_stmt_def)
    then show ?thesis by blast
  next
    case False
    then show ?thesis by (auto simp: of_query_def of_stmt_def split: prod.splits)
  qed
  then show ?thesis by (simp add: only_world_def)
qed

lemma only_world_bind: "only_world m \<Longrightarrow> (\<And>x. only_world (f x)) \<Longrightarrow> only_world (State_Monad.bind m f)"
proof -
  assume m: "only_world m" and f: "\<And>x. only_world (f x)"
  have "\<exists>w. snd (run_state (State_Monad.bind m f) s) = s\<lparr>of_world := w\<rparr>" for s
  proof -
    obtain x s1 where r: "run_state m s = (x, s1)" by fastforce
    obtain w1 where s1: "s1 = s\<lparr>of_world := w1\<rparr>" using m [unfolded only_world_def, rule_format, of s] r by auto
    obtain w2 where "snd (run_state (f x) s1) = s1\<lparr>of_world := w2\<rparr>" using f [of x, unfolded only_world_def] by blast
    then show ?thesis using r s1 by (simp add: run_state_bind) blast
  qed
  then show ?thesis by (simp add: only_world_def)
qed

lemma only_world_tail: "only_world (do { r \<leftarrow> at_world m; State_Monad.return (g r) })"
  by (rule only_world_bind [OF only_world_at only_world_return])

lemma posting_accepted:
  assumes "run_state (accepted (of_or n msg (of_row i f) k)) s = (True, s1)" "\<And>a. only_world (k a)"
  shows "\<exists>j w a s' w'. i = Some j \<and> f j (s\<lparr>of_world := w\<rparr>) = Some (a, s') \<and> s1 = s'\<lparr>of_world := w'\<rparr>"
proof -
  obtain r s2 where row: "run_state (of_row i f) s = (r, s2)" by fastforce
  obtain a where r: "r = Inr a" and k: "s1 = snd (run_state (k a) s2)"
    using assms(1) row by (cases r) (auto simp: accepted_def of_or_def split: prod.splits)
  obtain j where i: "i = Some j" using row r by (cases i) (auto simp: of_row_def of_stmt_def split: prod.splits if_splits)
  have "\<exists>w. f j (s\<lparr>of_world := w\<rparr>) = Some (a, s2)"
    using row r by (auto simp: of_row_def i of_stmt_def split: prod.splits if_splits option.splits)
  then show ?thesis using i k assms(2) [of a, unfolded only_world_def, rule_format, of s2] by metis
qed

lemma posting_refused:
  assumes "i = Some j" "\<And>w. f j (s\<lparr>of_world := w\<rparr>) = None"
  shows "\<exists>w'. run_state (accepted (of_or n msg (of_row i f) k)) s = (False, s\<lparr>of_world := w'\<rparr>) \<and> w_db w' = w_db (of_world s)"
proof (cases "w_tx (of_world s) = TxFailed")
  case True
  then have "run_state (accepted (of_or n msg (of_row i f) k)) s = (False, s\<lparr>of_world := of_world s\<rparr>)"
    by (simp add: accepted_def of_or_def of_row_def of_stmt_def assms(1))
  then show ?thesis by blast
next
  case False
  obtain bad w where w: "next_fault (of_world s) = (bad, w)" by fastforce
  then have "run_state (accepted (of_or n msg (of_row i f) k)) s = (False, s\<lparr>of_world := if bad then fail_tx w else w\<rparr>)"
    using False assms(2) by (simp add: accepted_def of_or_def of_row_def of_stmt_def assms(1))
  then show ?thesis using next_fault_w_db [OF w] by (intro exI [of _ "if bad then fail_tx w else w"]) simp
qed

text \<open>The four requests that post a document, by the table they post in.\<close>

definition posted_in :: "uuid \<Rightarrow> ('a document_scheme) list \<Rightarrow> bool" where
  "posted_in j xs \<longleftrightarrow> (\<exists>x \<in> set xs. d_id x = j \<and> d_status x \<noteq> ''draft'')"

lemma posted_in_mark: "find (is_draft h j) xs = Some x \<Longrightarrow> posted_in j (upd_where (is_draft h j) (mark ''posted'') xs)"
proof -
  assume "find (is_draft h j) xs = Some x"
  then have x: "x \<in> set xs" "is_draft h j x" by (auto simp: find_Some_iff)
  then have "mark ''posted'' x \<in> set (upd_where (is_draft h j) (mark ''posted'') xs)" unfolding set_upd_where by force
  moreover have "d_id (mark ''posted'' x) = j" "d_status (mark ''posted'' x) \<noteq> ''draft''" using x(2) by (simp_all add: is_draft_def mark_def)
  ultimately show ?thesis unfolding posted_in_def by blast
qed

lemma no_draft: "ids_unique xs \<Longrightarrow> posted_in j xs \<Longrightarrow> find (is_draft h j) xs = None"
  unfolding posted_in_def find_None_iff is_draft_def using unique_invoice by metis

lemma posted_in_next: "grows doc_next xs ys \<Longrightarrow> posted_in j xs \<Longrightarrow> posted_in j ys"
  unfolding posted_in_def using grows_posted by metis

lemma posted_in_invoices: "grows invoice_next xs ys \<Longrightarrow> posted_in j xs \<Longrightarrow> posted_in j ys"
proof -
  assume g: "grows invoice_next xs ys" and "posted_in j xs"
  then obtain x where x: "x \<in> set xs" "d_id x = j" "d_status x \<noteq> ''draft''" by (auto simp: posted_in_def)
  then obtain y where "y \<in> set ys" "invoice_next x y" using growsD [OF g] by blast
  then show ?thesis using x unfolding posted_in_def by (intro bexI [of _ y]) (auto simp: invoice_next_def same_document_def next_status_def)
qed

text \<open>What a posting request has posted.\<close>

definition posts :: "books_request \<Rightarrow> uuid \<Rightarrow> office \<Rightarrow> bool" where
  "posts r j s = (case r of
     Bk_PostInvoice _ \<Rightarrow> posted_in j (of_invoices s)
   | Bk_PostCredit _ \<Rightarrow> posted_in j (of_notes s)
   | Bk_PostDebit _ \<Rightarrow> posted_in j (of_debits s)
   | Bk_PostReceipt _ \<Rightarrow> posted_in j (of_receipts s)
   | _ \<Rightarrow> False)"

definition is_posting :: "books_request \<Rightarrow> bool" where
  "is_posting r \<longleftrightarrow> (\<exists>i. r \<in> {Bk_PostInvoice i, Bk_PostCredit i, Bk_PostDebit i, Bk_PostReceipt i})"

definition posting_id :: "books_request \<Rightarrow> string" where
  "posting_id r = (case r of Bk_PostInvoice i \<Rightarrow> i | Bk_PostCredit i \<Rightarrow> i | Bk_PostDebit i \<Rightarrow> i | Bk_PostReceipt i \<Rightarrow> i | _ \<Rightarrow> [])"

lemma post_handlers:
  "serve_books H c (Bk_PostInvoice i) = accepted (of_or 400 ''invoice not found or already posted/cancelled''
     (of_row (lib_uuid (ah_lib H) i) (post_invoice_row (books_hotel H c))) (\<lambda>v. do {
       r \<leftarrow> at_world (postARInvoice (books_hotel H c) (iv_tax v) (iv_total v) (''INV '' @ d_number v) (''Sales invoice '' @ d_number v));
       State_Monad.return (OK (journal_of r)) }))"
  "serve_books H c (Bk_PostCredit i) = accepted (of_or 400 ''credit note not found or already posted''
     (of_row (lib_uuid (ah_lib H) i) (post_note_row (books_hotel H c))) (\<lambda>n. do {
       r \<leftarrow> at_world (postCreditNoteReversal (books_hotel H c) (cn_tax n) (cn_total n) (''CN '' @ d_number n) (''Credit note '' @ d_number n));
       State_Monad.return (OK (journal_of r)) }))"
  "serve_books H c (Bk_PostDebit i) = accepted (of_or 400 ''debit note not found or already posted''
     (of_row (lib_uuid (ah_lib H) i) (post_debit_row (books_hotel H c))) (\<lambda>n. do {
       r \<leftarrow> at_world (postVendorDebitNote (books_hotel H c) (dn_total n) (''DN '' @ d_number n) (''Debit note '' @ d_number n));
       State_Monad.return (OK (journal_of r)) }))"
  "serve_books H c (Bk_PostReceipt i) = accepted (of_or 400 ''GRN not found or already posted''
     (of_row (lib_uuid (ah_lib H) i) (post_receipt_row (books_hotel H c))) (\<lambda>g. do {
       a \<leftarrow> of_query (receipt_value (books_hotel H c) (d_id g));
       r \<leftarrow> at_world (postGoodsReceipt (books_hotel H c) (case a of Inl _ \<Rightarrow> 0 | Inr v \<Rightarrow> v) (''GRN '' @ d_number g) (''Goods receipt '' @ d_number g));
       State_Monad.return (OK (journal_of r)) }))"
  by (simp_all add: serve_books_def PostSalesInvoice_def PostCreditNote_def PostDebitNote_def PostGRN_def Let_def)

lemma posting_posts:
  assumes "is_posting r" "run_state (serve_books H c r) s = (True, s1)"
  shows "\<exists>j. lib_uuid (ah_lib H) (posting_id r) = Some j \<and> posts r j s1"
proof -
  consider (inv) i where "r = Bk_PostInvoice i" | (cn) i where "r = Bk_PostCredit i" | (dn) i where "r = Bk_PostDebit i" | (gr) i where "r = Bk_PostReceipt i"
    using assms(1) by (auto simp: is_posting_def)
  then show ?thesis
  proof cases
    case inv
    from posting_accepted [OF assms(2) [unfolded inv post_handlers] only_world_tail] show ?thesis
      by (auto simp: inv posts_def posting_id_def post_invoice_row_def intro: posted_in_mark)
  next
    case cn
    from posting_accepted [OF assms(2) [unfolded cn post_handlers] only_world_tail] show ?thesis
      by (auto simp: cn posts_def posting_id_def post_note_row_def intro: posted_in_mark)
  next
    case dn
    from posting_accepted [OF assms(2) [unfolded dn post_handlers] only_world_tail] show ?thesis
      by (auto simp: dn posts_def posting_id_def post_debit_row_def intro: posted_in_mark)
  next
    case gr
    from posting_accepted [OF assms(2) [unfolded gr post_handlers] only_world_bind [OF only_world_query only_world_tail]] show ?thesis
      by (auto simp: gr posts_def posting_id_def post_receipt_row_def intro: posted_in_mark)
  qed
qed

lemma posts_evolves: "evolves s s' \<Longrightarrow> posts r j s \<Longrightarrow> posts r j s'"
  unfolding evolves_def posts_def by (cases r) (auto intro: posted_in_next posted_in_invoices)

lemma posting_again:
  assumes "posts r j s" "lib_uuid (ah_lib H) (posting_id r) = Some j" "books_wf s"
  shows "\<exists>w. run_state (serve_books H c r) s = (False, s\<lparr>of_world := w\<rparr>) \<and> w_db w = w_db (of_world s)"
proof (cases r)
  case (Bk_PostInvoice i)
  show ?thesis unfolding Bk_PostInvoice post_handlers
    using assms [unfolded Bk_PostInvoice] no_draft [of "of_invoices s" j] by (intro posting_refused [of _ j]) (auto simp: posts_def posting_id_def post_invoice_row_def books_wf_def)
next
  case (Bk_PostCredit i)
  show ?thesis unfolding Bk_PostCredit post_handlers
    using assms [unfolded Bk_PostCredit] no_draft [of "of_notes s" j] by (intro posting_refused [of _ j]) (auto simp: posts_def posting_id_def post_note_row_def books_wf_def)
next
  case (Bk_PostDebit i)
  show ?thesis unfolding Bk_PostDebit post_handlers
    using assms [unfolded Bk_PostDebit] no_draft [of "of_debits s" j] by (intro posting_refused [of _ j]) (auto simp: posts_def posting_id_def post_debit_row_def books_wf_def)
next
  case (Bk_PostReceipt i)
  show ?thesis unfolding Bk_PostReceipt post_handlers
    using assms [unfolded Bk_PostReceipt] no_draft [of "of_receipts s" j] by (intro posting_refused [of _ j]) (auto simp: posts_def posting_id_def post_receipt_row_def books_wf_def)
qed (insert assms(1), auto simp: posts_def)

text \<open>C37: A document reaches the ledger once: when a request posting an invoice, a credit note, a debit note or a
  goods receipt has been accepted, then after every further history of requests the same request, of whatever
  user, is refused and changes neither the documents nor the ledger.\<close>

theorem posted_once:
  assumes "is_posting r" "books_wf s" "run_state (serve_books H c r) s = (True, s1)" "books_history s1 s2"
  shows "\<exists>w. run_state (serve_books H c' r) s2 = (False, s2\<lparr>of_world := w\<rparr>) \<and> w_db w = w_db (of_world s2)"
proof -
  obtain j where j: "lib_uuid (ah_lib H) (posting_id r) = Some j" "posts r j s1" using posting_posts [OF assms(1,3)] by blast
  have "books_step s s1" using assms(3) books_step.request [of s H c r] by simp
  then have "books_wf s1" using step_evolves [OF _ assms(2)] by (simp add: evolves_def)
  then have e: "evolves s1 s2" by (rule history_evolves [OF assms(4)])
  then have "posts r j s2" "books_wf s2" using posts_evolves j(2) by (auto simp: evolves_def)
  then show ?thesis using posting_again j(1) by blast
qed

text \<open>A draft invoice of hotel 7 with one line, its accountant, and the world of a quiet day.\<close>

definition books_handler :: AccountingHandler where
  "books_handler = \<lparr>ah_lib = \<lparr>lib_jwt = \<lambda>s t. if t = ''tok'' then Some [(''hotel_id'', JStr ''7'')] else None,
     lib_uuid = \<lambda>s. if list_all is_digit s \<and> s \<noteq> [] then Some (digits_val s) else None\<rparr>, ah_secret = ''secret''\<rparr>"

definition books_ctx :: ctx where
  "books_ctx = \<lparr>c_authorization = ''Bearer tok'', c_cookie = [], c_branch_header = [], c_path = ''/api/accounting'', c_locals = []\<rparr>"

definition draft_invoice :: invoice where
  "draft_invoice = \<lparr>d_id = 5, d_hotel = 7, d_number = ''INV-1'', d_date = 0, d_status = ''draft'', iv_customer = None, iv_due = None,
     iv_reference = None, iv_subtotal = cents 10000, iv_discount = 0, iv_tax = cents 1800, iv_total = cents 11800, iv_notes = None\<rparr>"

definition draft_office :: office where
  "draft_office = \<lparr>of_world = start empty_db 0, of_slugs = [(7, ''sea'')], of_vendors = [], of_invoices = [draft_invoice],
     of_lines = [\<lparr>vl_id = 6, vl_invoice = 5, vl_hotel = 7, vl_account = None, vl_description = ''room'', vl_quantity = 1,
       vl_price = cents 10000, vl_discount = 0, vl_rate = 18, vl_tax = cents 1800, vl_total = cents 11800\<rparr>],
     of_notes = [], of_note_lines = [], of_debits = [], of_vpayments = [], of_orders = [], of_receipts = [], of_receipt_lines = []\<rparr>"

definition posted_office :: office where
  "posted_office = draft_office\<lparr>of_invoices := [mark ''posted'' draft_invoice]\<rparr>"

lemma books_wf_samples: "books_wf draft_office" "books_wf posted_office"
  by (simp_all add: books_wf_def ids_unique_def draft_office_def posted_office_def)

theorem posted_documents_immutable_witness:
  "\<exists>s'. books_history posted_office s' \<and> (\<exists>st. (mark ''posted'' draft_invoice)\<lparr>d_status := st\<rparr> \<in> set (of_invoices s')) \<and>
     lines_of 5 s' = of_lines draft_office"
proof -
  let ?r = "Bk_UpdateInvoice ''5'' (Some \<lparr>si_customer = [], si_date = [], si_due = [], si_reference = [], si_notes = [],
    si_lines = [\<lparr>sl_account = [], sl_description = ''bar'', sl_quantity = 1, sl_price = 1, sl_discount = 0, sl_rate = 0\<rparr>]\<rparr>)"
  let ?s = "snd (run_state (serve_books books_handler books_ctx ?r) posted_office)"
  have h: "books_history posted_office ?s" by (rule r_into_rtranclp, rule books_step.request)
  have v: "mark ''posted'' draft_invoice \<in> set (of_invoices posted_office)" "d_status (mark ''posted'' draft_invoice) \<noteq> ''draft''"
    "d_id (mark ''posted'' draft_invoice) = 5" "lines_of 5 posted_office = of_lines draft_office"
    by (simp_all add: posted_office_def mark_def draft_invoice_def lines_of_def draft_office_def)
  show ?thesis using posted_documents_immutable [OF h books_wf_samples(2)] v h by metis
qed

theorem posted_once_witness:
  "\<exists>s1 w. run_state (serve_books books_handler books_ctx (Bk_PostInvoice ''5'')) draft_office = (True, s1) \<and>
     run_state (serve_books books_handler books_ctx (Bk_PostInvoice ''5'')) s1 = (False, s1\<lparr>of_world := w\<rparr>) \<and>
     w_db w = w_db (of_world s1)"
proof -
  let ?r = "run_state (serve_books books_handler books_ctx (Bk_PostInvoice ''5'')) draft_office"
  have sample: "lib_uuid (ah_lib books_handler) ''5'' = Some 5" "books_hotel books_handler books_ctx = 7" by code_simp+
  have "fst ?r"
    by (simp add: post_handlers sample accepted_def of_or_def of_row_def of_stmt_def at_world_def post_invoice_row_def
        draft_office_def draft_invoice_def is_draft_def OK_def case_prod_beta)
  then have r: "?r = (True, snd ?r)" by (metis prod.collapse)
  have "is_posting (Bk_PostInvoice ''5'')" by (simp add: is_posting_def)
  then show ?thesis
    using posted_once [OF _ books_wf_samples(1) r rtranclp.rtrancl_refl, of books_ctx] r by blast
qed

text \<open>The race of an edit with a posting: when the invoice is posted between the check of \<^verbatim>\<open>UpdateSalesInvoice\<close> and its
  transaction, the amounts stay but the lines are replaced.\<close>

theorem update_race:
  "let req = \<lparr>si_customer = [], si_date = [], si_due = [], si_reference = [], si_notes = [],
      si_lines = [\<lparr>sl_account = ''9'', sl_description = ''bar'', sl_quantity = 1, sl_price = 1, sl_discount = 0, sl_rate = 0\<rparr>]\<rparr>;
     s = posted_office\<lparr>of_world := start (empty_db\<lparr>accounts := [\<lparr>ac_id = 9, ac_hotel = 7, ac_code = ''4000'', ac_name = [], ac_type = [],
       ac_sub_type = [], ac_order = 0\<rparr>]\<rparr>) 0\<rparr>;
     s' = snd (run_state (of_tx (update_invoice_tx books_handler 7 5 req) (\<lambda>_. State_Monad.return (OK ()))) s)
   in of_invoices s' = of_invoices s \<and> map vl_description (of_lines s') = [''bar''] \<and> map vl_description (of_lines s) = [''room'']"
  by code_simp
end
