(* ===== verification/Journals.thy ===== *)
theory Journals
  imports BookKeeping Float64
begin

text \<open>
  Purchase orders of the accounting module: why none can be created.
\<close>

subsection \<open>Purchase orders\<close>

lemma of_stmt_error: "(\<And>w. \<exists>e. f (s\<lparr>of_world := w\<rparr>) = Inl e) \<Longrightarrow> \<exists>e w. run_state (of_stmt f) s = (Inl e, s\<lparr>of_world := w\<rparr>)"
proof (cases "w_tx (of_world s) = TxFailed")
  case True
  then have "run_state (of_stmt f) s = (Inl TxAborted, s\<lparr>of_world := of_world s\<rparr>)" by (simp add: of_stmt_def)
  then show ?thesis by blast
next
  case False
  assume f: "\<And>w. \<exists>e. f (s\<lparr>of_world := w\<rparr>) = Inl e"
  obtain bad w where w: "next_fault (of_world s) = (bad, w)" by fastforce
  obtain e where e: "f (s\<lparr>of_world := w\<rparr>) = Inl e" using f by blast
  have "run_state (of_stmt f) s = (Inl (if bad then DbFault else e), s\<lparr>of_world := fail_tx w\<rparr>)"
    using False w e by (simp add: of_stmt_def)
  then show ?thesis by blast
qed

lemma receipt_line_refused:
  "rl_grn r \<notin> set (map d_id (of_receipts s)) \<Longrightarrow> \<exists>e. sql_insert_receipt_line r (s\<lparr>of_world := w\<rparr>) = Inl e"
  by (simp add: sql_insert_receipt_line_def)

lemma po_lines_fail:
  assumes "po \<notin> set (map d_id (of_receipts s))" "ls \<noteq> []"
  shows "\<exists>s'. run_state (insert_po_lines h po ls) s = (Inl (Fail 500 []), s')"
proof -
  obtain l ms where ls: "ls = l # ms" using assms(2) by (cases ls) auto
  obtain i w1 where i: "run_state (at_world uuid_New) s = (i, s\<lparr>of_world := w1\<rparr>)" by (auto simp: at_world_def split: prod.splits)
  let ?r = "\<lparr>rl_id = i, rl_grn = po, rl_hotel = h, rl_description = pq_description l, rl_ordered = quantity_or_1 (pq_quantity l),
    rl_received = 0, rl_accepted = 0, rl_rejected = 0, rl_price = pq_price l, rl_total = po_line_total l\<rparr>"
  have "\<exists>e. sql_insert_receipt_line ?r ((s\<lparr>of_world := w1\<rparr>)\<lparr>of_world := w\<rparr>) = Inl e" for w
    using assms(1) by (intro receipt_line_refused) simp
  then obtain e w where "run_state (of_stmt (sql_insert_receipt_line ?r)) (s\<lparr>of_world := w1\<rparr>) = (Inl e, s\<lparr>of_world := w\<rparr>)"
    using of_stmt_error [of "sql_insert_receipt_line ?r" "s\<lparr>of_world := w1\<rparr>"] by auto
  then show ?thesis unfolding ls insert_po_lines.simps by (simp add: run_state_bind i of_try_def)
qed

lemma order_tx_fails:
  fixes k :: "unit \<Rightarrow> ('r response + 'b) desk"
  assumes "po \<notin> set (map d_id R)" "ls \<noteq> []"
  shows "hoare (\<lambda>s. of_receipts s = R) (of_try (of_stmt (sql_insert_order p))
      (\<lambda>_. do { r \<leftarrow> insert_po_lines h po ls; case r of Inl a \<Rightarrow> State_Monad.return (Inl a) | Inr x \<Rightarrow> k x }))
      (\<lambda>r _. r = Inl (Fail 500 []))"
proof -
  have P: "on_docs (\<lambda>s. of_receipts s = R)" by (simp add: on_docs_def)
  have "hoare (\<lambda>s. of_receipts s = R) (of_stmt (sql_insert_order p)) (either (\<lambda>s. of_receipts s = R) (\<lambda>_ s. of_receipts s = R))"
    by (rule hoare_stmt [OF P]) (auto simp: sql_insert_order_def split: if_splits)
  moreover have "hoare (\<lambda>s. of_receipts s = R) (do { r \<leftarrow> insert_po_lines h po ls; case r of Inl a \<Rightarrow> State_Monad.return (Inl a) | Inr x \<Rightarrow> k x })
      (\<lambda>r _. r = Inl (Fail 500 []))"
    unfolding hoare_def
  proof (intro allI impI)
    fix s :: office assume "of_receipts s = R"
    then obtain s' where s': "run_state (insert_po_lines h po ls) s = (Inl (Fail 500 [] :: 'r response), s')" using po_lines_fail [of po s ls h] assms by auto
    show "fst (run_state (do { r \<leftarrow> insert_po_lines h po ls; case r of Inl a \<Rightarrow> State_Monad.return (Inl a) | Inr x \<Rightarrow> k x }) s) = Inl (Fail 500 [])"
      using s' by (simp add: run_state_bind)
  qed
  ultimately show ?thesis unfolding of_try_def
    by (elim hoare_bind) (auto simp: either_def intro!: hoare_return split: sum.splits)
qed

lemma of_tx_fails:
  assumes "hoare P m (\<lambda>r _. r = Inl (Fail 500 []))" "on_docs P" "P s"
  shows "\<exists>w. run_state (of_tx m k) s = (Fail 500 [], s\<lparr>of_world := w\<rparr>) \<and> w_db w = w_db (of_world s)"
proof -
  obtain bad w1 where f: "next_fault (of_world s) = (bad, w1)" by fastforce
  obtain r s2 where m: "run_state m (s\<lparr>of_world := w1\<lparr>w_tx := TxOpen\<rparr>\<rparr>) = (r, s2)" by fastforce
  have "r = Inl (Fail 500 [])" using hoareD [OF assms(1) _ m] assms(3) on_docsD [OF assms(2)] by blast
  then show ?thesis using next_fault_w_db [OF f] m f by (cases bad) (auto simp: of_tx_def undo_tx_def)
qed

lemma document_number_world:
  "\<exists>n w. run_state (document_number p h) s = (n, s\<lparr>of_world := w\<rparr>) \<and> w_db w = w_db (of_world s) \<and> w_ids w = w_ids (of_world s) \<and> w_next w = w_next (of_world s)"
proof -
  obtain bad w where w: "next_fault (of_world s) = (bad, w)" by fastforce
  then have "w_db w = w_db (of_world s) \<and> w_ids w = w_ids (of_world s) \<and> w_next w = w_next (of_world s)"
    by (auto simp: next_fault_def split: list.splits)
  moreover have "w_ids (fail_tx w) = w_ids w" "w_next (fail_tx w) = w_next w" by (simp_all add: fail_tx_def)
  moreover have "s\<lparr>of_world := of_world s\<rparr> = s" by simp
  ultimately show ?thesis using w
    by (cases "w_tx (of_world s) = TxFailed"; cases bad)
       (auto simp: document_number_def of_query_def of_stmt_def at_world_def intro: exI [of _ "of_world s"])
qed

text \<open>C38: No purchase order can be created: its lines are written to the table of receipt lines, whose foreign key
  asks for a goods receipt with the identifier of the order. As that identifier is new, every request is
  refused, and leaves everything as it was.\<close>

theorem purchase_orders_never_created:
  assumes "w_ids (of_world s) (w_next (of_world s)) \<notin> set (map d_id (of_receipts s))"
  shows "\<exists>n msg w. run_state (CreatePurchaseOrder H c body) s = (Fail n msg, s\<lparr>of_world := w\<rparr>) \<and> w_db w = w_db (of_world s)"
proof (cases "\<exists>req. body = Some req \<and> pr_lines req \<noteq> []")
  case False
  have "s\<lparr>of_world := of_world s\<rparr> = s" by simp
  then show ?thesis using False by (auto simp: CreatePurchaseOrder_def split: option.splits intro: exI [of _ "of_world s"])
next
  case True
  then obtain req where req: "body = Some req" "pr_lines req \<noteq> []" by blast
  obtain number w where n: "run_state (document_number ''PO'' (books_hotel H c)) s = (number, s\<lparr>of_world := w\<rparr>)"
    "w_db w = w_db (of_world s)" "w_ids w = w_ids (of_world s)" "w_next w = w_next (of_world s)"
    using document_number_world by metis
  let ?po = "w_ids (of_world s) (w_next (of_world s))" and ?s = "s\<lparr>of_world := w\<lparr>w_next := Suc (w_next w)\<rparr>\<rparr>"
  let ?P = "\<lambda>s'. of_receipts s' = of_receipts s"
  have P: "on_docs ?P" "?P ?s" by (simp_all add: on_docs_def)
  show ?thesis
    using of_tx_fails [OF order_tx_fails [OF assms req(2)] P] n req
    by (simp add: CreatePurchaseOrder_def Let_def run_state_bind at_world_def) blast
qed

theorem purchase_orders_never_created_witness:
  "\<exists>n msg w. run_state (CreatePurchaseOrder books_handler books_ctx
       (Some \<lparr>pr_vendor = [], pr_date = [], pr_expected = [], pr_notes = [],
          pr_lines = [\<lparr>pq_description = ''linen'', pq_quantity = 2, pq_price = 5\<rparr>]\<rparr>)) draft_office = (Fail n msg, draft_office\<lparr>of_world := w\<rparr>) \<and>
     w_db w = w_db (of_world draft_office)"
proof -
  have "w_ids (of_world draft_office) (w_next (of_world draft_office)) \<notin> set (map d_id (of_receipts draft_office))"
    by (simp add: draft_office_def)
  then show ?thesis by (rule purchase_orders_never_created)
qed
end
