(* ===== verification/Trial.thy ===== *)
theory Trial
  imports Accounting
begin

text \<open>
  Manual journal entries and the trial balance: an entry the module accepts is balanced to the cent, although the
  handler compares sums of floating-point numbers, and the trial balance of a tenant adds up to zero.
\<close>

subsection \<open>Manual journal entries\<close>

text \<open>A sum of up to a thousand amounts of at most ten million, in whole cents, is off by less than half a cent.\<close>

definition line_cents :: "rat \<Rightarrow> bool" where
  "line_cents v \<longleftrightarrow> (\<exists>k. \<bar>k\<bar> \<le> 10 ^ 9 \<and> v = cents k)"

lemma line_cents_to_cents:
  assumes "line_cents v"
  shows "v = cents (to_cents v)" "\<bar>to_cents v\<bar> \<le> 10 ^ 9"
  using assms unfolding line_cents_def by auto

lemma small_whole: "line_cents v \<Longrightarrow> whole_cents v"
proof -
  assume "line_cents v"
  then obtain k where "\<bar>k\<bar> \<le> 10 ^ 9" "v = cents k" unfolding line_cents_def by blast
  then have "cent_range k" by simp
  with \<open>v = cents k\<close> show ?thesis by simp
qed

lemma near_add_small:
  assumes "near a A e" "\<bar>k\<bar> \<le> 10 ^ 9" "\<bar>A\<bar> \<le> 10 ^ 12" "e \<le> 1"
  shows "near (fadd a (cents k)) (A + k) (e + 1 / 400000)"
proof -
  have k: "\<bar>of_int k / 100 :: rat\<bar> \<le> 10 ^ 7" using abs_of_int_le [OF assms(2)] by simp
  have A: "\<bar>of_int A / 100 :: rat\<bar> \<le> 10 ^ 10" using abs_of_int_le [OF assms(3)] by simp
  have c: "\<bar>cents k - of_int k / 100\<bar> \<le> 1 / 100000000" unfolding cents_def using fl64_err [of "of_int k / 100"] k by simp
  have "\<bar>a + cents k\<bar> \<le> \<bar>a - of_int A / 100\<bar> + \<bar>of_int A / 100\<bar> + \<bar>cents k - of_int k / 100\<bar> + \<bar>of_int k / 100\<bar>" by linarith
  also have "\<dots> \<le> 1 + 10 ^ 10 + 1 / 100000000 + 10 ^ 7" using assms(1,4) k A c unfolding near_def by (intro add_mono) auto
  finally have "\<bar>a + cents k\<bar> \<le> 2 * 10 ^ 10" by simp
  then have "\<bar>fl64 (a + cents k) - (a + cents k)\<bar> \<le> 1 / 420000" using fl64_err [of "a + cents k"] by simp
  then show ?thesis using assms(1) c unfolding near_def fadd_def of_int_add add_divide_distrib by linarith
qed

lemma near_sum_small:
  assumes "near a A e" "list_all line_cents vs" "\<bar>A\<bar> + int (length vs) * 10 ^ 9 \<le> 10 ^ 12" "e + of_nat (length vs) / 400000 \<le> 1"
  shows "near (foldl fadd a vs) (A + sum_list (map to_cents vs)) (e + of_nat (length vs) / 400000)"
  using assms
proof (induction vs arbitrary: a A e)
  case (Cons v vs)
  have v: "v = cents (to_cents v)" "\<bar>to_cents v\<bar> \<le> 10 ^ 9" using Cons.prems(2) line_cents_to_cents by auto
  have A: "\<bar>A\<bar> \<le> 10 ^ 12" using Cons.prems(3) by simp
  have e: "e \<le> 1" using Cons.prems(4) by (simp add: field_simps)
  have "near (fadd a v) (A + to_cents v) (e + 1 / 400000)" using near_add_small [OF Cons.prems(1) v(2) A e] v(1) by simp
  then have "near (foldl fadd (fadd a v) vs) ((A + to_cents v) + sum_list (map to_cents vs)) ((e + 1 / 400000) + of_nat (length vs) / 400000)"
    using Cons.prems v(2) by (intro Cons.IH) (auto simp: field_simps)
  then show ?case by (simp add: algebra_simps add_divide_distrib)
qed simp

lemma foldl_fadd_map: "foldl (\<lambda>a l. fadd a (f l)) x ls = foldl fadd x (map f ls)"
  by (induction ls arbitrary: x) simp_all

lemma near_inj: "near v i e \<Longrightarrow> near v j e \<Longrightarrow> e \<le> 1 / 400 \<Longrightarrow> i = j"
proof -
  assume a: "near v i e" "near v j e" "e \<le> 1 / 400"
  then have "\<bar>of_int (i - j) :: rat\<bar> < 1" unfolding near_def of_int_diff by linarith
  then show "i = j" by linarith
qed

definition debit_cents :: "journalLineReq list \<Rightarrow> int" where
  "debit_cents ls = sum_list (map (\<lambda>l. to_cents (jq_debit l)) ls)"

definition credit_cents :: "journalLineReq list \<Rightarrow> int" where
  "credit_cents ls = sum_list (map (\<lambda>l. to_cents (jq_credit l)) ls)"

definition modest :: "journalLineReq list \<Rightarrow> bool" where
  "modest ls \<longleftrightarrow> length ls \<le> 1000 \<and> list_all (\<lambda>l. line_cents (jq_debit l) \<and> line_cents (jq_credit l)) ls"

lemma totals_near:
  assumes "modest ls"
  shows "near (total_debit ls) (debit_cents ls) (1 / 400)" "near (total_credit ls) (credit_cents ls) (1 / 400)"
proof -
  have n: "length ls \<le> 1000" "\<bar>0 :: int\<bar> + int (length ls) * 10 ^ 9 \<le> 10 ^ 12" "(0 :: rat) + of_nat (length ls) / 400000 \<le> 1 / 400"
    using assms by (auto simp: modest_def field_simps)
  have 0: "near 0 0 0" by (simp add: near_def)
  have m: "list_all line_cents (map jq_debit ls)" "list_all line_cents (map jq_credit ls)" using assms by (auto simp: modest_def list_all_iff)
  have "near (foldl fadd 0 vs) (0 + sum_list (map to_cents vs)) (0 + of_nat (length vs) / 400000)"
    if "list_all line_cents vs" "length vs = length ls" for vs
    using n that by (intro near_sum_small [OF 0]) auto
  then have "near (foldl fadd 0 vs) (sum_list (map to_cents vs)) (1 / 400)" if "list_all line_cents vs" "length vs = length ls" for vs
    using n(3) that near_weaken [of "foldl fadd 0 vs" "sum_list (map to_cents vs)" "of_nat (length vs) / 400000" "1 / 400"] by simp
  from this [OF m(1)] this [OF m(2)] show "near (total_debit ls) (debit_cents ls) (1 / 400)" "near (total_credit ls) (credit_cents ls) (1 / 400)"
    by (simp_all add: total_debit_def total_credit_def debit_cents_def credit_cents_def foldl_fadd_map [of jq_debit 0 ls] foldl_fadd_map [of jq_credit 0 ls] o_def)
qed

lemma totals_exact: "modest ls \<Longrightarrow> total_debit ls = total_credit ls \<Longrightarrow> debit_cents ls = credit_cents ls"
  using near_inj [OF totals_near(1), of ls "credit_cents ls"] totals_near(2) [of ls] by simp

text \<open>The rows an entry appends, one for every line of the request.\<close>

definition manual_row :: "AccountingHandler \<Rightarrow> uuid \<Rightarrow> uuid \<Rightarrow> JournalRow \<Rightarrow> journalLineReq \<Rightarrow> bool" where
  "manual_row H h e r l \<longleftrightarrow> jl_entry r = e \<and> jl_hotel r = h \<and> jl_account r = parsed_uuid H (jq_account l) \<and>
     jl_debit r = jq_debit l \<and> jl_credit r = jq_credit l \<and> jl_memo r = jq_memo l"

lemma manual_line_exact:
  assumes "sql_insert_manual_line l d = Inr (u, d')" "numeric_exact d" "whole_cents (jl_debit l)" "whole_cents (jl_credit l)"
  shows "d' = d\<lparr>jlines := jlines d @ [l]\<rparr>"
  using sql_insert_jline_exact [OF _ assms(2-4)] assms(1) by (simp add: sql_insert_manual_line_def split: if_splits)

text \<open>The database after the entry: an entry more, and its rows.\<close>

definition appended :: "db \<Rightarrow> JournalEntry list \<Rightarrow> JournalRow list \<Rightarrow> db" where
  "appended d es rows = d\<lparr>entries := entries d @ es, jlines := jlines d @ rows\<rparr>"

lemma insert_manual_rows:
  assumes "numeric_exact d0" "list_all (\<lambda>l. whole_cents (jq_debit l) \<and> whole_cents (jq_credit l)) ls"
  shows "triple (\<lambda>d. d = appended d0 es rs) (insert_manual_lines H h e ls)
    (ok_post (\<lambda>_ d. \<exists>rows. d = appended d0 es (rs @ rows) \<and> list_all2 (manual_row H h e) rows ls))"
  using assms(2)
proof (induction ls arbitrary: rs)
  case Nil
  show ?case by (auto intro: triple_return)
next
  case (Cons l ls)
  define row where "row = (\<lambda>i. \<lparr>jl_id = i, jl_entry = e, jl_hotel = h, jl_account = parsed_uuid H (jq_account l),
            jl_debit = jq_debit l, jl_credit = jq_credit l, jl_memo = jq_memo l\<rparr>)"
  have row: "manual_row H h e (row i) l" for i by (simp add: manual_row_def row_def)
  have exact: "numeric_exact (appended d0 es rs)" using assms(1) by (simp add: appended_def numeric_exact_def)
  have ins: "triple (\<lambda>d. d = appended d0 es rs) (stmt (sql_insert_manual_line (row i)))
      (ok_post (\<lambda>_ d. d = appended d0 es (rs @ [row i])))" for i
    by (rule triple_stmt_ok, drule manual_line_exact)
       (use Cons.prems exact in \<open>simp_all add: row_def appended_def\<close>)
  have "triple (\<lambda>d. d = appended d0 es (rs @ [row i])) (insert_manual_lines H h e ls)
      (ok_post (\<lambda>_ d. \<exists>rows. d = appended d0 es (rs @ rows) \<and> list_all2 (manual_row H h e) rows (l # ls)))" for i
  proof (rule triple_conseq [OF Cons.IH])
    fix r d
    assume ok: "ok_post (\<lambda>_ d. \<exists>rows. d = appended d0 es ((rs @ [row i]) @ rows) \<and> list_all2 (manual_row H h e) rows ls) r d"
    show "ok_post (\<lambda>_ d. \<exists>rows. d = appended d0 es (rs @ rows) \<and> list_all2 (manual_row H h e) rows (l # ls)) r d"
    proof (cases r)
      case (Inr b)
      with ok obtain rows where "d = appended d0 es (rs @ row i # rows)" "list_all2 (manual_row H h e) rows ls" by auto
      then show ?thesis using row [of i] Inr by (auto intro!: exI [of _ "row i # rows"])
    qed simp
  qed (use Cons.prems in auto)
  then have "triple (\<lambda>d. d = appended d0 es rs)
      (do { r \<leftarrow> stmt (sql_insert_manual_line (row i));
            case r of Inl e \<Rightarrow> State_Monad.return (Inl e) | Inr _ \<Rightarrow> insert_manual_lines H h e ls })
      (ok_post (\<lambda>_ d. \<exists>rows. d = appended d0 es (rs @ rows) \<and> list_all2 (manual_row H h e) rows (l # ls)))" for i
    by (rule triple_bind_ok [OF ins])
  then show ?case
    unfolding insert_manual_lines.simps row_def
    by (intro triple_bind [OF triple_uuid_New [of _ "\<lambda>_ d. d = appended d0 es rs"]]) simp_all
qed

lemma manual_entry_effect:
  assumes "numeric_exact d0" "list_all (\<lambda>l. whole_cents (jq_debit l) \<and> whole_cents (jq_credit l)) (jr_lines req)"
  shows "triple (\<lambda>d. d = d0) (manual_entry H h req) (ok_post (\<lambda>e d. \<exists>es rows. d = appended d0 es rows \<and>
     list_all2 (manual_row H h e) rows (jr_lines req)))"
proof -
  let ?en = "\<lambda>i. \<lparr>je_id = i, je_hotel = h, je_description = jr_description req, je_reference = jr_reference req,
            je_voucher_no = None, je_voucher_type = []\<rparr>"
  have ins: "triple (\<lambda>d. d = d0) (stmt (sql_insert_entry (?en i))) (ok_post (\<lambda>_ d. d = appended d0 [?en i] []))" for i
    by (rule triple_stmt_ok) (auto simp: sql_insert_entry_def appended_def split: if_splits)
  have lines: "triple (\<lambda>d. d = appended d0 [?en i] []) (do { rl \<leftarrow> insert_manual_lines H h i (jr_lines req);
      State_Monad.return (case rl of Inl e \<Rightarrow> Inl e | Inr _ \<Rightarrow> Inr i) })
      (ok_post (\<lambda>e d. \<exists>es rows. d = appended d0 es rows \<and> list_all2 (manual_row H h e) rows (jr_lines req)))" for i
    by (rule triple_bind [OF insert_manual_rows [OF assms]]) (auto simp: triple_def split: sum.split)
  have new: "triple (\<lambda>d. d = d0) uuid_New (\<lambda>_ d. d = d0)" by (rule triple_uuid_New)
  show ?thesis unfolding manual_entry_def by (rule triple_bind [OF new], rule triple_bind_ok [OF ins lines])
qed

lemma CreateJournalEntry_effect:
  assumes "run_state (CreateJournalEntry H c (Some req)) w = (Created i, w')" "numeric_exact (w_db w)"
    "list_all (\<lambda>l. whole_cents (jq_debit l) \<and> whole_cents (jq_credit l)) (jr_lines req)"
  shows "total_debit (jr_lines req) = total_credit (jr_lines req) \<and>
    (\<exists>es rows. w_db w' = appended (w_db w) es rows \<and> list_all2 (manual_row H (books_hotel H c) i) rows (jr_lines req))"
proof -
  let ?m = "manual_entry H (books_hotel H c) req"
  have g: "total_debit (jr_lines req) = total_credit (jr_lines req)"
    and "run_state (with_tx (\<lambda>e. e) (\<lambda>e. e) ?m) w = (Inr i, w')"
    using assms(1) by (auto simp: CreateJournalEntry_def run_state_bind Created_def split: if_splits sum.splits prod.splits)
  then show ?thesis
  proof (cases rule: with_tx_result [of "\<lambda>e. e" "\<lambda>e. e" ?m w])
    case (committed a w1 w2 w3)
    then show ?thesis
      using tripleD [OF manual_entry_effect [OF assms(2,3), of H "books_hotel H c"], of w1] \<open>run_state _ w = (Inr i, w')\<close> g by auto
  qed auto
qed

subsection \<open>The trial balance\<close>

definition tenant_lines :: "uuid \<Rightarrow> db \<Rightarrow> JournalRow list" where
  "tenant_lines h d = filter (\<lambda>l. jl_hotel l = h) (jlines d)"

definition own_account :: "uuid \<Rightarrow> db \<Rightarrow> uuid \<Rightarrow> bool" where
  "own_account h d a \<longleftrightarrow> a \<in> set (map ac_id (filter (\<lambda>x. ac_hotel x = h) (accounts d)))"

text \<open>The books of a tenant: account identifiers are keys, its lines are on accounts of its own, and add up to zero.\<close>

definition trial_ok :: "uuid \<Rightarrow> db \<Rightarrow> bool" where
  "trial_ok h d \<longleftrightarrow> numeric_exact d \<and> distinct (map ac_id (accounts d)) \<and>
     list_all (\<lambda>l. own_account h d (jl_account l)) (tenant_lines h d) \<and> sum_list (map row_net (tenant_lines h d)) = 0"

lemma sum_by_key:
  fixes f :: "'b \<Rightarrow> int"
  assumes "distinct ks" "\<forall>l \<in> set ls. key l \<in> set ks"
  shows "sum_list (map (\<lambda>k. sum_list (map f (filter (\<lambda>l. key l = k) ls))) ks) = sum_list (map f ls)"
  using assms(2)
proof (induction ls)
  case (Cons l ls)
  have "sum_list (map (\<lambda>k. if key l = k then f l else 0) ks) = f l"
    using assms(1) Cons.prems by (simp add: sum_list_distinct_conv_sum_set)
  moreover have "sum_list (map (\<lambda>k. sum_list (map f (filter (\<lambda>x. key x = k) (l # ls)))) ks) =
    sum_list (map (\<lambda>k. (if key l = k then f l else 0) + sum_list (map f (filter (\<lambda>x. key x = k) ls))) ks)"
    by (rule arg_cong [of _ _ sum_list], rule map_cong) auto
  ultimately show ?case using Cons by (simp add: sum_list_addf)
qed simp

lemma sum_sort_key: "sum_list (map f (sort_key g xs)) = (sum_list (map f xs) :: int)"
proof (induction xs)
  case (Cons x xs)
  have "sum_list (map f (insort_key g x ys)) = f x + sum_list (map f ys)" for ys by (induction ys) simp_all
  then show ?case using Cons by simp
qed simp

lemma balance_account_net: "balance_of h a d = cents (account_net (ac_id a) (tenant_lines h d))"
proof -
  have "sum_list (map (\<lambda>l. to_cents (jl_debit l)) ls) - sum_list (map (\<lambda>l. to_cents (jl_credit l)) ls) = sum_list (map row_net ls)" for ls
    by (induction ls) (simp_all add: row_net_def)
  then show ?thesis by (simp add: balance_of_def account_net_def tenant_lines_def conj_commute)
qed

lemma trial_rows_zero:
  assumes "trial_ok h d" "\<forall>a. cent_range (account_net a (tenant_lines h d))"
  shows "sum_list (map (\<lambda>r. to_cents (tr_balance r)) (trial_rows h d)) = 0"
proof -
  let ?as = "filter (\<lambda>a. ac_hotel a = h) (accounts d)"
  have d: "distinct (map ac_id ?as)" using assms(1) by (simp add: trial_ok_def distinct_map_filter)
  have "sum_list (map (\<lambda>r. to_cents (tr_balance r)) (trial_rows h d)) = sum_list (map (\<lambda>a. account_net (ac_id a) (tenant_lines h d)) ?as)"
    using assms(2) by (simp add: trial_rows_def o_def balance_account_net sum_sort_key)
  also have "\<dots> = sum_list (map (\<lambda>k. sum_list (map row_net (filter (\<lambda>l. jl_account l = k) (tenant_lines h d)))) (map ac_id ?as))"
    by (simp add: account_net_def o_def)
  also have "\<dots> = sum_list (map row_net (tenant_lines h d))"
    by (rule sum_by_key [OF d]) (use assms(1) in \<open>simp add: trial_ok_def list_all_iff own_account_def\<close>)
  finally show ?thesis using assms(1) by (simp add: trial_ok_def)
qed

lemma manual_rows_net:
  assumes "list_all2 (manual_row H h e) rows ls"
  shows "sum_list (map row_net rows) = debit_cents ls - credit_cents ls" "filter (\<lambda>l. jl_hotel l = h) rows = rows"
    "list_all (\<lambda>l. own_account h d (parsed_uuid H (jq_account l))) ls \<Longrightarrow> list_all (\<lambda>r. own_account h d (jl_account r)) rows"
  using assms
  by (induction rule: list_all2_induct) (auto simp: manual_row_def row_net_def debit_cents_def credit_cents_def)

text \<open>C39: A manual journal entry that is accepted is balanced to the cent, although the handler compares sums of
  floating-point numbers: for up to a thousand lines of at most ten million each, in whole cents, on accounts of the
  tenant, one row is appended for every line of the request, debits and credits are equal, and the trial balance
  of the tenant, when it added up to zero before, still does.\<close>

theorem manual_journals_balanced:
  assumes "run_state (CreateJournalEntry H c (Some req)) w = (Created i, w')"
    and "modest (jr_lines req)"
    and "trial_ok (books_hotel H c) (w_db w)"
    and "list_all (\<lambda>l. own_account (books_hotel H c) (w_db w) (parsed_uuid H (jq_account l))) (jr_lines req)"
  shows "debit_cents (jr_lines req) = credit_cents (jr_lines req) \<and>
    (\<exists>rows. jlines (w_db w') = jlines (w_db w) @ rows \<and> list_all2 (manual_row H (books_hotel H c) i) rows (jr_lines req)) \<and>
    trial_ok (books_hotel H c) (w_db w') \<and>
    (\<forall>tb w''. run_state (TrialBalance H c) w' = (OK tb, w'') \<and> (\<forall>a. cent_range (account_net a (tenant_lines (books_hotel H c) (w_db w')))) \<longrightarrow>
       sum_list (map (\<lambda>r. to_cents (tr_balance r)) tb) = 0)"
proof -
  let ?h = "books_hotel H c"
  have whole: "list_all (\<lambda>l. whole_cents (jq_debit l) \<and> whole_cents (jq_credit l)) (jr_lines req)"
    using assms(2) small_whole by (auto simp: modest_def list_all_iff)
  have "numeric_exact (w_db w)" using assms(3) by (simp add: trial_ok_def)
  from CreateJournalEntry_effect [OF assms(1) this whole] obtain es rows where
    g: "total_debit (jr_lines req) = total_credit (jr_lines req)" and d: "w_db w' = appended (w_db w) es rows"
    and rows: "list_all2 (manual_row H ?h i) rows (jr_lines req)" by blast
  have eq: "debit_cents (jr_lines req) = credit_cents (jr_lines req)" by (rule totals_exact [OF assms(2) g])
  have t: "tenant_lines ?h (w_db w') = tenant_lines ?h (w_db w) @ rows"
    unfolding d tenant_lines_def appended_def using manual_rows_net(2) [OF rows] by simp
  have own: "own_account ?h (w_db w') = own_account ?h (w_db w)" unfolding d by (rule ext) (simp add: own_account_def appended_def)
  have "numeric_exact (w_db w') = numeric_exact (w_db w)" "accounts (w_db w') = accounts (w_db w)"
    unfolding d by (simp_all add: appended_def numeric_exact_def)
  then have ok: "trial_ok ?h (w_db w')"
    using assms(3) manual_rows_net(1) [OF rows] manual_rows_net(3) [OF rows assms(4)] eq by (simp add: trial_ok_def t own)
  have tb: "tb = trial_rows ?h (w_db w')" if "run_state (TrialBalance H c) w' = (OK tb, w'')" for tb w''
    using that by (auto simp: TrialBalance_def run_state_bind query_def stmt_def OK_def next_fault_db split: if_splits sum.splits prod.splits)
  show ?thesis using eq rows d ok trial_rows_zero [OF ok] tb by (auto simp: appended_def)
qed

text \<open>Two accounts of hotel 7, its accountant, and an entry between them.\<close>

definition trial_handler :: AccountingHandler where
  "trial_handler = \<lparr>ah_lib = \<lparr>lib_jwt = \<lambda>s t. if t = ''tok'' then Some [(''hotel_id'', JStr ''7'')] else None,
     lib_uuid = \<lambda>s. if list_all is_digit s \<and> s \<noteq> [] then Some (digits_val s) else None\<rparr>, ah_secret = ''secret''\<rparr>"

definition trial_ctx :: ctx where
  "trial_ctx = \<lparr>c_authorization = ''Bearer tok'', c_cookie = [], c_branch_header = [], c_path = ''/api/accounting'', c_locals = []\<rparr>"

definition trial_db :: db where
  "trial_db = empty_db\<lparr>accounts := [\<lparr>ac_id = 1, ac_hotel = 7, ac_code = ''1000'', ac_name = ''Cash'', ac_type = ''asset'', ac_sub_type = [], ac_order = 1\<rparr>,
     \<lparr>ac_id = 2, ac_hotel = 7, ac_code = ''3000'', ac_name = ''Retained Earnings'', ac_type = ''equity'', ac_sub_type = [], ac_order = 7\<rparr>]\<rparr>"

definition jq :: "string \<Rightarrow> rat \<Rightarrow> rat \<Rightarrow> journalLineReq" where
  "jq a x y = \<lparr>jq_account = a, jq_debit = x, jq_credit = y, jq_memo = []\<rparr>"

definition trial_req :: "journalLineReq list \<Rightarrow> journalEntryReq" where
  "trial_req ls = \<lparr>jr_date = [], jr_description = ''opening'', jr_reference = [], jr_lines = ls\<rparr>"

lemma trial_handler_simps: "parsed_uuid trial_handler ''1'' = 1" "parsed_uuid trial_handler ''2'' = 2" "books_hotel trial_handler trial_ctx = 7"
  by code_simp+

theorem manual_journals_balanced_witness:
  "\<exists>w'. run_state (CreateJournalEntry trial_handler trial_ctx (Some (trial_req [jq ''1'' (cents 25050) 0, jq ''2'' 0 (cents 25050)]))) (start trial_db 0) = (Created 1000, w') \<and>
     (\<exists>rows. jlines (w_db w') = rows \<and> length rows = 2) \<and> trial_ok 7 (w_db w')"
proof -
  let ?ls = "[jq ''1'' (cents 25050) 0, jq ''2'' 0 (cents 25050)]"
  let ?r = "run_state (CreateJournalEntry trial_handler trial_ctx (Some (trial_req ?ls))) (start trial_db 0)"
  have "fst ?r = Created 1000" by code_simp
  then have r: "?r = (Created 1000, snd ?r)" by (metis prod.collapse)
  have small: "line_cents (cents k)" if "\<bar>k\<bar> \<le> 10 ^ 9" for k using that by (auto simp: line_cents_def)
  then have "modest (jr_lines (trial_req ?ls))" using small [of 25050] small [of 0] by (simp add: modest_def jq_def trial_req_def)
  moreover have "trial_ok (books_hotel trial_handler trial_ctx) (w_db (start trial_db 0))"
    by (simp add: trial_ok_def trial_db_def empty_db_def numeric_exact_def tenant_lines_def)
  moreover have "list_all (\<lambda>l. own_account (books_hotel trial_handler trial_ctx) (w_db (start trial_db 0)) (parsed_uuid trial_handler (jq_account l))) (jr_lines (trial_req ?ls))"
    unfolding trial_handler_simps trial_req_def jq_def by (simp add: trial_handler_simps own_account_def trial_db_def)
  ultimately have "(\<exists>rows. jlines (w_db (snd ?r)) = jlines (w_db (start trial_db 0)) @ rows \<and>
      list_all2 (manual_row trial_handler (books_hotel trial_handler trial_ctx) 1000) rows (jr_lines (trial_req ?ls))) \<and>
      trial_ok (books_hotel trial_handler trial_ctx) (w_db (snd ?r))"
    using manual_journals_balanced [OF r] by blast
  then show ?thesis using r unfolding trial_handler_simps
    by (auto simp: trial_req_def trial_db_def empty_db_def dest!: list_all2_lengthD intro!: exI [of _ "snd ?r"])
qed

text \<open>The comparison of floating-point sums refuses an entry that is balanced (ten and twenty cents against thirty),
  and accepts amounts finer than a cent that are out of balance once the column has rounded them.\<close>

theorem float_comparison:
  "let tenths = [jq ''1'' (cents 10) 0, jq ''1'' (cents 20) 0, jq ''2'' 0 (cents 30)];
       halves = [jq ''1'' (1 / 256) 0, jq ''1'' (1 / 256) 0, jq ''2'' 0 (1 / 128)]
   in debit_cents tenths = credit_cents tenths \<and> total_debit tenths \<noteq> total_credit tenths \<and>
      total_debit halves = total_credit halves \<and> debit_cents halves \<noteq> credit_cents halves"
  by code_simp
end
