(* ===== verification/Reversals.thy ===== *)
theory Reversals
  imports BookKeeping
begin

text \<open>
  Posting and cancelling a sales invoice: what \<^verbatim>\<open>postJournal\<close> appends to the ledger, and that
  \<^verbatim>\<open>CancelSalesInvoice\<close> takes it back.
\<close>

subsection \<open>What a posting appends\<close>

text \<open>The rows of an entry: one for every line that is not zero, with its amounts.\<close>

definition amounts :: "journalLine list \<Rightarrow> (rat \<times> rat) list" where
  "amounts ls = filter (\<lambda>a. a \<noteq> (0, 0)) (map (\<lambda>l. (l_debit l, l_credit l)) ls)"

definition rows_of :: "uuid \<Rightarrow> journalLine list \<Rightarrow> JournalRow list \<Rightarrow> bool" where
  "rows_of e ls rows \<longleftrightarrow> list_all (\<lambda>r. jl_entry r = e \<and> whole_cents (jl_debit r) \<and> whole_cents (jl_credit r)) rows \<and>
     map (\<lambda>r. (jl_debit r, jl_credit r)) rows = amounts ls"

definition books_are :: "JournalEntry list \<Rightarrow> JournalRow list \<Rightarrow> db \<Rightarrow> bool" where
  "books_are E J d \<longleftrightarrow> numeric_exact d \<and> entries d = E \<and> jlines d = J"

lemma books_are_upd [simp]: "books_are E J (d\<lparr>accounts := as\<rparr>) = books_are E J d" "books_are E J (d\<lparr>counters := cs\<rparr>) = books_are E J d"
  by (simp_all add: books_are_def numeric_exact_def)

lemma post_lines_rows:
  assumes "\<forall>l \<in> set ls. map_of accts (l_code l) \<noteq> None \<and> whole_cents (l_debit l) \<and> whole_cents (l_credit l)"
  shows "triple (books_are E J) (post_lines h e accts ls) (ok_post (\<lambda>_ d. \<exists>rows. books_are E (J @ rows) d \<and> rows_of e ls rows))"
  using assms
proof (induction ls arbitrary: J)
  case Nil
  show ?case by (auto intro!: triple_return exI [of _ "[]"] simp: rows_of_def amounts_def)
next
  case (Cons l ls)
  have IH: "triple (books_are E J') (post_lines h e accts ls) (ok_post (\<lambda>_ d. \<exists>rows. books_are E (J' @ rows) d \<and> rows_of e ls rows))" for J'
    using Cons by simp
  show ?case
  proof (cases "l_debit l = 0 \<and> l_credit l = 0")
    case True
    then have "rows_of e (l # ls) = rows_of e ls" by (simp add: rows_of_def amounts_def fun_eq_iff)
    then show ?thesis using IH True by simp
  next
    case False
    obtain a where a: "map_of accts (l_code l) = Some a" using Cons.prems by auto
    define row where "row = (\<lambda>i. \<lparr>jl_id = i, jl_entry = e, jl_hotel = h, jl_account = a,
         jl_debit = l_debit l, jl_credit = l_credit l, jl_memo = l_memo l\<rparr>)"
    have row: "rows_of e ls rows \<Longrightarrow> rows_of e (l # ls) (row i # rows)" for i rows
      using Cons.prems False by (auto simp: rows_of_def row_def amounts_def)
    have ins: "triple (books_are E J) (stmt (sql_insert_jline (row i))) (ok_post (\<lambda>_. books_are E (J @ [row i])))" for i
    proof (rule triple_stmt_ok)
      fix d u d' assume b: "books_are E J d" "sql_insert_jline (row i) d = Inr (u, d')"
      then have "d' = d\<lparr>jlines := jlines d @ [row i]\<rparr>"
        using Cons.prems by (intro sql_insert_jline_exact [OF b(2)]) (simp_all add: books_are_def row_def)
      then show "books_are E (J @ [row i]) d'" using b(1) by (simp add: books_are_def)
    qed
    have "triple (books_are E (J @ [row i])) (post_lines h e accts ls) (ok_post (\<lambda>_ d. \<exists>rows. books_are E (J @ rows) d \<and> rows_of e (l # ls) rows))" for i
    proof (rule triple_conseq [OF IH])
      fix r d assume "ok_post (\<lambda>_ d. \<exists>rows. books_are E ((J @ [row i]) @ rows) d \<and> rows_of e ls rows) r d"
      then show "ok_post (\<lambda>_ d. \<exists>rows. books_are E (J @ rows) d \<and> rows_of e (l # ls) rows) r d"
      proof (cases r)
        case (Inr b)
        with \<open>ok_post _ r d\<close> obtain rows where "books_are E (J @ row i # rows) d" "rows_of e ls rows" by auto
        then show ?thesis using row [of rows i] Inr by (auto intro!: exI [of _ "row i # rows"])
      qed simp
    qed simp
    from triple_bind_ok [OF ins this] show ?thesis
      unfolding post_lines.simps using False a
      by (auto simp: row_def intro!: triple_bind [OF triple_uuid_New [of _ "\<lambda>_. books_are E J"]])
  qed
qed

text \<open>An entry more, with a new identifier, and its rows.\<close>

definition posted_as :: "JournalEntry list \<Rightarrow> JournalRow list \<Rightarrow> uuid \<Rightarrow> string \<Rightarrow> journalLine list \<Rightarrow> uuid \<Rightarrow> db \<Rightarrow> bool" where
  "posted_as E J h ref ls e d \<longleftrightarrow> (\<exists>en rows. books_are (E @ [en]) (J @ rows) d \<and>
     rows_of e ls rows \<and> je_id en = e \<and> je_hotel en = h \<and> je_reference en = ref \<and> e \<notin> je_id ` set E)"

lemma postJournal_rows:
  assumes "postable ls"
  shows "triple (books_are E J) (postJournal h ds ref ls) (ok_post (posted_as E J h ref ls))"
  unfolding postJournal_def
proof (rule triple_bind_ok)
  let ?en = "\<lambda>rv i. \<lparr>je_id = i, je_hotel = h, je_description = ds, je_reference = ref, je_voucher_no = voucher_or_blank rv, je_voucher_type = voucherTypeFor ref\<rparr>"
  show "triple (books_are E J) (ensureChartOfAccounts h) (ok_post (\<lambda>accts d. books_are E J d \<and> (\<forall>c \<in> chart_codes. map_of accts c \<noteq> None)))"
    by (rule ensureChart_known) simp
  fix accts :: "(string \<times> uuid) list"
  have voucher: "triple (books_are E J) (nextVoucherNo h (voucherTypeFor ref)) (\<lambda>_. books_are E J)"
    by (rule triple_keeps [OF nextVoucherNo_keeps]) simp
  have new: "triple (books_are E J) uuid_New (\<lambda>_. books_are E J)" by (rule triple_uuid_New)
  have ins: "triple (books_are E J) (stmt (sql_insert_entry (?en rv i))) (ok_post (\<lambda>_ d. books_are (E @ [?en rv i]) J d \<and> i \<notin> je_id ` set E))" for rv i
    by (rule triple_stmt_ok) (auto simp: sql_insert_entry_def books_are_def numeric_exact_def list_ex_iff split: if_splits)
  have answer: "posted_as E J h ref ls i d" if "i \<notin> je_id ` set E" "\<exists>rows. books_are (E @ [?en rv i]) (J @ rows) d \<and> rows_of i ls rows" for rv i d
    using that unfolding posted_as_def by (intro exI [of _ "?en rv i"]) auto
  have lines: "triple (\<lambda>d. books_are (E @ [?en rv i]) J d \<and> i \<notin> je_id ` set E) (do { rl \<leftarrow> post_lines h i accts ls;
      State_Monad.return (case rl of Inl e \<Rightarrow> Inl e | Inr _ \<Rightarrow> Inr i) }) (ok_post (posted_as E J h ref ls))"
      if "\<forall>c \<in> chart_codes. map_of accts c \<noteq> None" for rv i
    by (rule triple_pure, rule triple_bind [OF post_lines_rows])
       (use assms that in \<open>auto simp: postable_def triple_def ok_post_def intro: answer split: sum.split\<close>)
  show "triple (\<lambda>d. books_are E J d \<and> (\<forall>c \<in> chart_codes. map_of accts c \<noteq> None)) (do {
         rv \<leftarrow> nextVoucherNo h (voucherTypeFor ref);
         entry \<leftarrow> uuid_New;
         re \<leftarrow> stmt (sql_insert_entry (?en rv entry));
         case re of Inl e \<Rightarrow> State_Monad.return (Inl e)
         | Inr _ \<Rightarrow> do {
             rl \<leftarrow> post_lines h entry accts ls;
             State_Monad.return (case rl of Inl e \<Rightarrow> Inl e | Inr _ \<Rightarrow> Inr entry) } })
     (ok_post (posted_as E J h ref ls))"
    by (rule triple_pure, rule triple_bind [OF voucher], rule triple_bind [OF new], rule triple_bind_ok [OF ins lines])
qed

text \<open>Every line belongs to an entry, and no entry carries the reference yet.\<close>

definition lines_have_entries :: "db \<Rightarrow> bool" where
  "lines_have_entries d \<longleftrightarrow> list_all (\<lambda>l. jl_entry l \<in> je_id ` set (entries d)) (jlines d)"

definition reference_new :: "uuid \<Rightarrow> string \<Rightarrow> db \<Rightarrow> bool" where
  "reference_new h ref d \<longleftrightarrow> list_all (\<lambda>e. je_hotel e = h \<longrightarrow> je_reference e \<noteq> ref) (entries d)"

lemma lines_of_new_entry:
  assumes "lines_have_entries d" "reference_new h ref d" "books_are (entries d @ [en]) (jlines d @ rows) d'" "rows_of (je_id en) ls rows"
    "je_hotel en = h" "je_reference en = ref" "je_id en \<notin> je_id ` set (entries d)"
  shows "lines_of_reference h ref d' = rows"
proof -
  let ?p = "\<lambda>l. list_ex (\<lambda>e. je_id e = jl_entry l \<and> je_hotel e = h \<and> je_reference e = ref) (entries d @ [en])"
  have "filter ?p (jlines d) = []"
    using assms(1,2,7) by (auto simp: filter_empty_conv lines_have_entries_def reference_new_def list_all_iff list_ex_iff)
  moreover have "filter ?p rows = rows" using assms(4-6) by (auto simp: filter_id_conv rows_of_def list_all_iff)
  ultimately show ?thesis using assms(3) by (simp add: lines_of_reference_def books_are_def)
qed

text \<open>A posting followed by the reversal of its reference leaves every account as it was.\<close>

lemma post_then_reverse:
  assumes "run_state (postJournal h ds ref ls) w = (Inr e, w1)" "run_state (reverseJournalsByReference h ref ds') w2 = (Inr e', w3)"
    "w_db w2 = w_db w1" "postable ls" "numeric_exact (w_db w)" "lines_have_entries (w_db w)" "reference_new h ref (w_db w)"
  shows "\<exists>rows rev. jlines (w_db w1) = jlines (w_db w) @ rows \<and> rows_of e ls rows \<and>
    lines_of_reference h ref (w_db w1) = rows \<and> jlines (w_db w3) = jlines (w_db w) @ rows @ rev \<and>
    list_all2 (reverses e') rev rows \<and> (\<forall>a. account_net a (jlines (w_db w3)) = account_net a (jlines (w_db w)))"
proof -
  let ?d = "w_db w"
  have "books_are (entries ?d) (jlines ?d) ?d" using assms(5) by (simp add: books_are_def)
  from tripleD [OF postJournal_rows [OF assms(4)] this, of h ref ds] obtain en rows where
    p: "books_are (entries ?d @ [en]) (jlines ?d @ rows) (w_db w1)" "rows_of (je_id en) ls rows" "je_hotel en = h" "je_reference en = ref"
      "je_id en \<notin> je_id ` set (entries ?d)" and e: "je_id en = e" using assms(1) by (auto simp: posted_as_def)
  have src: "lines_of_reference h ref (w_db w2) = rows" using lines_of_new_entry [OF assms(6,7) p] assms(3) by simp
  have n: "numeric_exact (w_db w2)" using p(1) assms(3) by (simp add: books_are_def)
  have "\<forall>l \<in> set (lines_of_reference h ref (w_db w2)). whole_cents (jl_debit l) \<and> whole_cents (jl_credit l)"
    unfolding src using p(2) by (simp add: rows_of_def list_all_iff)
  from tripleD [OF reverse_triple [OF this n], of w2 ds'] obtain rev where
    r: "jlines (w_db w3) = jlines (w_db w2) @ rev" "list_all2 (reverses e') rev rows" using assms(2) by (auto simp: src)
  have j: "jlines (w_db w1) = jlines ?d @ rows" using p(1) by (simp add: books_are_def)
  have "account_net a (jlines (w_db w3)) = account_net a (jlines ?d)" for a
    using reverses_net [OF r(2), of a] by (simp add: r(1) assms(3) j account_net_def)
  then show ?thesis using r j assms(3) p(2) e src by auto
qed

subsection \<open>Without faults a posting succeeds\<close>

text \<open>A world without faults whose identifiers to come are new to the ledger.\<close>

definition ledger_ids :: "db \<Rightarrow> uuid set" where
  "ledger_ids d = ac_id ` set (accounts d) \<union> je_id ` set (entries d) \<union> jl_id ` set (jlines d)"

definition ready :: "world \<Rightarrow> bool" where
  "ready w \<longleftrightarrow> calm w \<and> inj (w_ids w) \<and> (\<forall>n \<ge> w_next w. w_ids w n \<notin> ledger_ids (w_db w) \<and> w_ids w n \<noteq> uuid_Nil)"

definition issued :: "world \<Rightarrow> uuid \<Rightarrow> bool" where
  "issued w i \<longleftrightarrow> i \<notin> ledger_ids (w_db w) \<and> i \<noteq> uuid_Nil \<and> (\<forall>n \<ge> w_next w. w_ids w n \<noteq> i)"

definition completes :: "world \<Rightarrow> (goerr + 'a) go \<Rightarrow> bool" where
  "completes w m \<longleftrightarrow> (\<exists>x w'. run_state m w = (Inr x, w') \<and> ready w')"

lemma completes_return: "ready w \<Longrightarrow> completes w (State_Monad.return (Inr x))"
  by (simp add: completes_def)

lemma completes_bind:
  assumes "completes w m" "\<And>x w'. run_state m w = (Inr x, w') \<Longrightarrow> ready w' \<Longrightarrow> completes w' (f x)"
  shows "completes w (do { r \<leftarrow> m; case r of Inl e \<Rightarrow> State_Monad.return (Inl e) | Inr x \<Rightarrow> f x })"
  using assms unfolding completes_def by (fastforce simp: run_state_bind)

lemma completes_map:
  assumes "completes w m"
  shows "completes w (do { r \<leftarrow> m; State_Monad.return (case r of Inl e \<Rightarrow> Inl e | Inr x \<Rightarrow> Inr (g x)) })"
  using assms unfolding completes_def by (auto simp: run_state_bind)

lemma completes_New:
  assumes "ready w" "\<And>i w'. ready w' \<Longrightarrow> w_db w' = w_db w \<Longrightarrow> issued w' i \<Longrightarrow> completes w' (f i)"
  shows "completes w (State_Monad.bind uuid_New f)"
proof -
  let ?i = "w_ids w (w_next w)" and ?w = "w\<lparr>w_next := Suc (w_next w)\<rparr>"
  have "ready ?w" using assms(1) by (simp add: ready_def)
  moreover have "issued ?w ?i" using assms(1) by (auto simp: ready_def issued_def dest: injD)
  ultimately have "completes ?w (f ?i)" using assms(2) by simp
  then show ?thesis by (simp add: completes_def uuid_New_def run_state_bind)
qed

lemma completes_stmt:
  assumes "ready w" "f (w_db w) = Inr (a, d)" "ledger_ids d \<subseteq> ledger_ids (w_db w) \<union> I" "\<forall>i \<in> I. issued w i"
  shows "completes w (stmt f)"
proof -
  have "run_state (stmt f) w = (Inr a, w\<lparr>w_db := d\<rparr>)" using assms(1,2) by (simp add: run_stmt ready_def)
  moreover have "ready (w\<lparr>w_db := d\<rparr>)" using assms(1,3,4) unfolding ready_def issued_def by fastforce
  ultimately show ?thesis by (simp add: completes_def)
qed

lemma completes_jline:
  assumes "ready w" "issued w (jl_id r)"
  shows "completes w (stmt (sql_insert_jline r))"
proof -
  have "\<not> list_ex (\<lambda>x. jl_id x = jl_id r) (jlines (w_db w))" using assms(2) by (auto simp: issued_def ledger_ids_def list_ex_iff image_iff)
  then show ?thesis using assms(2) by (intro completes_stmt [OF assms(1), where I = "{jl_id r}"]) (auto simp: sql_insert_jline_def ledger_ids_def)
qed

lemma completes_account:
  assumes "ready w" "issued w i"
  shows "completes w (stmt (sql_ensure_account i h a))"
proof (cases "list_ex (\<lambda>x. ac_hotel x = h \<and> ac_code x = da_code a) (accounts (w_db w))")
  case True
  then show ?thesis by (intro completes_stmt [OF assms(1), where I = "{}"]) (auto simp: sql_ensure_account_def)
next
  case False
  moreover have "\<not> list_ex (\<lambda>x. ac_id x = i) (accounts (w_db w))" using assms(2) by (auto simp: issued_def ledger_ids_def list_ex_iff)
  ultimately show ?thesis using assms(2)
    by (intro completes_stmt [OF assms(1), where I = "{i}"]) (auto simp: sql_ensure_account_def ledger_ids_def)
qed

lemma completes_loops:
  "ready w \<Longrightarrow> completes w (ensure_accounts h as)"
  "ready w \<Longrightarrow> completes w (post_lines h e accts ls)"
  "ready w \<Longrightarrow> completes w (post_reversed h e rs)"
proof -
  show "ready w \<Longrightarrow> completes w (ensure_accounts h as)"
    by (induction as arbitrary: w) (auto intro!: completes_return completes_New completes_bind completes_account)
  show "ready w \<Longrightarrow> completes w (post_lines h e accts ls)"
    by (induction ls arbitrary: w) (auto intro!: completes_return completes_New completes_bind completes_jline split: option.split)
  show "ready w \<Longrightarrow> completes w (post_reversed h e rs)"
    by (induction rs arbitrary: w) (auto intro!: completes_return completes_New completes_bind completes_jline)
qed

lemma voucher_drawn:
  assumes "ready w" "vouchers_ok (w_db w)" "length t = 3"
  shows "\<exists>s w'. run_state (nextVoucherNo h t) w = (Inr s, w') \<and> ready w' \<and> vouchers_ok (w_db w') \<and> fresh_voucher h t s (w_db w') \<and>
    entries (w_db w') = entries (w_db w) \<and> jlines (w_db w') = jlines (w_db w)"
proof -
  obtain n d where n: "sql_next_voucher h t (w_db w) = Inr (n, d)"
    by (cases "find (counter_row h t) (counters (w_db w))") (auto simp: sql_next_voucher_def)
  have run: "run_state (nextVoucherNo h t) w = (Inr (voucher_string t n), w\<lparr>w_db := d\<rparr>)"
    using assms(1) n by (simp add: nextVoucherNo_def run_state_bind run_stmt ready_def)
  have d: "entries d = entries (w_db w)" "jlines d = jlines (w_db w)" "accounts d = accounts (w_db w)"
    using n by (auto simp: sql_next_voucher_def split: option.splits)
  then have "ledger_ids d = ledger_ids (w_db w)" by (simp add: ledger_ids_def)
  then have "ready (w\<lparr>w_db := d\<rparr>)" using assms(1) by (simp add: ready_def)
  then show ?thesis using run next_voucher_fresh [OF assms(2,3) n] d by simp
qed

lemma completes_entry:
  assumes "ready w" "issued w i" "fresh_voucher h t s (w_db w)"
  shows "completes w (stmt (sql_insert_entry \<lparr>je_id = i, je_hotel = h, je_description = ds, je_reference = ref,
       je_voucher_no = voucher_or_blank (Inr s), je_voucher_type = t\<rparr>))" (is "completes w (stmt (sql_insert_entry ?en))")
proof -
  have "\<not> list_ex (\<lambda>x. je_id x = i) (entries (w_db w))" using assms(2) by (auto simp: issued_def ledger_ids_def list_ex_iff image_iff)
  then have "sql_insert_entry ?en (w_db w) = Inr ((), (w_db w)\<lparr>entries := entries (w_db w) @ [?en]\<rparr>)"
    using assms(3) by (auto simp: sql_insert_entry_def list_ex_iff fresh_voucher_def voucher_or_blank_def strPtr_def split: if_splits)
  then show ?thesis using assms(2) by (intro completes_stmt [OF assms(1), where I = "{i}"]) (auto simp: ledger_ids_def)
qed

text \<open>The common end of a posting and of a reversal: number, entry, rows. The entry is not the nil identifier.\<close>

definition numbered :: "uuid \<Rightarrow> string \<Rightarrow> (uuid \<Rightarrow> goerr + string \<Rightarrow> JournalEntry) \<Rightarrow> (uuid \<Rightarrow> (goerr + unit) go) \<Rightarrow> (goerr + uuid) go" where
  "numbered h t en body = do {
     rv \<leftarrow> nextVoucherNo h t;
     entry \<leftarrow> uuid_New;
     re \<leftarrow> stmt (sql_insert_entry (en entry rv));
     case re of Inl e \<Rightarrow> State_Monad.return (Inl e)
     | Inr _ \<Rightarrow> do { rl \<leftarrow> body entry; State_Monad.return (case rl of Inl e \<Rightarrow> Inl e | Inr _ \<Rightarrow> Inr entry) }
   }"

lemma numbered_completes:
  assumes "ready w" "vouchers_ok (w_db w)" "length t = 3" "\<And>i w'. ready w' \<Longrightarrow> completes w' (body i)"
    "\<And>i rv. \<exists>ds ref. en i rv = \<lparr>je_id = i, je_hotel = h, je_description = ds, je_reference = ref, je_voucher_no = voucher_or_blank rv, je_voucher_type = t\<rparr>"
  shows "\<exists>e w'. run_state (numbered h t en body) w = (Inr e, w') \<and> ready w' \<and> e \<noteq> uuid_Nil"
proof -
  from voucher_drawn [OF assms(1-3)] obtain s w1 where
    v: "run_state (nextVoucherNo h t) w = (Inr s, w1)" "ready w1" "fresh_voucher h t s (w_db w1)" by blast
  let ?i = "w_ids w1 (w_next w1)" and ?w = "w1\<lparr>w_next := Suc (w_next w1)\<rparr>"
  have w: "ready ?w" "issued ?w ?i" "fresh_voucher h t s (w_db ?w)" "?i \<noteq> uuid_Nil"
    using v by (auto simp: ready_def issued_def dest: injD)
  obtain ds ref where en: "en ?i (Inr s) = \<lparr>je_id = ?i, je_hotel = h, je_description = ds, je_reference = ref,
    je_voucher_no = voucher_or_blank (Inr s), je_voucher_type = t\<rparr>" using assms(5) by metis
  obtain w2 where w2: "run_state (stmt (sql_insert_entry (en ?i (Inr s)))) ?w = (Inr (), w2)" "ready w2"
    using completes_entry [OF w(1-3)] unfolding en completes_def by auto
  obtain w3 where "run_state (body ?i) w2 = (Inr (), w3)" "ready w3" using assms(4) [OF w2(2)] unfolding completes_def by auto
  then show ?thesis using v(1) w2(1) w(4) by (simp add: numbered_def run_state_bind uuid_New_def)
qed

lemma post_numbered: "postJournal h ds ref ls = do { ra \<leftarrow> ensureChartOfAccounts h;
    case ra of Inl e \<Rightarrow> State_Monad.return (Inl e)
    | Inr accts \<Rightarrow> numbered h (voucherTypeFor ref) (\<lambda>i rv. \<lparr>je_id = i, je_hotel = h, je_description = ds, je_reference = ref,
        je_voucher_no = voucher_or_blank rv, je_voucher_type = voucherTypeFor ref\<rparr>) (\<lambda>i. post_lines h i accts ls) }"
  unfolding postJournal_def numbered_def by (rule refl)

lemma reverse_numbered: "reverseJournalsByReference h ref ds = do { rs \<leftarrow> query (lines_of_reference h ref);
    case rs of Inl e \<Rightarrow> State_Monad.return (Inl e)
    | Inr src \<Rightarrow> if src = [] then State_Monad.return (Inr uuid_Nil)
        else numbered h (voucherTypeFor ref) (\<lambda>i rv. \<lparr>je_id = i, je_hotel = h, je_description = ds, je_reference = ref @ '' REV'',
        je_voucher_no = voucher_or_blank rv, je_voucher_type = voucherTypeFor ref\<rparr>) (\<lambda>i. post_reversed h i src) }"
  unfolding reverseJournalsByReference_def numbered_def by (rule refl)

lemma postJournal_succeeds:
  assumes "ready w" "vouchers_ok (w_db w)"
  shows "\<exists>e w'. run_state (postJournal h ds ref ls) w = (Inr e, w') \<and> ready w' \<and> vouchers_ok (w_db w') \<and> e \<noteq> uuid_Nil"
proof -
  have "completes w (ensureChartOfAccounts h)"
    unfolding ensureChartOfAccounts_def
    by (rule completes_bind [OF completes_loops(1) [OF assms(1)]]) (simp add: completes_def ready_def)
  then obtain accts w1 where a: "run_state (ensureChartOfAccounts h) w = (Inr accts, w1)" "ready w1" unfolding completes_def by blast
  have "keeps vouchers_ok (ensureChartOfAccounts h)" unfolding ensureChartOfAccounts_def by (intro keeps_intros keeps_vouchers_lines)
  then have "vouchers_ok (w_db w1)" using tripleD [of vouchers_ok _ "\<lambda>_. vouchers_ok" w] assms(2) a(1) by (force simp: keeps_triple)
  from numbered_completes [OF a(2) this length_voucherTypeFor [of ref], of "\<lambda>i. post_lines h i accts ls"
      "\<lambda>i rv. \<lparr>je_id = i, je_hotel = h, je_description = ds, je_reference = ref, je_voucher_no = voucher_or_blank rv, je_voucher_type = voucherTypeFor ref\<rparr>" h]
  obtain e w2 where r: "run_state (postJournal h ds ref ls) w = (Inr e, w2)" "ready w2" "e \<noteq> uuid_Nil"
    using completes_loops(2) a(1) by (auto simp: post_numbered run_state_bind)
  have "vouchers_ok (w_db w2)"
    using tripleD [OF postJournal_vouchers [unfolded keeps_triple], of w h ds ref ls] assms(2) r(1) by simp
  then show ?thesis using r by blast
qed

lemma reverse_succeeds:
  assumes "ready w" "vouchers_ok (w_db w)"
  shows "\<exists>e w'. run_state (reverseJournalsByReference h ref ds) w = (Inr e, w') \<and> (lines_of_reference h ref (w_db w) \<noteq> [] \<longrightarrow> e \<noteq> uuid_Nil)"
proof -
  have q: "run_state (query (lines_of_reference h ref)) w = (Inr (lines_of_reference h ref (w_db w)), w)" using assms(1) by (simp add: ready_def)
  show ?thesis
    using numbered_completes [OF assms length_voucherTypeFor [of ref], of "\<lambda>i. post_reversed h i (lines_of_reference h ref (w_db w))"
      "\<lambda>i rv. \<lparr>je_id = i, je_hotel = h, je_description = ds, je_reference = ref @ '' REV'', je_voucher_no = voucher_or_blank rv, je_voucher_type = voucherTypeFor ref\<rparr>" h]
      completes_loops(3) q by (auto simp: reverse_numbered run_state_bind)
qed

subsection \<open>The handlers\<close>

lemma run_row_calm: "calm (of_world s) \<Longrightarrow> f j s = Some (a, s1) \<Longrightarrow> run_state (of_or n msg (of_row (Some j) f) k) s = run_state (k a) s1"
  by (simp add: of_or_def of_row_def of_stmt_def next_fault_def run_state_bind)

lemma run_of_stmt_calm: "calm (of_world s) \<Longrightarrow> f s = Inr (a, s1) \<Longrightarrow> run_state (of_or n msg (of_stmt f) k) s = run_state (k a) s1"
  by (simp add: of_or_def of_stmt_def next_fault_def run_state_bind)

lemma run_posting:
  assumes "run_state m (of_world s) = (Inr e, w)"
  shows "run_state (do { r \<leftarrow> at_world m; State_Monad.return (OK (journal_of r)) }) s = (OK (nullableUUID e), s\<lparr>of_world := w\<rparr>)"
  using assms by (simp add: at_world_def journal_of_def run_state_bind)

lemma PostSalesInvoice_run:
  assumes "lib_uuid (ah_lib H) idp = Some i" "find (is_draft (books_hotel H c) i) (of_invoices s) = Some v" "calm (of_world s)"
    "run_state (postARInvoice (books_hotel H c) (iv_tax v) (iv_total v) (''INV '' @ d_number v) (''Sales invoice '' @ d_number v)) (of_world s) = (Inr e, w)"
  shows "run_state (PostSalesInvoice H c idp) s =
    (OK (nullableUUID e), s\<lparr>of_invoices := upd_where (is_draft (books_hotel H c) i) (mark ''posted'') (of_invoices s), of_world := w\<rparr>)"
proof -
  let ?h = "books_hotel H c" and ?s = "s\<lparr>of_invoices := upd_where (is_draft (books_hotel H c) i) (mark ''posted'') (of_invoices s)\<rparr>"
  have "post_invoice_row ?h i s = Some (v, ?s)" using assms(2) by (simp add: post_invoice_row_def)
  note row = run_row_calm [of s "post_invoice_row ?h" i v ?s, OF assms(3) this]
  have "run_state (do { r \<leftarrow> at_world (postARInvoice ?h (iv_tax v) (iv_total v) (''INV '' @ d_number v) (''Sales invoice '' @ d_number v));
      State_Monad.return (OK (journal_of r)) }) ?s = (OK (nullableUUID e), ?s\<lparr>of_world := w\<rparr>)" using assms(4) by (intro run_posting) simp
  then show ?thesis unfolding PostSalesInvoice_def Let_def assms(1) row by simp
qed

lemma CancelSalesInvoice_run:
  assumes "lib_uuid (ah_lib H) idp = Some i" "find_doc (books_hotel H c) i (of_invoices s) = Some v" "d_status v = ''posted''" "calm (of_world s)"
    "run_state (reverseJournalsByReference (books_hotel H c) (''INV '' @ d_number v) (''Cancellation - invoice '' @ d_number v)) (of_world s) = (Inr e, w)"
  shows "run_state (CancelSalesInvoice H c idp) s =
    (OK (nullableUUID e), s\<lparr>of_invoices := upd_where (\<lambda>x. d_id x = i \<and> d_hotel x = books_hotel H c) (mark ''cancelled'') (of_invoices s), of_world := w\<rparr>)"
proof -
  let ?h = "books_hotel H c" and ?s = "s\<lparr>of_invoices := upd_where (\<lambda>x. d_id x = i \<and> d_hotel x = books_hotel H c) (mark ''cancelled'') (of_invoices s)\<rparr>"
  have v: "d_id v = i" using find_doc_D [OF assms(2)] by simp
  have "map_option (\<lambda>v. (v, s)) (find_doc ?h i (of_invoices s)) = Some (v, s)" by (simp add: assms(2))
  note row = run_row_calm [of s "\<lambda>i s. map_option (\<lambda>v. (v, s)) (find_doc ?h i (of_invoices s))", OF assms(4) this]
  let ?F = "\<lambda>s. Inr ((), s\<lparr>of_invoices := upd_where (\<lambda>x. d_id x = d_id v \<and> d_hotel x = ?h) (mark ''cancelled'') (of_invoices s)\<rparr>) :: goerr + unit \<times> office"
  let ?m = "reverseJournalsByReference ?h (''INV '' @ d_number v) (''Cancellation - invoice '' @ d_number v)"
  let ?K = "do { r \<leftarrow> at_world ?m; State_Monad.return (OK (journal_of r)) }"
  have "?F s = Inr ((), ?s)" by (simp add: v)
  note st = run_of_stmt_calm [of s ?F, OF assms(4) this]
  have "run_state (of_or 500 [] (of_stmt ?F) (\<lambda>_. if d_status v = ''posted'' then ?K else State_Monad.return (OK None))) s = run_state ?K ?s"
    unfolding st using assms(3) by simp
  also have "\<dots> = (OK (nullableUUID e), ?s\<lparr>of_world := w\<rparr>)" using assms(5) by (intro run_posting) simp
  finally show ?thesis unfolding CancelSalesInvoice_def Let_def assms(1) row using assms(3) by simp
qed

lemma in_upd_where: "x \<in> set xs \<Longrightarrow> p x \<Longrightarrow> f x \<in> set (upd_where p f xs)"
  unfolding set_upd_where by force

lemma posted_lookup:
  assumes "ids_unique xs" "v \<in> set xs" "is_draft h i v"
  shows "find (is_draft h i) xs = Some v" "find_doc h i (upd_where (is_draft h i) (mark ''posted'') xs) = Some (mark ''posted'' v)"
proof -
  have v: "d_id v = i" "d_hotel v = h" using assms(3) by (simp_all add: is_draft_def)
  obtain x where x: "find (is_draft h i) xs = Some x" using assms(2,3) by (cases "find (is_draft h i) xs") (auto simp: find_None_iff)
  then have "x \<in> set xs" "is_draft h i x" by (auto simp: find_Some_iff)
  then show "find (is_draft h i) xs = Some v" using x unique_invoice [OF assms(1) _ assms(2)] v by (auto simp: is_draft_def)
  have m: "mark ''posted'' v \<in> set (upd_where (is_draft h i) (mark ''posted'') xs)" using assms(2,3) by (rule in_upd_where)
  have u: "ids_unique (upd_where (is_draft h i) (mark ''posted'') xs)" using assms(1) by (simp add: ids_unique_mark)
  have d: "d_id (mark ''posted'' v) = i" "d_hotel (mark ''posted'' v) = h" using v by (simp_all add: mark_def)
  with m obtain y where y: "find_doc h i (upd_where (is_draft h i) (mark ''posted'') xs) = Some y"
    by (cases "find_doc h i (upd_where (is_draft h i) (mark ''posted'') xs)") (auto simp: find_doc_def find_None_iff)
  then show "find_doc h i (upd_where (is_draft h i) (mark ''posted'') xs) = Some (mark ''posted'' v)"
    using find_doc_D [OF y] unique_invoice [OF u _ m] d by simp
qed

text \<open>The stored amounts of an invoice are whole cents.\<close>

definition invoice_cents :: "invoice \<Rightarrow> bool" where
  "invoice_cents v \<longleftrightarrow> (\<exists>t T. tax_of t T \<and> iv_tax v = cents t \<and> iv_total v = cents T)"

text \<open>C40: Cancelling undoes posting. Without faults, a draft invoice can be posted and then cancelled: both requests are
  accepted, the invoice ends up cancelled, the ledger has a row for every line of the posting that is not zero and one
  reversing row for each of them, and every account has the balance it had before the posting.\<close>

theorem cancel_undoes_posting:
  assumes "lib_uuid (ah_lib H) idp = Some i" "v \<in> set (of_invoices s)" "is_draft (books_hotel H c) i v" "invoice_cents v"
    and "books_wf s" "ready (of_world s)" "vouchers_ok (w_db (of_world s))" "numeric_exact (w_db (of_world s))"
    and "lines_have_entries (w_db (of_world s))" "reference_new (books_hotel H c) (''INV '' @ d_number v) (w_db (of_world s))"
  shows "\<exists>e s1 r s2 e' rows rev. run_state (PostSalesInvoice H c idp) s = (OK (Some e), s1) \<and>
    run_state (CancelSalesInvoice H c idp) s1 = (OK r, s2) \<and> mark ''cancelled'' v \<in> set (of_invoices s2) \<and>
    rows_of e (ar_invoice_lines (iv_tax v) (iv_total v)) rows \<and> (rows \<noteq> [] \<longrightarrow> r = Some e') \<and> list_all2 (reverses e') rev rows \<and>
    jlines (w_db (of_world s1)) = jlines (w_db (of_world s)) @ rows \<and> jlines (w_db (of_world s2)) = jlines (w_db (of_world s)) @ rows @ rev \<and>
    (\<forall>a. account_net a (jlines (w_db (of_world s2))) = account_net a (jlines (w_db (of_world s))))"
proof -
  let ?h = "books_hotel H c" and ?w = "of_world s" and ?ref = "''INV '' @ d_number v"
  let ?ls = "ar_invoice_lines (iv_tax v) (iv_total v)" and ?X = "upd_where (is_draft (books_hotel H c) i) (mark ''posted'') (of_invoices s)"
  have u: "ids_unique (of_invoices s)" using assms(5) by (simp add: books_wf_def)
  note l = posted_lookup [OF u assms(2,3)]
  have m: "mark ''posted'' v \<in> set ?X" "d_id (mark ''posted'' v) = i" "d_hotel (mark ''posted'' v) = ?h"
    "d_number (mark ''posted'' v) = d_number v" "d_status (mark ''posted'' v) = ''posted''"
    using find_doc_D [OF l(2)] by (simp_all add: mark_def)
  obtain e w1 where p: "run_state (postJournal ?h (''Sales invoice '' @ d_number v) ?ref ?ls) ?w = (Inr e, w1)"
    "ready w1" "vouchers_ok (w_db w1)" "e \<noteq> uuid_Nil" using postJournal_succeeds [OF assms(6,7)] by blast
  obtain e' w2 where r: "run_state (reverseJournalsByReference ?h ?ref (''Cancellation - invoice '' @ d_number v)) w1 = (Inr e', w2)"
    "lines_of_reference ?h ?ref (w_db w1) \<noteq> [] \<longrightarrow> e' \<noteq> uuid_Nil" using reverse_succeeds [OF p(2,3)] by blast
  define s1 where "s1 = s\<lparr>of_invoices := ?X, of_world := w1\<rparr>"
  define s2 where "s2 = s1\<lparr>of_invoices := upd_where (\<lambda>x. d_id x = i \<and> d_hotel x = ?h) (mark ''cancelled'') ?X, of_world := w2\<rparr>"
  have post: "run_state (PostSalesInvoice H c idp) s = (OK (Some e), s1)"
    using PostSalesInvoice_run [OF assms(1) l(1)] assms(6) p(1,4) by (simp add: s1_def nullableUUID_def postARInvoice_def ready_def)
  have cancel: "run_state (CancelSalesInvoice H c idp) s1 = (OK (nullableUUID e'), s2)"
    using CancelSalesInvoice_run [of H idp i c s1 "mark ''posted'' v" e' w2] assms(1) l(2) p(2) r(1) m(4,5) by (simp add: s1_def s2_def ready_def)
  have "mark ''cancelled'' (mark ''posted'' v) \<in> set (of_invoices s2)" unfolding s2_def using m(2,3) by (simp add: in_upd_where [OF m(1)])
  then have c: "mark ''cancelled'' v \<in> set (of_invoices s2)" by (simp add: mark_def)
  obtain t T where "tax_of t T" "iv_tax v = cents t" "iv_total v = cents T" using assms(4) unfolding invoice_cents_def by blast
  then have "postable ?ls" using posting_lines_ok(3) by simp
  from post_then_reverse [OF p(1) r(1) refl this assms(8-10)] obtain rows rev where
    rr: "jlines (w_db w1) = jlines (w_db ?w) @ rows" "rows_of e ?ls rows" "lines_of_reference ?h ?ref (w_db w1) = rows"
      "jlines (w_db w2) = jlines (w_db ?w) @ rows @ rev" "list_all2 (reverses e') rev rows"
      "\<forall>a. account_net a (jlines (w_db w2)) = account_net a (jlines (w_db ?w))" by blast
  have "rows \<noteq> [] \<longrightarrow> nullableUUID e' = Some e'" using r(2) rr(3) by (auto simp: nullableUUID_def)
  moreover have "of_world s1 = w1" "of_world s2 = w2" by (simp_all add: s1_def s2_def)
  ultimately show ?thesis using post cancel c rr by blast
qed

theorem cancel_undoes_posting_witness:
  "\<exists>e s1 r s2. run_state (PostSalesInvoice books_handler books_ctx ''5'') draft_office = (OK (Some e), s1) \<and>
     run_state (CancelSalesInvoice books_handler books_ctx ''5'') s1 = (OK r, s2) \<and> mark ''cancelled'' draft_invoice \<in> set (of_invoices s2) \<and>
     account_net 3 (jlines (w_db (of_world s2))) = 0"
proof -
  let ?d = "w_db (of_world draft_office)"
  have sample: "lib_uuid (ah_lib books_handler) ''5'' = Some 5" "books_hotel books_handler books_ctx = 7" by code_simp+
  have "tax_of 1800 11800" by (simp add: tax_of_def)
  then have v: "draft_invoice \<in> set (of_invoices draft_office)" "is_draft (books_hotel books_handler books_ctx) 5 draft_invoice" "invoice_cents draft_invoice"
    unfolding sample by (auto simp: draft_office_def draft_invoice_def invoice_cents_def is_draft_def)
  have w: "ready (of_world draft_office)" "vouchers_ok ?d" "numeric_exact ?d" "lines_have_entries ?d"
    "reference_new (books_hotel books_handler books_ctx) (''INV '' @ d_number draft_invoice) ?d"
    by (simp_all add: draft_office_def empty_db_def ready_def ledger_ids_def vouchers_ok_def counters_unique_def numeric_exact_def
        lines_have_entries_def reference_new_def inj_def)
  have "jlines ?d = []" by (simp add: draft_office_def empty_db_def)
  then have "account_net 3 (jlines ?d) = 0" by (simp add: account_net_def)
  then show ?thesis using cancel_undoes_posting [OF sample(1) v books_wf_samples(1) w] by metis
qed
end
