(* ===== verification/Spec2Isabelle.thy ===== *)
theory Spec2Isabelle
  imports Arrivals Tenants Tills Matrix Quota Journals Trial Reversals
begin

text \<open>
  Verification of the Go API of a multi-tenant hotel management platform (\<^verbatim>\<open>cmd/server\<close>, \<^verbatim>\<open>internal/\<close>).

  \<^bold>\<open>The program.\<close> A Fiber server answers HTTP requests over PostgreSQL. Every request carries a token; a gate
  (\<^verbatim>\<open>authctx.go\<close>) resolves its tenant (a hotel), its branch and its roles; further gates ask whether the plan of the
  tenant includes the module of the path (\<^verbatim>\<open>plan_gate.go\<close>), whether the role may use the feature
  (\<^verbatim>\<open>feature_matrix.go\<close>) and whether the tenant has requests left this minute (\<^verbatim>\<open>rate_limit.go\<close>). Behind them are the
  handlers. The front desk books, moves, checks in, checks out and cancels stays (\<^verbatim>\<open>reservation_handler.go\<close>) through a
  repository (\<^verbatim>\<open>room_repository.go\<close>) whose tables have an exclusion constraint against overlapping stays; a booking is
  priced (\<^verbatim>\<open>priceStay\<close>, \<^verbatim>\<open>promo.go\<close>) and settled into invoice, payment and ledger in the same transaction
  (\<^verbatim>\<open>reservation_settlement.go\<close>, \<^verbatim>\<open>accounting_autopost.go\<close>). The restaurant opens sessions on tables, sends tickets to
  the kitchen, bills, splits and takes payments (\<^verbatim>\<open>pos_dinein_handler.go\<close>, \<^verbatim>\<open>pos_split.go\<close>), also by charging a room
  (\<^verbatim>\<open>pos_room_charge.go\<close>). The accounting module raises and posts documents to the same ledger
  (\<^verbatim>\<open>accounting_handler.go\<close>).

  \<^bold>\<open>How it is modelled.\<close> A handler is a function in the state monad over a \<open>world\<close> (\<open>Store\<close>): the database, a record of
  tables, each the list of its rows; the state of the transaction; the clock; the supply of new identifiers; and a
  list of faults, which decides for every statement, begin and commit whether the infrastructure fails it. A statement
  is a function from the database to a result or an error, with the unique, foreign-key, check and exclusion
  constraints of the schema as branches; inside a transaction an error aborts it, as PostgreSQL does, and
  \<open>with_tx\<close> (\<^verbatim>\<open>WithTenantTx\<close> of \<^verbatim>\<open>db.go\<close>) rolls back or commits. The answer of a handler is \<open>Resp\<close> with
  its data or \<open>Fail\<close> with status and message. Names of definitions are those of the code, except that \<open>sql_\<close> marks one
  statement and \<open>_tx\<close> the body of a transaction. An em dash of a message is written as a hyphen.

  \<^item> \<open>Prelude\<close>: Go strings, lists updated by a predicate, the theorem collections.
  \<^item> \<open>Float64\<close>: money is \<^verbatim>\<open>float64\<close>. A finite double is the rational it denotes, \<open>fadd\<close>, \<open>fsub\<close>, \<open>fmul\<close> and \<open>fdiv\<close>
    round to nearest even (\<open>fl64\<close>), \<open>round2\<close> is the program's rounding to cents. The locale \<open>binary64_rounding\<close> states
    what the proofs need of rounding and is interpreted for \<open>fl64\<close>. \<open>cents k\<close> is the double nearest to \<open>k\<close> cents.
  \<^item> \<open>GoTime\<close>: dates, their parsing, and \<open>CalendarNights\<close>. \<open>Domain\<close>: the rows (\<^verbatim>\<open>domain/models.go\<close>). \<open>Store\<close>: the world,
    statements, transactions, and a Hoare logic over them (\<open>triple\<close>, \<open>keeps\<close>, \<open>keeps_ok\<close>).
  \<^item> \<open>Auth\<close>: \<^verbatim>\<open>authz.go\<close>, \<^verbatim>\<open>authctx.go\<close>. \<open>Pricing\<close>: pricing, stay dates, promotions. \<open>RoomRepo\<close>: the repository.
  \<^item> \<open>Ledger\<close>: postings, reversals, voucher numbers (\<^verbatim>\<open>accounting_autopost.go\<close>) and customers (\<^verbatim>\<open>pos_customer.go\<close>);
    the locale \<open>ledger_invariant\<close> gives every posting an invariant its statements keep. \<open>Settlement\<close>:
    settlement and room charges; its locale \<open>settlement_invariant\<close> extends that of the ledger.
  \<^item> \<open>Reservations\<close>: the handlers; the locales \<open>desk_writes\<close> and \<open>frontdesk_invariant\<close> reduce an invariant of the front desk
    to what each statement keeps. \<open>FrontDesk\<close>: the routes as steps (\<open>serve\<close>, \<open>desk_history\<close>), with four interpretations of
    that locale; \<open>Lifecycle\<close>: the abstract state machine of a stay and its refinement; \<open>Books\<close>: the ledger behind
    the desk; \<open>Arrivals\<close>: arrival, departure and moves.
  \<^item> \<open>Dinein\<close>: the dine-in handlers; \<open>Commits\<close>: what their transactions commit; \<open>Split\<close>: split bills; \<open>Restaurant\<close>,
    \<open>Service\<close>: the routes as steps (\<open>serve_pos\<close>), the abstract floor and its refinement; \<open>Tills\<close>: the money on
    bills; \<open>Tenants\<close>: isolation.
  \<^item> \<open>Gates\<close>: plans, modules, feature matrix, rate limiter, over a state of their own (registry, caches, Redis); \<open>Plans\<close>,
    \<open>Caches\<close> (locale \<open>ttl_cache\<close>, interpreted for both caches), \<open>Matrix\<close>, \<open>Quota\<close>: what they guarantee.
  \<^item> \<open>Accounting\<close>: documents, journal entries and trial balance, over an \<open>office\<close>, a world with the tables of the
    module; \<open>BookKeeping\<close>: documents over all histories; \<open>Journals\<close>: purchase orders; \<open>Trial\<close>: manual entries and
    trial balance; \<open>Reversals\<close>: posting and cancelling an invoice.

  \<^bold>\<open>What is shown.\<close> \<^emph>\<open>Over every history of requests to the modelled handlers, with any faults:\<close> no room is booked twice, no promotion exceeds
  its limit, no booking has two folios (C1); tenants are isolated, at the desk (C2) and in the restaurant (C6);
  the desk implements the machine of a stay (C3), the restaurant that of the floor (C4); bills add up (C5);
  the ledger stays balanced (C8); a closed session is paid (C11); tickets move along their transitions (C12) and at
  most five times (C23); posted documents do not change (C36) and reach the ledger once (C37).
  \<^emph>\<open>Of single requests:\<close> an error changes nothing (C7, C38); roles are checked first (C13); a departure settles, releases
  and closes (C9); prices, moves, promotions and dates (C10, C17, C21, C22, C24); availability agrees with the
  constraint (C18, C19); guests are found again (C20); postings balance, reversals net to zero, voucher numbers are
  unique (C14 to C16), cancelling undoes posting (C40), manual entries balance (C39); splits sum to the bill and read
  back (C25, C26); folio balance, room charges, card digits (C27 to C29). \<^emph>\<open>Of the gates:\<close> one tenant per request
  (C30), changes take effect within the life of the caches (C31), the matrix reads back and is enforced (C32), the
  quota is exact (C33), the navigation shows what the gate allows (C34), the longest prefix rules (C35).

  \<^bold>\<open>Bounds.\<close> Exactness of money is shown for amounts of whole cents up to \<open>10 ^ 14\<close> cents (\<open>cent_range\<close>), where a double
  is nearer to its cent than to the next; for room prices up to \<open>10 ^ 8\<close> cents, splits of up to \<open>10 ^ 12\<close> cents over at most
  100 guests, and manual entries of at most 1000 lines of up to \<open>10 ^ 9\<close> cents, since errors add up there.
  \<open>CalendarNights\<close> saturates at 106752, where Go's \<^verbatim>\<open>time.Duration\<close> does. The overflow of the integer and
  \<^verbatim>\<open>NUMERIC(12,2)\<close> columns of the restaurant is an error branch of its statements. The caches live 30 seconds; the quotas
  are 300, 1200 and 6000 requests per minute. All definitions are total functions; none needs fuel.

  \<^bold>\<open>Parameters.\<close> \<open>lib_jwt\<close> and \<open>lib_uuid\<close> stand for the token and identifier libraries; \<open>db_num\<close> for what a
  \<^verbatim>\<open>NUMERIC\<close> column makes of a double (\<open>numeric_exact\<close>: whole cents are kept; \<open>numeric_close\<close>: nothing moves by more
  than a cent); \<open>w_ids\<close> and \<open>w_str\<close> for new identifiers and their text (injective, without a colon, where used);
  \<open>ph_set\<close> for the assignment of a column by name (\<open>sets_columns\<close>: it leaves the keys alone).

  \<^bold>\<open>Not modelled.\<close> Statements are atomic: requests interleave between statements only where a theorem says so
  (\<open>update_race\<close>), since the isolation level of PostgreSQL orders the transactions. Logging, metrics, JSON encoding and the
  wording of driver errors are left out. The generic table API builds SQL from the request and only its access checks
  are modelled; payment gateways, mail, SMS, DNS, hosting and AI services are clients of systems the repository does not
  hold; reports and dashboards are read-only queries; housekeeping, assets, procurement, revenue rules, the CRM and the
  manual folios of \<^verbatim>\<open>billing_handler.go\<close> are create-read-update-delete handlers, mostly over tables of their own. A history
  is one of the modelled handlers: an administrator who edits a promotion, a room or a folio through another module starts
  a new one. The routes of the chart of accounts, customers and vendors and the lists of the accounting module are of
  that kind too.
\<close>

end
